(* ===== verification/Prelude.thy ===== *)
theory Prelude
  imports Main "HOL-Library.Word"
begin

text \<open>
  Shared vocabulary of the development: bytes and machine words, the outcome of a fallible
  Rust function (\<open>Ok\<close>, \<open>Err\<close> or a panic), state-passing computations over such outcomes
  with their sequencing operator, the rules that carry an invariant and panic freedom
  through a computation, and the list facts several components use.
\<close>

section \<open>Bytes, words and string slices\<close>

unbundle bit_operations_syntax

type_synonym byte = "8 word"
type_synonym u8 = "8 word"
type_synonym u16 = "16 word"
type_synonym u32 = "32 word"
type_synonym u64 = "64 word"
type_synonym bytes = "8 word list"

text \<open>
  A Rust \<open>usize\<close> is a \<open>nat\<close> (no length in the crate comes near \<open>2 ^ 64\<close>), an \<open>i64\<close> an
  \<open>int\<close> whose range checks are written out. A \<open>String\<close> or \<open>&str\<close> is the list of its
  UTF-8 bytes; \<open>str\<close> turns an ASCII literal into it.
\<close>

definition str :: "string \<Rightarrow> bytes" where
  "str s = map of_char s"

lemma str_simps [simp]:
  "str [] = []"
  "str (c # s) = of_char c # str s"
  by (simp_all add: str_def)

lemma length_str [simp]: "length (str s) = length s"
  by (simp add: str_def)

text \<open>\<open>n as u32\<close> of a \<open>usize\<close> truncates to 32 bits; \<open>b.into()\<close> of a \<open>bool\<close> is 0 or 1.\<close>

definition as_u32 :: "nat \<Rightarrow> u32" where
  "as_u32 n = word_of_nat n"

definition as_u8 :: "nat \<Rightarrow> u8" where
  "as_u8 n = word_of_nat n"

definition u8_of_bool :: "bool \<Rightarrow> u8" where
  "u8_of_bool b = (if b then 1 else 0)"

lemma unat_as_u32 [simp]: "n < 2 ^ 32 \<Longrightarrow> unat (as_u32 n) = n"
  by (simp add: as_u32_def unat_of_nat take_bit_nat_eq_self)

lemma unat_as_u8 [simp]: "n < 2 ^ 8 \<Longrightarrow> unat (as_u8 n) = n"
  by (simp add: as_u8_def unat_of_nat take_bit_nat_eq_self)

lemma as_u32_unat [simp]: "as_u32 (unat w) = w"
  by (simp add: as_u32_def)

lemma u8_of_bool_nonzero [simp]:
  "u8_of_bool b \<noteq> 0 \<longleftrightarrow> b" "u8_of_bool b = 0 \<longleftrightarrow> \<not> b" "u8_of_bool b = 1 \<longleftrightarrow> b"
  by (simp_all add: u8_of_bool_def)

lemma unat_u32_less [simp]: "unat (w :: u32) < 4294967296"
  using unsigned_less [of w] by simp

section \<open>Errors\<close>

text \<open>
  The error enums of \<open>src/error.rs\<close>, \<open>src/ssh/mod.rs\<close>, \<open>src/session/mod.rs\<close> and
  \<open>src/session/handshake.rs\<close>, and those of
  the file transfer clients and of \<open>src/key.rs\<close> (\<open>UnknownKeyType\<close> is \<open>UnsupportedKeyType\<close> there). Fields that only carry a foreign error value (an OpenSSL
  stack, a UTF-8 error) are dropped; the other fields are kept.
\<close>

datatype transport_error =
    PayloadTooLong nat nat
  | PacketTooLong nat nat
  | PayloadIsEmpty
  | UnexpectBlockSize nat
  | MacVerificationFailed
  | UnexpectedPaddingLength
  | ExpectString

datatype io_error = UnexpectedEof | IoOther string

datatype session_error =
    UnexpectedBehaviour string
  | UnexpectedService bytes bytes
  | ChannelOpenFailure u32 bytes
  | ChannelFailure
  | ChannelAlreadyOpen
  | UnexpectedMessage string
  | Disconnected u32 bytes
  | UnsupportedKeyType bytes
  | RequestFailure
  | InvalidPort
  | UnexpectedChannelClosed
  | UnexpectedChannelEof
  | UnexpectedWindowSize
  | ChannelWindowOverflow

datatype handshake_error =
    BannerTooLong
  | UnsupportedVersion bytes
  | InvalidBanner
  | InvalidString
  | NegotiationFailed
  | SignatureVerificationFailed
  | ServerHostKeyRejectedByUser
  | UnexpectedMessageInStrictMode u8
  | UnexpectedDisconnectMessage u32 bytes
  | UnexpectedServerBanner bytes

datatype sftp_error =
    SftpUnexpectedEof bytes
  | NoSuchFile bytes
  | PermissionDenied bytes
  | Failure bytes
  | BadMessage bytes
  | NoConnection bytes
  | ConnectionLost bytes
  | OpUnsupported bytes
  | SftpUnexpectedMessage u8
  | UnknownFileType u32
  | UnexpectedStatus u32
  | MismatchResponse u32 u32
  | UnexpectedResponse

datatype scp_error =
    ScpFailure bytes
  | ScpCritical bytes
  | ScpUnexpectedResponse bytes
  | UnexpectedErrorMessage
  | InvalidTargetName

datatype key_error =
    WrongPassphrase
  | UnknownKeyType bytes
  | DecryptionError
  | FormatError string
  | UnsupportedFeature string
  | UnsupportedAlgorithm bytes
  | TextError

datatype error =
    InvalidFormat string
  | TransportError transport_error
  | IOError io_error
  | OpenSSLError
  | InvalidOperation string
  | CipherError string
  | HandshakeError handshake_error
  | SessionError session_error
  | SftpError sftp_error
  | ScpError scp_error
  | KeyError key_error
  | InvalidArgument string

section \<open>Outcomes and state-passing computations\<close>

text \<open>
  A Rust function of type \<open>Result<T>\<close> returns a value, returns an error, or panics (a failed
  \<open>assert!\<close>, an index out of range, an overflow check). A panic is kept apart from an error:
  no caller handles it.
\<close>

datatype 'a res = Ok 'a | Err error | Panic

type_synonym ('s, 'a) sr = "'s \<Rightarrow> 'a res \<times> 's"

text \<open>
  \<open>sbind\<close> is the \<open>?\<close> operator over a mutable receiver: on an error or a panic the rest is
  skipped, and the changes made to the receiver so far stay.
\<close>

definition sbind :: "('s, 'a) sr \<Rightarrow> ('a \<Rightarrow> ('s, 'b) sr) \<Rightarrow> ('s, 'b) sr" where
  "sbind m f s =
     (case m s of
        (Ok a, s') \<Rightarrow> f a s'
      | (Err e, s') \<Rightarrow> (Err e, s')
      | (Panic, s') \<Rightarrow> (Panic, s'))"

definition sreturn :: "'a \<Rightarrow> ('s, 'a) sr" where
  "sreturn a s = (Ok a, s)"

definition sfail :: "error \<Rightarrow> ('s, 'a) sr" where
  "sfail e s = (Err e, s)"

definition spanic :: "('s, 'a) sr" where
  "spanic s = (Panic, s)"

definition sget :: "('s \<Rightarrow> 'a) \<Rightarrow> ('s, 'a) sr" where
  "sget f s = (Ok (f s), s)"

definition smodify :: "('s \<Rightarrow> 's) \<Rightarrow> ('s, unit) sr" where
  "smodify f s = (Ok (), f s)"

definition slift :: "'a res \<Rightarrow> ('s, 'a) sr" where
  "slift r s = (r, s)"

text \<open>A computation on a field of the receiver.\<close>

definition zoom :: "('s \<Rightarrow> 't) \<Rightarrow> ('t \<Rightarrow> 's \<Rightarrow> 's) \<Rightarrow> ('t, 'a) sr \<Rightarrow> ('s, 'a) sr" where
  "zoom get put m s = (case m (get s) of (r, t) \<Rightarrow> (r, put t s))"

fun res_map :: "('a \<Rightarrow> 'b) \<Rightarrow> 'a res \<Rightarrow> 'b res" where
  "res_map f (Ok a) = Ok (f a)"
| "res_map f (Err e) = Err e"
| "res_map f Panic = Panic"

lemma res_map_Ok_iff: "res_map f r = Ok x \<longleftrightarrow> (\<exists>y. r = Ok y \<and> x = f y)"
  by (cases r) auto

lemma fst_Ok_iff: "fst p = Ok a \<longleftrightarrow> (\<exists>s. p = (Ok a, s))"
  by (cases p) auto

named_theorems sr_defs \<open>unfolding a computation into its cases\<close>

lemmas [sr_defs] = sreturn_def sfail_def spanic_def sget_def smodify_def slift_def

lemma sbind_simps [simp]:
  "m s = (Ok a, s') \<Longrightarrow> sbind m f s = f a s'"
  "m s = (Err e, s') \<Longrightarrow> sbind m f s = (Err e, s')"
  "m s = (Panic, s') \<Longrightarrow> sbind m f s = (Panic, s')"
  by (simp_all add: sbind_def)

lemma sbind_run [simp]:
  "sbind (sreturn a) f s = f a s"
  "sbind (sfail e) f s = (Err e, s)"
  "sbind spanic f s = (Panic, s)"
  "sbind (sget g) f s = f (g s) s"
  "sbind (smodify h) k s = k () (h s)"
  by (simp_all add: sr_defs)

lemma zoom_run [simp]: "m (get s) = (r, t) \<Longrightarrow> zoom get put m s = (r, put t s)"
  by (simp add: zoom_def)

lemma sbind_assoc: "sbind (sbind m f) g = sbind m (\<lambda>a. sbind (f a) g)"
  by (rule ext) (simp add: sbind_def split: prod.split res.split)

lemma sbind_sreturn: "sbind (sreturn a) f = f a"
  by (rule ext) simp

lemma sbind_Ok_iff:
  "sbind m f s = (Ok b, t) \<longleftrightarrow> (\<exists>a s'. m s = (Ok a, s') \<and> f a s' = (Ok b, t))"
  by (auto simp: sbind_def split: prod.splits res.splits)

lemma zoom_Ok_iff: "zoom get put m s = (Ok a, s') \<longleftrightarrow> (\<exists>t. m (get s) = (Ok a, t) \<and> s' = put t s)"
  by (auto simp: zoom_def split: prod.splits)

text \<open>\<open>for x in xs { f(x)? }\<close>\<close>

primrec for_each :: "('x \<Rightarrow> ('s, unit) sr) \<Rightarrow> 'x list \<Rightarrow> ('s, unit) sr" where
  "for_each f [] = sreturn ()"
| "for_each f (x # xs) = sbind (f x) (\<lambda>_. for_each f xs)"

lemma for_each_append:
  "for_each f (xs @ ys) = sbind (for_each f xs) (\<lambda>_. for_each f ys)"
  by (induction xs) (simp_all add: sbind_assoc sbind_sreturn)

section \<open>Invariants and panic freedom of computations\<close>

text \<open>
  \<open>safe P m\<close>: started where \<open>P\<close> holds, \<open>m\<close> keeps \<open>P\<close> on every path, errors included, and
  never panics. The rules follow the structure of a computation.
\<close>

definition safe :: "('s \<Rightarrow> bool) \<Rightarrow> ('s, 'a) sr \<Rightarrow> bool" where
  "safe P m \<longleftrightarrow> (\<forall>s. P s \<longrightarrow> P (snd (m s)) \<and> fst (m s) \<noteq> Panic)"

named_theorems safe_rules \<open>structural rules of safe\<close>

lemma safeI: "(\<And>s. P s \<Longrightarrow> P (snd (m s)) \<and> fst (m s) \<noteq> Panic) \<Longrightarrow> safe P m"
  by (simp add: safe_def)

lemma safe_state: "safe P m \<Longrightarrow> P s \<Longrightarrow> P (snd (m s))"
  by (simp add: safe_def)

lemma safe_no_panic: "safe P m \<Longrightarrow> P s \<Longrightarrow> fst (m s) \<noteq> Panic"
  by (simp add: safe_def)

lemma safe_bind [safe_rules]:
  assumes "safe P m" and "\<And>a. safe P (f a)"
  shows "safe P (sbind m f)"
proof (rule safeI)
  fix s assume P: "P s"
  obtain r t where ms: "m s = (r, t)" by (cases "m s")
  from safe_state [OF assms(1) P] safe_no_panic [OF assms(1) P] ms
  have "P t" "r \<noteq> Panic" by simp_all
  then show "P (snd (sbind m f s)) \<and> fst (sbind m f s) \<noteq> Panic"
    using ms assms(2) by (cases r) (auto simp: safe_def)
qed

lemma safe_sreturn [safe_rules]: "safe P (sreturn a)"
  by (simp add: safe_def sr_defs)

lemma safe_sfail [safe_rules]: "safe P (sfail e)"
  by (simp add: safe_def sr_defs)

lemma safe_sget [safe_rules]: "safe P (sget f)"
  by (simp add: safe_def sr_defs)

lemma safe_smodify [safe_rules]: "(\<And>s. P s \<Longrightarrow> P (f s)) \<Longrightarrow> safe P (smodify f)"
  by (simp add: safe_def sr_defs)

lemma safe_slift [safe_rules]: "r \<noteq> Panic \<Longrightarrow> safe P (slift r)"
  by (simp add: safe_def sr_defs)

lemma safe_if [safe_rules]:
  "(b \<Longrightarrow> safe P m) \<Longrightarrow> (\<not> b \<Longrightarrow> safe P n) \<Longrightarrow> safe P (if b then m else n)"
  by simp

lemma safe_option [safe_rules]:
  "(x = None \<Longrightarrow> safe P m) \<Longrightarrow> (\<And>a. x = Some a \<Longrightarrow> safe P (f a)) \<Longrightarrow>
   safe P (case x of None \<Rightarrow> m | Some a \<Rightarrow> f a)"
  by (cases x) simp_all

lemma safe_for_each [safe_rules]: "(\<And>x. x \<in> set xs \<Longrightarrow> safe P (f x)) \<Longrightarrow> safe P (for_each f xs)"
  by (induction xs) (auto intro!: safe_rules)

lemma safe_prod [safe_rules]: "(\<And>a b. safe P (f a b)) \<Longrightarrow> safe P (case x of (a, b) \<Rightarrow> f a b)"
  by (cases x) simp

lemma safe_Let [safe_rules]: "(\<And>a. safe P (f a)) \<Longrightarrow> safe P (let a = x in f a)"
  by simp

lemma safe_res [safe_rules]:
  "(\<And>a. safe P (g a)) \<Longrightarrow> (\<And>e. safe P (h e)) \<Longrightarrow> safe P m \<Longrightarrow>
   safe P (case x of Ok a \<Rightarrow> g a | Err e \<Rightarrow> h e | Panic \<Rightarrow> m)"
  by (cases x) simp_all

lemma safe_bool [safe_rules]:
  "safe P m \<Longrightarrow> safe P n \<Longrightarrow> safe P (case b of True \<Rightarrow> m | False \<Rightarrow> n)"
  by (cases b) simp_all

lemma safe_sum [safe_rules]:
  "(\<And>a. safe P (f a)) \<Longrightarrow> (\<And>b. safe P (g b)) \<Longrightarrow>
   safe P (case x of Inl a \<Rightarrow> f a | Inr b \<Rightarrow> g b)"
  by (cases x) simp_all

lemma safe_zoom [safe_rules]:
  "safe (\<lambda>_. True) m \<Longrightarrow> (\<And>s t. P s \<Longrightarrow> P (put t s)) \<Longrightarrow> safe P (zoom get put m)"
  by (simp add: safe_def zoom_def split: prod.split) (metis fst_conv)

subsection \<open>What a computation leaves alone\<close>

text \<open>\<open>keeps f m\<close>: whatever its outcome, \<open>m\<close> does not change the part \<open>f\<close> of the state.\<close>

definition keeps :: "('s \<Rightarrow> 'b) \<Rightarrow> ('s, 'a) sr \<Rightarrow> bool" where
  "keeps f m \<longleftrightarrow> (\<forall>s. f (snd (m s)) = f s)"

named_theorems keeps_rules \<open>structural rules of keeps\<close>

lemma keepsD: "keeps f m \<Longrightarrow> m s = (r, s') \<Longrightarrow> f s' = f s"
  unfolding keeps_def by (metis snd_conv)

lemma keeps_bind [keeps_rules]:
  "keeps f m \<Longrightarrow> (\<And>a. keeps f (g a)) \<Longrightarrow> keeps f (sbind m g)"
  by (auto simp: keeps_def sbind_def split: prod.splits res.splits) (metis snd_conv)+

lemma keeps_simple [keeps_rules]:
  "keeps f (sreturn a)" "keeps f (sfail e)" "keeps f spanic" "keeps f (sget g)" "keeps f (slift r)"
  by (simp_all add: keeps_def sr_defs)

lemma keeps_smodify [keeps_rules]: "(\<And>s. f (h s) = f s) \<Longrightarrow> keeps f (smodify h)"
  by (simp add: keeps_def sr_defs)

lemma keeps_zoom [keeps_rules]: "(\<And>t s. f (put t s) = f s) \<Longrightarrow> keeps f (zoom get put m)"
  by (simp add: keeps_def zoom_def split: prod.splits)

lemma keeps_if [keeps_rules]: "keeps f m \<Longrightarrow> keeps f n \<Longrightarrow> keeps f (if b then m else n)"
  by simp

lemma keeps_option [keeps_rules]:
  "keeps f m \<Longrightarrow> (\<And>a. keeps f (g a)) \<Longrightarrow> keeps f (case x of None \<Rightarrow> m | Some a \<Rightarrow> g a)"
  by (cases x) simp_all

lemma keeps_prod [keeps_rules]:
  "(\<And>a b. keeps f (g a b)) \<Longrightarrow> keeps f (case x of (a, b) \<Rightarrow> g a b)"
  by (cases x) simp_all

lemma keeps_sum [keeps_rules]:
  "(\<And>a. keeps f (g a)) \<Longrightarrow> (\<And>b. keeps f (h b)) \<Longrightarrow> keeps f (case x of Inl a \<Rightarrow> g a | Inr b \<Rightarrow> h b)"
  by (cases x) simp_all

lemma keeps_Let [keeps_rules]: "(\<And>a. keeps f (g a)) \<Longrightarrow> keeps f (let a = x in g a)"
  by simp

lemma keeps_res [keeps_rules]:
  "(\<And>a. keeps f (g a)) \<Longrightarrow> (\<And>e. keeps f (h e)) \<Longrightarrow> keeps f m \<Longrightarrow>
   keeps f (case x of Ok a \<Rightarrow> g a | Err e \<Rightarrow> h e | Panic \<Rightarrow> m)"
  by (cases x) simp_all

lemma keeps_bool [keeps_rules]:
  "keeps f m \<Longrightarrow> keeps f n \<Longrightarrow> keeps f (case b of True \<Rightarrow> m | False \<Rightarrow> n)"
  by (cases b) simp_all

lemma keeps_for_each [keeps_rules]: "(\<And>x. keeps f (g x)) \<Longrightarrow> keeps f (for_each g xs)"
  by (induction xs) (simp_all add: keeps_simple keeps_bind)

subsection \<open>Invariants of computations that may panic\<close>

text \<open>\<open>preserves P m\<close>: the invariant alone; the computation may panic.\<close>

definition preserves :: "('s \<Rightarrow> bool) \<Rightarrow> ('s, 'a) sr \<Rightarrow> bool" where
  "preserves P m \<longleftrightarrow> (\<forall>s. P s \<longrightarrow> P (snd (m s)))"

named_theorems preserves_rules \<open>structural rules of preserves\<close>

lemma preservesI: "(\<And>s. P s \<Longrightarrow> P (snd (m s))) \<Longrightarrow> preserves P m"
  by (simp add: preserves_def)

lemma preservesD: "preserves P m \<Longrightarrow> m s = (r, s') \<Longrightarrow> P s \<Longrightarrow> P s'"
  unfolding preserves_def by (metis snd_conv)

lemma preserves_bind [preserves_rules]:
  "preserves P m \<Longrightarrow> (\<And>a. preserves P (f a)) \<Longrightarrow> preserves P (sbind m f)"
  unfolding preserves_def sbind_def by (auto split: prod.splits res.splits)

lemma preserves_simple [preserves_rules]:
  "preserves P (sreturn a)" "preserves P (sfail e)" "preserves P spanic" "preserves P (sget g)"
  "preserves P (slift r)"
  by (simp_all add: preserves_def sr_defs)

lemma preserves_smodify [preserves_rules]:
  "(\<And>s. P s \<Longrightarrow> P (f s)) \<Longrightarrow> preserves P (smodify f)"
  by (simp add: preserves_def sr_defs)

lemma preserves_zoom [preserves_rules]:
  "(\<And>s t. P s \<Longrightarrow> P (put t s)) \<Longrightarrow> preserves P (zoom get put m)"
  by (simp add: preserves_def zoom_def split: prod.split)

lemma preserves_if [preserves_rules]:
  "preserves P m \<Longrightarrow> preserves P n \<Longrightarrow> preserves P (if b then m else n)"
  by simp

lemma preserves_option [preserves_rules]:
  "preserves P m \<Longrightarrow> (\<And>a. preserves P (f a)) \<Longrightarrow> preserves P (case x of None \<Rightarrow> m | Some a \<Rightarrow> f a)"
  by (cases x) simp_all

lemma preserves_sum [preserves_rules]:
  "(\<And>a. preserves P (f a)) \<Longrightarrow> (\<And>b. preserves P (g b)) \<Longrightarrow>
   preserves P (case x of Inl a \<Rightarrow> f a | Inr b \<Rightarrow> g b)"
  by (cases x) simp_all

lemma preserves_prod [preserves_rules]:
  "(\<And>a b. preserves P (f a b)) \<Longrightarrow> preserves P (case x of (a, b) \<Rightarrow> f a b)"
  by (cases x) simp

lemma preserves_Let [preserves_rules]: "(\<And>a. preserves P (f a)) \<Longrightarrow> preserves P (let a = x in f a)"
  by simp

lemma preserves_res [preserves_rules]:
  "(\<And>a. preserves P (g a)) \<Longrightarrow> (\<And>e. preserves P (h e)) \<Longrightarrow> preserves P m \<Longrightarrow>
   preserves P (case x of Ok a \<Rightarrow> g a | Err e \<Rightarrow> h e | Panic \<Rightarrow> m)"
  by (cases x) simp_all

lemma preserves_bool [preserves_rules]:
  "preserves P m \<Longrightarrow> preserves P n \<Longrightarrow> preserves P (case b of True \<Rightarrow> m | False \<Rightarrow> n)"
  by (cases b) simp_all

lemma preserves_for_each [preserves_rules]:
  "(\<And>x. preserves P (f x)) \<Longrightarrow> preserves P (for_each f xs)"
  by (induction xs) (simp_all add: preserves_simple preserves_bind)

lemma keeps_preserves: "keeps g m \<Longrightarrow> preserves (\<lambda>s. P (g s)) m"
  by (simp add: preserves_def keeps_def)

section \<open>Lists\<close>

lemma take_append_length [simp]: "length xs = n \<Longrightarrow> take n (xs @ ys) = xs"
  by simp

lemma drop_append_length [simp]: "length xs = n \<Longrightarrow> drop n (xs @ ys) = ys"
  by simp

text \<open>\<open>iter().position(p)\<close>: the index of the first element that satisfies \<open>p\<close>.\<close>

fun position :: "('a \<Rightarrow> bool) \<Rightarrow> 'a list \<Rightarrow> nat option" where
  "position p [] = None"
| "position p (x # xs) = (if p x then Some 0 else map_option Suc (position p xs))"

text \<open>\<open>Vec::remove(i)\<close>.\<close>

definition remove_at :: "nat \<Rightarrow> 'a list \<Rightarrow> 'a list" where
  "remove_at i xs = take i xs @ drop (Suc i) xs"

lemma position_None_iff [simp]: "position p xs = None \<longleftrightarrow> (\<forall>x \<in> set xs. \<not> p x)"
  by (induction xs) auto

lemma position_Some:
  "position p xs = Some i \<Longrightarrow>
   i < length xs \<and> p (xs ! i) \<and> (\<forall>j < i. \<not> p (xs ! j))"
proof (induction xs arbitrary: i)
  case (Cons x xs)
  show ?case
  proof (cases "p x")
    case True
    with Cons.prems show ?thesis by auto
  next
    case False
    with Cons.prems obtain k where k: "position p xs = Some k" "i = Suc k" by auto
    with Cons.IH [OF k(1)] False show ?thesis
      by (auto simp: nth_Cons split: nat.split)
  qed
qed simp

lemma position_length: "position p xs = Some i \<Longrightarrow> i < length xs"
  using position_Some by fast

lemma position_prop: "position p xs = Some i \<Longrightarrow> p (xs ! i)"
  using position_Some by fast

lemma remove_at_Cons [simp]:
  "remove_at 0 (x # xs) = xs" "remove_at (Suc i) (x # xs) = x # remove_at i xs"
  by (simp_all add: remove_at_def)

lemma length_remove_at [simp]: "i < length xs \<Longrightarrow> length (remove_at i xs) = length xs - 1"
  by (simp add: remove_at_def)

lemma set_remove_at: "set (remove_at i xs) \<subseteq> set xs"
  by (auto simp: remove_at_def dest: in_set_takeD in_set_dropD)

lemma map_remove_at: "map f (remove_at i xs) = remove_at i (map f xs)"
  by (simp add: remove_at_def take_map drop_map)

lemma distinct_remove_at: "distinct xs \<Longrightarrow> distinct (remove_at i xs)"
proof (induction xs arbitrary: i)
  case (Cons x xs)
  then show ?case
    using set_remove_at [of _ xs] by (cases i) auto
qed (simp add: remove_at_def)

end
