(* ===== verification/Buffer.thy ===== *)
theory Buffer
  imports Prelude
begin

text \<open>
  The wire format of \<open>src/ssh/buffer.rs\<close>: the growing \<open>Producer\<close>, the two buffer-building
  macros, and the \<open>Consumer\<close> cursor whose reads fail with \<open>InvalidFormat\<close> at the end of the
  data. The locale \<open>codec\<close> is the contract between a writer and the reader of the same
  field; it is interpreted for every primitive field and gives the round trips of the
  messages built from them; \<open>exact_codec\<close> adds that a field that was read is the field that was
  written. Last, the \<open>mpint\<close> normalisation of \<open>src/ssh/mod.rs\<close>.
\<close>

section \<open>Big-endian integers\<close>

definition u16_to_be :: "u16 \<Rightarrow> bytes" where
  "u16_to_be w = [ucast (drop_bit 8 w), ucast w]"

definition u32_to_be :: "u32 \<Rightarrow> bytes" where
  "u32_to_be w =
     [ucast (drop_bit 24 w), ucast (drop_bit 16 w), ucast (drop_bit 8 w), ucast w]"

definition u64_to_be :: "u64 \<Rightarrow> bytes" where
  "u64_to_be w =
     [ucast (drop_bit 56 w), ucast (drop_bit 48 w), ucast (drop_bit 40 w),
      ucast (drop_bit 32 w), ucast (drop_bit 24 w), ucast (drop_bit 16 w),
      ucast (drop_bit 8 w), ucast w]"

definition shift_in :: "'a::len word \<Rightarrow> u8 \<Rightarrow> 'a word" where
  "shift_in acc b = push_bit 8 acc OR ucast b"

definition from_be :: "bytes \<Rightarrow> 'a::len word" where
  "from_be bs = foldl shift_in 0 bs"

lemma length_u32_to_be [simp]: "length (u32_to_be w) = 4"
  by (simp add: u32_to_be_def)

lemma length_u64_to_be [simp]: "length (u64_to_be w) = 8"
  by (simp add: u64_to_be_def)

lemma bit_shift_in:
  "bit (shift_in acc b :: 'a::len word) n \<longleftrightarrow>
     n < LENGTH('a) \<and> (if n < 8 then bit b n else bit acc (n - 8))"
  by (auto simp: shift_in_def bit_simps dest: bit_imp_le_length)

lemma from_be_u32 [simp]: "from_be (u32_to_be w) = w"
  by (rule bit_word_eqI) (auto simp: from_be_def u32_to_be_def bit_shift_in bit_simps)

lemma from_be_u64 [simp]: "from_be (u64_to_be w) = w"
  by (rule bit_word_eqI) (auto simp: from_be_def u64_to_be_def bit_shift_in bit_simps)

lemma u32_to_be_from_be: "u32_to_be (from_be [a, b, c, d]) = [a, b, c, d]"
  by (auto simp: from_be_def u32_to_be_def bit_shift_in bit_simps intro!: bit_word_eqI
      dest: bit_imp_le_length)

section \<open>Producer and the buffer macros\<close>

text \<open>A \<open>Producer\<close> is the vector it has collected; each operation appends.\<close>

type_synonym producer = bytes

definition put_bytes :: "bytes \<Rightarrow> producer \<Rightarrow> producer" where
  "put_bytes bs p = p @ bs"

definition put_u64 :: "u64 \<Rightarrow> producer \<Rightarrow> producer" where
  "put_u64 n p = p @ u64_to_be n"

definition put_u32 :: "u32 \<Rightarrow> producer \<Rightarrow> producer" where
  "put_u32 n p = p @ u32_to_be n"

definition put_u8 :: "u8 \<Rightarrow> producer \<Rightarrow> producer" where
  "put_u8 n p = p @ [n]"

definition put_one :: "bytes \<Rightarrow> producer \<Rightarrow> producer" where
  "put_one content p = put_bytes content (put_u32 (as_u32 (length content)) p)"

definition resize :: "nat \<Rightarrow> u8 \<Rightarrow> producer \<Rightarrow> producer" where
  "resize n v p = take n p @ replicate (n - length p) v"

text \<open>
  The field kinds of \<open>make_buffer!\<close>, \<open>match_type!\<close> (the size it reserves) and \<open>put_type!\<close>
  (the bytes it writes).
\<close>

datatype field = FU8 u8 | FU32 u32 | FU64 u64 | FOne bytes | FBytes bytes | FOneListU32 "u32 list"

fun match_type :: "field \<Rightarrow> nat" where
  "match_type (FU8 _) = 1"
| "match_type (FU32 _) = 4"
| "match_type (FU64 _) = 8"
| "match_type (FOne bs) = 4 + length bs"
| "match_type (FBytes bs) = length bs"
| "match_type (FOneListU32 ns) = 4 + length ns * 4"

fun put_type :: "field \<Rightarrow> producer \<Rightarrow> producer" where
  "put_type (FU8 n) p = put_u8 n p"
| "put_type (FU32 n) p = put_u32 n p"
| "put_type (FU64 n) p = put_u64 n p"
| "put_type (FOne bs) p = put_one bs p"
| "put_type (FBytes bs) p = put_bytes bs p"
| "put_type (FOneListU32 ns) p =
     fold put_u32 ns (put_u32 (as_u32 (4 + length ns * 4)) p)"

definition make_buffer :: "field list \<Rightarrow> bytes" where
  "make_buffer fs = fold put_type fs (put_u32 (as_u32 (sum_list (map match_type fs))) [])"

definition make_buffer_without_header :: "field list \<Rightarrow> bytes" where
  "make_buffer_without_header fs = fold put_type fs []"

text \<open>What a field adds to the buffer, and the two macros as concatenations.\<close>

definition one :: "bytes \<Rightarrow> bytes" where
  "one bs = u32_to_be (as_u32 (length bs)) @ bs"

fun field_bytes :: "field \<Rightarrow> bytes" where
  "field_bytes (FU8 n) = [n]"
| "field_bytes (FU32 n) = u32_to_be n"
| "field_bytes (FU64 n) = u64_to_be n"
| "field_bytes (FOne bs) = one bs"
| "field_bytes (FBytes bs) = bs"
| "field_bytes (FOneListU32 ns) =
     u32_to_be (as_u32 (4 + length ns * 4)) @ concat (map u32_to_be ns)"

lemma length_one [simp]: "length (one bs) = 4 + length bs"
  by (simp add: one_def)

lemma fold_put_u32: "fold put_u32 ns p = p @ concat (map u32_to_be ns)"
  by (induction ns arbitrary: p) (simp_all add: put_u32_def)

lemma put_type_eq: "put_type f p = p @ field_bytes f"
  by (cases f)
    (simp_all add: put_u8_def put_u32_def put_u64_def put_one_def put_bytes_def one_def
      fold_put_u32)

lemma fold_put_type: "fold put_type fs p = p @ concat (map field_bytes fs)"
  by (induction fs arbitrary: p) (simp_all add: put_type_eq)

lemma length_concat_u32 [simp]: "length (concat (map u32_to_be ns)) = 4 * length ns"
  by (induction ns) simp_all

lemma length_field_bytes [simp]: "length (field_bytes f) = match_type f"
  by (cases f) simp_all

lemma length_fields: "length (concat (map field_bytes fs)) = sum_list (map match_type fs)"
  by (induction fs) simp_all

lemma make_buffer_without_header_eq:
  "make_buffer_without_header fs = concat (map field_bytes fs)"
  by (simp add: make_buffer_without_header_def fold_put_type)

lemma make_buffer_eq: "make_buffer fs = one (concat (map field_bytes fs))"
  by (simp add: make_buffer_def fold_put_type put_u32_def one_def length_fields)

section \<open>Consumer\<close>

record consumer =
  cdata :: bytes
  pos :: nat

definition consumer_new :: "bytes \<Rightarrow> consumer" where
  "consumer_new d = \<lparr>cdata = d, pos = 0\<rparr>"

definition consumer_len :: "consumer \<Rightarrow> nat" where
  "consumer_len c = length (cdata c) - pos c"

definition peek :: "consumer \<Rightarrow> bytes" where
  "peek c = drop (pos c) (cdata c)"

definition is_empty :: "(consumer, bool) sr" where
  "is_empty c =
     (if pos c \<le> length (cdata c) then (Ok (consumer_len c = 0), c) else (Panic, c))"

definition consume_all :: "(consumer, unit) sr" where
  "consume_all c = (Ok (), c\<lparr>pos := length (cdata c)\<rparr>)"

definition consume :: "nat \<Rightarrow> (consumer, unit) sr" where
  "consume n c =
     (let c' = c\<lparr>pos := pos c + n\<rparr>
      in if pos c' \<le> length (cdata c') then (Ok (), c') else (Panic, c'))"

definition unexpected_end :: "string \<Rightarrow> error" where
  "unexpected_end what = InvalidFormat (''Unexpected end of buffer while reading '' @ what)"

definition consume_u32 :: "(consumer, u32) sr" where
  "consume_u32 = sbind (sget peek) (\<lambda>rest.
     if length rest < 4 then sfail (unexpected_end ''u32'')
     else sbind (consume 4) (\<lambda>_. sreturn (from_be (take 4 rest))))"

definition consume_u64 :: "(consumer, u64) sr" where
  "consume_u64 = sbind (sget peek) (\<lambda>rest.
     if length rest < 8 then sfail (unexpected_end ''u64'')
     else sbind (consume 8) (\<lambda>_. sreturn (from_be (take 8 rest))))"

definition consume_one :: "(consumer, bytes) sr" where
  "consume_one = sbind consume_u32 (\<lambda>n. sbind (sget peek) (\<lambda>rest.
     if length rest < unat n then sfail (unexpected_end ''one'')
     else sbind (smodify (\<lambda>c. c\<lparr>pos := pos c + unat n\<rparr>)) (\<lambda>_.
       sreturn (take (unat n) rest))))"

definition consume_bytes :: "nat \<Rightarrow> (consumer, bytes) sr" where
  "consume_bytes n = sbind (sget peek) (\<lambda>rest.
     if length rest < n then sfail (unexpected_end ''bytes'')
     else sbind (consume n) (\<lambda>_. sreturn (take n rest)))"

definition peek_u8 :: "(consumer, u8) sr" where
  "peek_u8 = sbind (sget peek) (\<lambda>rest.
     case rest of [] \<Rightarrow> sfail (unexpected_end ''u8'') | b # _ \<Rightarrow> sreturn b)"

definition consume_u8 :: "(consumer, u8) sr" where
  "consume_u8 = sbind (sget peek) (\<lambda>rest.
     case rest of [] \<Rightarrow> sfail (unexpected_end ''u8'')
     | b # _ \<Rightarrow> sbind (consume 1) (\<lambda>_. sreturn b))"

text \<open>\<open>for _ in 0..count { out.push(item) }\<close> over a consumer.\<close>

primrec times :: "nat \<Rightarrow> ('s, 'a) sr \<Rightarrow> ('s, 'a list) sr" where
  "times 0 m = sreturn []"
| "times (Suc n) m = sbind m (\<lambda>x. sbind (times n m) (\<lambda>xs. sreturn (x # xs)))"

text \<open>
  \<open>while !consumer.is_empty() { out.push(item) }\<close>: each item takes at least one byte, so one
  round more than there are bytes is enough.
\<close>

primrec until_empty :: "nat \<Rightarrow> (consumer, 'a) sr \<Rightarrow> (consumer, 'a list) sr" where
  "until_empty 0 m = spanic"
| "until_empty (Suc n) m = sbind is_empty (\<lambda>done.
     if done then sreturn []
     else sbind m (\<lambda>x. sbind (until_empty n m) (\<lambda>xs. sreturn (x # xs))))"

subsection \<open>The cursor never leaves its data\<close>

definition consumer_ok :: "consumer \<Rightarrow> bool" where
  "consumer_ok c \<longleftrightarrow> pos c \<le> length (cdata c)"

lemma consumer_ok_new [simp]: "consumer_ok (consumer_new d)"
  by (simp add: consumer_ok_def consumer_new_def)

lemma peek_new [simp]: "peek (consumer_new d) = d"
  by (simp add: peek_def consumer_new_def)

lemma length_peek: "length (peek c) = length (cdata c) - pos c"
  by (simp add: peek_def)

lemma consume_run:
  "consumer_ok c \<Longrightarrow> n \<le> length (peek c) \<Longrightarrow> consume n c = (Ok (), c\<lparr>pos := pos c + n\<rparr>)"
  by (auto simp: consume_def consumer_ok_def length_peek Let_def)

lemma advance_ok:
  "consumer_ok c \<Longrightarrow> n \<le> length (peek c) \<Longrightarrow> consumer_ok (c\<lparr>pos := pos c + n\<rparr>)"
  by (auto simp: consumer_ok_def length_peek)

lemma peek_advance: "peek (c\<lparr>pos := pos c + n\<rparr>) = drop n (peek c)"
  by (simp add: peek_def add.commute)

lemma safe_consume_u32 [safe_rules]: "safe consumer_ok consume_u32"
  by (rule safeI) (auto simp: consume_u32_def sr_defs consume_run advance_ok)

lemma safe_consume_u64 [safe_rules]: "safe consumer_ok consume_u64"
  by (rule safeI) (auto simp: consume_u64_def sr_defs consume_run advance_ok)

lemma safe_consume_u8 [safe_rules]: "safe consumer_ok consume_u8"
  by (rule safeI)
    (auto simp: consume_u8_def sr_defs consume_run split: list.split
      dest: advance_ok [of _ 1, simplified])

lemma safe_consume_bytes [safe_rules]: "safe consumer_ok (consume_bytes n)"
  by (rule safeI) (auto simp: consume_bytes_def sr_defs consume_run advance_ok)

lemma safe_consume_one [safe_rules]: "safe consumer_ok consume_one"
  unfolding consume_one_def
proof (rule safe_bind [OF safe_consume_u32], rule safeI)
  fix n c assume "consumer_ok c"
  then show "consumer_ok (snd (sbind (sget peek) (\<lambda>rest.
      if length rest < unat n then sfail (unexpected_end ''one'')
      else sbind (smodify (\<lambda>c. c\<lparr>pos := pos c + unat n\<rparr>)) (\<lambda>_. sreturn (take (unat n) rest))) c)) \<and>
    fst (sbind (sget peek) (\<lambda>rest.
      if length rest < unat n then sfail (unexpected_end ''one'')
      else sbind (smodify (\<lambda>c. c\<lparr>pos := pos c + unat n\<rparr>)) (\<lambda>_. sreturn (take (unat n) rest))) c)
    \<noteq> Panic"
    by (auto simp: sr_defs advance_ok)
qed

lemma safe_peek_u8 [safe_rules]: "safe consumer_ok peek_u8"
  by (rule safeI) (auto simp: peek_u8_def sr_defs split: list.split)

lemma safe_is_empty [safe_rules]: "safe consumer_ok is_empty"
  by (rule safeI) (simp add: is_empty_def consumer_ok_def)

lemma safe_times [safe_rules]: "safe P m \<Longrightarrow> safe P (times n m)"
  by (induction n) (auto intro!: safe_rules)

section \<open>The contract between writer and reader\<close>

text \<open>
  \<open>decodes m x bs\<close>: on any cursor that stands before the bytes \<open>bs\<close>, whatever follows
  them, \<open>m\<close> returns \<open>x\<close> and moves the cursor past exactly these bytes.
\<close>

definition decodes :: "(consumer, 'a) sr \<Rightarrow> 'a \<Rightarrow> bytes \<Rightarrow> bool" where
  "decodes m x bs \<longleftrightarrow>
     (\<forall>c rest. consumer_ok c \<longrightarrow> peek c = bs @ rest \<longrightarrow>
        m c = (Ok x, c\<lparr>pos := pos c + length bs\<rparr>))"

named_theorems dec_rules \<open>structural rules of decodes\<close>

lemma decodesD:
  "decodes m x bs \<Longrightarrow> consumer_ok c \<Longrightarrow> peek c = bs @ rest \<Longrightarrow>
   m c = (Ok x, c\<lparr>pos := pos c + length bs\<rparr>)"
  by (simp add: decodes_def)

lemma decodes_new:
  "decodes m x bs \<Longrightarrow> m (consumer_new (bs @ rest)) = (Ok x, \<lparr>cdata = bs @ rest, pos = length bs\<rparr>)"
  using decodesD [of m x bs "consumer_new (bs @ rest)" rest]
  by (simp add: consumer_new_def peek_def consumer_ok_def)

lemma decodes_return [dec_rules]: "decodes (sreturn x) x []"
  by (simp add: decodes_def sr_defs)

lemma decodes_bind:
  assumes "decodes m x b1" and "decodes (f x) y b2"
  shows "decodes (sbind m f) y (b1 @ b2)"
  unfolding decodes_def
proof (intro allI impI)
  fix c rest assume c: "consumer_ok c" and p: "peek c = (b1 @ b2) @ rest"
  then have m: "m c = (Ok x, c\<lparr>pos := pos c + length b1\<rparr>)"
    using decodesD [OF assms(1) c, of "b2 @ rest"] by simp
  have ok: "consumer_ok (c\<lparr>pos := pos c + length b1\<rparr>)"
    using c p by (intro advance_ok) simp_all
  have pk: "peek (c\<lparr>pos := pos c + length b1\<rparr>) = b2 @ rest"
    using p by (simp add: peek_advance)
  show "sbind m f c = (Ok y, c\<lparr>pos := pos c + length (b1 @ b2)\<rparr>)"
    using decodesD [OF assms(2) ok pk] by (simp add: m add.assoc)
qed

lemma decodes_map:
  "decodes m x b \<Longrightarrow> decodes (sbind m (\<lambda>x. sreturn (g x))) (g x) b"
  using decodes_bind [of m x b "\<lambda>x. sreturn (g x)" "g x" "[]"] by (simp add: decodes_return)

lemma decodes_u8 [dec_rules]: "decodes consume_u8 b [b]"
  by (auto simp: decodes_def consume_u8_def sr_defs consume_run)

lemma decodes_u8_Cons [dec_rules]:
  "decodes (f b) y bs \<Longrightarrow> decodes (sbind consume_u8 f) y (b # bs)"
  using decodes_bind [OF decodes_u8, of f b y bs] by simp

lemma decodes_u32 [dec_rules]: "decodes consume_u32 n (u32_to_be n)"
  by (auto simp: decodes_def consume_u32_def sr_defs consume_run)

lemma decodes_u64 [dec_rules]: "decodes consume_u64 n (u64_to_be n)"
  by (auto simp: decodes_def consume_u64_def sr_defs consume_run)

lemma decodes_bytes [dec_rules]: "decodes (consume_bytes (length bs)) bs bs"
  by (auto simp: decodes_def consume_bytes_def sr_defs consume_run)

lemma decodes_u32_bind [dec_rules]:
  "decodes (f n) y bs \<Longrightarrow> decodes (sbind consume_u32 f) y (u32_to_be n @ bs)"
  "decodes (f n) y [] \<Longrightarrow> decodes (sbind consume_u32 f) y (u32_to_be n)"
  using decodes_bind [OF decodes_u32, of f n y bs] decodes_bind [OF decodes_u32, of f n y "[]"]
  by simp_all

lemma decodes_u64_bind [dec_rules]:
  "decodes (f n) y bs \<Longrightarrow> decodes (sbind consume_u64 f) y (u64_to_be n @ bs)"
  "decodes (f n) y [] \<Longrightarrow> decodes (sbind consume_u64 f) y (u64_to_be n)"
  using decodes_bind [OF decodes_u64, of f n y bs] decodes_bind [OF decodes_u64, of f n y "[]"]
  by simp_all

text \<open>The length prefix is a \<open>u32\<close>: a longer field would be written with a truncated length.\<close>

definition fits :: "bytes \<Rightarrow> bool" where
  "fits bs \<longleftrightarrow> length bs < 2 ^ 32"

lemma decodes_rest:
  "unat n = length bs \<Longrightarrow>
   decodes (sbind (sget peek) (\<lambda>rest.
     if length rest < unat n then sfail e
     else sbind (smodify (\<lambda>c. c\<lparr>pos := pos c + unat n\<rparr>)) (\<lambda>_. sreturn (take (unat n) rest)))) bs bs"
  by (auto simp: decodes_def sr_defs)

lemma decodes_one [dec_rules]: "fits bs \<Longrightarrow> decodes consume_one bs (one bs)"
  unfolding consume_one_def one_def
  by (rule decodes_bind [OF decodes_u32], rule decodes_rest) (simp add: fits_def)

lemma decodes_one_bind [dec_rules]:
  "fits x \<Longrightarrow> decodes (f x) y bs \<Longrightarrow> decodes (sbind consume_one f) y (one x @ bs)"
  "fits x \<Longrightarrow> decodes (f x) y [] \<Longrightarrow> decodes (sbind consume_one f) y (one x)"
  using decodes_bind [OF decodes_one, of x f y bs] decodes_bind [OF decodes_one, of x f y "[]"]
  by simp_all

lemma decodes_times:
  "(\<And>x. x \<in> set xs \<Longrightarrow> decodes m x (enc x)) \<Longrightarrow>
   decodes (times (length xs) m) xs (concat (map enc xs))"
  by (induction xs) (auto intro!: decodes_bind decodes_map dec_rules)

locale codec =
  fixes enc :: "'a \<Rightarrow> bytes"
    and dec :: "(consumer, 'a) sr"
    and wf :: "'a \<Rightarrow> bool"
  assumes dec_enc: "wf x \<Longrightarrow> decodes dec x (enc x)"
    and dec_safe: "safe consumer_ok dec"
begin

lemma read_back: "wf x \<Longrightarrow> fst (dec (consumer_new (enc x @ rest))) = Ok x"
  using decodes_new [OF dec_enc] by simp

lemma prefix_free:
  assumes "wf x" "wf y" "enc x @ r = enc y @ r'"
  shows "x = y \<and> r = r'"
proof -
  from assms(3) have "dec (consumer_new (enc x @ r)) = dec (consumer_new (enc y @ r'))" by simp
  then have "x = y"
    using decodes_new [OF dec_enc [OF assms(1)], of r] decodes_new [OF dec_enc [OF assms(2)], of r']
    by simp
  with assms(3) show ?thesis by simp
qed

lemma list_dec_enc:
  "(\<And>x. x \<in> set xs \<Longrightarrow> wf x) \<Longrightarrow> decodes (times (length xs) dec) xs (concat (map enc xs))"
  by (intro decodes_times dec_enc)

lemma list_prefix_free:
  "\<forall>x \<in> set xs. wf x \<Longrightarrow> \<forall>y \<in> set ys. wf y \<Longrightarrow> length xs = length ys \<Longrightarrow>
   concat (map enc xs) @ r = concat (map enc ys) @ r' \<Longrightarrow> xs = ys \<and> r = r'"
proof (induction xs arbitrary: ys)
  case (Cons x xs)
  then obtain y ys' where ys: "ys = y # ys'" by (cases ys) auto
  have wfs: "wf x" "wf y" and wft: "\<forall>x \<in> set xs. wf x" "\<forall>y \<in> set ys'. wf y"
    and len: "length xs = length ys'"
    using Cons.prems ys by simp_all
  from Cons.prems(4) ys have "enc x @ (concat (map enc xs) @ r) = enc y @ (concat (map enc ys') @ r')"
    by simp
  with prefix_free [OF wfs] have *: "x = y" "concat (map enc xs) @ r = concat (map enc ys') @ r'"
    by blast+
  show ?case using Cons.IH [OF wft len *(2)] *(1) ys by simp
qed simp

end

interpretation u8_codec: codec "\<lambda>b. [b]" consume_u8 "\<lambda>_. True"
  by unfold_locales (rule decodes_u8, rule safe_consume_u8)

interpretation u32_codec: codec u32_to_be consume_u32 "\<lambda>_. True"
  by unfold_locales (rule decodes_u32, rule safe_consume_u32)

interpretation u64_codec: codec u64_to_be consume_u64 "\<lambda>_. True"
  by unfold_locales (rule decodes_u64, rule safe_consume_u64)

interpretation one_codec: codec one consume_one fits
  by unfold_locales (erule decodes_one, rule safe_consume_one)

subsection \<open>What was read was written\<close>

locale exact_codec = codec +
  assumes dec_exact: "consumer_ok c \<Longrightarrow> dec c = (Ok x, c') \<Longrightarrow>
    peek c = enc x @ peek c' \<and> wf x \<and> consumer_ok c'"
begin

lemma reads_iff:
  "consumer_ok c \<Longrightarrow> (\<exists>c'. dec c = (Ok x, c')) \<longleftrightarrow> wf x \<and> (\<exists>rest. peek c = enc x @ rest)"
  using dec_exact decodesD [OF dec_enc] by blast

lemma times_exact:
  "consumer_ok c \<Longrightarrow> times n dec c = (Ok xs, c') \<Longrightarrow>
   peek c = concat (map enc xs) @ peek c' \<and> length xs = n \<and> (\<forall>x \<in> set xs. wf x) \<and> consumer_ok c'"
proof (induction n arbitrary: c xs)
  case (Suc n)
  from Suc.prems(2) obtain x c1 ys where 1: "dec c = (Ok x, c1)" "times n dec c1 = (Ok ys, c')" "xs = x # ys"
    by (auto simp: sbind_Ok_iff sreturn_def)
  from dec_exact [OF Suc.prems(1) 1(1)] have x: "peek c = enc x @ peek c1" "wf x" "consumer_ok c1" by auto
  from Suc.IH [OF x(3) 1(2)] x 1(3) show ?case by simp
qed (simp add: sreturn_def)

end

lemma consume_u32_exact:
  assumes "consumer_ok c" "consume_u32 c = (Ok n, c')"
  shows "peek c = u32_to_be n @ peek c' \<and> consumer_ok c' \<and> c' = c\<lparr>pos := pos c + 4\<rparr>"
proof -
  have l: "4 \<le> length (peek c)" using assms(2) by (auto simp: consume_u32_def sr_defs split: if_splits)
  with assms have c': "c' = c\<lparr>pos := pos c + 4\<rparr>" and n: "n = from_be (take 4 (peek c))"
    by (auto simp: consume_u32_def sr_defs consume_run split: if_splits)
  from l obtain a b d e rest where p: "peek c = a # b # d # e # rest"
    by (auto simp: numeral_eq_Suc Suc_le_length_iff)
  with n have "u32_to_be n = [a, b, d, e]" by (simp add: u32_to_be_from_be)
  with p c' advance_ok [OF assms(1) l] show ?thesis by (simp add: peek_advance)
qed

lemma consume_one_exact:
  assumes "consumer_ok c" "consume_one c = (Ok x, c')"
  shows "peek c = one x @ peek c' \<and> fits x \<and> consumer_ok c'"
proof -
  from assms(2) obtain n c1 where 1: "consume_u32 c = (Ok n, c1)"
    and 2: "unat n \<le> length (peek c1)" "x = take (unat n) (peek c1)" "c' = c1\<lparr>pos := pos c1 + unat n\<rparr>"
    by (auto simp: consume_one_def sbind_Ok_iff sr_defs split: if_splits)
  from consume_u32_exact [OF assms(1) 1] have c1: "peek c = u32_to_be n @ peek c1" "consumer_ok c1" by auto
  from 2 have "length x = unat n" by simp
  then have "one x = u32_to_be n @ x" "fits x" by (simp_all add: one_def fits_def)
  with c1 2 advance_ok [OF c1(2) 2(1)] show ?thesis by (simp add: peek_advance)
qed

lemma consume_u8_exact:
  assumes "consumer_ok c" "consume_u8 c = (Ok b, c')"
  shows "peek c = b # peek c' \<and> consumer_ok c'"
proof -
  from assms obtain rest where p: "peek c = b # rest" "c' = c\<lparr>pos := pos c + 1\<rparr>"
    by (auto simp: consume_u8_def sr_defs consume_run split: list.splits)
  with advance_ok [OF assms(1), of 1] peek_advance [of c 1] show ?thesis by simp
qed

interpretation one_exact: exact_codec one consume_one fits
  by unfold_locales (erule consume_one_exact, assumption)

section \<open>Multiple-precision integers\<close>

text \<open>
  \<open>MultiplePrecisionInteger::into_integer\<close>: strip leading zero bytes; all-zero input gives
  four zero bytes; a set top bit gets a zero byte in front.
\<close>

definition into_integer :: "bytes \<Rightarrow> bytes" where
  "into_integer bs =
     (case dropWhile (\<lambda>b. b = 0) bs of
        [] \<Rightarrow> [0, 0, 0, 0]
      | b # r \<Rightarrow> if b AND 0x80 \<noteq> 0 then 0 # b # r else b # r)"

definition be_nat :: "bytes \<Rightarrow> nat" where
  "be_nat bs = foldl (\<lambda>n b. n * 256 + unat b) 0 bs"

lemma be_nat_Cons_0 [simp]: "be_nat (0 # bs) = be_nat bs"
  by (simp add: be_nat_def)

lemma be_nat_dropWhile: "be_nat (dropWhile (\<lambda>b. b = 0) bs) = be_nat bs"
  by (induction bs) auto

lemma be_nat_into_integer: "be_nat (into_integer bs) = be_nat bs"
proof (cases "dropWhile (\<lambda>b. b = 0) bs")
  case Nil
  then have "be_nat bs = 0"
    using be_nat_dropWhile [of bs] by (metis be_nat_def foldl_Nil)
  with Nil show ?thesis
    by (simp add: into_integer_def be_nat_def del: dropWhile_eq_Nil_conv)
next
  case (Cons b r)
  then show ?thesis
    using be_nat_dropWhile [of bs] by (simp add: into_integer_def)
qed

lemma dropWhile_hd: "dropWhile P xs = y # ys \<Longrightarrow> \<not> P y"
  by (metis hd_dropWhile list.distinct(1) list.sel(1))

lemma into_integer_nonneg: "hd (into_integer bs) AND 0x80 = 0"
  by (auto simp: into_integer_def split: list.split)

lemma into_integer_minimal:
  assumes "be_nat bs \<noteq> 0"
  shows "hd (into_integer bs) = 0 \<Longrightarrow> into_integer bs ! 1 AND 0x80 \<noteq> 0"
proof -
  have "dropWhile (\<lambda>b. b = 0) bs \<noteq> []"
    using assms be_nat_dropWhile [of bs] by (metis be_nat_def foldl_Nil)
  then obtain b r where d: "dropWhile (\<lambda>b. b = 0) bs = b # r"
    by (cases "dropWhile (\<lambda>b. b = 0) bs") auto
  then have "b \<noteq> 0" by (rule dropWhile_hd)
  with d show "hd (into_integer bs) = 0 \<Longrightarrow> into_integer bs ! 1 AND 0x80 \<noteq> 0"
    by (simp add: into_integer_def split: if_splits)
qed

lemma into_integer_nonempty: "into_integer bs \<noteq> []"
  by (auto simp: into_integer_def split: list.split)

end
