(* ===== verification/Text.thy ===== *)
theory Text
  imports Prelude
begin

text \<open>
  The parts of Rust's \<open>str\<close> the crate relies on, over UTF-8 bytes: \<open>from_utf8\<close>'s validity
  check, \<open>split\<close> on a separator and \<open>join\<close>, \<open>starts_with\<close> and \<open>trim_end_matches\<close>.
\<close>

section \<open>UTF-8 validity\<close>

definition cont_byte :: "u8 \<Rightarrow> bool" where
  "cont_byte b \<longleftrightarrow> 0x80 \<le> b \<and> b \<le> 0xBF"

text \<open>The well-formed byte sequences of the Unicode standard, as \<open>std::str::from_utf8\<close> checks them.\<close>

fun utf8_valid :: "bytes \<Rightarrow> bool" where
  "utf8_valid [] = True"
| "utf8_valid (b # bs) =
     (if b < 0x80 then utf8_valid bs
      else if 0xC2 \<le> b \<and> b \<le> 0xDF then
        (case bs of c1 # r \<Rightarrow> cont_byte c1 \<and> utf8_valid r | _ \<Rightarrow> False)
      else if 0xE0 \<le> b \<and> b \<le> 0xEF then
        (case bs of c1 # c2 # r \<Rightarrow>
           cont_byte c1 \<and> cont_byte c2 \<and> (b = 0xE0 \<longrightarrow> 0xA0 \<le> c1) \<and> (b = 0xED \<longrightarrow> c1 \<le> 0x9F)
           \<and> utf8_valid r
         | _ \<Rightarrow> False)
      else if 0xF0 \<le> b \<and> b \<le> 0xF4 then
        (case bs of c1 # c2 # c3 # r \<Rightarrow>
           cont_byte c1 \<and> cont_byte c2 \<and> cont_byte c3 \<and> (b = 0xF0 \<longrightarrow> 0x90 \<le> c1)
           \<and> (b = 0xF4 \<longrightarrow> c1 \<le> 0x8F) \<and> utf8_valid r
         | _ \<Rightarrow> False)
      else False)"

lemma utf8_valid_ascii: "(\<And>b. b \<in> set bs \<Longrightarrow> b < 0x80) \<Longrightarrow> utf8_valid bs"
  by (induction bs) auto

section \<open>Splitting and joining\<close>

text \<open>\<open>s.split(sep)\<close> always yields at least one piece; \<open>pieces.join(sep)\<close>.\<close>

fun split_on :: "u8 \<Rightarrow> bytes \<Rightarrow> bytes list" where
  "split_on sep [] = [[]]"
| "split_on sep (b # bs) =
     (if b = sep then [] # split_on sep bs
      else (case split_on sep bs of [] \<Rightarrow> [[b]] | p # ps \<Rightarrow> (b # p) # ps))"

fun join :: "bytes \<Rightarrow> bytes list \<Rightarrow> bytes" where
  "join sep [] = []"
| "join sep [p] = p"
| "join sep (p # q # ps) = p @ sep @ join sep (q # ps)"

definition comma :: u8 where
  "comma = 44"

lemma split_on_not_Nil [simp]: "split_on sep bs \<noteq> []"
  by (induction bs) (auto split: list.split)

lemma join_split: "join [sep] (split_on sep bs) = bs"
proof (induction bs)
  case (Cons b bs)
  obtain p ps where ps: "split_on sep bs = p # ps"
    by (cases "split_on sep bs") auto
  with Cons show ?case by (cases ps) auto
qed simp

lemma split_on_no_sep: "\<forall>p \<in> set (split_on sep bs). sep \<notin> set p"
proof (induction bs)
  case (Cons b bs)
  then show ?case by (auto split: list.splits)
qed simp

lemma split_on_plain: "sep \<notin> set p \<Longrightarrow> split_on sep p = [p]"
  by (induction p) auto

lemma split_on_append:
  "sep \<notin> set p \<Longrightarrow> split_on sep (p @ sep # bs) = p # split_on sep bs"
  by (induction p) auto

lemma split_join:
  "ps \<noteq> [] \<Longrightarrow> \<forall>p \<in> set ps. sep \<notin> set p \<Longrightarrow> split_on sep (join [sep] ps) = ps"
proof (induction "[sep]" ps rule: join.induct)
  case (3 p q ps)
  then show ?case by (simp add: split_on_append)
qed (auto simp: split_on_plain)

section \<open>Prefixes and suffixes\<close>

fun starts_with :: "bytes \<Rightarrow> bytes \<Rightarrow> bool" where
  "starts_with [] s = True"
| "starts_with (p # ps) [] = False"
| "starts_with (p # ps) (b # bs) = (p = b \<and> starts_with ps bs)"

lemma starts_with_iff: "starts_with p s \<longleftrightarrow> (\<exists>r. s = p @ r)"
  by (induction p s rule: starts_with.induct) auto

definition ends_with :: "bytes \<Rightarrow> bytes \<Rightarrow> bool" where
  "ends_with p s \<longleftrightarrow> starts_with (rev p) (rev s)"

lemma ends_with_iff: "ends_with p s \<longleftrightarrow> (\<exists>r. s = r @ p)"
  unfolding ends_with_def starts_with_iff by (metis rev_append rev_rev_ident)

lemma ends_with_append [simp]: "ends_with p (r @ p)"
  by (auto simp: ends_with_iff)

definition strip_prefix :: "bytes \<Rightarrow> bytes \<Rightarrow> bytes option" where
  "strip_prefix p s = (if starts_with p s then Some (drop (length p) s) else None)"

definition strip_suffix :: "bytes \<Rightarrow> bytes \<Rightarrow> bytes option" where
  "strip_suffix p s = (if ends_with p s then Some (take (length s - length p) s) else None)"

lemma strip_prefix_append [simp]: "strip_prefix p (p @ r) = Some r"
  by (auto simp: strip_prefix_def starts_with_iff)

lemma strip_suffix_append [simp]: "strip_suffix p (r @ p) = Some r"
  by (auto simp: strip_suffix_def ends_with_iff)

text \<open>\<open>s.trim()\<close>: the encodings of the characters with the property \<open>White_Space\<close>.\<close>

definition white_space :: "bytes list" where
  "white_space = map (\<lambda>b. [b]) [9, 10, 11, 12, 13, 32] @ [[0xC2, 0x85], [0xC2, 0xA0], [0xE1, 0x9A, 0x80]] @
     map (\<lambda>b. [0xE2, 0x80, b]) [0x80, 0x81, 0x82, 0x83, 0x84, 0x85, 0x86, 0x87, 0x88, 0x89, 0x8A, 0xA8, 0xA9, 0xAF] @
     [[0xE2, 0x81, 0x9F], [0xE3, 0x80, 0x80]]"

lemma white_space_not_Nil: "w \<in> set white_space \<Longrightarrow> w \<noteq> []"
  by (auto simp: white_space_def)

function trim_start :: "bytes \<Rightarrow> bytes" where
  "trim_start s = (case find (\<lambda>w. starts_with w s) white_space of
     None \<Rightarrow> s | Some w \<Rightarrow> trim_start (drop (length w) s))"
  by pat_completeness auto
termination
proof (relation "measure length", simp)
  fix s w assume "find (\<lambda>w. starts_with w s) white_space = Some w"
  then have "w \<in> set white_space" "starts_with w s" by (auto simp: find_Some_iff)
  then show "(drop (length w) s, s) \<in> measure length"
    using white_space_not_Nil by (fastforce simp: starts_with_iff)
qed

function trim_end :: "bytes \<Rightarrow> bytes" where
  "trim_end s = (case find (\<lambda>w. ends_with w s) white_space of
     None \<Rightarrow> s | Some w \<Rightarrow> trim_end (take (length s - length w) s))"
  by pat_completeness auto
termination
proof (relation "measure length", simp)
  fix s w assume "find (\<lambda>w. ends_with w s) white_space = Some w"
  then have "w \<in> set white_space" "ends_with w s" by (auto simp: find_Some_iff)
  then show "(take (length s - length w) s, s) \<in> measure length"
    using white_space_not_Nil by (fastforce simp: ends_with_iff)
qed

declare trim_start.simps [simp del] trim_end.simps [simp del]

definition trim :: "bytes \<Rightarrow> bytes" where
  "trim s = trim_end (trim_start s)"

text \<open>Text without white space at either end is left alone; one line end after it is cut.\<close>

lemma find_white_space:
  "s \<noteq> [] \<Longrightarrow> hd s \<notin> hd ` set white_space \<Longrightarrow> find (\<lambda>w. starts_with w s) white_space = None"
  "s \<noteq> [] \<Longrightarrow> last s \<notin> last ` set white_space \<Longrightarrow> find (\<lambda>w. ends_with w s) white_space = None"
  using white_space_not_Nil by (fastforce simp: find_None_iff starts_with_iff ends_with_iff)+

lemma trim_plain:
  assumes "s \<noteq> []" "hd s \<notin> hd ` set white_space" "last s \<notin> last ` set white_space"
  shows "trim s = s" "trim (s @ [10]) = s"
proof -
  note n = find_white_space(1) [OF assms(1,2)] find_white_space(2) [OF assms(1,3)]
  have e: "trim_end s = s" by (subst trim_end.simps) (simp add: n)
  with n show "trim s = s" by (simp add: trim_def trim_start.simps [of s])
  have "find (\<lambda>w. starts_with w (s @ [10])) white_space = None"
    using assms by (intro find_white_space) auto
  moreover have "find (\<lambda>w. ends_with w (s @ [10])) white_space = Some [10]"
    by (simp add: white_space_def ends_with_def)
  ultimately show "trim (s @ [10]) = s"
    using e by (simp add: trim_def trim_start.simps [of "s @ [10]"] trim_end.simps [of "s @ [10]"])
qed

text \<open>\<open>s.replace(a, b)\<close> for the line ends the crate replaces.\<close>

fun replace_crlf :: "bytes \<Rightarrow> bytes" where
  "replace_crlf (b # c # r) = (if b = 13 \<and> c = 10 then 10 # replace_crlf r else b # replace_crlf (c # r))"
| "replace_crlf s = s"

definition replace_byte :: "u8 \<Rightarrow> bytes \<Rightarrow> bytes \<Rightarrow> bytes" where
  "replace_byte b new s = concat (map (\<lambda>c. if c = b then new else [c]) s)"

lemma replace_crlf_plain: "13 \<notin> set s \<Longrightarrow> replace_crlf s = s"
  by (induction s rule: replace_crlf.induct) auto

lemma replace_byte_plain [simp]: "b \<notin> set s \<Longrightarrow> replace_byte b new s = s"
  by (induction s) (auto simp: replace_byte_def)

text \<open>\<open>s.trim_end_matches(pat)\<close> drops every copy of \<open>pat\<close> at the end.\<close>

function trim_end_matches :: "bytes \<Rightarrow> bytes \<Rightarrow> bytes" where
  "trim_end_matches pat s =
     (if pat \<noteq> [] \<and> length pat \<le> length s \<and> drop (length s - length pat) s = pat
      then trim_end_matches pat (take (length s - length pat) s) else s)"
  by pat_completeness auto
termination
  by (relation "measure (\<lambda>(pat, s). length s)")
    (auto intro!: diff_less simp flip: length_greater_0_conv)

declare trim_end_matches.simps [simp del]

lemma trim_end_matches_suffix:
  "pat \<noteq> [] \<Longrightarrow> trim_end_matches pat (s @ pat) = trim_end_matches pat s"
  by (subst trim_end_matches.simps) simp

section \<open>Decimal numbers\<close>

text \<open>\<open>format!("{}", n)\<close> of an unsigned integer.\<close>

fun decimal :: "nat \<Rightarrow> bytes" where
  "decimal n = (if n < 10 then [of_nat (48 + n)] else decimal (n div 10) @ [of_nat (48 + n mod 10)])"

declare decimal.simps [simp del]

definition is_digit :: "u8 \<Rightarrow> bool" where
  "is_digit b \<longleftrightarrow> 48 \<le> b \<and> b \<le> 57"

lemma digit_byte:
  assumes "n < 10"
  shows "is_digit (of_nat (48 + n)) \<and> unat (of_nat (48 + n) :: u8) = 48 + n"
proof -
  have "unat (of_nat (48 + n) :: u8) = (48 + n) mod 2 ^ 8"
    by (simp only: unat_of_nat take_bit_eq_mod) simp
  with assms have "unat (of_nat (48 + n) :: u8) = 48 + n" by simp
  with assms show ?thesis by (simp add: is_digit_def word_le_nat_alt)
qed

lemma decimal_digits: "\<forall>b \<in> set (decimal n). is_digit b"
proof (induction n rule: decimal.induct)
  case (1 n)
  then show ?case
    using digit_byte [of n] digit_byte [of "n mod 10"] by (subst decimal.simps) auto
qed

lemma decimal_not_Nil [simp]: "decimal n \<noteq> []"
  by (subst decimal.simps) simp

section \<open>Octal numbers and number parsing\<close>

text \<open>\<open>format!("{:04o}", n)\<close>.\<close>

fun octal :: "nat \<Rightarrow> bytes" where
  "octal n = (if n < 8 then [of_nat (48 + n)] else octal (n div 8) @ [of_nat (48 + n mod 8)])"

declare octal.simps [simp del]

definition octal4 :: "nat \<Rightarrow> bytes" where
  "octal4 n = replicate (4 - length (octal n)) 48 @ octal n"

text \<open>
  \<open>from_str_radix\<close> of an unsigned type with this bound, for a radix of at most ten: an optional
  plus sign, then digits, at least one.
\<close>

definition digit_value :: "nat \<Rightarrow> u8 \<Rightarrow> nat option" where
  "digit_value radix b = (if is_digit b \<and> unat b - 48 < radix then Some (unat b - 48) else None)"

fun digits_value :: "nat \<Rightarrow> nat \<Rightarrow> nat \<Rightarrow> bytes \<Rightarrow> nat option" where
  "digits_value radix bound acc [] = Some acc"
| "digits_value radix bound acc (b # bs) =
     (case digit_value radix b of
        None \<Rightarrow> None
      | Some d \<Rightarrow>
          if acc * radix + d < bound then digits_value radix bound (acc * radix + d) bs else None)"

definition from_str_radix :: "nat \<Rightarrow> nat \<Rightarrow> bytes \<Rightarrow> nat option" where
  "from_str_radix radix bound s =
     (let ds = (case s of [] \<Rightarrow> [] | b # r \<Rightarrow> if b = 43 then r else s)
      in if ds = [] then None else digits_value radix bound 0 ds)"

lemma digit_value_of: "n < radix \<Longrightarrow> radix \<le> 10 \<Longrightarrow> digit_value radix (of_nat (48 + n)) = Some n"
  using digit_byte [of n] by (simp add: digit_value_def)

lemma digits_value_snoc:
  "digits_value radix bound acc (bs @ [b]) =
     (case digits_value radix bound acc bs of
        None \<Rightarrow> None
      | Some v \<Rightarrow> digits_value radix bound v [b])"
  by (induction bs arbitrary: acc) (auto split: option.split)

lemma digits_value_decimal: "n < bound \<Longrightarrow> digits_value 10 bound 0 (decimal n) = Some n"
proof (induction n rule: decimal.induct)
  case (1 n)
  show ?case
  proof (cases "n < 10")
    case True
    with 1 digit_value_of [of n 10] show ?thesis by (subst decimal.simps) simp
  next
    case False
    have "n div 10 < bound" using 1(2) by simp
    from 1(1) [OF False this] False 1(2) digit_value_of [of "n mod 10" 10] show ?thesis
      by (subst decimal.simps) (simp add: digits_value_snoc)
  qed
qed

lemma digits_value_octal: "n < bound \<Longrightarrow> digits_value 8 bound 0 (octal n) = Some n"
proof (induction n rule: octal.induct)
  case (1 n)
  show ?case
  proof (cases "n < 8")
    case True
    with 1 digit_value_of [of n 8] show ?thesis by (subst octal.simps) simp
  next
    case False
    have "n div 8 < bound" using 1(2) by simp
    from 1(1) [OF False this] False 1(2) digit_value_of [of "n mod 8" 8] show ?thesis
      by (subst octal.simps) (simp add: digits_value_snoc)
  qed
qed

lemma digits_value_zeros:
  "0 < bound \<Longrightarrow> digits_value radix bound 0 (replicate k 48 @ bs) = digits_value radix bound 0 bs"
  if "0 < radix"
  by (induction k) (simp_all add: digit_value_def is_digit_def that)

lemma octal_not_Nil [simp]: "octal n \<noteq> []"
  by (subst octal.simps) simp

lemma no_plus: "is_digit b \<Longrightarrow> b \<noteq> 43"
  by (auto simp: is_digit_def)

lemma octal_digits: "b \<in> set (octal n) \<Longrightarrow> is_digit b"
proof (induction n rule: octal.induct)
  case (1 n)
  then show ?case
    using digit_byte [of n] digit_byte [of "n mod 8"] by (subst (asm) octal.simps) (auto split: if_splits)
qed

lemma from_str_radix_digits:
  assumes "ds \<noteq> []" "\<And>b. b \<in> set ds \<Longrightarrow> is_digit b"
  shows "from_str_radix radix bound ds = digits_value radix bound 0 ds"
proof -
  from assms obtain b r where "ds = b # r" "b \<noteq> 43" by (cases ds) (auto dest: no_plus)
  then show ?thesis by (simp add: from_str_radix_def split: list.split)
qed

lemma from_str_radix_decimal: "n < bound \<Longrightarrow> from_str_radix 10 bound (decimal n) = Some n"
  using decimal_digits by (simp add: from_str_radix_digits digits_value_decimal)

lemma from_str_radix_octal4: "n < bound \<Longrightarrow> from_str_radix 8 bound (octal4 n) = Some n"
proof -
  assume n: "n < bound"
  have "from_str_radix 8 bound (octal4 n) = digits_value 8 bound 0 (octal4 n)"
    by (rule from_str_radix_digits) (auto simp: octal4_def is_digit_def dest!: octal_digits)
  with n digits_value_zeros [of 8 bound] show ?thesis
    by (simp add: octal4_def digits_value_octal)
qed

end
