(* ===== verification/Protocol.thy ===== *)
theory Protocol
  imports Prelude
begin

text \<open>
  The constants of \<open>src/ssh/protocol.rs\<close> that the modelled code uses, under their source names.
\<close>

definition SSH_MSG_DISCONNECT :: u8 where [simp]: "SSH_MSG_DISCONNECT = 1"
definition SSH_MSG_IGNORE :: u8 where [simp]: "SSH_MSG_IGNORE = 2"
definition SSH_MSG_UNIMPLEMENTED :: u8 where [simp]: "SSH_MSG_UNIMPLEMENTED = 3"
definition SSH_MSG_DEBUG :: u8 where [simp]: "SSH_MSG_DEBUG = 4"
definition SSH_MSG_SERVICE_REQUEST :: u8 where [simp]: "SSH_MSG_SERVICE_REQUEST = 5"
definition SSH_MSG_SERVICE_ACCEPT :: u8 where [simp]: "SSH_MSG_SERVICE_ACCEPT = 6"
definition SSH_MSG_EXT_INFO :: u8 where [simp]: "SSH_MSG_EXT_INFO = 7"
definition SSH_MSG_KEXINIT :: u8 where [simp]: "SSH_MSG_KEXINIT = 20"
definition SSH_MSG_NEWKEYS :: u8 where [simp]: "SSH_MSG_NEWKEYS = 21"
definition SSH_MSG_KEXDH_INIT :: u8 where [simp]: "SSH_MSG_KEXDH_INIT = 30"
definition SSH_MSG_KEXDH_REPLY :: u8 where [simp]: "SSH_MSG_KEXDH_REPLY = 31"
definition SSH_MSG_KEX_DH_GEX_GROUP :: u8 where [simp]: "SSH_MSG_KEX_DH_GEX_GROUP = 31"
definition SSH_MSG_KEX_DH_GEX_INIT :: u8 where [simp]: "SSH_MSG_KEX_DH_GEX_INIT = 32"
definition SSH_MSG_KEX_DH_GEX_REPLY :: u8 where [simp]: "SSH_MSG_KEX_DH_GEX_REPLY = 33"
definition SSH_MSG_KEX_DH_GEX_REQUEST :: u8 where [simp]: "SSH_MSG_KEX_DH_GEX_REQUEST = 34"
definition SSH_MSG_KEX_ECDH_INIT :: u8 where [simp]: "SSH_MSG_KEX_ECDH_INIT = 30"
definition SSH_MSG_KEX_ECDH_REPLY :: u8 where [simp]: "SSH_MSG_KEX_ECDH_REPLY = 31"
definition SSH_MSG_USERAUTH_REQUEST :: u8 where [simp]: "SSH_MSG_USERAUTH_REQUEST = 50"
definition SSH_MSG_USERAUTH_FAILURE :: u8 where [simp]: "SSH_MSG_USERAUTH_FAILURE = 51"
definition SSH_MSG_USERAUTH_SUCCESS :: u8 where [simp]: "SSH_MSG_USERAUTH_SUCCESS = 52"
definition SSH_MSG_USERAUTH_BANNER :: u8 where [simp]: "SSH_MSG_USERAUTH_BANNER = 53"
definition SSH_MSG_USERAUTH_PK_OK :: u8 where [simp]: "SSH_MSG_USERAUTH_PK_OK = 60"
definition SSH_MSG_USERAUTH_PASSWD_CHANGEREQ :: u8
  where [simp]: "SSH_MSG_USERAUTH_PASSWD_CHANGEREQ = 60"
definition SSH_MSG_USERAUTH_INFO_REQUEST :: u8 where [simp]: "SSH_MSG_USERAUTH_INFO_REQUEST = 60"
definition SSH_MSG_USERAUTH_INFO_RESPONSE :: u8 where [simp]: "SSH_MSG_USERAUTH_INFO_RESPONSE = 61"
definition SSH_MSG_GLOBAL_REQUEST :: u8 where [simp]: "SSH_MSG_GLOBAL_REQUEST = 80"
definition SSH_MSG_REQUEST_SUCCESS :: u8 where [simp]: "SSH_MSG_REQUEST_SUCCESS = 81"
definition SSH_MSG_REQUEST_FAILURE :: u8 where [simp]: "SSH_MSG_REQUEST_FAILURE = 82"
definition SSH_MSG_CHANNEL_OPEN :: u8 where [simp]: "SSH_MSG_CHANNEL_OPEN = 90"
definition SSH_MSG_CHANNEL_OPEN_CONFIRMATION :: u8
  where [simp]: "SSH_MSG_CHANNEL_OPEN_CONFIRMATION = 91"
definition SSH_MSG_CHANNEL_OPEN_FAILURE :: u8 where [simp]: "SSH_MSG_CHANNEL_OPEN_FAILURE = 92"
definition SSH_MSG_CHANNEL_WINDOW_ADJUST :: u8 where [simp]: "SSH_MSG_CHANNEL_WINDOW_ADJUST = 93"
definition SSH_MSG_CHANNEL_DATA :: u8 where [simp]: "SSH_MSG_CHANNEL_DATA = 94"
definition SSH_MSG_CHANNEL_EXTENDED_DATA :: u8 where [simp]: "SSH_MSG_CHANNEL_EXTENDED_DATA = 95"
definition SSH_MSG_CHANNEL_EOF :: u8 where [simp]: "SSH_MSG_CHANNEL_EOF = 96"
definition SSH_MSG_CHANNEL_CLOSE :: u8 where [simp]: "SSH_MSG_CHANNEL_CLOSE = 97"
definition SSH_MSG_CHANNEL_REQUEST :: u8 where [simp]: "SSH_MSG_CHANNEL_REQUEST = 98"
definition SSH_MSG_CHANNEL_SUCCESS :: u8 where [simp]: "SSH_MSG_CHANNEL_SUCCESS = 99"
definition SSH_MSG_CHANNEL_FAILURE :: u8 where [simp]: "SSH_MSG_CHANNEL_FAILURE = 100"
definition SSH_MSG_PING :: u8 where [simp]: "SSH_MSG_PING = 192"
definition SSH_MSG_PONG :: u8 where [simp]: "SSH_MSG_PONG = 193"

definition SSH_OPEN_CONNECT_FAILED :: u32 where [simp]: "SSH_OPEN_CONNECT_FAILED = 2"
definition SSH_OPEN_UNKNOWN_CHANNEL_TYPE :: u32 where [simp]: "SSH_OPEN_UNKNOWN_CHANNEL_TYPE = 3"
definition SSH_EXTENDED_DATA_STDERR :: u32 where [simp]: "SSH_EXTENDED_DATA_STDERR = 1"

definition MAX_PACKET_PAYLOAD_LENGTH :: nat where [simp]: "MAX_PACKET_PAYLOAD_LENGTH = 32768"
definition MAX_PACKET_LENGTH :: nat where [simp]: "MAX_PACKET_LENGTH = 256 * 1024"
definition MIN_PADDING_LENGTH :: nat where [simp]: "MIN_PADDING_LENGTH = 4"

text \<open>Names on the wire.\<close>

definition KEX_STRICT_CLIENT :: bytes where
  "KEX_STRICT_CLIENT = str ''kex-strict-c-v00@openssh.com''"
definition EXT_INFO_CLIENT :: bytes where "EXT_INFO_CLIENT = str ''ext-info-c''"
definition KEX_STRICT_SERVER :: bytes where
  "KEX_STRICT_SERVER = str ''kex-strict-s-v00@openssh.com''"
definition EXT_INFO_SERVER :: bytes where "EXT_INFO_SERVER = str ''ext-info-s''"
definition SSH_SERVICE_NAME_USER_AUTHENTICATION_SERVICE :: bytes where
  "SSH_SERVICE_NAME_USER_AUTHENTICATION_SERVICE = str ''ssh-userauth''"
definition SSH_GLOBAL_REQUEST_TYPE_CANCEL_TCP_IP_FORWARD :: bytes where
  "SSH_GLOBAL_REQUEST_TYPE_CANCEL_TCP_IP_FORWARD = str ''cancel-tcpip-forward''"
definition SSH_GLOBAL_REQUEST_TYPE_TCP_IP_FORWARD :: bytes where
  "SSH_GLOBAL_REQUEST_TYPE_TCP_IP_FORWARD = str ''tcpip-forward''"
definition SSH_CHANNEL_TYPE_FORWARDED_TCP_IP :: bytes where
  "SSH_CHANNEL_TYPE_FORWARDED_TCP_IP = str ''forwarded-tcpip''"
definition SSH_CHANNEL_TYPE_AGENT_CONNECT :: bytes where
  "SSH_CHANNEL_TYPE_AGENT_CONNECT = str ''agent-connect''"
definition SSH_CHANNEL_TYPE_DIRECT_TCP_IP :: bytes where
  "SSH_CHANNEL_TYPE_DIRECT_TCP_IP = str ''direct-tcpip''"
definition SSH_CHANNEL_TYPE_X11 :: bytes where "SSH_CHANNEL_TYPE_X11 = str ''x11''"
definition OPENSSH_KEEP_ALIVE :: bytes where
  "OPENSSH_KEEP_ALIVE = str ''keepalive@openssh.com''"
definition OPENSSH_HOST_KEYS :: bytes where
  "OPENSSH_HOST_KEYS = str ''hostkeys-00@openssh.com''"
definition OPENSSH_AGENT_CONNECT :: bytes where
  "OPENSSH_AGENT_CONNECT = str ''auth-agent@openssh.com''"
definition OPENSSH_FORWARDED_STREAM_LOCAL :: bytes where
  "OPENSSH_FORWARDED_STREAM_LOCAL = str ''forwarded-streamlocal@openssh.com''"
definition DIRECT_STREM_LOCAL :: bytes where
  "DIRECT_STREM_LOCAL = str ''direct-streamlocal@openssh.com''"
definition STREAM_LOCAL_FORWARD :: bytes where
  "STREAM_LOCAL_FORWARD = str ''streamlocal-forward@openssh.com''"
definition CANCEL_STREAM_LOCAL_FORWARD :: bytes where
  "CANCEL_STREAM_LOCAL_FORWARD = str ''cancel-streamlocal-forward@openssh.com''"

lemmas wire_names =
  KEX_STRICT_CLIENT_def EXT_INFO_CLIENT_def KEX_STRICT_SERVER_def EXT_INFO_SERVER_def
  SSH_SERVICE_NAME_USER_AUTHENTICATION_SERVICE_def
  SSH_GLOBAL_REQUEST_TYPE_CANCEL_TCP_IP_FORWARD_def SSH_GLOBAL_REQUEST_TYPE_TCP_IP_FORWARD_def
  SSH_CHANNEL_TYPE_FORWARDED_TCP_IP_def SSH_CHANNEL_TYPE_AGENT_CONNECT_def
  SSH_CHANNEL_TYPE_DIRECT_TCP_IP_def SSH_CHANNEL_TYPE_X11_def OPENSSH_KEEP_ALIVE_def
  OPENSSH_HOST_KEYS_def OPENSSH_AGENT_CONNECT_def OPENSSH_FORWARDED_STREAM_LOCAL_def
  DIRECT_STREM_LOCAL_def STREAM_LOCAL_FORWARD_def CANCEL_STREAM_LOCAL_FORWARD_def

end
