(* ===== verification/Messages.thy ===== *)
theory Messages
  imports Buffer Text Protocol
begin

text \<open>
  \<open>src/ssh/msg.rs\<close>: the binary packet and the decoded SSH messages. \<open>Packet_parse\<close> splits a
  packet body into payload and padding; \<open>Message_parse\<close> is the parser of a payload, one
  definition per branch of its \<open>match\<close>. For every message the server may send there is a
  round trip from the RFC encoding.
\<close>

section \<open>Packets\<close>

record packet =
  payload :: bytes
  padding :: bytes

definition Packet_parse :: "bytes \<Rightarrow> packet res" where
  "Packet_parse data =
     fst (sbind consume_u8 (\<lambda>padding_len.
       if length data \<le> unat padding_len + 1
       then sfail (InvalidFormat ''Unexpected padding length'')
       else sbind (sget peek) (\<lambda>rest.
         sbind (consume_bytes (length rest - unat padding_len)) (\<lambda>payload.
         sbind (consume_bytes (unat padding_len)) (\<lambda>padding.
         sreturn \<lparr>payload = payload, padding = padding\<rparr>)))) (consumer_new data))"

section \<open>Messages\<close>

datatype message =
    Debug bool bytes bytes
  | ExtInfo "bytes \<rightharpoonup> bytes"
  | Ignore bytes
  | ServiceAccept bytes
  | Disconnect u32 bytes bytes
  | Unimplemented u32
  | AuthenticationSuccess
  | AuthenticationFailure "bytes list" bool
  | AuthenticationBanner bytes bytes
  | ChannelOpenConfirmation u32 u32 u32 u32
  | ChannelOpenFailureMsg u32 u32 bytes bytes
  | ChannelSuccess u32
  | ChannelFailureMsg u32
  | ChannelData u32 bytes
  | ChannelExtendedData u32 u32 bytes
  | ChannelWindowAdjust u32 u32
  | ChannelFlowControl u32 bool bool
  | ChannelExitStatus u32 bool u32
  | ChannelExitSignal u32 bool bytes bool bytes bytes
  | ChannelEof u32
  | ChannelClose u32
  | ChannelOpenForwardedTcpIp u32 u32 u32 bytes u32 bytes u32
  | ChannelOpenAgentConnect u32 u32 u32
  | ChannelOpenX11 u32 u32 u32 bytes u32
  | ChannelOpenForwardedStreamLocal u32 u32 u32 bytes bytes
  | ChannelOpenUnknown u32 bytes
  | ChannelUnknownRequest u32 bytes bool
  | GlobalRequestKeepAliveOpenSSH bool
  | GlobalRequestHostKeysOpenSSH bool "bytes list"
  | GlobalUnknownRequest bool bytes
  | RequestSuccess
  | RequestFailureMsg
  | Ping bytes
  | Pong bytes
  | Unrecognized u8 bytes

text \<open>\<open>std::str::from_utf8(consumer.consume_one()?).context(ExpectStringSnafu)?\<close>\<close>

definition from_utf8 :: "bytes \<Rightarrow> bytes res" where
  "from_utf8 bs = (if utf8_valid bs then Ok bs else Err (TransportError ExpectString))"

definition consume_str :: "(consumer, bytes) sr" where
  "consume_str = sbind consume_one (\<lambda>bs. slift (from_utf8 bs))"

definition consume_bool :: "(consumer, bool) sr" where
  "consume_bool = sbind consume_u8 (\<lambda>b. sreturn (b \<noteq> 0))"

subsection \<open>The branches of the parser\<close>

definition parse_debug :: "(consumer, message) sr" where
  "parse_debug =
     sbind consume_u8 (\<lambda>always_display.
     sbind consume_str (\<lambda>message.
     sbind consume_str (\<lambda>language.
     sreturn (Debug (always_display = 1) message language))))"

definition consume_extension :: "(consumer, bytes \<times> bytes) sr" where
  "consume_extension =
     sbind consume_str (\<lambda>name. sbind consume_one (\<lambda>value. sreturn (name, value)))"

definition insert_all :: "('k \<times> 'v) list \<Rightarrow> ('k \<rightharpoonup> 'v) \<Rightarrow> ('k \<rightharpoonup> 'v)" where
  "insert_all kvs m = fold (\<lambda>(k, v) m. m(k \<mapsto> v)) kvs m"

definition parse_ext_info :: "(consumer, message) sr" where
  "parse_ext_info =
     sbind consume_u32 (\<lambda>count.
     sbind (times (unat count) consume_extension) (\<lambda>kvs.
     sreturn (ExtInfo (insert_all kvs Map.empty))))"

definition parse_disconnect :: "(consumer, message) sr" where
  "parse_disconnect =
     sbind consume_u32 (\<lambda>reason.
     sbind consume_str (\<lambda>description.
     sbind consume_str (\<lambda>language.
     sreturn (Disconnect reason description language))))"

definition parse_banner :: "(consumer, message) sr" where
  "parse_banner =
     sbind consume_str (\<lambda>message.
     sbind consume_str (\<lambda>language.
     sreturn (AuthenticationBanner message language)))"

definition parse_auth_failure :: "(consumer, message) sr" where
  "parse_auth_failure =
     sbind consume_str (\<lambda>allow_methods.
     sbind consume_bool (\<lambda>partial_success.
     sreturn (AuthenticationFailure (split_on comma allow_methods) partial_success)))"

definition parse_open_confirmation :: "(consumer, message) sr" where
  "parse_open_confirmation =
     sbind consume_u32 (\<lambda>recipient_channel.
     sbind consume_u32 (\<lambda>sender_channel.
     sbind consume_u32 (\<lambda>initial_window_size.
     sbind consume_u32 (\<lambda>maximum_packet_size.
     sreturn (ChannelOpenConfirmation recipient_channel sender_channel initial_window_size
       maximum_packet_size)))))"

definition parse_open_failure :: "(consumer, message) sr" where
  "parse_open_failure =
     sbind consume_u32 (\<lambda>recipient_channel.
     sbind consume_u32 (\<lambda>reason_code.
     sbind consume_str (\<lambda>description.
     sbind consume_str (\<lambda>language.
     sreturn (ChannelOpenFailureMsg recipient_channel reason_code description language)))))"

definition parse_channel_data :: "(consumer, message) sr" where
  "parse_channel_data =
     sbind consume_u32 (\<lambda>recipient_channel.
     sbind consume_one (\<lambda>data.
     sreturn (ChannelData recipient_channel data)))"

definition parse_channel_extended_data :: "(consumer, message) sr" where
  "parse_channel_extended_data =
     sbind consume_u32 (\<lambda>recipient_channel.
     sbind consume_u32 (\<lambda>data_type.
     sbind consume_one (\<lambda>data.
     sreturn (ChannelExtendedData recipient_channel data_type data))))"

definition parse_window_adjust :: "(consumer, message) sr" where
  "parse_window_adjust =
     sbind consume_u32 (\<lambda>recipient_channel.
     sbind consume_u32 (\<lambda>count.
     sreturn (ChannelWindowAdjust recipient_channel count)))"

definition parse_channel_request :: "(consumer, message) sr" where
  "parse_channel_request =
     sbind consume_u32 (\<lambda>recipient_channel.
     sbind consume_one (\<lambda>type.
     if type = str ''xon-xoff'' then
       sbind consume_bool (\<lambda>want_reply.
       sbind consume_bool (\<lambda>on.
       sreturn (ChannelFlowControl recipient_channel want_reply on)))
     else if type = str ''exit-status'' then
       sbind consume_bool (\<lambda>want_reply.
       sbind consume_u32 (\<lambda>exit_status.
       sreturn (ChannelExitStatus recipient_channel want_reply exit_status)))
     else if type = str ''exit-signal'' then
       sbind consume_bool (\<lambda>want_reply.
       sbind consume_str (\<lambda>signal.
       sbind consume_bool (\<lambda>core_dumped.
       sbind consume_str (\<lambda>error_message.
       sbind consume_str (\<lambda>language.
       sreturn (ChannelExitSignal recipient_channel want_reply signal core_dumped
         error_message language))))))
     else
       sbind consume_bool (\<lambda>want_reply.
       sbind (slift (from_utf8 type)) (\<lambda>type.
       sreturn (ChannelUnknownRequest recipient_channel type want_reply)))))"

lemma consume_one_progress:
  assumes "consume_one c = (Ok k, c')"
  shows "length (peek c') < length (peek c)"
proof -
  have "4 \<le> length (peek c)"
  proof (rule ccontr)
    assume "\<not> 4 \<le> length (peek c)"
    then have "consume_one c = (Err (unexpected_end ''u32''), c)"
      by (simp add: consume_one_def consume_u32_def sbind_def sr_defs)
    with assms show False by simp
  qed
  then show ?thesis using assms
    by (auto simp: consume_one_def consume_u32_def sbind_def sr_defs consume_def Let_def length_peek
        split: if_splits prod.splits res.splits)
qed

text \<open>\<open>while !consumer.peek().is_empty() { host_keys.push(consumer.consume_one()?) }\<close>\<close>

function consume_all_ones :: "(consumer, bytes list) sr" where
  "consume_all_ones c =
     (if peek c = [] then (Ok [], c)
      else (case consume_one c of
          (Ok k, c') \<Rightarrow>
            (case consume_all_ones c' of
               (Ok ks, c'') \<Rightarrow> (Ok (k # ks), c'')
             | (Err e, c'') \<Rightarrow> (Err e, c'')
             | (Panic, c'') \<Rightarrow> (Panic, c''))
        | (Err e, c') \<Rightarrow> (Err e, c')
        | (Panic, c') \<Rightarrow> (Panic, c')))"
  by pat_completeness auto
termination
  by (relation "measure (\<lambda>c. length (peek c))") (auto dest!: consume_one_progress [OF sym])

declare consume_all_ones.simps [simp del]

definition parse_global_request :: "(consumer, message) sr" where
  "parse_global_request =
     sbind consume_str (\<lambda>type.
     sbind consume_bool (\<lambda>want_reply.
     if type = OPENSSH_KEEP_ALIVE then sreturn (GlobalRequestKeepAliveOpenSSH want_reply)
     else if type = OPENSSH_HOST_KEYS then
       sbind consume_all_ones (\<lambda>host_keys.
       sreturn (GlobalRequestHostKeysOpenSSH want_reply host_keys))
     else sreturn (GlobalUnknownRequest want_reply type)))"

definition parse_channel_open :: "(consumer, message) sr" where
  "parse_channel_open =
     sbind consume_str (\<lambda>type.
     if type = SSH_CHANNEL_TYPE_FORWARDED_TCP_IP then
       sbind consume_u32 (\<lambda>sender_channel.
       sbind consume_u32 (\<lambda>initial_window_size.
       sbind consume_u32 (\<lambda>maximum_packet_size.
       sbind consume_str (\<lambda>connected_address.
       sbind consume_u32 (\<lambda>connected_port.
       sbind consume_str (\<lambda>originator_address.
       sbind consume_u32 (\<lambda>originator_port.
       sreturn (ChannelOpenForwardedTcpIp sender_channel initial_window_size
         maximum_packet_size connected_address connected_port originator_address
         originator_port))))))))
     else if type = SSH_CHANNEL_TYPE_AGENT_CONNECT \<or> type = OPENSSH_AGENT_CONNECT then
       sbind consume_u32 (\<lambda>sender_channel.
       sbind consume_u32 (\<lambda>initial_window_size.
       sbind consume_u32 (\<lambda>maximum_packet_size.
       sreturn (ChannelOpenAgentConnect sender_channel initial_window_size
         maximum_packet_size))))
     else if type = SSH_CHANNEL_TYPE_X11 then
       sbind consume_u32 (\<lambda>sender_channel.
       sbind consume_u32 (\<lambda>initial_window_size.
       sbind consume_u32 (\<lambda>maximum_packet_size.
       sbind consume_str (\<lambda>originator_address.
       sbind consume_u32 (\<lambda>originator_port.
       sreturn (ChannelOpenX11 sender_channel initial_window_size maximum_packet_size
         originator_address originator_port))))))
     else if type = OPENSSH_FORWARDED_STREAM_LOCAL then
       sbind consume_u32 (\<lambda>sender_channel.
       sbind consume_u32 (\<lambda>initial_window_size.
       sbind consume_u32 (\<lambda>maximum_packet_size.
       sbind consume_str (\<lambda>path.
       sbind consume_str (\<lambda>reserved.
       sreturn (ChannelOpenForwardedStreamLocal sender_channel initial_window_size
         maximum_packet_size path reserved))))))
     else
       sbind consume_u32 (\<lambda>sender_channel.
       sreturn (ChannelOpenUnknown sender_channel type)))"

definition Message_parse_from :: "bytes \<Rightarrow> u8 \<Rightarrow> (consumer, message) sr" where
  "Message_parse_from data code =
     (if code = SSH_MSG_DEBUG then parse_debug
      else if code = SSH_MSG_EXT_INFO then parse_ext_info
      else if code = SSH_MSG_SERVICE_ACCEPT then
        sbind consume_str (\<lambda>service. sreturn (ServiceAccept service))
      else if code = SSH_MSG_IGNORE then
        sbind consume_one (\<lambda>d. sreturn (Ignore d))
      else if code = SSH_MSG_DISCONNECT then parse_disconnect
      else if code = SSH_MSG_UNIMPLEMENTED then
        sbind consume_u32 (\<lambda>n. sreturn (Unimplemented n))
      else if code = SSH_MSG_USERAUTH_BANNER then parse_banner
      else if code = SSH_MSG_USERAUTH_FAILURE then parse_auth_failure
      else if code = SSH_MSG_USERAUTH_SUCCESS then sreturn AuthenticationSuccess
      else if code = SSH_MSG_CHANNEL_OPEN_CONFIRMATION then parse_open_confirmation
      else if code = SSH_MSG_CHANNEL_OPEN_FAILURE then parse_open_failure
      else if code = SSH_MSG_CHANNEL_SUCCESS then
        sbind consume_u32 (\<lambda>id. sreturn (ChannelSuccess id))
      else if code = SSH_MSG_CHANNEL_FAILURE then
        sbind consume_u32 (\<lambda>id. sreturn (ChannelFailureMsg id))
      else if code = SSH_MSG_CHANNEL_DATA then parse_channel_data
      else if code = SSH_MSG_CHANNEL_EXTENDED_DATA then parse_channel_extended_data
      else if code = SSH_MSG_CHANNEL_WINDOW_ADJUST then parse_window_adjust
      else if code = SSH_MSG_CHANNEL_REQUEST then parse_channel_request
      else if code = SSH_MSG_GLOBAL_REQUEST then parse_global_request
      else if code = SSH_MSG_CHANNEL_OPEN then parse_channel_open
      else if code = SSH_MSG_PING then sbind consume_one (\<lambda>d. sreturn (Ping d))
      else if code = SSH_MSG_PONG then sbind consume_one (\<lambda>d. sreturn (Pong d))
      else if code = SSH_MSG_CHANNEL_CLOSE then
        sbind consume_u32 (\<lambda>id. sreturn (ChannelClose id))
      else if code = SSH_MSG_CHANNEL_EOF then
        sbind consume_u32 (\<lambda>id. sreturn (ChannelEof id))
      else if code = SSH_MSG_REQUEST_SUCCESS then sreturn RequestSuccess
      else if code = SSH_MSG_REQUEST_FAILURE then sreturn RequestFailureMsg
      else sreturn (Unrecognized code data))"

definition Message_parse :: "bytes \<Rightarrow> message res" where
  "Message_parse data =
     fst (sbind consume_u8 (Message_parse_from data) (consumer_new data))"

section \<open>The encoding a peer sends\<close>

text \<open>
  The RFC 4250-4254 layout of each message, written as a specification: what a conforming
  server puts on the wire. \<open>ExtInfo\<close> holds a map, so its wire form is given for a list of
  extensions instead.
\<close>

fun encode_message :: "message \<Rightarrow> bytes" where
  "encode_message (Debug d m l) = SSH_MSG_DEBUG # u8_of_bool d # one m @ one l"
| "encode_message (ExtInfo _) = []"
| "encode_message (Ignore d) = SSH_MSG_IGNORE # one d"
| "encode_message (ServiceAccept s) = SSH_MSG_SERVICE_ACCEPT # one s"
| "encode_message (Disconnect r d l) = SSH_MSG_DISCONNECT # u32_to_be r @ one d @ one l"
| "encode_message (Unimplemented n) = SSH_MSG_UNIMPLEMENTED # u32_to_be n"
| "encode_message AuthenticationSuccess = [SSH_MSG_USERAUTH_SUCCESS]"
| "encode_message (AuthenticationFailure ms p) =
     SSH_MSG_USERAUTH_FAILURE # one (join [comma] ms) @ [u8_of_bool p]"
| "encode_message (AuthenticationBanner m l) = SSH_MSG_USERAUTH_BANNER # one m @ one l"
| "encode_message (ChannelOpenConfirmation r s w p) =
     SSH_MSG_CHANNEL_OPEN_CONFIRMATION # u32_to_be r @ u32_to_be s @ u32_to_be w @ u32_to_be p"
| "encode_message (ChannelOpenFailureMsg r c d l) =
     SSH_MSG_CHANNEL_OPEN_FAILURE # u32_to_be r @ u32_to_be c @ one d @ one l"
| "encode_message (ChannelSuccess r) = SSH_MSG_CHANNEL_SUCCESS # u32_to_be r"
| "encode_message (ChannelFailureMsg r) = SSH_MSG_CHANNEL_FAILURE # u32_to_be r"
| "encode_message (ChannelData r d) = SSH_MSG_CHANNEL_DATA # u32_to_be r @ one d"
| "encode_message (ChannelExtendedData r t d) =
     SSH_MSG_CHANNEL_EXTENDED_DATA # u32_to_be r @ u32_to_be t @ one d"
| "encode_message (ChannelWindowAdjust r n) =
     SSH_MSG_CHANNEL_WINDOW_ADJUST # u32_to_be r @ u32_to_be n"
| "encode_message (ChannelFlowControl r w on) =
     SSH_MSG_CHANNEL_REQUEST # u32_to_be r @ one (str ''xon-xoff'') @ [u8_of_bool w, u8_of_bool on]"
| "encode_message (ChannelExitStatus r w n) =
     SSH_MSG_CHANNEL_REQUEST # u32_to_be r @ one (str ''exit-status'') @ u8_of_bool w # u32_to_be n"
| "encode_message (ChannelExitSignal r w s c e l) =
     SSH_MSG_CHANNEL_REQUEST # u32_to_be r @ one (str ''exit-signal'') @ u8_of_bool w #
       one s @ u8_of_bool c # one e @ one l"
| "encode_message (ChannelEof r) = SSH_MSG_CHANNEL_EOF # u32_to_be r"
| "encode_message (ChannelClose r) = SSH_MSG_CHANNEL_CLOSE # u32_to_be r"
| "encode_message (ChannelOpenForwardedTcpIp s w p ca cp oa op) =
     SSH_MSG_CHANNEL_OPEN # one SSH_CHANNEL_TYPE_FORWARDED_TCP_IP @ u32_to_be s @ u32_to_be w @
       u32_to_be p @ one ca @ u32_to_be cp @ one oa @ u32_to_be op"
| "encode_message (ChannelOpenAgentConnect s w p) =
     SSH_MSG_CHANNEL_OPEN # one OPENSSH_AGENT_CONNECT @ u32_to_be s @ u32_to_be w @ u32_to_be p"
| "encode_message (ChannelOpenX11 s w p oa op) =
     SSH_MSG_CHANNEL_OPEN # one SSH_CHANNEL_TYPE_X11 @ u32_to_be s @ u32_to_be w @
       u32_to_be p @ one oa @ u32_to_be op"
| "encode_message (ChannelOpenForwardedStreamLocal s w p path res) =
     SSH_MSG_CHANNEL_OPEN # one OPENSSH_FORWARDED_STREAM_LOCAL @ u32_to_be s @ u32_to_be w @
       u32_to_be p @ one path @ one res"
| "encode_message (ChannelOpenUnknown s t) = SSH_MSG_CHANNEL_OPEN # one t @ u32_to_be s"
| "encode_message (ChannelUnknownRequest r t w) =
     SSH_MSG_CHANNEL_REQUEST # u32_to_be r @ one t @ [u8_of_bool w]"
| "encode_message (GlobalRequestKeepAliveOpenSSH w) =
     SSH_MSG_GLOBAL_REQUEST # one OPENSSH_KEEP_ALIVE @ [u8_of_bool w]"
| "encode_message (GlobalRequestHostKeysOpenSSH w ks) =
     SSH_MSG_GLOBAL_REQUEST # one OPENSSH_HOST_KEYS @ u8_of_bool w # concat (map one ks)"
| "encode_message (GlobalUnknownRequest w t) =
     SSH_MSG_GLOBAL_REQUEST # one t @ [u8_of_bool w]"
| "encode_message RequestSuccess = [SSH_MSG_REQUEST_SUCCESS]"
| "encode_message RequestFailureMsg = [SSH_MSG_REQUEST_FAILURE]"
| "encode_message (Ping d) = SSH_MSG_PING # one d"
| "encode_message (Pong d) = SSH_MSG_PONG # one d"
| "encode_message (Unrecognized c d) = d"

definition wf_str :: "bytes \<Rightarrow> bool" where
  "wf_str s \<longleftrightarrow> utf8_valid s \<and> fits s"

lemma from_utf8_not_Panic [simp]: "from_utf8 bs \<noteq> Panic"
  by (simp add: from_utf8_def)

lemma decodes_slift [dec_rules]:
  "decodes m x b \<Longrightarrow> g x = Ok y \<Longrightarrow> decodes (sbind m (\<lambda>x. slift (g x))) y b"
  using decodes_bind [of m x b "\<lambda>x. slift (g x)" y "[]"]
  by (simp add: decodes_def sr_defs)

lemma decodes_slift_bind:
  "r = Ok x \<Longrightarrow> decodes (f x) y bs \<Longrightarrow> decodes (sbind (slift r) f) y bs"
  by (simp add: decodes_def sr_defs)

lemma decodes_str [dec_rules]: "wf_str s \<Longrightarrow> decodes consume_str s (one s)"
  unfolding consume_str_def
  by (rule decodes_slift [OF decodes_one]) (simp_all add: wf_str_def from_utf8_def)

lemma decodes_str_bind [dec_rules]:
  "wf_str x \<Longrightarrow> decodes (f x) y bs \<Longrightarrow> decodes (sbind consume_str f) y (one x @ bs)"
  "wf_str x \<Longrightarrow> decodes (f x) y [] \<Longrightarrow> decodes (sbind consume_str f) y (one x)"
  using decodes_bind [OF decodes_str, of x f y bs] decodes_bind [OF decodes_str, of x f y "[]"]
  by simp_all

lemma safe_consume_str [safe_rules]: "safe consumer_ok consume_str"
  by (auto simp: consume_str_def intro!: safe_rules)

interpretation str_codec: codec one consume_str wf_str
  by unfold_locales (erule decodes_str, rule safe_consume_str)

lemma decodes_bool [dec_rules]: "decodes consume_bool b [u8_of_bool b]"
  unfolding consume_bool_def
  using decodes_map [OF decodes_u8, of "\<lambda>x. x \<noteq> 0" "u8_of_bool b"] by simp

lemma decodes_bool_Cons [dec_rules]:
  "decodes (f b) y bs \<Longrightarrow> decodes (sbind consume_bool f) y (u8_of_bool b # bs)"
  using decodes_bind [OF decodes_bool, of f b y bs] by simp

lemma names_distinct:
  "str ''exit-status'' \<noteq> str ''xon-xoff''"
  "str ''exit-signal'' \<noteq> str ''xon-xoff''"
  "str ''exit-signal'' \<noteq> str ''exit-status''"
  "OPENSSH_HOST_KEYS \<noteq> OPENSSH_KEEP_ALIVE"
  "OPENSSH_AGENT_CONNECT \<noteq> SSH_CHANNEL_TYPE_FORWARDED_TCP_IP"
  "SSH_CHANNEL_TYPE_X11 \<noteq> SSH_CHANNEL_TYPE_FORWARDED_TCP_IP"
  "SSH_CHANNEL_TYPE_X11 \<noteq> SSH_CHANNEL_TYPE_AGENT_CONNECT"
  "SSH_CHANNEL_TYPE_X11 \<noteq> OPENSSH_AGENT_CONNECT"
  "OPENSSH_FORWARDED_STREAM_LOCAL \<noteq> SSH_CHANNEL_TYPE_FORWARDED_TCP_IP"
  "OPENSSH_FORWARDED_STREAM_LOCAL \<noteq> SSH_CHANNEL_TYPE_AGENT_CONNECT"
  "OPENSSH_FORWARDED_STREAM_LOCAL \<noteq> OPENSSH_AGENT_CONNECT"
  "OPENSSH_FORWARDED_STREAM_LOCAL \<noteq> SSH_CHANNEL_TYPE_X11"
  by (simp_all add: wire_names)

lemma names_wf [simp]:
  "fits (str ''xon-xoff'')" "fits (str ''exit-status'')" "fits (str ''exit-signal'')"
  "wf_str OPENSSH_KEEP_ALIVE" "wf_str OPENSSH_HOST_KEYS" "wf_str OPENSSH_AGENT_CONNECT"
  "wf_str SSH_CHANNEL_TYPE_X11" "wf_str SSH_CHANNEL_TYPE_FORWARDED_TCP_IP"
  "wf_str OPENSSH_FORWARDED_STREAM_LOCAL"
  by (simp_all add: wire_names fits_def wf_str_def)

section \<open>Round trips\<close>

lemma Message_parse_encoded:
  assumes "decodes (Message_parse_from (code # body) code) m body"
  shows "Message_parse (code # body) = Ok m"
proof -
  have "decodes (sbind consume_u8 (Message_parse_from (code # body))) m (code # body)"
    by (rule decodes_u8_Cons) (rule assms)
  from decodes_new [OF this, of "[]"] show ?thesis by (simp add: Message_parse_def)
qed

text \<open>Which messages have an encoding that is read back as the same message.\<close>

fun wf_message :: "message \<Rightarrow> bool" where
  "wf_message (Debug d m l) = (wf_str m \<and> wf_str l)"
| "wf_message (ExtInfo _) = False"
| "wf_message (Ignore d) = fits d"
| "wf_message (ServiceAccept s) = wf_str s"
| "wf_message (Disconnect r d l) = (wf_str d \<and> wf_str l)"
| "wf_message (AuthenticationFailure ms p) =
     (ms \<noteq> [] \<and> (\<forall>m \<in> set ms. comma \<notin> set m) \<and> wf_str (join [comma] ms))"
| "wf_message (AuthenticationBanner m l) = (wf_str m \<and> wf_str l)"
| "wf_message (ChannelOpenFailureMsg r c d l) = (wf_str d \<and> wf_str l)"
| "wf_message (ChannelData r d) = fits d"
| "wf_message (ChannelExtendedData r t d) = fits d"
| "wf_message (ChannelExitSignal r w s c e l) = (wf_str s \<and> wf_str e \<and> wf_str l)"
| "wf_message (ChannelOpenForwardedTcpIp s w p ca cp oa op) = (wf_str ca \<and> wf_str oa)"
| "wf_message (ChannelOpenX11 s w p oa op) = wf_str oa"
| "wf_message (ChannelOpenForwardedStreamLocal s w p path res) = (wf_str path \<and> wf_str res)"
| "wf_message (ChannelOpenUnknown s t) =
     (wf_str t \<and> t \<notin> {SSH_CHANNEL_TYPE_FORWARDED_TCP_IP, SSH_CHANNEL_TYPE_AGENT_CONNECT,
        OPENSSH_AGENT_CONNECT, SSH_CHANNEL_TYPE_X11, OPENSSH_FORWARDED_STREAM_LOCAL})"
| "wf_message (ChannelUnknownRequest r t w) =
     (wf_str t \<and> t \<notin> {str ''xon-xoff'', str ''exit-status'', str ''exit-signal''})"
| "wf_message (GlobalRequestHostKeysOpenSSH w ks) = (\<forall>k \<in> set ks. fits k)"
| "wf_message (GlobalUnknownRequest w t) =
     (wf_str t \<and> t \<noteq> OPENSSH_KEEP_ALIVE \<and> t \<noteq> OPENSSH_HOST_KEYS)"
| "wf_message (Ping d) = fits d"
| "wf_message (Pong d) = fits d"
| "wf_message (Unrecognized c d) =
     (\<exists>r. d = c # r \<and> c \<notin> {1, 2, 3, 4, 6, 7, 51, 52, 53, 80, 81, 82, 90, 91, 92, 93, 94, 95, 96,
        97, 98, 99, 100, 192, 193})"
| "wf_message m = True"

lemmas message_parsers =
  parse_debug_def parse_disconnect_def parse_banner_def parse_auth_failure_def
  parse_open_confirmation_def parse_open_failure_def parse_channel_data_def
  parse_channel_extended_data_def parse_window_adjust_def

lemma roundtrip_simple:
  "wf_str m \<Longrightarrow> wf_str l \<Longrightarrow> Message_parse (encode_message (Debug d m l)) = Ok (Debug d m l)"
  "fits b \<Longrightarrow> Message_parse (encode_message (Ignore b)) = Ok (Ignore b)"
  "wf_str s \<Longrightarrow> Message_parse (encode_message (ServiceAccept s)) = Ok (ServiceAccept s)"
  "wf_str m \<Longrightarrow> wf_str l \<Longrightarrow>
     Message_parse (encode_message (Disconnect n m l)) = Ok (Disconnect n m l)"
  "Message_parse (encode_message (Unimplemented n)) = Ok (Unimplemented n)"
  "Message_parse (encode_message AuthenticationSuccess) = Ok AuthenticationSuccess"
  "wf_str m \<Longrightarrow> wf_str l \<Longrightarrow>
     Message_parse (encode_message (AuthenticationBanner m l)) = Ok (AuthenticationBanner m l)"
  "Message_parse (encode_message RequestSuccess) = Ok RequestSuccess"
  "Message_parse (encode_message RequestFailureMsg) = Ok RequestFailureMsg"
  "fits b \<Longrightarrow> Message_parse (encode_message (Ping b)) = Ok (Ping b)"
  "fits b \<Longrightarrow> Message_parse (encode_message (Pong b)) = Ok (Pong b)"
  by (auto simp: Message_parse_from_def message_parsers
      intro!: Message_parse_encoded dec_rules)

lemma roundtrip_channel:
  "Message_parse (encode_message (ChannelOpenConfirmation r c w p)) =
     Ok (ChannelOpenConfirmation r c w p)"
  "wf_str m \<Longrightarrow> wf_str l \<Longrightarrow> Message_parse (encode_message (ChannelOpenFailureMsg r c m l)) =
     Ok (ChannelOpenFailureMsg r c m l)"
  "Message_parse (encode_message (ChannelSuccess r)) = Ok (ChannelSuccess r)"
  "Message_parse (encode_message (ChannelFailureMsg r)) = Ok (ChannelFailureMsg r)"
  "fits d \<Longrightarrow> Message_parse (encode_message (ChannelData r d)) = Ok (ChannelData r d)"
  "fits d \<Longrightarrow> Message_parse (encode_message (ChannelExtendedData r t d)) =
     Ok (ChannelExtendedData r t d)"
  "Message_parse (encode_message (ChannelWindowAdjust r n)) = Ok (ChannelWindowAdjust r n)"
  "Message_parse (encode_message (ChannelEof r)) = Ok (ChannelEof r)"
  "Message_parse (encode_message (ChannelClose r)) = Ok (ChannelClose r)"
  by (auto simp: Message_parse_from_def message_parsers intro!: Message_parse_encoded dec_rules)

lemma roundtrip_auth_failure:
  assumes "wf_message (AuthenticationFailure ms p)"
  shows "Message_parse (encode_message (AuthenticationFailure ms p)) = Ok (AuthenticationFailure ms p)"
proof -
  have s: "split_on comma (join [comma] ms) = ms"
    using assms by (simp add: split_join)
  have "decodes parse_auth_failure (AuthenticationFailure (split_on comma (join [comma] ms)) p)
      (one (join [comma] ms) @ [u8_of_bool p])"
    unfolding parse_auth_failure_def using assms by (auto intro!: dec_rules)
  then show ?thesis
    by (auto simp: Message_parse_from_def s intro!: Message_parse_encoded)
qed

lemma roundtrip_channel_request:
  "Message_parse (encode_message (ChannelFlowControl r w on)) = Ok (ChannelFlowControl r w on)"
  "Message_parse (encode_message (ChannelExitStatus r w n)) = Ok (ChannelExitStatus r w n)"
  "wf_str sg \<Longrightarrow> wf_str e \<Longrightarrow> wf_str l \<Longrightarrow>
     Message_parse (encode_message (ChannelExitSignal r w sg c e l)) =
       Ok (ChannelExitSignal r w sg c e l)"
  by (auto simp: Message_parse_from_def parse_channel_request_def names_distinct simp del: str_simps
      intro!: Message_parse_encoded dec_rules)

lemma roundtrip_unknown_request:
  assumes "wf_message (ChannelUnknownRequest r t w)"
  shows "Message_parse (encode_message (ChannelUnknownRequest r t w)) =
    Ok (ChannelUnknownRequest r t w)"
proof -
  have t: "from_utf8 t = Ok t" and f: "fits t"
    using assms by (auto simp: wf_str_def from_utf8_def)
  have *: "sbind (slift (from_utf8 t)) g = g t" for g :: "bytes \<Rightarrow> (consumer, message) sr"
    by (rule ext) (simp add: t sr_defs sbind_def)
  have "decodes parse_channel_request (ChannelUnknownRequest r t w)
      (u32_to_be r @ one t @ [u8_of_bool w])"
    using assms f unfolding parse_channel_request_def
    by (auto simp: * simp del: str_simps intro!: dec_rules)
  then show ?thesis
    by (auto simp: Message_parse_from_def intro!: Message_parse_encoded)
qed

lemma roundtrip_channel_open:
  "wf_str a \<Longrightarrow> wf_str b \<Longrightarrow>
     Message_parse (encode_message (ChannelOpenForwardedTcpIp s w p a n b n')) =
       Ok (ChannelOpenForwardedTcpIp s w p a n b n')"
  "Message_parse (encode_message (ChannelOpenAgentConnect s w p)) = Ok (ChannelOpenAgentConnect s w p)"
  "wf_str a \<Longrightarrow> Message_parse (encode_message (ChannelOpenX11 s w p a n)) =
     Ok (ChannelOpenX11 s w p a n)"
  "wf_str a \<Longrightarrow> wf_str b \<Longrightarrow>
     Message_parse (encode_message (ChannelOpenForwardedStreamLocal s w p a b)) =
       Ok (ChannelOpenForwardedStreamLocal s w p a b)"
  "wf_message (ChannelOpenUnknown s t) \<Longrightarrow>
     Message_parse (encode_message (ChannelOpenUnknown s t)) = Ok (ChannelOpenUnknown s t)"
  by (auto simp: Message_parse_from_def parse_channel_open_def names_distinct
      intro!: Message_parse_encoded dec_rules)

text \<open>
  The host-key list has no count: it ends with the payload. So it is read back only when
  nothing follows, which is how it is sent.
\<close>

lemma consume_all_ones_encoded:
  "\<forall>k \<in> set ks. fits k \<Longrightarrow> consumer_ok c \<Longrightarrow> peek c = concat (map one ks) \<Longrightarrow>
   fst (consume_all_ones c) = Ok ks"
proof (induction ks arbitrary: c)
  case Nil
  then show ?case by (simp add: consume_all_ones.simps)
next
  case (Cons k ks)
  let ?c' = "c\<lparr>pos := pos c + length (one k)\<rparr>"
  from Cons.prems have one: "consume_one c = (Ok k, ?c')"
    by (intro decodesD [OF decodes_one]) simp_all
  have "peek ?c' = concat (map one ks)"
    using Cons.prems by (simp only: peek_advance) simp
  moreover have "consumer_ok ?c'"
    using Cons.prems by (intro advance_ok) simp_all
  ultimately have ih: "fst (consume_all_ones ?c') = Ok ks"
    using Cons by simp
  have "peek c \<noteq> []" using Cons.prems by (auto simp: one_def u32_to_be_def)
  with one ih show ?case
    by (subst consume_all_ones.simps) (auto split: prod.split)
qed

text \<open>A parser whose last step depends on the end of the data.\<close>

definition decodes_to_end :: "(consumer, 'a) sr \<Rightarrow> 'a \<Rightarrow> bytes \<Rightarrow> bool" where
  "decodes_to_end m x bs \<longleftrightarrow> (\<forall>c. consumer_ok c \<longrightarrow> peek c = bs \<longrightarrow> fst (m c) = Ok x)"

lemma decodes_to_end_bind:
  assumes "decodes m x b1" and "decodes_to_end (f x) y b2"
  shows "decodes_to_end (sbind m f) y (b1 @ b2)"
  unfolding decodes_to_end_def
proof (intro allI impI)
  fix c assume c: "consumer_ok c" and p: "peek c = b1 @ b2"
  then have m: "m c = (Ok x, c\<lparr>pos := pos c + length b1\<rparr>)"
    by (rule decodesD [OF assms(1)])
  have "consumer_ok (c\<lparr>pos := pos c + length b1\<rparr>)"
    using c p by (intro advance_ok) simp_all
  moreover have "peek (c\<lparr>pos := pos c + length b1\<rparr>) = b2"
    unfolding peek_advance p by simp
  ultimately show "fst (sbind m f c) = Ok y"
    using assms(2) m by (simp add: decodes_to_end_def)
qed

lemma decodes_to_end_map:
  assumes "decodes_to_end m x b"
  shows "decodes_to_end (sbind m (\<lambda>x. sreturn (g x))) (g x) b"
  unfolding decodes_to_end_def
proof (intro allI impI)
  fix c assume "consumer_ok c" and "peek c = b"
  then have "fst (m c) = Ok x" using assms by (simp add: decodes_to_end_def)
  then show "fst (sbind m (\<lambda>x. sreturn (g x)) c) = Ok (g x)"
    by (cases "m c") (simp add: sreturn_def)
qed

lemma roundtrip_host_keys:
  assumes "\<forall>k \<in> set ks. fits k"
  shows "Message_parse (encode_message (GlobalRequestHostKeysOpenSSH w ks)) =
    Ok (GlobalRequestHostKeysOpenSSH w ks)"
proof -
  let ?d = "encode_message (GlobalRequestHostKeysOpenSSH w ks)"
  have keys: "decodes_to_end (sbind consume_all_ones (\<lambda>ks. sreturn (GlobalRequestHostKeysOpenSSH w ks)))
      (GlobalRequestHostKeysOpenSSH w ks) (concat (map one ks))"
    by (rule decodes_to_end_map)
      (simp add: decodes_to_end_def consume_all_ones_encoded [OF assms])
  have "decodes_to_end parse_global_request (GlobalRequestHostKeysOpenSSH w ks)
      (one OPENSSH_HOST_KEYS @ [u8_of_bool w] @ concat (map one ks))"
    unfolding parse_global_request_def
    by (rule decodes_to_end_bind [OF decodes_str], simp)
      (rule decodes_to_end_bind [OF decodes_bool], simp add: names_distinct keys)
  then have "decodes_to_end (Message_parse_from ?d SSH_MSG_GLOBAL_REQUEST)
      (GlobalRequestHostKeysOpenSSH w ks) (one OPENSSH_HOST_KEYS @ [u8_of_bool w] @ concat (map one ks))"
    by (simp add: Message_parse_from_def)
  from decodes_to_end_bind [OF decodes_u8, of "Message_parse_from ?d" SSH_MSG_GLOBAL_REQUEST, OF this]
  show ?thesis by (simp add: Message_parse_def decodes_to_end_def)
qed

lemma roundtrip_global_request:
  "Message_parse (encode_message (GlobalRequestKeepAliveOpenSSH w)) =
     Ok (GlobalRequestKeepAliveOpenSSH w)"
  "wf_message (GlobalUnknownRequest w t) \<Longrightarrow>
     Message_parse (encode_message (GlobalUnknownRequest w t)) = Ok (GlobalUnknownRequest w t)"
  by (auto simp: Message_parse_from_def parse_global_request_def names_distinct
      intro!: Message_parse_encoded dec_rules)

lemma roundtrip_unrecognized:
  assumes "wf_message (Unrecognized c d)"
  shows "Message_parse (encode_message (Unrecognized c d)) = Ok (Unrecognized c d)"
proof -
  from assms obtain r where d: "d = c # r" by auto
  have "decodes (Message_parse_from (c # r) c) (Unrecognized c (c # r)) []"
    using assms d by (simp add: Message_parse_from_def decodes_return)
  then show ?thesis
    using decodes_new [OF decodes_u8_Cons, of "Message_parse_from (c # r)" c "Unrecognized c (c # r)" "[]" r]
    by (simp add: Message_parse_def d)
qed

lemma decodes_extension:
  "wf_str (fst kv) \<and> fits (snd kv) \<Longrightarrow>
   decodes consume_extension kv (one (fst kv) @ one (snd kv))"
  unfolding consume_extension_def by (cases kv) (auto intro!: dec_rules)

lemma safe_consume_extension [safe_rules]: "safe consumer_ok consume_extension"
  unfolding consume_extension_def by (intro safe_rules)

interpretation extension_codec: codec "\<lambda>kv. one (fst kv) @ one (snd kv)" consume_extension
    "\<lambda>kv. wf_str (fst kv) \<and> fits (snd kv)"
  by unfold_locales (erule decodes_extension, rule safe_consume_extension)

definition encode_ext_info :: "(bytes \<times> bytes) list \<Rightarrow> bytes" where
  "encode_ext_info kvs =
     SSH_MSG_EXT_INFO # u32_to_be (as_u32 (length kvs)) @
       concat (map (\<lambda>kv. one (fst kv) @ one (snd kv)) kvs)"

lemma insert_all_map_of: "insert_all kvs m = m ++ map_of (rev kvs)"
  unfolding insert_all_def
  by (induction kvs arbitrary: m) (auto simp: map_add_def fun_eq_iff split: option.split)

lemma roundtrip_ext_info:
  assumes "\<forall>kv \<in> set kvs. wf_str (fst kv) \<and> fits (snd kv)" and "length kvs < 2 ^ 32"
  shows "Message_parse (encode_ext_info kvs) = Ok (ExtInfo (map_of (rev kvs)))"
proof -
  have "decodes parse_ext_info (ExtInfo (insert_all kvs Map.empty))
      (u32_to_be (as_u32 (length kvs)) @ concat (map (\<lambda>kv. one (fst kv) @ one (snd kv)) kvs))"
    unfolding parse_ext_info_def using assms
    by (intro dec_rules decodes_map) (simp add: extension_codec.list_dec_enc)
  then have "Message_parse (encode_ext_info kvs) = Ok (ExtInfo (insert_all kvs Map.empty))"
    unfolding encode_ext_info_def
    by (intro Message_parse_encoded) (simp add: Message_parse_from_def)
  then show ?thesis by (simp add: insert_all_map_of)
qed

text \<open>Every message a conforming server encodes is read back as that message.\<close>

lemma Message_parse_encode: "wf_message m \<Longrightarrow> Message_parse (encode_message m) = Ok m"
proof (cases m)
  case (AuthenticationFailure ms p)
  then show "wf_message m \<Longrightarrow> ?thesis" using roundtrip_auth_failure by simp
next
  case (ChannelUnknownRequest r t w)
  then show "wf_message m \<Longrightarrow> ?thesis" using roundtrip_unknown_request by simp
next
  case (ChannelOpenUnknown s t)
  then show "wf_message m \<Longrightarrow> ?thesis" using roundtrip_channel_open(5) [of s t] by simp
next
  case (GlobalRequestHostKeysOpenSSH w ks)
  then show "wf_message m \<Longrightarrow> ?thesis" using roundtrip_host_keys by simp
next
  case (GlobalUnknownRequest w t)
  then show "wf_message m \<Longrightarrow> ?thesis" using roundtrip_global_request(2) [of w t] by simp
next
  case (Unrecognized c d)
  then show "wf_message m \<Longrightarrow> ?thesis" using roundtrip_unrecognized by simp
qed (simp_all add: roundtrip_simple roundtrip_channel roundtrip_channel_request
    roundtrip_channel_open roundtrip_global_request del: encode_message.simps)

section \<open>No input makes the parser panic\<close>

lemma safe_consume_bool [safe_rules]: "safe consumer_ok consume_bool"
  unfolding consume_bool_def by (intro safe_rules)

lemma safe_consume_all_ones [safe_rules]: "safe consumer_ok consume_all_ones"
proof (rule safeI)
  fix c :: consumer assume "consumer_ok c"
  then show "consumer_ok (snd (consume_all_ones c)) \<and> fst (consume_all_ones c) \<noteq> Panic"
  proof (induction c rule: consume_all_ones.induct)
    case (1 c)
    obtain r c' where one: "consume_one c = (r, c')" by (cases "consume_one c")
    with 1(2) have ok: "consumer_ok c'" and np: "r \<noteq> Panic"
      using safe_state [OF safe_consume_one, of c] safe_no_panic [OF safe_consume_one, of c] by auto
    show ?case
    proof (cases "peek c = []")
      case True
      with 1(2) show ?thesis by (simp add: consume_all_ones.simps [of c])
    next
      case ne: False
      show ?thesis
      proof (cases r)
        case (Ok k)
        with 1(1) [OF ne one [symmetric]] ok
        have "consumer_ok (snd (consume_all_ones c')) \<and> fst (consume_all_ones c') \<noteq> Panic"
          by simp
        with ne one Ok show ?thesis
          by (auto simp: consume_all_ones.simps [of c] split: prod.split res.split)
      qed (use ne one ok np in \<open>auto simp: consume_all_ones.simps [of c]\<close>)
    qed
  qed
qed

lemmas all_parsers =
  message_parsers parse_ext_info_def parse_channel_request_def parse_global_request_def
  parse_channel_open_def

lemma safe_Message_parse_from: "safe consumer_ok (Message_parse_from data code)"
  unfolding Message_parse_from_def all_parsers
  by (intro safe_rules from_utf8_not_Panic)

lemma Message_parse_no_panic: "Message_parse data \<noteq> Panic"
  unfolding Message_parse_def
  by (rule safe_no_panic [where P = consumer_ok])
    (intro safe_rules safe_Message_parse_from, simp)

section \<open>Packet parsing\<close>

lemma consume_bytes_run:
  "consumer_ok c \<Longrightarrow> n \<le> length (peek c) \<Longrightarrow>
   consume_bytes n c = (Ok (take n (peek c)), c\<lparr>pos := pos c + n\<rparr>)"
  by (simp add: consume_bytes_def sr_defs consume_run)

lemma Packet_parse_eq:
  "Packet_parse data =
     (case data of
        [] \<Rightarrow> Err (unexpected_end ''u8'')
      | p # body \<Rightarrow>
          if length body \<le> unat p then Err (InvalidFormat ''Unexpected padding length'')
          else Ok \<lparr>payload = take (length body - unat p) body,
                  padding = drop (length body - unat p) body\<rparr>)"
proof (cases data)
  case Nil
  then show ?thesis
    by (simp add: Packet_parse_def consume_u8_def peek_def consumer_new_def sbind_def sr_defs)
next
  case (Cons p body)
  have u8: "consume_u8 (consumer_new data) = (Ok p, \<lparr>cdata = data, pos = 1\<rparr>)"
    using decodes_new [OF decodes_u8, of p body] Cons by simp
  show ?thesis
  proof (cases "length body \<le> unat p")
    case True
    with Cons u8 show ?thesis by (simp add: Packet_parse_def sr_defs)
  next
    case False
    let ?n = "length body - unat p"
    have c1: "consumer_ok \<lparr>cdata = data, pos = 1\<rparr>" "peek \<lparr>cdata = data, pos = 1\<rparr> = body"
      by (simp_all add: consumer_ok_def peek_def Cons)
    have b1: "consume_bytes ?n \<lparr>cdata = data, pos = 1\<rparr> =
        (Ok (take ?n body), \<lparr>cdata = data, pos = 1 + ?n\<rparr>)"
      using consume_bytes_run [OF c1(1), of ?n] c1(2) by simp
    have c2: "consumer_ok \<lparr>cdata = data, pos = 1 + ?n\<rparr>"
      "peek \<lparr>cdata = data, pos = 1 + ?n\<rparr> = drop ?n body"
      using False by (simp_all add: consumer_ok_def peek_def Cons)
    have b2: "consume_bytes (unat p) \<lparr>cdata = data, pos = 1 + ?n\<rparr> =
        (Ok (drop ?n body), \<lparr>cdata = data, pos = 1 + ?n + unat p\<rparr>)"
      using consume_bytes_run [OF c2(1), of "unat p"] c2(2) False by simp
    show ?thesis
      using False u8 b1 b2 c1(2) Cons by (simp add: Packet_parse_def sr_defs)
  qed
qed

end
