(* ===== verification/Streams.thy ===== *)
theory Streams
  imports Messages
begin

text \<open>
  The buffered socket of \<open>src/stream.rs\<close> and the plain packet stream of \<open>src/ssh/stream.rs\<close>,
  used during the first key exchange, with the contract \<open>payload_sender\<close> that both packet
  streams keep. The random padding is an argument of the definitions.
\<close>

section \<open>The buffered socket\<close>

text \<open>
  The operating system's side of a connection: what successive reads deliver (an empty chunk,
  or no further chunk, is end of file), the bytes accepted so far, and how many bytes each
  further write call accepts (when the list is used up, all of them).
\<close>

record socket =
  inbound :: "bytes list"
  outbound :: bytes
  quotas :: "nat list"
  broken :: bool

record buffer_stream = socket +
  r_buf :: bytes
  w_buf :: bytes

definition unread :: "buffer_stream \<Rightarrow> bytes" where
  "unread s = r_buf s @ concat (inbound s)"

definition consume_read_buffer :: "nat \<Rightarrow> buffer_stream \<Rightarrow> buffer_stream" where
  "consume_read_buffer n s = s\<lparr>r_buf := drop n (r_buf s)\<rparr>"

definition bs_put_bytes :: "bytes \<Rightarrow> buffer_stream \<Rightarrow> buffer_stream" where
  "bs_put_bytes d s = s\<lparr>w_buf := w_buf s @ d\<rparr>"

text \<open>One \<open>write_buf\<close> call on the socket.\<close>

definition write_buf :: "(buffer_stream, nat) sr" where
  "write_buf s =
     (if broken s then (Err (IOError (IoOther ''write'')), s)
      else
        let n = (case quotas s of [] \<Rightarrow> length (w_buf s) | q # _ \<Rightarrow> min q (length (w_buf s)))
        in (Ok n, s\<lparr>outbound := outbound s @ take n (w_buf s), w_buf := drop n (w_buf s),
                    quotas := tl (quotas s)\<rparr>))"

definition bs_write :: "bytes \<Rightarrow> (buffer_stream, bool) sr" where
  "bs_write d = sbind (smodify (bs_put_bytes d)) (\<lambda>_.
     sbind (sget (\<lambda>s. length (w_buf s))) (\<lambda>len.
     sbind write_buf (\<lambda>n. sreturn (n = len))))"

function flush :: "(buffer_stream, unit) sr" where
  "flush s =
     (if w_buf s = [] then (Ok (), s)
      else (case write_buf s of
          (Ok n, s') \<Rightarrow> flush s'
        | (Err e, s') \<Rightarrow> (Err e, s')
        | (Panic, s') \<Rightarrow> (Panic, s')))"
  by pat_completeness auto
termination
  by (relation "measure (\<lambda>s. length (quotas s) + length (w_buf s))")
    (auto simp: write_buf_def Let_def split: if_splits list.splits)

declare flush.simps [simp del]

definition internal_read :: "(buffer_stream, nat) sr" where
  "internal_read s =
     (case inbound s of
        [] \<Rightarrow> (Err (IOError UnexpectedEof), s)
      | c # cs \<Rightarrow>
          let s' = s\<lparr>inbound := cs, r_buf := r_buf s @ c\<rparr>
          in if c = [] then (Err (IOError UnexpectedEof), s') else (Ok (length c), s'))"

lemma internal_read_shrinks:
  "internal_read s = (Ok n, s') \<Longrightarrow> length (inbound s') < length (inbound s)"
  by (auto simp: internal_read_def Let_def split: list.splits if_splits)

function fill :: "nat \<Rightarrow> (buffer_stream, bytes) sr" where
  "fill n s =
     (if n \<le> length (r_buf s) then (Ok (take n (r_buf s)), s)
      else (case internal_read s of
          (Ok _, s') \<Rightarrow> fill n s'
        | (Err e, s') \<Rightarrow> (Err e, s')
        | (Panic, s') \<Rightarrow> (Panic, s')))"
  by pat_completeness auto
termination
  by (relation "measure (\<lambda>(n, s). length (inbound s))")
    (auto dest!: internal_read_shrinks [OF sym])

declare fill.simps [simp del]

text \<open>
  \<open>read_line_crlf\<close>: scan the buffer for CR LF from the start; \<open>crlf_scan\<close> is the \<open>for\<close>
  loop over one buffer content, \<open>None\<close> when it ends without a decision.
\<close>

fun crlf_scan :: "nat \<Rightarrow> nat \<Rightarrow> bytes \<Rightarrow> nat res option" where
  "crlf_scan limit i [] = None"
| "crlf_scan limit i (b # bs) =
     (if i = limit - 1 then Some (Err (IOError (IoOther ''Read line error'')))
      else if b = 13 \<and> bs \<noteq> [] \<and> hd bs = 10 then Some (Ok (i + 2))
      else crlf_scan limit (Suc i) bs)"

function read_crlf_loop :: "nat \<Rightarrow> (buffer_stream, bytes) sr" where
  "read_crlf_loop limit s =
     (case crlf_scan limit 0 (r_buf s) of
        Some (Ok n) \<Rightarrow> (Ok (take n (r_buf s)), s\<lparr>r_buf := drop n (r_buf s)\<rparr>)
      | Some (Err e) \<Rightarrow> (Err e, s)
      | Some Panic \<Rightarrow> (Panic, s)
      | None \<Rightarrow>
          (case internal_read s of
             (Ok _, s') \<Rightarrow> read_crlf_loop limit s'
           | (Err e, s') \<Rightarrow> (Err e, s')
           | (Panic, s') \<Rightarrow> (Panic, s')))"
  by pat_completeness auto
termination
  by (relation "measure (\<lambda>(limit, s). length (inbound s))")
    (auto dest!: internal_read_shrinks [OF sym])

declare read_crlf_loop.simps [simp del]

definition read_line_crlf :: "nat \<Rightarrow> (buffer_stream, bytes) sr" where
  "read_line_crlf limit =
     (if limit < 2 then sfail (IOError (IoOther ''line ending with crlf size must >= 2''))
      else read_crlf_loop limit)"

subsection \<open>Chunking and partial writes do not matter\<close>

lemma write_buf_Ok:
  "\<not> broken s \<Longrightarrow> \<exists>n t. write_buf s = (Ok n, t) \<and> \<not> broken t \<and>
     outbound t @ w_buf t = outbound s @ w_buf s \<and>
     (\<forall>o' q. t\<lparr>outbound := o', w_buf := [], quotas := q\<rparr> =
        s\<lparr>outbound := o', w_buf := [], quotas := q\<rparr>)"
  by (simp add: write_buf_def Let_def)

lemma flush_result:
  "\<not> broken s \<Longrightarrow>
   \<exists>q. flush s = (Ok (), s\<lparr>outbound := outbound s @ w_buf s, w_buf := [], quotas := q\<rparr>)"
proof (induction s rule: flush.induct)
  case (1 s)
  show ?case
  proof (cases "w_buf s = []")
    case True
    then show ?thesis
      by (intro exI [of _ "quotas s"]) (simp add: flush.simps)
  next
    case False
    obtain n s' where w: "write_buf s = (Ok n, s')" and nb: "\<not> broken s'"
      and cat: "outbound s' @ w_buf s' = outbound s @ w_buf s"
      and fr: "\<And>o' q. s'\<lparr>outbound := o', w_buf := [], quotas := q\<rparr> =
        s\<lparr>outbound := o', w_buf := [], quotas := q\<rparr>"
      using write_buf_Ok [OF 1(2)] by blast
    from 1(1) [OF False w [symmetric] refl nb] obtain q where
      "flush s' = (Ok (), s'\<lparr>outbound := outbound s' @ w_buf s', w_buf := [], quotas := q\<rparr>)"
      by blast
    with False w cat fr show ?thesis
      by (intro exI [of _ q]) (simp add: flush.simps [of s])
  qed
qed

lemma fill_Ok:
  "fill n s = (Ok bs, s') \<Longrightarrow>
   bs = take n (unread s) \<and> unread s' = unread s \<and> n \<le> length (r_buf s') \<and>
   w_buf s' = w_buf s \<and> outbound s' = outbound s \<and> quotas s' = quotas s \<and> broken s' = broken s"
proof (induction n s rule: fill.induct)
  case (1 n s)
  show ?case
  proof (cases "n \<le> length (r_buf s)")
    case True
    with 1(2) show ?thesis by (auto simp: fill.simps [of n s] unread_def)
  next
    case False
    with 1(2) obtain k t where r: "internal_read s = (Ok k, t)" and f: "fill n t = (Ok bs, s')"
      by (auto simp: fill.simps [of n s] split: prod.splits res.splits)
    from r have "unread t = unread s" "w_buf t = w_buf s" "outbound t = outbound s"
      "quotas t = quotas s" "broken t = broken s"
      by (auto simp: internal_read_def unread_def Let_def split: list.splits if_splits)
    with 1(1) [OF False r [symmetric] refl f] show ?thesis by simp
  qed
qed

lemma fill_succeeds:
  "[] \<notin> set (inbound s) \<Longrightarrow> n \<le> length (unread s) \<Longrightarrow> \<exists>bs s'. fill n s = (Ok bs, s') \<and> [] \<notin> set (inbound s')"
proof (induction n s rule: fill.induct)
  case (1 n s)
  show ?case
  proof (cases "n \<le> length (r_buf s)")
    case True
    with 1(2) show ?thesis by (simp add: fill.simps [of n s])
  next
    case False
    with 1(3) obtain c cs where i: "inbound s = c # cs"
      by (cases "inbound s") (auto simp: unread_def)
    with 1(2) have r: "internal_read s = (Ok (length c), s\<lparr>inbound := cs, r_buf := r_buf s @ c\<rparr>)"
      by (auto simp: internal_read_def)
    let ?t = "s\<lparr>inbound := cs, r_buf := r_buf s @ c\<rparr>"
    have "[] \<notin> set (inbound ?t)" "n \<le> length (unread ?t)"
      using 1(2,3) i by (auto simp: unread_def)
    from 1(1) [OF False r [symmetric] refl this] show ?thesis
      using False r by (simp add: fill.simps [of n s])
  qed
qed

section \<open>Plain packets\<close>

record endpoint =
  kex_strict :: bool
  ext :: bool
  sequence_number :: u32

record endpoints =
  client :: endpoint
  server :: endpoint

record plain_stream = endpoints +
  psock :: buffer_stream

definition endpoint_default :: endpoint where
  "endpoint_default = \<lparr>kex_strict = False, ext = False, sequence_number = 0\<rparr>"

definition plain_new :: "buffer_stream \<Rightarrow> plain_stream" where
  "plain_new sock = \<lparr>client = endpoint_default, server = endpoint_default, psock = sock\<rparr>"

abbreviation on_psock :: "(buffer_stream, 'a) sr \<Rightarrow> (plain_stream, 'a) sr" where
  "on_psock \<equiv> zoom psock (\<lambda>t s. s\<lparr>psock := t\<rparr>)"

definition bump_client :: "bool \<Rightarrow> 'z endpoints_scheme \<Rightarrow> 'z endpoints_scheme" where
  "bump_client reset s =
     s\<lparr>client := (client s)\<lparr>sequence_number :=
        (if reset then 0 else sequence_number (client s) + 1)\<rparr>\<rparr>"

definition bump_server :: "bool \<Rightarrow> 'z endpoints_scheme \<Rightarrow> 'z endpoints_scheme" where
  "bump_server reset s =
     s\<lparr>server := (server s)\<lparr>sequence_number :=
        (if reset then 0 else sequence_number (server s) + 1)\<rparr>\<rparr>"

definition strict :: "'z endpoints_scheme \<Rightarrow> bool" where
  "strict s \<longleftrightarrow> kex_strict (client s) \<and> kex_strict (server s)"

text \<open>
  The padding length of a packet whose part before the padding that counts for alignment has
  \<open>n\<close> bytes: up to the next multiple of the block size, and at least \<open>MIN_PADDING_LENGTH\<close>.
\<close>

definition padding_for :: "nat \<Rightarrow> nat \<Rightarrow> nat" where
  "padding_for block n =
     (let p = block - n mod block in if p < MIN_PADDING_LENGTH then p + block else p)"

text \<open>\<open>rng.fill(..)\<close>: the padding bytes come from a supply \<open>rnd\<close>.\<close>

definition random_bytes :: "(nat \<Rightarrow> u8) \<Rightarrow> nat \<Rightarrow> bytes" where
  "random_bytes rnd n = map rnd [0..<n]"

definition frame :: "nat \<Rightarrow> nat \<Rightarrow> bytes \<Rightarrow> bytes \<Rightarrow> bytes" where
  "frame packet_len padding_len body pad =
     put_bytes pad (put_bytes body (put_u8 (as_u8 padding_len) (put_u32 (as_u32 packet_len) [])))"

definition plain_send_payload :: "(nat \<Rightarrow> u8) \<Rightarrow> bytes \<Rightarrow> (plain_stream, unit) sr" where
  "plain_send_payload rnd data =
     (if data = [] then spanic
      else sbind (sget (\<lambda>s. hd data = SSH_MSG_NEWKEYS \<and> strict s)) (\<lambda>reset.
        let payload_len = length data in
        if payload_len > MAX_PACKET_PAYLOAD_LENGTH
        then sfail (TransportError (PayloadTooLong MAX_PACKET_PAYLOAD_LENGTH payload_len))
        else
          let padding_len = padding_for 8 (4 + 1 + payload_len);
              packet_len = payload_len + padding_len + 1 in
          if packet_len + 4 > MAX_PACKET_LENGTH
          then sfail (TransportError (PacketTooLong MAX_PACKET_LENGTH (packet_len + 4)))
          else
            sbind (on_psock (bs_write (frame packet_len padding_len data
              (random_bytes rnd padding_len)))) (\<lambda>_.
            sbind (on_psock flush) (\<lambda>_.
            smodify (bump_client reset)))))"

definition plain_recv_packet :: "(plain_stream, packet) sr" where
  "plain_recv_packet =
     sbind (on_psock (fill 4)) (\<lambda>header.
     let size = unat (from_be header :: u32) in
     if size + 4 > MAX_PACKET_LENGTH
     then sfail (TransportError (PacketTooLong MAX_PACKET_LENGTH (size + 4)))
     else
       sbind (on_psock (fill (4 + size))) (\<lambda>data.
       sbind (slift (Packet_parse (drop 4 data))) (\<lambda>packet.
       sbind (smodify (\<lambda>s. s\<lparr>psock := consume_read_buffer (4 + size) (psock s)\<rparr>)) (\<lambda>_.
       sbind (smodify (bump_server False)) (\<lambda>_.
       if payload packet = [] then sfail (TransportError PayloadIsEmpty)
       else
         sbind (sget (\<lambda>s. hd (payload packet) = SSH_MSG_NEWKEYS \<and> strict s)) (\<lambda>reset.
         sbind (smodify (\<lambda>s. if reset then s\<lparr>server := (server s)\<lparr>sequence_number := 0\<rparr>\<rparr> else s)) (\<lambda>_.
         sreturn packet)))))))"

subsection \<open>Framing arithmetic\<close>

lemma padding_for_aligned:
  assumes "0 < block"
  shows "(n + padding_for block n) mod block = 0"
proof -
  have r: "n mod block < block" using assms by simp
  have n: "n = block * (n div block) + n mod block" by simp
  have "n + (block - n mod block) = block * (n div block) + block"
    using r n by linarith
  then have "(n + (block - n mod block)) mod block = 0"
    and "(n + (block - n mod block + block)) mod block = 0"
    by (simp_all flip: add.assoc)
  then show ?thesis
    by (cases "block - n mod block < MIN_PADDING_LENGTH")
      (simp_all only: padding_for_def Let_def if_True if_False)
qed

lemma padding_for_bounds:
  assumes "0 < block"
  shows "padding_for block n < block + 4" "0 < padding_for block n"
    "4 \<le> block \<Longrightarrow> 4 \<le> padding_for block n"
proof -
  obtain p where p: "p = block - n mod block" "0 < p" "p \<le> block"
    using assms by simp
  have "padding_for block n = (if p < 4 then p + block else p)"
    by (simp only: padding_for_def Let_def p(1) MIN_PADDING_LENGTH_def)
  with p(2,3) show "padding_for block n < block + 4" "0 < padding_for block n"
    "4 \<le> block \<Longrightarrow> 4 \<le> padding_for block n"
    by auto
qed

lemma length_random_bytes [simp]: "length (random_bytes rnd n) = n"
  by (simp add: random_bytes_def)

lemma frame_eq: "frame n k body pad = u32_to_be (as_u32 n) @ as_u8 k # body @ pad"
  by (simp add: frame_def put_bytes_def put_u8_def put_u32_def)

subsection \<open>One packet, sent and received\<close>

lemma write_flush_result:
  assumes "\<not> broken s"
  shows "\<exists>q. sbind (bs_write d) (\<lambda>_. flush) s =
    (Ok (), s\<lparr>outbound := outbound s @ w_buf s @ d, w_buf := [], quotas := q\<rparr>)"
proof -
  let ?s = "bs_put_bytes d s"
  obtain n t where n: "write_buf ?s = (Ok n, t)" and nb: "\<not> broken t"
    and cat': "outbound t @ w_buf t = outbound ?s @ w_buf ?s"
    and fr': "\<And>o' q. t\<lparr>outbound := o', w_buf := [], quotas := q\<rparr> =
      ?s\<lparr>outbound := o', w_buf := [], quotas := q\<rparr>"
    using write_buf_Ok [of ?s] assms by (auto simp: bs_put_bytes_def)
  have w: "bs_write d s = (Ok (n = length (w_buf ?s)), t)"
    using n by (simp add: bs_write_def sr_defs)
  have cat: "outbound t @ w_buf t = outbound s @ w_buf s @ d"
    using cat' by (simp add: bs_put_bytes_def)
  have fr: "\<And>o' q. t\<lparr>outbound := o', w_buf := [], quotas := q\<rparr> =
      s\<lparr>outbound := o', w_buf := [], quotas := q\<rparr>"
    using fr' by (simp add: bs_put_bytes_def)
  obtain q where "flush t = (Ok (), t\<lparr>outbound := outbound t @ w_buf t, w_buf := [], quotas := q\<rparr>)"
    using flush_result [OF nb] by blast
  with w cat fr show ?thesis by (intro exI [of _ q]) simp
qed

text \<open>What a successful send appends to the socket, and how it moves the sequence number.\<close>

definition plain_frame :: "(nat \<Rightarrow> u8) \<Rightarrow> bytes \<Rightarrow> bytes" where
  "plain_frame rnd data =
     (let k = padding_for 8 (5 + length data)
      in frame (length data + k + 1) k data (random_bytes rnd k))"

lemma plain_padding_bounds:
  "4 \<le> padding_for 8 n" "padding_for 8 n < 12"
  using padding_for_bounds [of 8 n] by simp_all

lemma plain_send_Ok:
  assumes "data \<noteq> []" "length data \<le> 32768" "\<not> broken (psock p)"
  shows "\<exists>q. plain_send_payload rnd data p =
    (Ok (), bump_client (hd data = SSH_MSG_NEWKEYS \<and> strict p)
       (p\<lparr>psock := (psock p)\<lparr>outbound := outbound (psock p) @ w_buf (psock p) @ plain_frame rnd data,
          w_buf := [], quotas := q\<rparr>\<rparr>))"
proof -
  let ?k = "padding_for 8 (5 + length data)"
  let ?f = "frame (length data + ?k + 1) ?k data (random_bytes rnd ?k)"
  obtain q where q: "sbind (bs_write ?f) (\<lambda>_. flush) (psock p) =
    (Ok (), (psock p)\<lparr>outbound := outbound (psock p) @ w_buf (psock p) @ ?f, w_buf := [], quotas := q\<rparr>)"
    using write_flush_result [OF assms(3)] by blast
  then obtain b t where bt: "bs_write ?f (psock p) = (Ok b, t)" "flush t =
    (Ok (), (psock p)\<lparr>outbound := outbound (psock p) @ w_buf (psock p) @ ?f, w_buf := [], quotas := q\<rparr>)"
    by (auto simp: sbind_Ok_iff)
  have "\<not> length data + ?k + 1 + 4 > 262144" "\<not> length data > 32768"
    using assms(2) plain_padding_bounds(2) [of "5 + length data"] by simp_all
  then show ?thesis using assms(1) bt
    by (intro exI [of _ q])
      (simp add: plain_send_payload_def plain_frame_def Let_def sr_defs del: One_nat_def)
qed

lemma take_drop_frame:
  assumes "length pad = k" "k < 256" "data \<noteq> []" "length data + k + 5 \<le> 262144"
  shows "Packet_parse (drop 4 (frame (length data + k + 1) k data pad)) =
    Ok \<lparr>payload = data, padding = pad\<rparr>"
  using assms by (simp add: frame_eq Packet_parse_eq)

lemma plain_recv_frame:
  assumes "length pad = k" "k < 256" "data \<noteq> []" "length data + k + 5 \<le> 262144"
    and "unread (psock q) = frame (length data + k + 1) k data pad @ rest"
    and "[] \<notin> set (inbound (psock q))"
  shows "\<exists>q'. plain_recv_packet q = (Ok \<lparr>payload = data, padding = pad\<rparr>, q') \<and>
    unread (psock q') = rest \<and> [] \<notin> set (inbound (psock q')) \<and> client q' = client q \<and>
    server q' = server (bump_server (hd data = SSH_MSG_NEWKEYS \<and> strict q) q)"
proof -
  let ?n = "length data + k + 1"
  let ?f = "frame ?n k data pad"
  have lf: "length ?f = 4 + ?n" using assms(1) by (simp add: frame_eq)
  obtain s1 where s1: "fill 4 (psock q) = (Ok (take 4 (unread (psock q))), s1)"
      "unread s1 = unread (psock q)" "[] \<notin> set (inbound s1)"
    using fill_succeeds [OF assms(6), of 4] assms(5) lf fill_Ok
    by (metis (no_types, lifting) le_add1 length_append trans_le_add1)
  have hdr: "take 4 (unread (psock q)) = u32_to_be (as_u32 ?n)"
    using assms(5) by (simp add: frame_eq)
  have size: "unat (as_u32 ?n) = ?n" using assms(4) by simp
  obtain s2 where s2: "fill (4 + ?n) s1 = (Ok (take (4 + ?n) (unread s1)), s2)"
      "unread s2 = unread s1" "[] \<notin> set (inbound s2)" "4 + ?n \<le> length (r_buf s2)"
    using fill_succeeds [OF s1(3), of "4 + ?n"] assms(5) s1(2) lf fill_Ok
    by (metis (no_types, lifting) le_add1 length_append)
  have data: "take (4 + ?n) (unread s1) = ?f" using assms(5) s1(2) lf by simp
  have un: "unread (consume_read_buffer (4 + ?n) s2) = rest"
    using s2(2,4) s1(2) assms(5) lf
    by (simp add: unread_def consume_read_buffer_def flip: drop_append) (metis drop_append_length drop_append
        diff_is_0_eq drop_0)
  let ?q2 = "q\<lparr>psock := s2\<rparr>"
  have "plain_recv_packet q = (Ok \<lparr>payload = data, padding = pad\<rparr>,
      (if hd data = SSH_MSG_NEWKEYS \<and> strict q then bump_server True else bump_server False)
        (q\<lparr>psock := consume_read_buffer (4 + ?n) s2\<rparr>))"
    using s1(1) s2(1) hdr size data take_drop_frame [OF assms(1-4)] assms(3,4)
    by (simp add: plain_recv_packet_def sr_defs strict_def bump_server_def)
  then show ?thesis using un s2(3)
    by (auto simp: bump_server_def consume_read_buffer_def)
qed

section \<open>The contract of a payload stream\<close>

text \<open>
  What both implementations of the trait \<open>Stream\<close> promise to a caller of \<open>send_payload\<close>: the
  size guard comes before any effect, and a sent payload moves the sequence number by one, or
  back to 0 after \<open>SSH_MSG_NEWKEYS\<close> under strict key exchange.
\<close>

locale payload_sender =
  fixes send :: "bytes \<Rightarrow> ('s, unit) sr"
    and seq :: "'s \<Rightarrow> u32"
    and resets :: "'s \<Rightarrow> bool"
  assumes send_empty: "send [] s = (Panic, s)"
    and send_too_long: "MAX_PACKET_PAYLOAD_LENGTH < length d \<Longrightarrow>
      send d s = (Err (TransportError (PayloadTooLong MAX_PACKET_PAYLOAD_LENGTH (length d))), s)"
    and send_seq: "send d s = (Ok (), s') \<Longrightarrow>
      seq s' = (if hd d = SSH_MSG_NEWKEYS \<and> resets s then 0 else seq s + 1)"
    and send_resets: "send d s = (Ok (), s') \<Longrightarrow> resets s' = resets s"
begin

lemma sent_size: "send d s = (Ok (), s') \<Longrightarrow> d \<noteq> [] \<and> length d \<le> MAX_PACKET_PAYLOAD_LENGTH"
  using send_empty [of s] send_too_long [of d s]
  by (metis Pair_inject linorder_not_less res.distinct(1,3))

lemma sequence_counts:
  "for_each send ds s = (Ok (), s') \<Longrightarrow> \<forall>d \<in> set ds. hd d \<noteq> SSH_MSG_NEWKEYS \<Longrightarrow>
   seq s' = seq s + word_of_nat (length ds) \<and> resets s' = resets s"
proof (induction ds arbitrary: s)
  case Nil
  then show ?case by (simp add: sreturn_def)
next
  case (Cons d ds)
  then obtain t where t: "send d s = (Ok (), t)" "for_each send ds t = (Ok (), s')"
    by (auto simp: sbind_Ok_iff)
  have "seq t = seq s + 1" "resets t = resets s"
    using send_seq [OF t(1)] send_resets [OF t(1)] Cons.prems(2) by simp_all
  with Cons.IH [OF t(2)] Cons.prems(2) show ?case by (simp add: add.assoc)
qed

lemma sequence_restarts:
  assumes "for_each send (ds @ d # es) s = (Ok (), s')" and "resets s"
    and "hd d = SSH_MSG_NEWKEYS"
    and "\<forall>x \<in> set ds \<union> set es. hd x \<noteq> SSH_MSG_NEWKEYS"
  shows "seq s' = word_of_nat (length es)"
proof -
  obtain t u where t: "for_each send ds s = (Ok (), t)" "send d t = (Ok (), u)"
    "for_each send es u = (Ok (), s')"
    using assms(1) by (auto simp: for_each_append sbind_Ok_iff)
  have "seq u = 0"
    using send_seq [OF t(2)] sequence_counts [OF t(1)] assms by auto
  with sequence_counts [OF t(3)] assms(4) show ?thesis by auto
qed

end

lemma zoom_psock_client:
  "on_psock m p = (r, p') \<Longrightarrow> client p' = client p \<and> server p' = server p"
  by (auto simp: zoom_def split: prod.splits)

lemma plain_send_seq:
  "plain_send_payload rnd d s = (Ok (), s') \<Longrightarrow>
   sequence_number (client s') =
     (if hd d = SSH_MSG_NEWKEYS \<and> strict s then 0 else sequence_number (client s) + 1) \<and>
   strict s' = strict s"
  by (auto simp: plain_send_payload_def Let_def sr_defs sbind_def bump_client_def strict_def
      split: if_splits prod.splits res.splits dest!: zoom_psock_client)

interpretation plain: payload_sender "plain_send_payload rnd" "\<lambda>s. sequence_number (client s)" strict
  for rnd
proof unfold_locales
  show "plain_send_payload rnd [] s = (Panic, s)" for s
    by (simp add: plain_send_payload_def sr_defs)
next
  show "MAX_PACKET_PAYLOAD_LENGTH < length d \<Longrightarrow> plain_send_payload rnd d s =
      (Err (TransportError (PayloadTooLong MAX_PACKET_PAYLOAD_LENGTH (length d))), s)" for d s
    by (auto simp: plain_send_payload_def sr_defs)
qed (auto dest: plain_send_seq)

end
