(* ===== verification/CipherStreams.thy ===== *)
theory CipherStreams
  imports Streams
begin

text \<open>
  The encrypted packet stream of \<open>src/ssh/stream.rs\<close>, \<open>CipherStream\<close>, with its three framings
  (AEAD, encrypt-then-MAC, MAC-then-encrypt). The ciphers, MACs and compressors are trait
  objects in the code; here they are a record of operations on opaque states, an argument of
  the definitions. The \<open>strict\<close> cargo feature is off, as it is by default.
\<close>

section \<open>Encrypted packets\<close>

text \<open>
  The trait objects a \<open>CipherStream\<close> holds: \<open>Encrypt\<close> and \<open>Decrypt\<close>
  (\<open>src/cipher/crypt.rs\<close>), \<open>Encode\<close> and \<open>Decode\<close> (\<open>src/cipher/compress.rs\<close>) and \<open>Mac\<close>
  (\<open>src/cipher/mac.rs\<close>). \<open>'e\<close>, \<open>'d\<close>, \<open>'c\<close>, \<open>'z\<close> and \<open>'m\<close> are their states. An operation that
  appends to an output vector returns what it appends; one that rewrites a slice in place
  returns the rewritten slice.
\<close>

record ('e, 'd, 'c, 'z, 'm) crypto =
  e_block_size :: "'e \<Rightarrow> nat"
  e_gcm :: "'e \<Rightarrow> bool"
  e_tag_len :: "'e \<Rightarrow> nat"
  e_update_seq :: "u32 \<Rightarrow> ('e, unit) sr"
  e_aad :: "bytes \<Rightarrow> ('e, bytes) sr"
  e_update :: "bytes \<Rightarrow> ('e, bytes) sr"
  e_finalize :: "('e, bytes) sr"
  e_tag :: "nat \<Rightarrow> ('e, bytes) sr"
  d_block_size :: "'d \<Rightarrow> nat"
  d_gcm :: "'d \<Rightarrow> bool"
  d_tag_len :: "'d \<Rightarrow> nat"
  d_update_seq :: "u32 \<Rightarrow> ('d, unit) sr"
  d_aad :: "bytes \<Rightarrow> ('d, bytes) sr"
  d_update :: "bytes \<Rightarrow> ('d, bytes) sr"
  d_finalize :: "('d, bytes) sr"
  d_set_tag :: "bytes \<Rightarrow> ('d, unit) sr"
  c_in_auth :: "'c \<Rightarrow> bool"
  c_update :: "bytes \<Rightarrow> ('c, unit) sr"
  c_finalize :: "('c, bytes) sr"
  z_in_auth :: "'z \<Rightarrow> bool"
  z_update :: "bytes \<Rightarrow> ('z, unit) sr"
  z_finalize :: "('z, bytes) sr"
  m_etm :: "'m \<Rightarrow> bool"
  m_len :: "'m \<Rightarrow> nat"
  m_update :: "bytes \<Rightarrow> ('m, unit) sr"
  m_finalize :: "('m, bytes) sr"

text \<open>\<open>enum State\<close>: what a dropped \<open>read_packet\<close> future has done so far.\<close>

datatype read_state = SNone | SReady "u32 option" bytes bytes

record ('e, 'd, 'c, 'z, 'm) cipher_stream = endpoints +
  csock :: buffer_stream
  encrypt :: 'e
  decrypt :: 'd
  encode :: 'c
  decode :: 'z
  calculator :: 'm
  verify :: 'm
  authenticated :: bool
  rstate :: read_state

abbreviation on_csock ::
    "(buffer_stream, 'a) sr \<Rightarrow> (('e, 'd, 'c, 'z, 'm) cipher_stream, 'a) sr" where
  "on_csock \<equiv> zoom csock (\<lambda>t s. s\<lparr>csock := t\<rparr>)"
abbreviation on_encrypt :: "('e, 'a) sr \<Rightarrow> (('e, 'd, 'c, 'z, 'm) cipher_stream, 'a) sr" where
  "on_encrypt \<equiv> zoom encrypt (\<lambda>t s. s\<lparr>encrypt := t\<rparr>)"
abbreviation on_decrypt :: "('d, 'a) sr \<Rightarrow> (('e, 'd, 'c, 'z, 'm) cipher_stream, 'a) sr" where
  "on_decrypt \<equiv> zoom decrypt (\<lambda>t s. s\<lparr>decrypt := t\<rparr>)"
abbreviation on_encode :: "('c, 'a) sr \<Rightarrow> (('e, 'd, 'c, 'z, 'm) cipher_stream, 'a) sr" where
  "on_encode \<equiv> zoom encode (\<lambda>t s. s\<lparr>encode := t\<rparr>)"
abbreviation on_decode :: "('z, 'a) sr \<Rightarrow> (('e, 'd, 'c, 'z, 'm) cipher_stream, 'a) sr" where
  "on_decode \<equiv> zoom decode (\<lambda>t s. s\<lparr>decode := t\<rparr>)"
abbreviation on_calculator :: "('m, 'a) sr \<Rightarrow> (('e, 'd, 'c, 'z, 'm) cipher_stream, 'a) sr" where
  "on_calculator \<equiv> zoom calculator (\<lambda>t s. s\<lparr>calculator := t\<rparr>)"
abbreviation on_verify :: "('m, 'a) sr \<Rightarrow> (('e, 'd, 'c, 'z, 'm) cipher_stream, 'a) sr" where
  "on_verify \<equiv> zoom verify (\<lambda>t s. s\<lparr>verify := t\<rparr>)"

definition upgrade ::
    "plain_stream \<Rightarrow> 'e \<Rightarrow> 'd \<Rightarrow> 'c \<Rightarrow> 'z \<Rightarrow> 'm \<Rightarrow> 'm \<Rightarrow> ('e, 'd, 'c, 'z, 'm) cipher_stream" where
  "upgrade p e d c z calc ver =
     \<lparr>client = client p, server = server p, csock = psock p, encrypt = e, decrypt = d,
      encode = c, decode = z, calculator = calc, verify = ver, authenticated = False,
      rstate = SNone\<rparr>"

definition upgrade_client ::
    "'e \<Rightarrow> 'c \<Rightarrow> 'm \<Rightarrow> ('e, 'd, 'c, 'z, 'm) cipher_stream \<Rightarrow> ('e, 'd, 'c, 'z, 'm) cipher_stream" where
  "upgrade_client e c calc s = s\<lparr>encrypt := e, encode := c, calculator := calc\<rparr>"

definition upgrade_server ::
    "'d \<Rightarrow> 'z \<Rightarrow> 'm \<Rightarrow> ('e, 'd, 'c, 'z, 'm) cipher_stream \<Rightarrow> ('e, 'd, 'c, 'z, 'm) cipher_stream" where
  "upgrade_server d z ver s = s\<lparr>decrypt := d, decode := z, verify := ver\<rparr>"

subsection \<open>Sending\<close>

definition put_socket :: "bytes \<Rightarrow> (('e, 'd, 'c, 'z, 'm) cipher_stream, unit) sr" where
  "put_socket d = smodify (\<lambda>s. s\<lparr>csock := bs_put_bytes d (csock s)\<rparr>)"

text \<open>The plain packet: length, padding length, payload, random padding.\<close>

definition cipher_frame :: "(nat \<Rightarrow> u8) \<Rightarrow> bytes \<Rightarrow> nat \<Rightarrow> bytes" where
  "cipher_frame rnd data padding_len =
     frame (1 + length data + padding_len) padding_len data (random_bytes rnd padding_len)"

definition send_gcm ::
    "('e, 'd, 'c, 'z, 'm) crypto \<Rightarrow> (nat \<Rightarrow> u8) \<Rightarrow> bytes \<Rightarrow>
     (('e, 'd, 'c, 'z, 'm) cipher_stream, unit) sr" where
  "send_gcm k rnd data = sbind (sget (\<lambda>s. e_block_size k (encrypt s))) (\<lambda>block_size.
     if block_size = 0 then spanic
     else
       let producer = cipher_frame rnd data (padding_for block_size (1 + length data)) in
       sbind (sget (\<lambda>s. sequence_number (client s))) (\<lambda>seq.
       sbind (on_encrypt (e_update_seq k seq)) (\<lambda>_.
       sbind (on_encrypt (e_aad k (take 4 producer))) (\<lambda>header.
       sbind (on_encrypt (e_update k (drop 4 producer))) (\<lambda>enc1.
       sbind (on_encrypt (e_finalize k)) (\<lambda>enc2.
       sbind (sget (\<lambda>s. e_tag_len k (encrypt s))) (\<lambda>tag_len.
       sbind (on_encrypt (e_tag k tag_len)) (\<lambda>tag.
       sbind (put_socket (header @ enc1 @ enc2 @ tag)) (\<lambda>_.
       on_csock flush)))))))))"

definition send_etm ::
    "('e, 'd, 'c, 'z, 'm) crypto \<Rightarrow> (nat \<Rightarrow> u8) \<Rightarrow> bytes \<Rightarrow>
     (('e, 'd, 'c, 'z, 'm) cipher_stream, unit) sr" where
  "send_etm k rnd data = sbind (sget (\<lambda>s. e_block_size k (encrypt s))) (\<lambda>block_size.
     if block_size = 0 then spanic
     else
       let producer = cipher_frame rnd data (padding_for block_size (1 + length data)) in
       sbind (on_encrypt (e_update k (drop 4 producer))) (\<lambda>enc1.
       sbind (on_encrypt (e_finalize k)) (\<lambda>enc2.
       let encrypted = enc1 @ enc2 in
       if length producer \<noteq> length encrypted + 4 then spanic
       else
         sbind (sget (\<lambda>s. sequence_number (client s))) (\<lambda>seq.
         sbind (on_calculator (m_update k (u32_to_be seq))) (\<lambda>_.
         sbind (on_calculator (m_update k (take 4 producer))) (\<lambda>_.
         sbind (on_calculator (m_update k encrypted)) (\<lambda>_.
         sbind (on_calculator (m_finalize k)) (\<lambda>mac.
         sbind (put_socket (take 4 producer)) (\<lambda>_.
         sbind (put_socket encrypted) (\<lambda>_.
         sbind (put_socket mac) (\<lambda>_.
         on_csock flush)))))))))))"

definition send_mte ::
    "('e, 'd, 'c, 'z, 'm) crypto \<Rightarrow> (nat \<Rightarrow> u8) \<Rightarrow> bytes \<Rightarrow>
     (('e, 'd, 'c, 'z, 'm) cipher_stream, unit) sr" where
  "send_mte k rnd data = sbind (sget (\<lambda>s. e_block_size k (encrypt s))) (\<lambda>block_size.
     if block_size = 0 then spanic
     else
       let producer = cipher_frame rnd data (padding_for block_size (4 + 1 + length data)) in
       sbind (sget (\<lambda>s. sequence_number (client s))) (\<lambda>seq.
       sbind (on_calculator (m_update k (u32_to_be seq))) (\<lambda>_.
       sbind (on_calculator (m_update k producer)) (\<lambda>_.
       sbind (on_calculator (m_finalize k)) (\<lambda>mac.
       sbind (on_encrypt (e_update k producer)) (\<lambda>enc1.
       sbind (on_encrypt (e_finalize k)) (\<lambda>enc2.
       sbind (put_socket (enc1 @ enc2)) (\<lambda>_.
       sbind (put_socket mac) (\<lambda>_.
       on_csock flush)))))))))"

definition compress_payload ::
    "('e, 'd, 'c, 'z, 'm) crypto \<Rightarrow> bytes \<Rightarrow> (('e, 'd, 'c, 'z, 'm) cipher_stream, bytes) sr" where
  "compress_payload k data =
     sbind (sget (\<lambda>s. authenticated s \<or> c_in_auth k (encode s))) (\<lambda>compress.
     if compress
     then sbind (on_encode (c_update k data)) (\<lambda>_. on_encode (c_finalize k))
     else sreturn data)"

definition cipher_send_payload ::
    "('e, 'd, 'c, 'z, 'm) crypto \<Rightarrow> (nat \<Rightarrow> u8) \<Rightarrow> bytes \<Rightarrow>
     (('e, 'd, 'c, 'z, 'm) cipher_stream, unit) sr" where
  "cipher_send_payload k rnd data =
     (if data = [] then spanic
      else sbind (sget (\<lambda>s. hd data = SSH_MSG_NEWKEYS \<and> strict s)) (\<lambda>reset.
        if length data > MAX_PACKET_PAYLOAD_LENGTH
        then sfail (TransportError (PayloadTooLong MAX_PACKET_PAYLOAD_LENGTH (length data)))
        else
          sbind (compress_payload k data) (\<lambda>data.
          sbind (sget (\<lambda>s. (e_gcm k (encrypt s), m_etm k (calculator s)))) (\<lambda>(gcm, etm).
          sbind (if gcm then send_gcm k rnd data
                 else if etm then send_etm k rnd data
                 else send_mte k rnd data) (\<lambda>_.
          smodify (bump_client reset))))))"

subsection \<open>Receiving\<close>

definition set_rstate :: "read_state \<Rightarrow> (('e, 'd, 'c, 'z, 'm) cipher_stream, unit) sr" where
  "set_rstate r = smodify (\<lambda>s. s\<lparr>rstate := r\<rparr>)"

definition drop_read :: "nat \<Rightarrow> (('e, 'd, 'c, 'z, 'm) cipher_stream, unit) sr" where
  "drop_read n = smodify (\<lambda>s. s\<lparr>csock := consume_read_buffer n (csock s)\<rparr>)"

text \<open>The decrypted part after the length field: padding length, content, padding.\<close>

definition split_body :: "u32 \<Rightarrow> bytes \<Rightarrow> (bytes \<times> bytes) res" where
  "split_body len body =
     fst (sbind consume_u8 (\<lambda>padding_len.
       if unat len \<le> unat padding_len + 1
       then sfail (TransportError UnexpectedPaddingLength)
       else
         sbind (consume_bytes (unat len - 1 - unat padding_len)) (\<lambda>content.
         sbind (sget peek) (\<lambda>rest. sreturn (content, rest)))) (consumer_new body))"

definition decompress_payload ::
    "('e, 'd, 'c, 'z, 'm) crypto \<Rightarrow> bytes \<Rightarrow> (('e, 'd, 'c, 'z, 'm) cipher_stream, bytes) sr" where
  "decompress_payload k content =
     sbind (sget (\<lambda>s. authenticated s \<or> z_in_auth k (decode s))) (\<lambda>compress.
     if compress
     then sbind (on_decode (z_update k content)) (\<lambda>_. on_decode (z_finalize k))
     else sreturn content)"

definition packet_too_long :: "nat \<Rightarrow> error" where
  "packet_too_long n = TransportError (PacketTooLong MAX_PACKET_LENGTH n)"

definition read_gcm ::
    "('e, 'd, 'c, 'z, 'm) crypto \<Rightarrow> u32 option \<Rightarrow> bytes \<Rightarrow> bytes \<Rightarrow>
     (('e, 'd, 'c, 'z, 'm) cipher_stream, packet) sr" where
  "read_gcm k length0 encrypted decrypted =
     sbind (sget (\<lambda>s. d_tag_len k (decrypt s))) (\<lambda>tag_len.
     sbind (case length0 of
         Some l \<Rightarrow> sreturn l
       | None \<Rightarrow>
           sbind (on_csock (fill 4)) (\<lambda>bytes.
           sbind (on_decrypt (d_aad k bytes)) (\<lambda>bytes.
           let l = from_be bytes in
           if unat l + 4 + tag_len > MAX_PACKET_LENGTH then sfail (packet_too_long (unat l + 4))
           else sbind (set_rstate (SReady (Some l) encrypted decrypted)) (\<lambda>_. sreturn l)))) (\<lambda>len.
     sbind (on_csock (fill (4 + unat len + tag_len))) (\<lambda>packet.
     let bytes = drop 4 packet in
     sbind (on_decrypt (d_update k (take (unat len) bytes))) (\<lambda>out1.
     sbind (on_decrypt (d_set_tag k (drop (unat len) bytes))) (\<lambda>_.
     sbind (on_decrypt (d_finalize k)) (\<lambda>out2.
     sbind (slift (split_body len (out1 @ out2))) (\<lambda>(content, pad).
     sbind (decompress_payload k content) (\<lambda>data.
     sbind (drop_read (4 + unat len + tag_len)) (\<lambda>_.
     sreturn \<lparr>payload = data, padding = pad\<rparr>)))))))))"

text \<open>The bytes the MAC covers go to \<open>verify\<close> part by part; its result must be the tag.\<close>

definition check_mac ::
    "('e, 'd, 'c, 'z, 'm) crypto \<Rightarrow> bytes list \<Rightarrow> bytes \<Rightarrow> (('e, 'd, 'c, 'z, 'm) cipher_stream, unit) sr" where
  "check_mac k parts tag =
     sbind (for_each (\<lambda>p. on_verify (m_update k p)) parts) (\<lambda>_.
     sbind (on_verify (m_finalize k)) (\<lambda>mac.
     if mac \<noteq> tag then sfail (TransportError MacVerificationFailed) else sreturn ()))"

text \<open>
  Encrypt-then-MAC: the length travels in the clear; the first half waits for the packet and
  checks its MAC, the second decrypts it.
\<close>

definition etm_packet ::
    "('e, 'd, 'c, 'z, 'm) crypto \<Rightarrow> u32 option \<Rightarrow> bytes \<Rightarrow>
     (('e, 'd, 'c, 'z, 'm) cipher_stream, u32 \<times> bytes) sr" where
  "etm_packet k length0 decrypted =
     sbind (sget (\<lambda>s. m_len k (verify s))) (\<lambda>mac_len.
     sbind (case length0 of
         Some l \<Rightarrow> sreturn l
       | None \<Rightarrow>
           sbind (on_csock (fill 4)) (\<lambda>header.
           let l = from_be header in
           if unat l + 4 + mac_len > MAX_PACKET_LENGTH then sfail (packet_too_long (unat l + 4))
           else sreturn l)) (\<lambda>len.
     if decrypted \<noteq> [] then spanic
     else
       sbind (on_csock (fill (4 + unat len + mac_len))) (\<lambda>packet.
       sbind (sget (\<lambda>s. sequence_number (server s))) (\<lambda>seq.
       sbind (check_mac k [u32_to_be seq, u32_to_be len, take (unat len) (drop 4 packet)]
          (drop (unat len + 4) packet)) (\<lambda>_.
       sreturn (len, packet))))))"

definition read_etm ::
    "('e, 'd, 'c, 'z, 'm) crypto \<Rightarrow> u32 option \<Rightarrow> bytes \<Rightarrow> bytes \<Rightarrow>
     (('e, 'd, 'c, 'z, 'm) cipher_stream, packet) sr" where
  "read_etm k length0 encrypted decrypted =
     sbind (etm_packet k length0 decrypted) (\<lambda>(len, packet).
     sbind (on_decrypt (d_update k (take (unat len) (drop 4 packet)))) (\<lambda>out1.
     sbind (set_rstate (SReady length0 encrypted out1)) (\<lambda>_.
     sbind (on_decrypt (d_finalize k)) (\<lambda>out2.
     sbind (set_rstate (SReady length0 encrypted (out1 @ out2))) (\<lambda>_.
     sbind (slift (split_body len (out1 @ out2))) (\<lambda>(content, pad).
     sbind (decompress_payload k content) (\<lambda>data.
     sbind (drop_read (length packet)) (\<lambda>_.
     sreturn \<lparr>payload = data, padding = pad\<rparr>))))))))"

text \<open>
  MAC-then-encrypt decrypts one block to learn the length. The slice of the remaining
  ciphertext, \<open>packet[encrypted.len()..length + 4]\<close>, panics when the length announces less
  than that block.
\<close>

definition read_mte_header ::
    "('e, 'd, 'c, 'z, 'm) crypto \<Rightarrow> nat \<Rightarrow> bytes \<Rightarrow>
     (('e, 'd, 'c, 'z, 'm) cipher_stream, u32 \<times> bytes \<times> bytes) sr" where
  "read_mte_header k mac_len decrypted =
     sbind (sget (\<lambda>s. d_block_size k (decrypt s))) (\<lambda>block_size.
     if decrypted \<noteq> [] then spanic
     else
       sbind (on_csock (fill block_size)) (\<lambda>header.
       sbind (on_decrypt (d_update k header)) (\<lambda>dec.
       sbind (set_rstate (SReady None [] dec)) (\<lambda>_.
       if length header \<noteq> length dec then spanic
       else if length dec < 4 then spanic
       else
         let l = from_be (take 4 dec) in
         if unat l + 4 + mac_len > MAX_PACKET_LENGTH then sfail (packet_too_long (unat l + 4))
         else
           sbind (set_rstate (SReady (Some l) header dec)) (\<lambda>_.
           sreturn (l, header, dec))))))"

definition read_mte ::
    "('e, 'd, 'c, 'z, 'm) crypto \<Rightarrow> u32 option \<Rightarrow> bytes \<Rightarrow> bytes \<Rightarrow>
     (('e, 'd, 'c, 'z, 'm) cipher_stream, packet) sr" where
  "read_mte k length0 encrypted0 decrypted0 =
     sbind (sget (\<lambda>s. m_len k (verify s))) (\<lambda>mac_len.
     sbind (case length0 of
         Some l \<Rightarrow> sreturn (l, encrypted0, decrypted0)
       | None \<Rightarrow> read_mte_header k mac_len decrypted0) (\<lambda>(len, encrypted, decrypted).
     sbind (on_csock (fill (unat len + 4 + mac_len))) (\<lambda>packet.
     if length encrypted > unat len + 4 then spanic
     else
       sbind (on_decrypt (d_update k (drop (length encrypted) (take (unat len + 4) packet)))) (\<lambda>out1.
       sbind (set_rstate (SReady (Some len) encrypted (decrypted @ out1))) (\<lambda>_.
       sbind (on_decrypt (d_finalize k)) (\<lambda>out2.
       let plain = decrypted @ out1 @ out2 in
       sbind (set_rstate (SReady (Some len) encrypted plain)) (\<lambda>_.
       sbind (sget (\<lambda>s. sequence_number (server s))) (\<lambda>seq.
       sbind (check_mac k [u32_to_be seq, plain] (drop (unat len + 4) packet)) (\<lambda>_.
       if length plain < unat len + 4 then spanic
       else
         sbind (slift (split_body len (drop 4 (take (unat len + 4) plain)))) (\<lambda>(content, pad).
         sbind (decompress_payload k content) (\<lambda>data.
         sbind (drop_read (unat len + 4 + mac_len)) (\<lambda>_.
         sreturn \<lparr>payload = data, padding = pad\<rparr>))))))))))))"

definition finish_packet :: "packet \<Rightarrow> (('e, 'd, 'c, 'z, 'm) cipher_stream, packet) sr" where
  "finish_packet packet =
     sbind (set_rstate SNone) (\<lambda>_.
     sbind (smodify (bump_server False)) (\<lambda>_.
     if payload packet = [] then sfail (TransportError PayloadIsEmpty)
     else
       sbind (sget (\<lambda>s. hd (payload packet) = SSH_MSG_NEWKEYS \<and> strict s)) (\<lambda>reset.
       sbind (smodify (\<lambda>s. if reset then s\<lparr>server := (server s)\<lparr>sequence_number := 0\<rparr>\<rparr> else s)) (\<lambda>_.
       sreturn packet))))"

definition read_ready ::
    "('e, 'd, 'c, 'z, 'm) crypto \<Rightarrow> u32 option \<Rightarrow> bytes \<Rightarrow> bytes \<Rightarrow>
     (('e, 'd, 'c, 'z, 'm) cipher_stream, packet) sr" where
  "read_ready k len encrypted decrypted =
     sbind (sget (\<lambda>s. (d_gcm k (decrypt s), m_etm k (verify s)))) (\<lambda>(gcm, etm).
     sbind (if gcm then read_gcm k len encrypted decrypted
            else if etm then read_etm k len encrypted decrypted
            else read_mte k len encrypted decrypted) finish_packet)"

definition read_packet ::
    "('e, 'd, 'c, 'z, 'm) crypto \<Rightarrow> (('e, 'd, 'c, 'z, 'm) cipher_stream, packet) sr" where
  "read_packet k =
     sbind (sget rstate) (\<lambda>st.
     case st of
       SNone \<Rightarrow>
         sbind (sget (\<lambda>s. sequence_number (server s))) (\<lambda>seq.
         sbind (on_decrypt (d_update_seq k seq)) (\<lambda>_.
         sbind (set_rstate (SReady None [] [])) (\<lambda>_.
         read_ready k None [] [])))
     | SReady len encrypted decrypted \<Rightarrow> read_ready k len encrypted decrypted)"

section \<open>Facts about sending\<close>

abbreviation cipher_seq :: "('e, 'd, 'c, 'z, 'm) cipher_stream \<Rightarrow> u32" where
  "cipher_seq s \<equiv> sequence_number (client s)"

lemmas cipher_send_defs = send_gcm_def send_etm_def send_mte_def compress_payload_def put_socket_def

lemma send_keeps_ends:
  "keeps (\<lambda>s. (client s, server s)) (send_gcm k rnd data)"
  "keeps (\<lambda>s. (client s, server s)) (send_etm k rnd data)"
  "keeps (\<lambda>s. (client s, server s)) (send_mte k rnd data)"
  "keeps (\<lambda>s. (client s, server s)) (compress_payload k data)"
  unfolding cipher_send_defs by (intro keeps_rules; simp)+

lemma cipher_send_seq:
  assumes "cipher_send_payload k rnd d s = (Ok (), s')"
  shows "cipher_seq s' = (if hd d = SSH_MSG_NEWKEYS \<and> strict s then 0 else cipher_seq s + 1) \<and>
    strict s' = strict s"
proof -
  let ?r = "hd d = SSH_MSG_NEWKEYS \<and> strict s"
  from assms obtain x t where x: "compress_payload k d s = (Ok x, t)"
    and y: "sbind (if e_gcm k (encrypt t) then send_gcm k rnd x
        else if m_etm k (calculator t) then send_etm k rnd x else send_mte k rnd x)
      (\<lambda>_. smodify (bump_client ?r)) t = (Ok (), s')"
    by (auto simp: cipher_send_payload_def sr_defs sbind_Ok_iff split: if_splits)
  from y obtain u where u: "(if e_gcm k (encrypt t) then send_gcm k rnd x
        else if m_etm k (calculator t) then send_etm k rnd x else send_mte k rnd x) t = (Ok (), u)"
      "s' = bump_client ?r u"
    by (auto simp: sbind_Ok_iff smodify_def)
  have "client t = client s \<and> server t = server s"
    using keepsD [OF send_keeps_ends(4) x] by simp
  moreover have "client u = client t \<and> server u = server t"
    using u(1) by (auto split: if_splits dest!: send_keeps_ends [THEN keepsD])
  ultimately show ?thesis using u(2) by (auto simp: bump_client_def strict_def)
qed

interpretation cipher: payload_sender "cipher_send_payload k rnd" cipher_seq strict
  for k :: "('e, 'd, 'c, 'z, 'm) crypto" and rnd
proof unfold_locales
  show "cipher_send_payload k rnd [] s = (Panic, s)" for s
    by (simp add: cipher_send_payload_def sr_defs)
next
  show "MAX_PACKET_PAYLOAD_LENGTH < length d \<Longrightarrow> cipher_send_payload k rnd d s =
      (Err (TransportError (PayloadTooLong MAX_PACKET_PAYLOAD_LENGTH (length d))), s)" for d s
    by (auto simp: cipher_send_payload_def sr_defs)
qed (auto dest: cipher_send_seq)

section \<open>Facts about receiving\<close>

text \<open>The MAC a \<open>verify\<close> state computes over the given parts.\<close>

definition mac_over :: "('e, 'd, 'c, 'z, 'm) crypto \<Rightarrow> 'm \<Rightarrow> bytes list \<Rightarrow> bytes res" where
  "mac_over k v parts = fst (sbind (for_each (m_update k) parts) (\<lambda>_. m_finalize k) v)"

lemma for_each_on_verify:
  "for_each (\<lambda>p. on_verify (m_update k p)) parts s =
     on_verify (for_each (m_update k) parts) s"
proof (induction parts arbitrary: s)
  case (Cons p ps)
  show ?case using Cons.IH
    by (cases "m_update k p (verify s)"; cases "fst (m_update k p (verify s))")
      (auto simp: zoom_def split: prod.splits)
qed (simp add: zoom_def sr_defs)

lemma check_mac_Ok:
  "check_mac k parts tag s = (Ok (), s') \<Longrightarrow> mac_over k (verify s) parts = Ok tag"
  by (auto simp: check_mac_def for_each_on_verify mac_over_def sbind_Ok_iff zoom_def sr_defs
      split: prod.splits if_splits)

lemma check_mac_keeps:
  "keeps (\<lambda>s. (client s, server s, csock s, decrypt s, decode s, rstate s)) (check_mac k parts tag)"
  unfolding check_mac_def by (intro keeps_rules; simp)

lemma etm_packet_keeps:
  "keeps (\<lambda>s. (client s, server s, decrypt s, decode s, rstate s)) (etm_packet k l dec)"
proof -
  have "keeps (\<lambda>s. (client s, server s, decrypt s, decode s, rstate s)) (check_mac k parts tag)"
    for parts tag
    using check_mac_keeps [of k parts tag] by (auto simp: keeps_def)
  then show ?thesis
    unfolding etm_packet_def by (intro keeps_rules; simp)
qed

text \<open>No byte is decrypted, let alone delivered, before its MAC was found right.\<close>

lemma etm_packet_Ok:
  assumes "etm_packet k None [] s = (Ok (len, packet), s')"
  shows "packet = take (4 + unat len + m_len k (verify s)) (unread (csock s)) \<and>
    len = from_be (take 4 packet) \<and>
    mac_over k (verify s) [u32_to_be (sequence_number (server s)), u32_to_be len,
        take (unat len) (drop 4 packet)] = Ok (drop (unat len + 4) packet)"
proof -
  from assms obtain header t u where
    h: "fill 4 (csock s) = (Ok header, t)" "len = from_be header"
    and p: "fill (4 + unat len + m_len k (verify s)) t = (Ok packet, u)"
    and m: "check_mac k [u32_to_be (sequence_number (server s)), u32_to_be len,
        take (unat len) (drop 4 packet)] (drop (unat len + 4) packet)
        (s\<lparr>csock := u\<rparr>) = (Ok (), s')"
    by (auto simp: etm_packet_def sr_defs sbind_Ok_iff zoom_Ok_iff Let_def split: if_splits)
  show ?thesis
    using fill_Ok [OF h(1)] fill_Ok [OF p] check_mac_Ok [OF m] h(2) by (auto simp: take_take min_def)
qed

lemma etm_gate:
  assumes "read_etm k l e d s = (r, s')" and "decrypt s' \<noteq> decrypt s \<or> (\<exists>p. r = Ok p)"
  obtains len packet t where "etm_packet k l d s = (Ok (len, packet), t)"
proof (cases "etm_packet k l d s")
  case (Pair x t)
  with assms keepsD [OF etm_packet_keeps Pair] that show ?thesis
    by (cases x) (auto simp: read_etm_def)
qed

text \<open>
  A read may be interrupted and taken up again. A stream that reads encrypt-then-MAC never keeps an
  announced length, so it starts over with the bytes still on the socket; the state of the decryption
  it started with is the one after \<open>update_sequence_number\<close>.
\<close>

fun resumable :: "read_state \<Rightarrow> bool" where
  "resumable SNone = True"
| "resumable (SReady len encrypted decrypted) \<longleftrightarrow> len = None"

definition read_start ::
    "('e, 'd, 'c, 'z, 'm) crypto \<Rightarrow> ('e, 'd, 'c, 'z, 'm) cipher_stream \<Rightarrow> 'd \<Rightarrow> bool" where
  "read_start k s d0 \<longleftrightarrow> resumable (rstate s) \<and>
     (if rstate s = SNone then d_update_seq k (sequence_number (server s)) (decrypt s) = (Ok (), d0)
      else d0 = decrypt s)"

lemma resumable_read_etm: "preserves (\<lambda>s. resumable (rstate s)) (read_etm k None enc dec)"
proof -
  have "preserves (\<lambda>s. resumable (rstate s)) (etm_packet k None dec)"
    using etm_packet_keeps [of k None dec] by (auto simp: keeps_def preserves_def)
  moreover have "preserves (\<lambda>s. resumable (rstate s)) (decompress_payload k d)" for d
    unfolding decompress_payload_def by (intro preserves_rules; simp)
  ultimately show ?thesis
    unfolding read_etm_def set_rstate_def drop_read_def by (intro preserves_rules; simp)
qed

lemma resumable_finish: "preserves (\<lambda>s. resumable (rstate s)) (finish_packet p)"
  unfolding finish_packet_def set_rstate_def by (intro preserves_rules; simp add: bump_server_def)

lemma etm_read_authentic:
  assumes start: "read_start k s d0" and k: "\<not> d_gcm k d0" "m_etm k (verify s)"
    and r: "read_packet k s = (r, s')"
  shows "resumable (rstate s')"
    and "decrypt s' \<noteq> d0 \<or> (\<exists>p. r = Ok p) \<Longrightarrow>
      \<exists>len packet. packet = take (4 + unat len + m_len k (verify s)) (unread (csock s)) \<and>
        len = from_be (take 4 packet) \<and>
        mac_over k (verify s) [u32_to_be (sequence_number (server s)), u32_to_be len,
          take (unat len) (drop 4 packet)] = Ok (drop (unat len + 4) packet)"
proof -
  obtain enc dec t where t: "read_packet k s = sbind (read_etm k None enc dec) finish_packet t"
    "decrypt t = d0" "resumable (rstate t)" "verify t = verify s" "server t = server s" "csock t = csock s"
  proof (cases "rstate s")
    case SNone
    let ?t = "s\<lparr>decrypt := d0, rstate := SReady None [] []\<rparr>"
    have "read_packet k s = sbind (read_etm k None [] []) finish_packet ?t"
      using SNone start k by (simp add: read_start_def read_packet_def read_ready_def set_rstate_def)
    with that [of "[]" "[]" ?t] show thesis by simp
  next
    case (SReady len enc dec)
    then have "len = None" "d0 = decrypt s" using start by (simp_all add: read_start_def)
    with SReady k have "read_packet k s = sbind (read_etm k None enc dec) finish_packet s"
      by (simp add: read_packet_def read_ready_def)
    with that [of enc dec s] SReady \<open>len = None\<close> \<open>d0 = decrypt s\<close> show thesis by simp
  qed
  have run: "sbind (read_etm k None enc dec) finish_packet t = (r, s')" using r t(1) by simp
  have "preserves (\<lambda>s. resumable (rstate s)) (sbind (read_etm k None enc dec) finish_packet)"
    by (intro preserves_bind resumable_read_etm resumable_finish)
  from preservesD [OF this run] t(3) show "resumable (rstate s')" by simp
  assume touched: "decrypt s' \<noteq> d0 \<or> (\<exists>p. r = Ok p)"
  obtain x u where x: "read_etm k None enc dec t = (x, u)" by (cases "read_etm k None enc dec t")
  have f: "keeps decrypt (finish_packet p)" for p :: packet
    unfolding finish_packet_def set_rstate_def by (intro keeps_rules; simp add: bump_server_def)
  have "decrypt u \<noteq> decrypt t \<or> (\<exists>p. x = Ok p)"
    using r t(1,2) x touched f by (cases x) (auto simp: sbind_def)
  then obtain len packet v where p: "etm_packet k None dec t = (Ok (len, packet), v)"
    using etm_gate [OF x] by auto
  then have "dec = []" by (auto simp: etm_packet_def sbind_Ok_iff sr_defs split: if_splits)
  then have "etm_packet k None [] t = (Ok (len, packet), v)" using p by simp
  from etm_packet_Ok [OF this, unfolded t(4-6)]
  show "\<exists>len packet. packet = take (4 + unat len + m_len k (verify s)) (unread (csock s)) \<and>
        len = from_be (take 4 packet) \<and>
        mac_over k (verify s) [u32_to_be (sequence_number (server s)), u32_to_be len,
          take (unat len) (drop 4 packet)] = Ok (drop (unat len + 4) packet)"
    by blast
qed

section \<open>Two linked encrypt-then-MAC streams\<close>

text \<open>
  What the packet layer relies on of the objects it is given, in the words of the trait
  documentation of \<open>src/cipher\<close>: a cipher of whole blocks without tag, whose decryption
  inverts the encryption packet by packet; a MAC that both sides compute alike over the same
  parts, a sequence number first; a compressor whose output is not empty and is inverted by the decompressor. The
  relations tell which states of the two sides belong together.
\<close>

definition cipher_link :: "('e, 'd, 'c, 'z, 'm) crypto \<Rightarrow> ('e \<Rightarrow> 'd \<Rightarrow> bool) \<Rightarrow> bool" where
  "cipher_link k R \<longleftrightarrow> (\<forall>e d. R e d \<longrightarrow>
     \<not> e_gcm k e \<and> \<not> d_gcm k d \<and> 0 < e_block_size k e \<and> e_block_size k e \<le> 64 \<and>
     (\<forall>n. d_update_seq k n d = (Ok (), d)) \<and>
     (\<forall>p. length p mod e_block_size k e = 0 \<longrightarrow>
        (\<exists>c1 e1 c2 e2 p1 d1 p2 d2. e_update k p e = (Ok c1, e1) \<and> e_finalize k e1 = (Ok c2, e2) \<and>
           length (c1 @ c2) = length p \<and>
           d_update k (c1 @ c2) d = (Ok p1, d1) \<and> d_finalize k d1 = (Ok p2, d2) \<and>
           p1 @ p2 = p \<and> R e2 d2)))"

definition mac_link :: "('e, 'd, 'c, 'z, 'm) crypto \<Rightarrow> ('m \<Rightarrow> 'm \<Rightarrow> bool) \<Rightarrow> bool" where
  "mac_link k Q \<longleftrightarrow> (\<forall>m v. Q m v \<longrightarrow> m_etm k m \<and> m_etm k v \<and> m_len k v \<le> 64 \<and>
     (\<forall>seq parts. \<exists>m1 m2 v1 v2 tag.
        for_each (m_update k) (u32_to_be seq # parts) m = (Ok (), m1) \<and> m_finalize k m1 = (Ok tag, m2) \<and>
        for_each (m_update k) (u32_to_be seq # parts) v = (Ok (), v1) \<and> m_finalize k v1 = (Ok tag, v2) \<and>
        length tag = m_len k v \<and> Q m2 v2))"

definition zip_link :: "('e, 'd, 'c, 'z, 'm) crypto \<Rightarrow> ('c \<Rightarrow> 'z \<Rightarrow> bool) \<Rightarrow> bool" where
  "zip_link k Z \<longleftrightarrow> (\<forall>c z. Z c z \<longrightarrow> c_in_auth k c = z_in_auth k z \<and>
     (\<forall>p. p \<noteq> [] \<longrightarrow> (\<exists>c1 c2 z1 z2 out. c_update k p c = (Ok (), c1) \<and> c_finalize k c1 = (Ok out, c2) \<and>
        out \<noteq> [] \<and> length out \<le> length p + 4096 \<and>
        z_update k out z = (Ok (), z1) \<and> z_finalize k z1 = (Ok p, z2) \<and> Z c2 z2)))"

text \<open>A sending and a receiving stream between packets, with nothing in flight but \<open>rest\<close>.\<close>

definition linked ::
    "('e \<Rightarrow> 'd \<Rightarrow> bool) \<Rightarrow> ('m \<Rightarrow> 'm \<Rightarrow> bool) \<Rightarrow> ('c \<Rightarrow> 'z \<Rightarrow> bool) \<Rightarrow>
     ('e, 'd, 'c, 'z, 'm) cipher_stream \<Rightarrow> ('e, 'd, 'c, 'z, 'm) cipher_stream \<Rightarrow> bool" where
  "linked R Q Z s r \<longleftrightarrow> R (encrypt s) (decrypt r) \<and> Q (calculator s) (verify r) \<and>
     Z (encode s) (decode r) \<and> authenticated s = authenticated r \<and>
     cipher_seq s = sequence_number (server r) \<and> strict s = strict r \<and> rstate r = SNone \<and>
     w_buf (csock s) = [] \<and> \<not> broken (csock s)"

lemma split_body_frame:
  assumes "length pad < 256" "data \<noteq> []" "length data + length pad < 2 ^ 31"
  shows "split_body (as_u32 (1 + length data + length pad)) (as_u8 (length pad) # data @ pad) =
    Ok (data, pad)"
proof -
  have "unat (as_u32 (1 + length data + length pad)) = 1 + length data + length pad"
    and "unat (as_u8 (length pad)) = length pad"
    using assms by simp_all
  then show ?thesis
    using assms(2)
    by (simp add: split_body_def consume_u8_def consumer_new_def sr_defs sbind_def consume_bytes_def
        consume_def Let_def peek_def)
qed

lemma zip_linkD:
  assumes "zip_link k Z" "Z c z" "p \<noteq> []"
  shows "\<exists>c1 c2 z1 z2 out. c_update k p c = (Ok (), c1) \<and> c_finalize k c1 = (Ok out, c2) \<and>
    out \<noteq> [] \<and> length out \<le> length p + 4096 \<and>
    z_update k out z = (Ok (), z1) \<and> z_finalize k z1 = (Ok p, z2) \<and> Z c2 z2"
  using assms unfolding zip_link_def by simp

lemma compress_pair:
  assumes "zip_link k Z" "Z (encode s) (decode r)" "authenticated s = authenticated r" "data \<noteq> []"
  obtains x c z where "compress_payload k data s = (Ok x, s\<lparr>encode := c\<rparr>)"
    "x \<noteq> []" "length x \<le> length data + 4096" "Z c z"
    "\<And>t. decode t = decode r \<Longrightarrow> authenticated t = authenticated r \<Longrightarrow>
       decompress_payload k x t = (Ok data, t\<lparr>decode := z\<rparr>)"
proof (cases "authenticated s \<or> c_in_auth k (encode s)")
  case True
  obtain c1 c2 z1 z2 out where "c_update k data (encode s) = (Ok (), c1)"
    "c_finalize k c1 = (Ok out, c2)" "out \<noteq> []" "length out \<le> length data + 4096"
    "z_update k out (decode r) = (Ok (), z1)" "z_finalize k z1 = (Ok data, z2)" "Z c2 z2"
    using zip_linkD [OF assms(1,2,4)] by blast
  moreover from True assms have "authenticated r \<or> z_in_auth k (decode r)"
    by (auto simp: zip_link_def)
  ultimately show ?thesis
    using True by (intro that [of out c2 z2]) (auto simp: compress_payload_def decompress_payload_def)
next
  case False
  with assms have "\<not> (authenticated r \<or> z_in_auth k (decode r))"
    by (auto simp: zip_link_def)
  with False assms show ?thesis
    by (intro that [of data "encode s" "decode r"])
      (auto simp: compress_payload_def decompress_payload_def sr_defs)
qed

text \<open>The three fields of an encrypt-then-MAC packet on the wire.\<close>

lemma etm_send_run:
  assumes e: "e_update k (drop 4 f) (encrypt s) = (Ok c1, e1)" "e_finalize k e1 = (Ok c2, e2)"
    and m: "for_each (m_update k) [u32_to_be (cipher_seq s), take 4 f, c1 @ c2] (calculator s) = (Ok (), m1)"
      "m_finalize k m1 = (Ok tag, m2)"
    and f: "f = cipher_frame rnd x (padding_for (e_block_size k (encrypt s)) (1 + length x))"
      "length f = length (c1 @ c2) + 4" "0 < e_block_size k (encrypt s)"
    and nb: "\<not> broken (csock s)" "w_buf (csock s) = []"
  shows "\<exists>q. send_etm k rnd x s = (Ok (), s\<lparr>encrypt := e2, calculator := m2, csock :=
    (csock s)\<lparr>outbound := outbound (csock s) @ take 4 f @ c1 @ c2 @ tag, quotas := q\<rparr>\<rparr>)"
proof -
  from m(1) obtain ma mb where ms: "m_update k (u32_to_be (cipher_seq s)) (calculator s) = (Ok (), ma)"
    "m_update k (take 4 f) ma = (Ok (), mb)" "m_update k (c1 @ c2) mb = (Ok (), m1)"
    by (auto simp: sbind_Ok_iff sr_defs)
  let ?b = "bs_put_bytes tag (bs_put_bytes (c1 @ c2) (bs_put_bytes (take 4 f) (csock s)))"
  have "\<not> broken ?b" using nb by (simp add: bs_put_bytes_def)
  from flush_result [OF this] nb obtain q where q: "flush ?b = (Ok (),
      (csock s)\<lparr>outbound := outbound (csock s) @ take 4 f @ c1 @ c2 @ tag, w_buf := [], quotas := q\<rparr>)"
    by (auto simp: bs_put_bytes_def)
  have w: "(csock s)\<lparr>outbound := o', w_buf := [], quotas := q'\<rparr> =
    (csock s)\<lparr>outbound := o', quotas := q'\<rparr>" for o' q'
    using nb(2) by (cases "csock s") simp
  show ?thesis
    using e ms m(2) f nb q
    by (intro exI [of _ q])
      (simp add: send_etm_def Let_def put_socket_def w del: One_nat_def)
qed

text \<open>Waiting for bytes that are there only moves them into the read buffer.\<close>

lemma fill_there:
  assumes "[] \<notin> set (inbound s)" "n \<le> length (unread s)"
  obtains t where "fill n s = (Ok (take n (unread s)), t)" "unread t = unread s"
    "[] \<notin> set (inbound t)" "n \<le> length (r_buf t)"
    "w_buf t = w_buf s" "broken t = broken s"
  using fill_succeeds [OF assms] fill_Ok by metis

lemma unread_consume:
  "n \<le> length (r_buf t) \<Longrightarrow> unread (consume_read_buffer n t) = drop n (unread t)"
  by (simp add: unread_def consume_read_buffer_def)

lemma check_mac_run:
  assumes "for_each (m_update k) parts (verify s) = (Ok (), v1)" "m_finalize k v1 = (Ok tag, v2)"
  shows "check_mac k parts tag s = (Ok (), s\<lparr>verify := v2\<rparr>)"
  using assms by (simp add: check_mac_def sbind_def for_each_on_verify zoom_def sr_defs)

lemma etm_packet_run:
  assumes u: "unread (csock r) = u32_to_be len @ ct @ tag @ rest" "[] \<notin> set (inbound (csock r))"
    and l: "length ct = unat len" "length tag = m_len k (verify r)"
      "unat len + 4 + m_len k (verify r) \<le> MAX_PACKET_LENGTH"
    and m: "for_each (m_update k) [u32_to_be (sequence_number (server r)), u32_to_be len, ct] (verify r)
        = (Ok (), v1)" "m_finalize k v1 = (Ok tag, v2)"
  obtains t where "etm_packet k None [] r = (Ok (len, u32_to_be len @ ct @ tag),
      r\<lparr>csock := t, verify := v2\<rparr>)"
    "unread t = unread (csock r)" "[] \<notin> set (inbound t)"
    "4 + unat len + m_len k (verify r) \<le> length (r_buf t)"
proof -
  let ?n = "4 + unat len + m_len k (verify r)"
  obtain t1 where t1: "fill 4 (csock r) = (Ok (take 4 (unread (csock r))), t1)"
      "unread t1 = unread (csock r)" "[] \<notin> set (inbound t1)"
    using fill_there [OF u(2), of 4] u(1) by auto
  obtain t2 where t2: "fill ?n t1 = (Ok (take ?n (unread t1)), t2)"
      "unread t2 = unread t1" "[] \<notin> set (inbound t2)" "?n \<le> length (r_buf t2)"
    using fill_there [OF t1(3), of ?n] t1(2) u(1) l by auto
  have h: "take 4 (unread (csock r)) = u32_to_be len" using u(1) by simp
  have p: "take ?n (unread t1) = u32_to_be len @ ct @ tag" using t1(2) u(1) l by simp
  have c: "check_mac k [u32_to_be (sequence_number (server r)), u32_to_be len, ct] tag
      (r\<lparr>csock := t2\<rparr>) = (Ok (), r\<lparr>csock := t2, verify := v2\<rparr>)"
    using check_mac_run [of k _ "r\<lparr>csock := t2\<rparr>"] m by simp
  have "etm_packet k None [] r = (Ok (len, u32_to_be len @ ct @ tag), r\<lparr>csock := t2, verify := v2\<rparr>)"
    using t1(1) t2(1) h p c l
    by (simp add: etm_packet_def Let_def sr_defs del: for_each.simps)
  with t1 t2 that show ?thesis by simp
qed

lemma etm_recv_run:
  assumes n: "len = as_u32 (1 + length x + length pad)" "x \<noteq> []" "length pad < 256"
      "1 + length x + length pad + 4 + m_len k (verify r) \<le> MAX_PACKET_LENGTH"
    and u: "unread (csock r) = u32_to_be len @ ct @ tag @ rest" "[] \<notin> set (inbound (csock r))"
    and l: "length ct = 1 + length x + length pad" "length tag = m_len k (verify r)"
    and m: "for_each (m_update k) [u32_to_be (sequence_number (server r)), u32_to_be len, ct] (verify r)
        = (Ok (), v1)" "m_finalize k v1 = (Ok tag, v2)"
    and d: "d_update k ct (decrypt r) = (Ok p1, d1)" "d_finalize k d1 = (Ok p2, d2)"
      "p1 @ p2 = as_u8 (length pad) # x @ pad"
    and z: "\<And>t. decode t = decode r \<Longrightarrow> authenticated t = authenticated r \<Longrightarrow>
       decompress_payload k x t = (Ok data, t\<lparr>decode := z\<rparr>)"
  shows "\<exists>t. read_etm k None [] [] r = (Ok \<lparr>payload = data, padding = pad\<rparr>,
      r\<lparr>csock := t, verify := v2, decrypt := d2, decode := z, rstate := SReady None [] (p1 @ p2)\<rparr>) \<and>
    unread t = rest \<and> [] \<notin> set (inbound t)"
proof -
  have len: "unat len = 1 + length x + length pad" using n by simp
  obtain t where t: "etm_packet k None [] r = (Ok (len, u32_to_be len @ ct @ tag),
      r\<lparr>csock := t, verify := v2\<rparr>)" "unread t = unread (csock r)" "[] \<notin> set (inbound t)"
      "4 + unat len + m_len k (verify r) \<le> length (r_buf t)"
    using etm_packet_run [OF u _ l(2) _ m] l n len by auto
  have s: "split_body len (p1 @ p2) = Ok (x, pad)"
    using split_body_frame [of pad x] n d(3) by simp
  let ?t = "consume_read_buffer (4 + unat len + m_len k (verify r)) t"
  have "unread ?t = rest"
    using unread_consume [OF t(4)] t(2) u(1) l len by simp
  moreover have "[] \<notin> set (inbound ?t)" using t(3) by (simp add: consume_read_buffer_def)
  moreover have "read_etm k None [] [] r = (Ok \<lparr>payload = data, padding = pad\<rparr>,
      r\<lparr>csock := ?t, verify := v2, decrypt := d2, decode := z, rstate := SReady None [] (p1 @ p2)\<rparr>)"
    using t(1) d s l len z
    by (simp add: read_etm_def sr_defs set_rstate_def drop_read_def add.assoc)
  ultimately show ?thesis by blast
qed

lemma cipher_linkD:
  assumes "cipher_link k R" "R e d"
  shows "\<not> e_gcm k e" "\<not> d_gcm k d" "0 < e_block_size k e" "e_block_size k e \<le> 64"
    "d_update_seq k n d = (Ok (), d)"
    "length p mod e_block_size k e = 0 \<Longrightarrow>
       \<exists>c1 e1 c2 e2 p1 d1 p2 d2. e_update k p e = (Ok c1, e1) \<and> e_finalize k e1 = (Ok c2, e2) \<and>
         length (c1 @ c2) = length p \<and>
         d_update k (c1 @ c2) d = (Ok p1, d1) \<and> d_finalize k d1 = (Ok p2, d2) \<and>
         p1 @ p2 = p \<and> R e2 d2"
  using assms unfolding cipher_link_def by simp_all

lemma mac_linkD:
  assumes "mac_link k Q" "Q m v"
  shows "m_etm k m" "m_etm k v" "m_len k v \<le> 64"
    "\<exists>m1 m2 v1 v2 tag.
        for_each (m_update k) (u32_to_be seq # parts) m = (Ok (), m1) \<and> m_finalize k m1 = (Ok tag, m2) \<and>
        for_each (m_update k) (u32_to_be seq # parts) v = (Ok (), v1) \<and> m_finalize k v1 = (Ok tag, v2) \<and>
        length tag = m_len k v \<and> Q m2 v2"
  using assms unfolding mac_link_def by simp_all

lemma cipher_frame_parts:
  assumes "length x + n < 2 ^ 31"
  shows "take 4 (cipher_frame rnd x n) = u32_to_be (as_u32 (1 + length x + n))"
    "drop 4 (cipher_frame rnd x n) = as_u8 n # x @ random_bytes rnd n"
    "length (cipher_frame rnd x n) = 4 + (1 + length x + n)"
  by (simp_all add: cipher_frame_def frame_eq)

text \<open>One payload through two linked streams; the streams are linked again afterwards.\<close>

lemma etm_roundtrip_one:
  assumes links: "cipher_link k R" "mac_link k Q" "zip_link k Z" and L: "linked R Q Z s r"
    and data: "data \<noteq> []" "length data \<le> MAX_PACKET_PAYLOAD_LENGTH"
  obtains s' wire where "cipher_send_payload k rnd data s = (Ok (), s')"
    "outbound (csock s') = outbound (csock s) @ wire"
    "\<And>rest. [] \<notin> set (inbound (csock r)) \<Longrightarrow> unread (csock r) = wire @ rest \<Longrightarrow>
       \<exists>r' pad. read_packet k r = (Ok \<lparr>payload = data, padding = pad\<rparr>, r') \<and>
         unread (csock r') = rest \<and> [] \<notin> set (inbound (csock r')) \<and> linked R Q Z s' r'"
proof -
  let ?seq = "cipher_seq s" and ?reset = "hd data = SSH_MSG_NEWKEYS \<and> strict s"
  from L have R: "R (encrypt s) (decrypt r)" and Q: "Q (calculator s) (verify r)"
    and Z: "Z (encode s) (decode r)" and au: "authenticated s = authenticated r"
    and sq: "sequence_number (server r) = ?seq" and st: "strict r = strict s"
    and rs: "rstate r = SNone" and wb: "w_buf (csock s) = []" "\<not> broken (csock s)"
    by (simp_all add: linked_def)
  obtain x c z where x: "compress_payload k data s = (Ok x, s\<lparr>encode := c\<rparr>)"
    "x \<noteq> []" "length x \<le> length data + 4096" "Z c z"
    "\<And>t. decode t = decode r \<Longrightarrow> authenticated t = authenticated r \<Longrightarrow>
       decompress_payload k x t = (Ok data, t\<lparr>decode := z\<rparr>)"
    using compress_pair [OF links(3) Z au data(1)] by blast
  note cl = cipher_linkD [OF links(1) R] and ml = mac_linkD [OF links(2) Q]
  let ?b = "e_block_size k (encrypt s)"
  define n where "n = padding_for ?b (1 + length x)"
  have n: "n < 68" "(1 + length x + n) mod ?b = 0"
    using padding_for_bounds(1) [OF cl(3), of "1 + length x"] padding_for_aligned [OF cl(3), of "1 + length x"]
      cl(4) by (simp_all add: n_def)
  have small: "length x + n < 2 ^ 31" using x(3) n(1) data(2) by simp
  let ?f = "cipher_frame rnd x n" and ?len = "as_u32 (1 + length x + n)"
  note f = cipher_frame_parts [OF small, of rnd]
  obtain c1 e1 c2 e2 p1 d1 p2 d2 where e: "e_update k (drop 4 ?f) (encrypt s) = (Ok c1, e1)"
    "e_finalize k e1 = (Ok c2, e2)" "length (c1 @ c2) = 1 + length x + n"
    "d_update k (c1 @ c2) (decrypt r) = (Ok p1, d1)" "d_finalize k d1 = (Ok p2, d2)"
    "p1 @ p2 = drop 4 ?f" "R e2 d2"
    using cl(6) [of "drop 4 ?f"] n(2) f(3) by auto
  obtain m1 m2 v1 v2 tag where m:
    "for_each (m_update k) [u32_to_be ?seq, take 4 ?f, c1 @ c2] (calculator s) = (Ok (), m1)"
    "m_finalize k m1 = (Ok tag, m2)"
    "for_each (m_update k) [u32_to_be ?seq, take 4 ?f, c1 @ c2] (verify r) = (Ok (), v1)"
    "m_finalize k v1 = (Ok tag, v2)" "length tag = m_len k (verify r)" "Q m2 v2"
    using ml(4) by blast
  let ?wire = "take 4 ?f @ c1 @ c2 @ tag"
  obtain q where q: "send_etm k rnd x (s\<lparr>encode := c\<rparr>) = (Ok (), s\<lparr>encode := c, encrypt := e2,
      calculator := m2, csock := (csock s)\<lparr>outbound := outbound (csock s) @ ?wire, quotas := q\<rparr>\<rparr>)"
    using etm_send_run [of k ?f "s\<lparr>encode := c\<rparr>" c1 e1 c2 e2 m1 tag m2 rnd x] e m cl(3) wb f(3)
    by (auto simp: n_def)
  let ?s = "bump_client ?reset (s\<lparr>encode := c, encrypt := e2, calculator := m2,
      csock := (csock s)\<lparr>outbound := outbound (csock s) @ ?wire, quotas := q\<rparr>\<rparr>)"
  show thesis
  proof (rule that [of ?s ?wire])
    show "cipher_send_payload k rnd data s = (Ok (), ?s)"
      using x(1) q data cl(1) ml(1) by (simp add: cipher_send_payload_def smodify_def)
    show "outbound (csock ?s) = outbound (csock s) @ ?wire" by (simp add: bump_client_def)
  next
    fix rest
    assume in0: "[] \<notin> set (inbound (csock r))" and un: "unread (csock r) = ?wire @ rest"
    let ?r0 = "r\<lparr>rstate := SReady None [] []\<rparr>" and ?pad = "random_bytes rnd n"
    obtain t where t: "read_etm k None [] [] ?r0 = (Ok \<lparr>payload = data, padding = ?pad\<rparr>,
        ?r0\<lparr>csock := t, verify := v2, decrypt := d2, decode := z, rstate := SReady None [] (p1 @ p2)\<rparr>)"
      "unread t = rest" "[] \<notin> set (inbound t)"
      using etm_recv_run [of ?len x ?pad k ?r0 "c1 @ c2" tag rest v1 v2 p1 d1 p2 d2 data z]
        x n(1) un in0 e m f sq ml(3) data(2) by auto
    let ?r = "bump_server ?reset (?r0\<lparr>csock := t, verify := v2, decrypt := d2, decode := z,
        rstate := SNone\<rparr>)"
    have "read_packet k r = (Ok \<lparr>payload = data, padding = ?pad\<rparr>, ?r)"
      using t(1) rs cl(2,5) ml(2) data(1) st
      by (simp add: read_packet_def read_ready_def finish_packet_def set_rstate_def sr_defs
          sbind_def strict_def bump_server_def zoom_def)
    moreover have "linked R Q Z ?s ?r"
      using L e(7) m(6) x(4) sq st
      by (simp add: linked_def strict_def bump_server_def bump_client_def)
    ultimately show "\<exists>r' pad. read_packet k r = (Ok \<lparr>payload = data, padding = pad\<rparr>, r') \<and>
        unread (csock r') = rest \<and> [] \<notin> set (inbound (csock r')) \<and> linked R Q Z ?s r'"
      using t(2,3) by (intro exI [of _ ?r] exI [of _ ?pad]) (simp add: bump_server_def)
  qed
qed

text \<open>A sequence of payloads, each with the random bytes its padding gets.\<close>

definition cipher_send_all ::
    "('e, 'd, 'c, 'z, 'm) crypto \<Rightarrow> ((nat \<Rightarrow> u8) \<times> bytes) list \<Rightarrow>
     (('e, 'd, 'c, 'z, 'm) cipher_stream, unit) sr" where
  "cipher_send_all k = for_each (\<lambda>(rnd, d). cipher_send_payload k rnd d)"

text \<open>
  The contract of a sending and a receiving stream that belong together: a payload sent is read
  and they belong together again. The sender does not see the receiver's socket.
\<close>

locale packet_link =
  fixes k :: "('e, 'd, 'c, 'z, 'm) crypto"
    and L :: "('e, 'd, 'c, 'z, 'm) cipher_stream \<Rightarrow> ('e, 'd, 'c, 'z, 'm) cipher_stream \<Rightarrow> bool"
  assumes transfer: "L s r \<Longrightarrow> d \<noteq> [] \<Longrightarrow> length d \<le> MAX_PACKET_PAYLOAD_LENGTH \<Longrightarrow>
      \<exists>s' wire. cipher_send_payload k rnd d s = (Ok (), s') \<and>
        outbound (csock s') = outbound (csock s) @ wire \<and>
        (\<forall>rest. [] \<notin> set (inbound (csock r)) \<longrightarrow> unread (csock r) = wire @ rest \<longrightarrow>
          (\<exists>r' pad. read_packet k r = (Ok \<lparr>payload = d, padding = pad\<rparr>, r') \<and>
            unread (csock r') = rest \<and> [] \<notin> set (inbound (csock r')) \<and> L s' r'))"
    and any_socket: "L s r \<Longrightarrow> L s (r\<lparr>csock := b\<rparr>)"
begin

lemma step:
  assumes L: "L s r" and d: "d \<noteq> []" "length d \<le> MAX_PACKET_PAYLOAD_LENGTH"
  obtains s' wire r1 where "cipher_send_payload k rnd d s = (Ok (), s')"
    "outbound (csock s') = outbound (csock s) @ wire" "L s' r1"
    "\<And>rest. [] \<notin> set (inbound (csock r)) \<Longrightarrow> unread (csock r) = wire @ rest \<Longrightarrow>
       \<exists>r' pad. read_packet k r = (Ok \<lparr>payload = d, padding = pad\<rparr>, r') \<and>
         unread (csock r') = rest \<and> [] \<notin> set (inbound (csock r')) \<and> L s' r'"
proof -
  obtain s1 w1 where s1: "cipher_send_payload k rnd d s = (Ok (), s1)"
    "outbound (csock s1) = outbound (csock s) @ w1"
    "\<And>rest. [] \<notin> set (inbound (csock r)) \<Longrightarrow> unread (csock r) = w1 @ rest \<Longrightarrow>
       \<exists>r' pad. read_packet k r = (Ok \<lparr>payload = d, padding = pad\<rparr>, r') \<and>
         unread (csock r') = rest \<and> [] \<notin> set (inbound (csock r')) \<and> L s1 r'"
    using transfer [OF L d, of rnd] by (elim exE conjE) (rule that; (assumption | blast))
  let ?r0 = "r\<lparr>csock := (csock r)\<lparr>inbound := [], r_buf := w1\<rparr>\<rparr>"
  obtain s2 w2 where s2: "cipher_send_payload k rnd d s = (Ok (), s2)"
    "outbound (csock s2) = outbound (csock s) @ w2"
    "\<And>rest. [] \<notin> set (inbound (csock ?r0)) \<Longrightarrow> unread (csock ?r0) = w2 @ rest \<Longrightarrow>
       \<exists>r' pad. read_packet k ?r0 = (Ok \<lparr>payload = d, padding = pad\<rparr>, r') \<and>
         unread (csock r') = rest \<and> [] \<notin> set (inbound (csock r')) \<and> L s2 r'"
    using transfer [OF any_socket [OF L, of "(csock r)\<lparr>inbound := [], r_buf := w1\<rparr>"] d, of rnd]
    by (elim exE conjE) (rule that; (assumption | blast))
  from s1(1,2) s2(1,2) have "s2 = s1" "w2 = w1" by auto
  with s2(3) [of "[]"] have "\<exists>r'. L s1 r'" by (auto simp: unread_def)
  then obtain r1 where "L s1 r1" ..
  from that [OF s1(1,2) this s1(3)] show ?thesis .
qed

lemma transfer_all:
  assumes "L s r" and "\<forall>(rnd, d) \<in> set ds. d \<noteq> [] \<and> length d \<le> MAX_PACKET_PAYLOAD_LENGTH"
  shows "\<exists>s' wire. cipher_send_all k ds s = (Ok (), s') \<and>
    outbound (csock s') = outbound (csock s) @ wire \<and>
    (\<forall>rest. [] \<notin> set (inbound (csock r)) \<and> unread (csock r) = wire @ rest \<longrightarrow>
       (\<exists>r' ps. times (length ds) (read_packet k) r = (Ok ps, r') \<and> map payload ps = map snd ds \<and>
         unread (csock r') = rest \<and> L s' r'))"
  using assms
proof (induction ds arbitrary: s r)
  case Nil
  then show ?case
    by (intro exI [of _ s] exI [of _ "[]"]) (auto simp: cipher_send_all_def sr_defs)
next
  case (Cons a ds)
  obtain rnd d where a: "a = (rnd, d)" by (cases a)
  have d: "d \<noteq> []" "length d \<le> MAX_PACKET_PAYLOAD_LENGTH"
    using Cons.prems(2) a by simp_all
  obtain s1 w1 r1 where s1: "cipher_send_payload k rnd d s = (Ok (), s1)"
    "outbound (csock s1) = outbound (csock s) @ w1" "L s1 r1"
    "\<And>rest. [] \<notin> set (inbound (csock r)) \<Longrightarrow> unread (csock r) = w1 @ rest \<Longrightarrow>
       \<exists>r' pad. read_packet k r = (Ok \<lparr>payload = d, padding = pad\<rparr>, r') \<and>
         unread (csock r') = rest \<and> [] \<notin> set (inbound (csock r')) \<and> L s1 r'"
    using step [OF Cons.prems(1) d, of rnd] by blast
  obtain s' w2 where s': "cipher_send_all k ds s1 = (Ok (), s')"
    "outbound (csock s') = outbound (csock s1) @ w2"
    using Cons.IH [OF s1(3)] Cons.prems(2) by auto
  have "\<exists>r' ps. times (length (a # ds)) (read_packet k) r = (Ok ps, r') \<and>
      map payload ps = map snd (a # ds) \<and> unread (csock r') = rest \<and> L s' r'"
    if un: "[] \<notin> set (inbound (csock r))" "unread (csock r) = (w1 @ w2) @ rest" for rest
  proof -
    obtain r2 pad where r2: "read_packet k r = (Ok \<lparr>payload = d, padding = pad\<rparr>, r2)"
      "unread (csock r2) = w2 @ rest" "[] \<notin> set (inbound (csock r2))" "L s1 r2"
      using s1(4) [of "w2 @ rest"] un by auto
    then obtain r3 ps where "times (length ds) (read_packet k) r2 = (Ok ps, r3)"
      "map payload ps = map snd ds" "unread (csock r3) = rest" "L s' r3"
      using Cons.IH [OF r2(4)] Cons.prems(2) s' by auto
    with r2(1) a show ?thesis by (simp add: sreturn_def)
  qed
  with s1(1,2) s' a show ?case
    by (intro exI [of _ s'] exI [of _ "w1 @ w2"]) (auto simp: cipher_send_all_def)
qed

end

interpretation etm: packet_link k
  "\<lambda>s r. cipher_link k R \<and> mac_link k Q \<and> zip_link k Z \<and> linked R Q Z s r" for k R Q Z
proof unfold_locales
  fix s r :: "('a, 'b, 'c, 'd, 'e) cipher_stream" and d :: bytes and rnd
  assume L: "cipher_link k R \<and> mac_link k Q \<and> zip_link k Z \<and> linked R Q Z s r"
    and d: "d \<noteq> []" "length d \<le> MAX_PACKET_PAYLOAD_LENGTH"
  then have l: "cipher_link k R" "mac_link k Q" "zip_link k Z" "linked R Q Z s r" by simp_all
  show "\<exists>s' wire. cipher_send_payload k rnd d s = (Ok (), s') \<and>
      outbound (csock s') = outbound (csock s) @ wire \<and>
      (\<forall>rest. [] \<notin> set (inbound (csock r)) \<longrightarrow> unread (csock r) = wire @ rest \<longrightarrow>
        (\<exists>r' pad. read_packet k r = (Ok \<lparr>payload = d, padding = pad\<rparr>, r') \<and>
          unread (csock r') = rest \<and> [] \<notin> set (inbound (csock r')) \<and>
          cipher_link k R \<and> mac_link k Q \<and> zip_link k Z \<and> linked R Q Z s' r'))"
    by (rule etm_roundtrip_one [OF l d, of rnd]) (use l(1-3) in blast)
qed (simp add: linked_def strict_def)

lemma etm_roundtrip_all:
  assumes "cipher_link k R" "mac_link k Q" "zip_link k Z" and "linked R Q Z s r"
    and "\<forall>(rnd, d) \<in> set ds. d \<noteq> [] \<and> length d \<le> MAX_PACKET_PAYLOAD_LENGTH"
  shows "\<exists>s' wire. cipher_send_all k ds s = (Ok (), s') \<and>
    outbound (csock s') = outbound (csock s) @ wire \<and>
    (\<forall>rest. [] \<notin> set (inbound (csock r)) \<and> unread (csock r) = wire @ rest \<longrightarrow>
       (\<exists>r' ps. times (length ds) (read_packet k) r = (Ok ps, r') \<and> map payload ps = map snd ds \<and>
         unread (csock r') = rest \<and> linked R Q Z s' r'))"
  using etm.transfer_all [of k R Q Z s r ds] assms by blast

end
