(* ===== verification/TtyModes.thy ===== *)
theory TtyModes
  imports Buffer
begin

text \<open>
  The terminal modes of \<open>src/session/channel.rs\<close>: the opcodes, the parser and encoder of the
  mode string of a \<open>pty-req\<close>, and the presets.
\<close>

section \<open>Opcodes\<close>

datatype tty_opcode =
    TtyOpEnd | VIntr | VQuit | VErase | VKill | VEOF | VEOL | VEOL2 | VStart | VStop |
    VSusp | VDSusp | VReprint | VWerase | VLNext | VFlush | VSwitch | VStatus | VDiscard |
    IGNPAR | PARMRK | INPCK | ISTRIP | INLCR | IGNCR | ICRNL | IUCLC | IXON | IXANY |
    IXOFF | IMAXBEL | IUTF8 | ISIG | ICANON | XCASE | ECHO | ECHOE | ECHOK | ECHONL |
    NOFLSH | TOSTOP | IEXTEN | ECHOCTL | ECHOKE | PENDIN | OPOST | OLCUC | ONLCR | OCRNL |
    ONOCR | ONLRET | CS7 | CS8 | PARENB | PARODD | TtyOpISpeed | TtyOpOSpeed

text \<open>\<open>opcode as u8\<close>.\<close>

fun tty_code :: "tty_opcode \<Rightarrow> u8" where
  "tty_code TtyOpEnd = 0"
| "tty_code VIntr = 1"
| "tty_code VQuit = 2"
| "tty_code VErase = 3"
| "tty_code VKill = 4"
| "tty_code VEOF = 5"
| "tty_code VEOL = 6"
| "tty_code VEOL2 = 7"
| "tty_code VStart = 8"
| "tty_code VStop = 9"
| "tty_code VSusp = 10"
| "tty_code VDSusp = 11"
| "tty_code VReprint = 12"
| "tty_code VWerase = 13"
| "tty_code VLNext = 14"
| "tty_code VFlush = 15"
| "tty_code VSwitch = 16"
| "tty_code VStatus = 17"
| "tty_code VDiscard = 18"
| "tty_code IGNPAR = 30"
| "tty_code PARMRK = 31"
| "tty_code INPCK = 32"
| "tty_code ISTRIP = 33"
| "tty_code INLCR = 34"
| "tty_code IGNCR = 35"
| "tty_code ICRNL = 36"
| "tty_code IUCLC = 37"
| "tty_code IXON = 38"
| "tty_code IXANY = 39"
| "tty_code IXOFF = 40"
| "tty_code IMAXBEL = 41"
| "tty_code IUTF8 = 42"
| "tty_code ISIG = 50"
| "tty_code ICANON = 51"
| "tty_code XCASE = 52"
| "tty_code ECHO = 53"
| "tty_code ECHOE = 54"
| "tty_code ECHOK = 55"
| "tty_code ECHONL = 56"
| "tty_code NOFLSH = 57"
| "tty_code TOSTOP = 58"
| "tty_code IEXTEN = 59"
| "tty_code ECHOCTL = 60"
| "tty_code ECHOKE = 61"
| "tty_code PENDIN = 62"
| "tty_code OPOST = 70"
| "tty_code OLCUC = 71"
| "tty_code ONLCR = 72"
| "tty_code OCRNL = 73"
| "tty_code ONOCR = 74"
| "tty_code ONLRET = 75"
| "tty_code CS7 = 90"
| "tty_code CS8 = 91"
| "tty_code PARENB = 92"
| "tty_code PARODD = 93"
| "tty_code TtyOpISpeed = 128"
| "tty_code TtyOpOSpeed = 129"

definition tty_table :: "(u8 \<times> tty_opcode) list" where
  "tty_table =
     [(0, TtyOpEnd), (1, VIntr), (2, VQuit), (3, VErase), (4, VKill), (5, VEOF), (6, VEOL),
      (7, VEOL2), (8, VStart), (9, VStop), (10, VSusp), (11, VDSusp), (12, VReprint),
      (13, VWerase), (14, VLNext), (15, VFlush), (16, VSwitch), (17, VStatus),
      (18, VDiscard), (30, IGNPAR), (31, PARMRK), (32, INPCK), (33, ISTRIP), (34, INLCR),
      (35, IGNCR), (36, ICRNL), (37, IUCLC), (38, IXON), (39, IXANY), (40, IXOFF),
      (41, IMAXBEL), (42, IUTF8), (50, ISIG), (51, ICANON), (52, XCASE), (53, ECHO),
      (54, ECHOE), (55, ECHOK), (56, ECHONL), (57, NOFLSH), (58, TOSTOP), (59, IEXTEN),
      (60, ECHOCTL), (61, ECHOKE), (62, PENDIN), (70, OPOST), (71, OLCUC), (72, ONLCR),
      (73, OCRNL), (74, ONOCR), (75, ONLRET), (90, CS7), (91, CS8), (92, PARENB),
      (93, PARODD), (128, TtyOpISpeed), (129, TtyOpOSpeed)]"

definition from_u8 :: "u8 \<Rightarrow> tty_opcode option" where
  "from_u8 value = map_of tty_table value"

primrec tty_name :: "tty_opcode \<Rightarrow> bytes" where
  "tty_name TtyOpEnd = str ''TTY_OP_END''"
| "tty_name VIntr = str ''VINTR''"
| "tty_name VQuit = str ''VQUIT''"
| "tty_name VErase = str ''VERASE''"
| "tty_name VKill = str ''VKILL''"
| "tty_name VEOF = str ''VEOF''"
| "tty_name VEOL = str ''VEOL''"
| "tty_name VEOL2 = str ''VEOL2''"
| "tty_name VStart = str ''VSTART''"
| "tty_name VStop = str ''VSTOP''"
| "tty_name VSusp = str ''VSUSP''"
| "tty_name VDSusp = str ''VDSUSP''"
| "tty_name VReprint = str ''VREPRINT''"
| "tty_name VWerase = str ''VWERASE''"
| "tty_name VLNext = str ''VLNEXT''"
| "tty_name VFlush = str ''VFLUSH''"
| "tty_name VSwitch = str ''VSWTCH''"
| "tty_name VStatus = str ''VSTATUS''"
| "tty_name VDiscard = str ''VDISCARD''"
| "tty_name IGNPAR = str ''IGNPAR''"
| "tty_name PARMRK = str ''PARMRK''"
| "tty_name INPCK = str ''INPCK''"
| "tty_name ISTRIP = str ''ISTRIP''"
| "tty_name INLCR = str ''INLCR''"
| "tty_name IGNCR = str ''IGNCR''"
| "tty_name ICRNL = str ''ICRNL''"
| "tty_name IUCLC = str ''IUCLC''"
| "tty_name IXON = str ''IXON''"
| "tty_name IXANY = str ''IXANY''"
| "tty_name IXOFF = str ''IXOFF''"
| "tty_name IMAXBEL = str ''IMAXBEL''"
| "tty_name IUTF8 = str ''IUTF8''"
| "tty_name ISIG = str ''ISIG''"
| "tty_name ICANON = str ''ICANON''"
| "tty_name XCASE = str ''XCASE''"
| "tty_name ECHO = str ''ECHO''"
| "tty_name ECHOE = str ''ECHOE''"
| "tty_name ECHOK = str ''ECHOK''"
| "tty_name ECHONL = str ''ECHONL''"
| "tty_name NOFLSH = str ''NOFLSH''"
| "tty_name TOSTOP = str ''TOSTOP''"
| "tty_name IEXTEN = str ''IEXTEN''"
| "tty_name ECHOCTL = str ''ECHOCTL''"
| "tty_name ECHOKE = str ''ECHOKE''"
| "tty_name PENDIN = str ''PENDIN''"
| "tty_name OPOST = str ''OPOST''"
| "tty_name OLCUC = str ''OLCUC''"
| "tty_name ONLCR = str ''ONLCR''"
| "tty_name OCRNL = str ''OCRNL''"
| "tty_name ONOCR = str ''ONOCR''"
| "tty_name ONLRET = str ''ONLRET''"
| "tty_name CS7 = str ''CS7''"
| "tty_name CS8 = str ''CS8''"
| "tty_name PARENB = str ''PARENB''"
| "tty_name PARODD = str ''PARODD''"
| "tty_name TtyOpISpeed = str ''TTY_OP_ISPEED''"
| "tty_name TtyOpOSpeed = str ''TTY_OP_OSPEED''"

definition is_special_char :: "tty_opcode \<Rightarrow> bool" where
  "is_special_char t \<longleftrightarrow> 1 \<le> tty_code t \<and> tty_code t \<le> 18"

definition is_input_flag :: "tty_opcode \<Rightarrow> bool" where
  "is_input_flag t \<longleftrightarrow> 30 \<le> tty_code t \<and> tty_code t \<le> 42"

definition is_local_flag :: "tty_opcode \<Rightarrow> bool" where
  "is_local_flag t \<longleftrightarrow> 50 \<le> tty_code t \<and> tty_code t \<le> 62"

definition is_output_flag :: "tty_opcode \<Rightarrow> bool" where
  "is_output_flag t \<longleftrightarrow> 70 \<le> tty_code t \<and> tty_code t \<le> 75"

definition is_control_flag :: "tty_opcode \<Rightarrow> bool" where
  "is_control_flag t \<longleftrightarrow> 90 \<le> tty_code t \<and> tty_code t \<le> 93"

definition is_speed :: "tty_opcode \<Rightarrow> bool" where
  "is_speed t \<longleftrightarrow> 128 \<le> tty_code t \<and> tty_code t \<le> 129"

section \<open>Parsing and encoding\<close>

fun tty_parse :: "bytes \<Rightarrow> (tty_opcode \<times> u32) list" where
  "tty_parse [] = []"
| "tty_parse (opcode # rest) =
     (if opcode = 0 then []
      else
        (case rest of
           a # b # c # d # rest' \<Rightarrow>
             (case from_u8 opcode of
                Some t \<Rightarrow> (t, from_be [a, b, c, d]) # tty_parse rest'
              | None \<Rightarrow> tty_parse rest')
         | _ \<Rightarrow> []))"

definition tty_encode :: "(tty_opcode \<times> u32) list \<Rightarrow> bytes" where
  "tty_encode modes = concat (map (\<lambda>(t, value). tty_code t # u32_to_be value) modes) @ [0]"

section \<open>Presets\<close>

definition interactive_terminal :: "(tty_opcode \<times> u32) list" where
  "interactive_terminal =
     [(TtyOpOSpeed, 9600), (TtyOpISpeed, 9600), (VIntr, 3), (VQuit, 28), (VErase, 127),
      (VKill, 21), (VEOF, 4), (VStart, 17), (VStop, 19), (VSusp, 26), (VReprint, 18),
      (VWerase, 23), (VLNext, 22), (ISIG, 1), (ICANON, 1), (ECHO, 1), (ECHOE, 1),
      (ECHOK, 1), (IEXTEN, 1), (OPOST, 1), (ONLCR, 1)]"

definition password_input :: "(tty_opcode \<times> u32) list" where
  "password_input =
     [(ISIG, 1), (ICANON, 1), (ECHO, 0), (IEXTEN, 1), (OPOST, 1), (ONLCR, 1)]"

definition raw_mode :: "(tty_opcode \<times> u32) list" where
  "raw_mode =
     [(ISIG, 0), (ICANON, 0), (ECHO, 0), (IXON, 0), (ICRNL, 0), (OPOST, 0), (ONLCR, 0)]"

definition serial_communication :: "(tty_opcode \<times> u32) list" where
  "serial_communication =
     [(TtyOpOSpeed, 9600), (TtyOpISpeed, 9600), (CS8, 1), (PARENB, 1), (PARODD, 0)]"

section \<open>Facts\<close>

lemma from_u8_tty_code [simp]: "from_u8 (tty_code t) = Some t"
  by (cases t) (simp_all add: from_u8_def tty_table_def)

lemma tty_table_codes: "\<forall>(c, t) \<in> set tty_table. tty_code t = c"
  by (simp add: tty_table_def)

lemma from_u8_Some_iff: "from_u8 c = Some t \<longleftrightarrow> c = tty_code t"
  using tty_table_codes by (auto simp: from_u8_def dest: map_of_SomeD intro: from_u8_tty_code [unfolded from_u8_def])

lemma tty_code_zero_iff [simp]: "tty_code t = 0 \<longleftrightarrow> t = TtyOpEnd"
  by (cases t) simp_all

text \<open>\<open>TtyOpEnd\<close> inside a list of modes ends the string early; every other list is read back.\<close>

lemma tty_parse_entry:
  assumes "t \<noteq> TtyOpEnd"
  shows "tty_parse (tty_code t # u32_to_be v @ rest) = (t, v) # tty_parse rest"
proof -
  obtain a b c d where v: "u32_to_be v = [a, b, c, d]"
    using u32_to_be_def by blast
  then have "from_be [a, b, c, d] = v" by (metis from_be_u32)
  with assms v show ?thesis by simp
qed

lemma tty_parse_encode_prefix:
  "\<forall>(t, v) \<in> set modes. t \<noteq> TtyOpEnd \<Longrightarrow>
   tty_parse (concat (map (\<lambda>(t, value). tty_code t # u32_to_be value) modes) @ 0 # rest) = modes"
  by (induction modes) (auto simp: tty_parse_entry simp del: tty_parse.simps(2), simp)

end
