(* ===== verification/TransportProperties.thy ===== *)
theory TransportProperties
  imports CipherStreams TtyModes
begin

text \<open>
  The properties of the wire format and of the two packet streams, stated over the model of
  \<open>src/ssh\<close> and \<open>src/stream.rs\<close>. Each theorem with hypotheses is followed by an instance of it
  on concrete sockets and on a small cipher suite (\<open>xor_crypto\<close>).
\<close>

section \<open>Concrete sockets and a concrete cipher suite\<close>

definition idle_socket :: buffer_stream where
  "idle_socket = \<lparr>inbound = [], outbound = [], quotas = [3, 1], broken = False, r_buf = [], w_buf = []\<rparr>"

definition wired :: "bytes list \<Rightarrow> buffer_stream" where
  "wired chunks = idle_socket\<lparr>inbound := chunks\<rparr>"

text \<open>
  A stream cipher that adds a key byte, a MAC that counts the bytes it covers, and a compressor
  that prepends a marker byte.
\<close>

definition xor_crypto :: "(u8, u8, bytes, bytes, bytes) crypto" where
  "xor_crypto = \<lparr>
     e_block_size = (\<lambda>_. 8), e_gcm = (\<lambda>_. False), e_tag_len = (\<lambda>_. 0),
     e_update_seq = (\<lambda>_. sreturn ()), e_aad = sreturn,
     e_update = (\<lambda>p key. (Ok (map (\<lambda>b. b + key) p), key)), e_finalize = sreturn [], e_tag = (\<lambda>_. sreturn []),
     d_block_size = (\<lambda>_. 8), d_gcm = (\<lambda>_. False), d_tag_len = (\<lambda>_. 0),
     d_update_seq = (\<lambda>_. sreturn ()), d_aad = sreturn,
     d_update = (\<lambda>p key. (Ok (map (\<lambda>b. b - key) p), key)), d_finalize = sreturn [],
     d_set_tag = (\<lambda>_. sreturn ()),
     c_in_auth = (\<lambda>_. True), c_update = (\<lambda>p _. (Ok (), p)), c_finalize = (\<lambda>p. (Ok (99 # p), [])),
     z_in_auth = (\<lambda>_. True), z_update = (\<lambda>p _. (Ok (), p)), z_finalize = (\<lambda>p. (Ok (tl p), [])),
     m_etm = (\<lambda>_. True), m_len = (\<lambda>_. 4), m_update = (\<lambda>p acc. (Ok (), acc @ p)),
     m_finalize = (\<lambda>acc. (Ok (u32_to_be (as_u32 (length acc))), []))\<rparr>"


definition xor_stream :: "buffer_stream \<Rightarrow> (u8, u8, bytes, bytes, bytes) cipher_stream" where
  "xor_stream sock = upgrade (plain_new sock) 7 7 [] [] [] []"

lemma xor_links:
  "cipher_link xor_crypto (=)" "mac_link xor_crypto (\<lambda>m v. m = v)" "zip_link xor_crypto (\<lambda>_ _. True)"
proof -
  show "cipher_link xor_crypto (=)"
    by (simp add: cipher_link_def xor_crypto_def sreturn_def o_def)
  have "for_each (\<lambda>p acc. (Ok (), acc @ p)) parts m = (Ok (), m @ concat parts)" for parts and m :: bytes
    by (induction parts arbitrary: m) (simp_all add: sreturn_def)
  then show "mac_link xor_crypto (\<lambda>m v. m = v)"
    by (simp add: mac_link_def xor_crypto_def)
  show "zip_link xor_crypto (\<lambda>_ _. True)"
    by (simp add: zip_link_def xor_crypto_def)
qed

lemma xor_linked:
  "linked (=) (\<lambda>m v. m = v) (\<lambda>_ _. True) (xor_stream idle_socket) (xor_stream (wired chunks))"
  by (simp add: linked_def xor_stream_def upgrade_def plain_new_def strict_def wired_def idle_socket_def
      endpoint_default_def)

section \<open>Messages\<close>

text \<open>C8: Parsing inverts encoding: every well-formed message comes back from its own wire
  form, so no handler can mistake one message for another.\<close>

theorem message_roundtrip:
  assumes "wf_message m"
  shows "Message_parse (encode_message m) = Ok m"
  using assms by (rule Message_parse_encode)

theorem message_roundtrip_witness:
  "Message_parse (encode_message (ChannelExitSignal 3 True (str ''KILL'') False (str ''bye'') [])) =
     Ok (ChannelExitSignal 3 True (str ''KILL'') False (str ''bye'') [])"
  by (rule message_roundtrip) (simp add: wf_str_def fits_def utf8_valid_ascii)

text \<open>C9: Whatever bytes a peer sends, the message parser returns a message or an error; no
  slice index, conversion or assertion in it panics.\<close>

theorem message_parse_total: "Message_parse data \<noteq> Panic"
  by (rule Message_parse_no_panic)

text \<open>The extension-info message is read as the map its pairs build, the last value of a
  name winning; the \<open>HashMap\<close> of the code does not keep the order.\<close>

theorem ext_info_roundtrip:
  assumes "\<forall>kv \<in> set kvs. wf_str (fst kv) \<and> fits (snd kv)" and "length kvs < 2 ^ 32"
  shows "Message_parse (encode_ext_info kvs) = Ok (ExtInfo (map_of (rev kvs)))"
  using assms by (rule roundtrip_ext_info)

theorem ext_info_roundtrip_witness:
  "Message_parse (encode_ext_info [(str ''a'', [1]), (str ''b'', [2]), (str ''a'', [3])]) =
     Ok (ExtInfo [str ''a'' \<mapsto> [3], str ''b'' \<mapsto> [2]])"
proof -
  have "map_of (rev [(str ''a'', [1 :: u8]), (str ''b'', [2]), (str ''a'', [3])]) =
      [str ''a'' \<mapsto> [3], str ''b'' \<mapsto> [2]]"
    by (auto simp: fun_eq_iff)
  with ext_info_roundtrip [of "[(str ''a'', [1]), (str ''b'', [2]), (str ''a'', [3])]"]
  show ?thesis by (simp add: wf_str_def fits_def utf8_valid_ascii)
qed

section \<open>Integers and terminal modes\<close>

text \<open>\<open>into_integer\<close> yields the shortest non-negative two's complement form of the same
  number, as RFC 4251 wants an \<open>mpint\<close>, for every number but zero.\<close>

theorem mpint_minimal:
  assumes "be_nat bs \<noteq> 0"
  shows "be_nat (into_integer bs) = be_nat bs \<and> hd (into_integer bs) AND 0x80 = 0 \<and>
    (hd (into_integer bs) = 0 \<longrightarrow> into_integer bs ! 1 AND 0x80 \<noteq> 0)"
  using into_integer_minimal [OF assms] by (auto simp: be_nat_into_integer into_integer_nonneg)

theorem mpint_minimal_witness:
  "be_nat (into_integer [0, 0, 0x80, 1]) = 0x8001 \<and> into_integer [0, 0, 0x80, 1] ! 1 AND 0x80 \<noteq> 0"
proof -
  have n: "be_nat [0, 0, 0x80, 1] = 0x8001" by (simp add: be_nat_def)
  have "hd (into_integer [0, 0, 0x80, 1]) = 0" by (simp add: into_integer_def)
  with mpint_minimal [of "[0, 0, 0x80, 1]"] n show ?thesis by simp
qed

text \<open>The pseudo-terminal modes the client encodes are the ones the parser reads, in order,
  as long as no end marker stands among them.\<close>

theorem tty_modes_roundtrip:
  assumes "\<forall>(t, v) \<in> set modes. t \<noteq> TtyOpEnd"
  shows "tty_parse (tty_encode modes) = modes"
  using tty_parse_encode_prefix [OF assms, of "[]"] by (simp add: tty_encode_def)

theorem tty_modes_roundtrip_witness: "tty_parse (tty_encode interactive_terminal) = interactive_terminal"
  by (rule tty_modes_roundtrip) (simp add: interactive_terminal_def)

section \<open>The plain packet stream\<close>

text \<open>A payload sent over the plain stream arrives: the frame is a whole number of 8-byte
  blocks with at least four padding bytes, however the socket splits reads and writes, and the
  two sides' sequence numbers move alike.\<close>

theorem plain_roundtrip:
  assumes "data \<noteq> []" "length data \<le> MAX_PACKET_PAYLOAD_LENGTH" "\<not> broken (psock p)" "w_buf (psock p) = []"
    and "unread (psock q) = plain_frame rnd data @ rest" "[] \<notin> set (inbound (psock q))"
    and "strict p = strict q" "sequence_number (client p) = sequence_number (server q)"
  shows "\<exists>p' q' pad. plain_send_payload rnd data p = (Ok (), p') \<and>
    outbound (psock p') = outbound (psock p) @ plain_frame rnd data \<and>
    length (plain_frame rnd data) mod 8 = 0 \<and> 4 \<le> length pad \<and>
    plain_recv_packet q = (Ok \<lparr>payload = data, padding = pad\<rparr>, q') \<and> unread (psock q') = rest \<and>
    sequence_number (client p') = sequence_number (server q')"
proof -
  let ?k = "padding_for 8 (5 + length data)"
  have d: "length data \<le> 32768" using assms(2) by simp
  obtain t where p: "plain_send_payload rnd data p =
      (Ok (), bump_client (hd data = SSH_MSG_NEWKEYS \<and> strict p)
       (p\<lparr>psock := (psock p)\<lparr>outbound := outbound (psock p) @ w_buf (psock p) @ plain_frame rnd data,
          w_buf := [], quotas := t\<rparr>\<rparr>))"
    using plain_send_Ok [OF assms(1) d assms(3), of rnd] by blast
  note k = plain_padding_bounds [of "5 + length data"]
  obtain q' where q: "plain_recv_packet q = (Ok \<lparr>payload = data, padding = random_bytes rnd ?k\<rparr>, q')"
    "unread (psock q') = rest"
    "server q' = server (bump_server (hd data = SSH_MSG_NEWKEYS \<and> strict q) q)"
    using plain_recv_frame [of "random_bytes rnd ?k" ?k data q rest] assms(1,5,6) d k
    by (auto simp: plain_frame_def Let_def)
  have "length (plain_frame rnd data) = (5 + length data) + ?k"
    by (simp add: plain_frame_def Let_def frame_eq)
  then have "length (plain_frame rnd data) mod 8 = 0"
    using padding_for_aligned [of 8 "5 + length data"] by simp
  with p q k(1) assms(4,7,8) show ?thesis
    by (auto simp: bump_client_def bump_server_def)
qed

theorem plain_roundtrip_witness:
  "\<exists>p' q' pad. plain_send_payload (\<lambda>_. 0) [20, 1] (plain_new idle_socket) = (Ok (), p') \<and>
    plain_recv_packet (plain_new (wired [[0, 0, 0], [12, 9, 20, 1, 0, 0, 0, 0, 0], [0, 0, 0, 0, 5]])) =
      (Ok \<lparr>payload = [20, 1], padding = pad\<rparr>, q') \<and> unread (psock q') = [5]"
  using plain_roundtrip [of "[20, 1]" "plain_new idle_socket"
      "plain_new (wired [[0, 0, 0], [12, 9, 20, 1, 0, 0, 0, 0, 0], [0, 0, 0, 0, 5]])" "\<lambda>_. 0" "[5]"]
  by (auto simp: plain_new_def wired_def idle_socket_def unread_def strict_def endpoint_default_def
      plain_frame_def padding_for_def random_bytes_def frame_eq u32_to_be_def as_u32_def as_u8_def
      upt_rec)

text \<open>A packet is accepted exactly when its padding length leaves room for a payload byte
  before the padding; then payload and padding split the body.\<close>

theorem packet_parse_exact:
  "Packet_parse data =
     (case data of
        [] \<Rightarrow> Err (unexpected_end ''u8'')
      | p # body \<Rightarrow>
          if length body \<le> unat p then Err (InvalidFormat ''Unexpected padding length'')
          else Ok \<lparr>payload = take (length body - unat p) body,
                  padding = drop (length body - unat p) body\<rparr>)"
  by (rule Packet_parse_eq)

section \<open>The encrypted packet stream\<close>

text \<open>C2: Any sequence of payloads sent through an encrypt-then-MAC stream is read by the linked
  receiver, in order and unchanged, with nothing lost or left over, whatever the network's
  chunking, compression and the padding's random bytes.\<close>

theorem etm_roundtrip:
  assumes "cipher_link k R" "mac_link k Q" "zip_link k Z" and "linked R Q Z s r"
    and "\<forall>(rnd, d) \<in> set ds. d \<noteq> [] \<and> length d \<le> MAX_PACKET_PAYLOAD_LENGTH"
  shows "\<exists>s' wire. cipher_send_all k ds s = (Ok (), s') \<and>
    outbound (csock s') = outbound (csock s) @ wire \<and>
    (\<forall>rest. [] \<notin> set (inbound (csock r)) \<and> unread (csock r) = wire @ rest \<longrightarrow>
       (\<exists>r' ps. times (length ds) (read_packet k) r = (Ok ps, r') \<and> map payload ps = map snd ds \<and>
         unread (csock r') = rest \<and> linked R Q Z s' r'))"
  using assms by (rule etm_roundtrip_all)

theorem etm_roundtrip_witness:
  "\<exists>s' wire. cipher_send_all xor_crypto [(\<lambda>_. 1, [20, 1]), (\<lambda>_. 2, [21])] (xor_stream idle_socket) = (Ok (), s') \<and>
    outbound (csock s') = wire"
  using etm_roundtrip [OF xor_links xor_linked [of "[]"], of "[(\<lambda>_. 1, [20, 1]), (\<lambda>_. 2, [21])]"]
  by (auto simp: xor_stream_def upgrade_def plain_new_def idle_socket_def)

lemma xor_stream_parts:
  "rstate (xor_stream t) = SNone" "verify (xor_stream t) = []" "decrypt (xor_stream t) = 7"
  "sequence_number (server (xor_stream t)) = 0" "csock (xor_stream t) = t"
  by (simp_all add: xor_stream_def upgrade_def plain_new_def endpoint_default_def)

text \<open>C20: A MAC-then-encrypt packet whose decrypted length field announces less than the block
  already decrypted makes the reader panic, before the MAC is looked at: anyone who can inject a
  block can stop the client.\<close>

theorem mte_short_length_panics:
  assumes "rstate s = SNone" and "\<not> d_gcm k d0" and "\<not> m_etm k (verify s)"
    and u: "d_update_seq k (sequence_number (server s)) (decrypt s) = (Ok (), d0)"
    and b: "4 \<le> d_block_size k d0" "d_block_size k d0 \<le> length (unread (csock s))"
      "[] \<notin> set (inbound (csock s))"
    and d: "d_update k (take (d_block_size k d0) (unread (csock s))) d0 = (Ok dec, d1)"
      "length dec = d_block_size k d0"
    and short: "unat (from_be (take 4 dec) :: u32) + 4 < d_block_size k d0"
      "unat (from_be (take 4 dec) :: u32) + 4 + m_len k (verify s)
         \<le> min MAX_PACKET_LENGTH (length (unread (csock s)))"
  shows "fst (read_packet k s) = Panic"
proof -
  let ?b = "d_block_size k d0" and ?l = "from_be (take 4 dec) :: u32"
  obtain t where t: "fill ?b (csock s) = (Ok (take ?b (unread (csock s))), t)"
    "unread t = unread (csock s)" "[] \<notin> set (inbound t)"
    using fill_there [OF b(3,2)] by metis
  obtain v where v: "fill (unat ?l + 4 + m_len k (verify s)) t =
      (Ok (take (unat ?l + 4 + m_len k (verify s)) (unread t)), v)"
    using fill_there [OF t(3), of "unat ?l + 4 + m_len k (verify s)"] short(2) t(2) by auto
  let ?s = "s\<lparr>decrypt := d0, rstate := SReady None [] []\<rparr>"
  let ?h = "take ?b (unread (csock s))"
  have h: "read_mte_header k (m_len k (verify s)) [] ?s = (Ok (?l, ?h, dec),
      s\<lparr>csock := t, decrypt := d1, rstate := SReady (Some ?l) ?h dec\<rparr>)"
    using t(1) b d short(2) by (simp add: read_mte_header_def set_rstate_def Let_def sreturn_def)
  have "fst (read_mte k None [] [] ?s) = Panic"
    using h v b(2) short by (simp add: read_mte_def spanic_def)
  moreover have "read_packet k s = sbind (read_mte k None [] []) finish_packet ?s"
    using assms(1-3) u by (simp add: read_packet_def read_ready_def set_rstate_def)
  ultimately show ?thesis by (cases "read_mte k None [] [] ?s") simp
qed

definition mte_crypto :: "(u8, u8, bytes, bytes, bytes) crypto" where
  "mte_crypto = xor_crypto\<lparr>m_etm := (\<lambda>_. False)\<rparr>"

theorem mte_short_length_panics_witness:
  "fst (read_packet mte_crypto (xor_stream (wired [[7, 7, 7, 8, 0, 0, 0, 0], [1, 2, 3, 4]]))) = Panic"
  by (rule mte_short_length_panics [where dec = "[0, 0, 0, 1, 249, 249, 249, 249]" and ?d0.0 = 7 and ?d1.0 = 7])
    (simp_all add: xor_stream_parts mte_crypto_def xor_crypto_def sreturn_def wired_def idle_socket_def
      unread_def from_be_def shift_in_def)

text \<open>Under strict key exchange the sequence number counts from the last \<open>SSH_MSG_NEWKEYS\<close>:
  whatever was sent before it leaves no trace in the numbers the MAC covers afterwards.\<close>

theorem sequence_restarts_at_newkeys:
  assumes "for_each (cipher_send_payload k rnd) (ds @ d # es) s = (Ok (), s')" and "strict s"
    and "hd d = SSH_MSG_NEWKEYS"
    and "\<forall>x \<in> set ds \<union> set es. hd x \<noteq> SSH_MSG_NEWKEYS"
  shows "cipher_seq s' = word_of_nat (length es)"
  using assms by (rule cipher.sequence_restarts)

theorem sequence_restarts_at_newkeys_witness:
  "\<exists>s'. for_each (cipher_send_payload xor_crypto (\<lambda>_. 0)) ([[50], [51]] @ [21] # [[5]])
      ((xor_stream idle_socket)\<lparr>client := \<lparr>kex_strict = True, ext = False, sequence_number = 9\<rparr>,
         server := \<lparr>kex_strict = True, ext = False, sequence_number = 9\<rparr>\<rparr>) = (Ok (), s') \<and>
    cipher_seq s' = 1"
proof -
  let ?s = "(xor_stream idle_socket)\<lparr>client := \<lparr>kex_strict = True, ext = False, sequence_number = 9\<rparr>,
         server := \<lparr>kex_strict = True, ext = False, sequence_number = 9\<rparr>\<rparr>"
  have "linked (=) (\<lambda>m v. m = v) (\<lambda>_ _. True) ?s ?s"
    by (simp add: linked_def xor_stream_def upgrade_def plain_new_def idle_socket_def strict_def)
  from etm_roundtrip_all [OF xor_links this, of "map (Pair (\<lambda>_. 0)) ([[50], [51]] @ [21] # [[5]])"]
  obtain s' where s': "for_each (cipher_send_payload xor_crypto (\<lambda>_. 0)) ([[50], [51]] @ [21] # [[5]]) ?s = (Ok (), s')"
    by (auto simp: cipher_send_all_def)
  with sequence_restarts_at_newkeys [OF s'] show ?thesis by (auto simp: strict_def)
qed

text \<open>Writes are buffered without loss: flushing hands the whole write buffer to the socket
  in order, however few bytes each write call takes, and a filled read buffer is always a prefix
  of what the peer sent.\<close>

theorem buffering_is_transparent:
  assumes "\<not> broken s"
  shows "(\<exists>t. flush s = (Ok (), t) \<and> outbound t = outbound s @ w_buf s \<and> w_buf t = [] \<and>
      unread t = unread s) \<and>
    (\<forall>bs t. fill n s = (Ok bs, t) \<longrightarrow>
      bs = take n (unread s) \<and> unread t = unread s \<and> outbound t = outbound s)"
  using flush_result [OF assms] by (auto dest: fill_Ok simp: unread_def)

theorem buffering_is_transparent_witness:
  "\<exists>t. flush (idle_socket\<lparr>w_buf := [1, 2, 3, 4, 5, 6]\<rparr>) = (Ok (), t) \<and> outbound t = [1, 2, 3, 4, 5, 6]"
  using buffering_is_transparent [of "idle_socket\<lparr>w_buf := [1, 2, 3, 4, 5, 6]\<rparr>" 0]
  by (auto simp: idle_socket_def)

end
