(* ===== verification/KeyExchange.thy ===== *)
theory KeyExchange
  imports Buffer Protocol
begin

text \<open>
  The key-exchange methods of \<open>src/cipher/kex.rs\<close>: the values that go into the exchange hash,
  the derivation of the session keys, and the stateful objects the handshake drives.
  The arithmetic behind them (OpenSSL and libcrux: digests, key generation, agreement) is a
  record of functions, an argument of the definitions.
\<close>

section \<open>The exchange hash\<close>

record information =
  client_version :: bytes
  server_version :: bytes
  client_kex_init :: bytes
  server_kex_init :: bytes
  server_host_key :: bytes
  client_public_key :: bytes
  server_public_key :: bytes
  secret_key :: bytes

text \<open>What \<open>compute_hash\<close> puts into its \<open>Producer\<close>, for the fixed groups and curves.\<close>

definition hash_input :: "information \<Rightarrow> bytes" where
  "hash_input i =
     put_one (secret_key i) (put_one (server_public_key i) (put_one (client_public_key i)
       (put_one (server_host_key i) (put_one (server_kex_init i) (put_one (client_kex_init i)
         (put_one (server_version i) (put_one (client_version i) [])))))))"

text \<open>And for the group exchange, with the sizes that were asked for and the group.\<close>

definition gex_hash_input :: "u32 \<Rightarrow> u32 \<Rightarrow> u32 \<Rightarrow> bytes \<Rightarrow> bytes \<Rightarrow> information \<Rightarrow> bytes" where
  "gex_hash_input min_bits bits max_bits p g i =
     put_one (secret_key i) (put_one (server_public_key i) (put_one (client_public_key i)
       (put_one (into_integer g) (put_one (into_integer p)
         (put_u32 max_bits (put_u32 bits (put_u32 min_bits
           (put_one (server_host_key i) (put_one (server_kex_init i) (put_one (client_kex_init i)
             (put_one (server_version i) (put_one (client_version i) []))))))))))))"

section \<open>Session keys\<close>

text \<open>
  \<open>compute_keys\<close>. The loop appends a digest until the output is long enough. The fuel is one
  round per byte asked for; a digest has at least one byte, so it does not run out
  (\<open>compute_keys_rfc\<close>).
\<close>

primrec expand_keys :: "nat \<Rightarrow> (bytes \<Rightarrow> bytes) \<Rightarrow> bytes \<Rightarrow> bytes \<Rightarrow> nat \<Rightarrow> bytes \<Rightarrow> bytes res" where
  "expand_keys 0 digest secret h len out = (if length out < len then Panic else Ok (take len out))"
| "expand_keys (Suc n) digest secret h len out =
     (if length out < len
      then expand_keys n digest secret h len (out @ digest (secret @ h @ out))
      else Ok (take len out))"

definition compute_keys ::
    "(bytes \<Rightarrow> bytes) \<Rightarrow> bytes \<Rightarrow> bytes \<Rightarrow> bytes \<Rightarrow> u8 \<Rightarrow> nat \<Rightarrow> bytes res" where
  "compute_keys digest secret sid h version len =
     expand_keys len digest secret h len (digest (secret @ h @ [version] @ sid))"

section \<open>Key-exchange objects\<close>

text \<open>
  The five implementations of \<open>KeyExchange\<close>; the group exchange keeps the sizes it asks for.
\<close>

datatype kex_method =
    EllipticCurve
  | GroupExchange (gex_min: u32) (gex_bits: u32) (gex_max: u32)
  | StandardGroup
  | Curve25519
  | MlKem768X25519

text \<open>
  The libraries: the digest, the public half of a fresh key pair (of the group \<open>p\<close>, \<open>g\<close> in a
  group exchange), and the raw secret agreed between the pair with that public half and the
  peer's public value. The hybrid method has a second pair, the X25519 one.
\<close>

record kex_library =
  digest :: "bytes \<Rightarrow> bytes"
  generate :: "(bytes \<times> bytes) option \<Rightarrow> bytes res"
  agree :: "(bytes \<times> bytes) option \<Rightarrow> bytes \<Rightarrow> bytes \<Rightarrow> bytes res"
  generate_x25519 :: "bytes res"
  agree_x25519 :: "bytes \<Rightarrow> bytes \<Rightarrow> bytes res"

text \<open>The private keys an object holds are known by their public halves.\<close>

record key_exchange =
  kex_name :: bytes
  kex_method :: kex_method
  kex_library :: kex_library
  kex_group :: "(bytes \<times> bytes) option"
  kex_key :: "bytes option"
  kex_x25519 :: "bytes option"

definition kex_new :: "bytes \<Rightarrow> kex_method \<Rightarrow> kex_library \<Rightarrow> key_exchange" where
  "kex_new n m l =
     \<lparr>kex_name = n, kex_method = m, kex_library = l, kex_group = None, kex_key = None,
      kex_x25519 = None\<rparr>"

fun is_gex :: "kex_method \<Rightarrow> bool" where
  "is_gex (GroupExchange a b c) = True"
| "is_gex m = False"

definition kex_request_code :: "key_exchange \<Rightarrow> u8" where
  "kex_request_code k =
     (case kex_method k of
        EllipticCurve \<Rightarrow> SSH_MSG_KEX_ECDH_INIT
      | GroupExchange a b c \<Rightarrow> SSH_MSG_KEX_DH_GEX_INIT
      | StandardGroup \<Rightarrow> SSH_MSG_KEXDH_INIT
      | Curve25519 \<Rightarrow> SSH_MSG_KEX_ECDH_INIT
      | MlKem768X25519 \<Rightarrow> SSH_MSG_KEX_ECDH_INIT)"

definition kex_response_code :: "key_exchange \<Rightarrow> u8" where
  "kex_response_code k =
     (case kex_method k of
        EllipticCurve \<Rightarrow> SSH_MSG_KEX_ECDH_REPLY
      | GroupExchange a b c \<Rightarrow> SSH_MSG_KEX_DH_GEX_REPLY
      | StandardGroup \<Rightarrow> SSH_MSG_KEXDH_REPLY
      | Curve25519 \<Rightarrow> SSH_MSG_KEX_ECDH_REPLY
      | MlKem768X25519 \<Rightarrow> SSH_MSG_KEX_ECDH_REPLY)"

text \<open>\<open>set_recommended_number_of_bits\<close> keeps the size when the new one is out of range.\<close>

definition set_recommended_number_of_bits :: "u32 \<Rightarrow> key_exchange \<Rightarrow> key_exchange" where
  "set_recommended_number_of_bits n k =
     (case kex_method k of
        GroupExchange a b c \<Rightarrow>
          if a \<le> n \<and> n \<le> c then k\<lparr>kex_method := GroupExchange a n c\<rparr> else k
      | _ \<Rightarrow> k)"

text \<open>The bit length of a number, \<open>BigNum::num_bits\<close> of a big-endian byte string.\<close>

fun num_bits :: "nat \<Rightarrow> nat" where
  "num_bits n = (if n = 0 then 0 else Suc (num_bits (n div 2)))"

declare num_bits.simps [simp del]

definition invalid_prime :: error where
  "invalid_prime = CipherError ''InvalidPrime''"

definition exchange_initialize :: "bytes \<Rightarrow> bytes \<Rightarrow> (key_exchange, unit) sr" where
  "exchange_initialize p g k =
     (case kex_method k of
        GroupExchange a b c \<Rightarrow>
          let bits = int (num_bits (be_nat p)) in
          if bits < sint a \<or> bits > sint c then (Err invalid_prime, k)
          else (case generate (kex_library k) (Some (p, g)) of
              Ok pub \<Rightarrow> (Ok (), k\<lparr>kex_group := Some (p, g), kex_key := Some pub\<rparr>)
            | Err e \<Rightarrow> (Err e, k)
            | Panic \<Rightarrow> (Panic, k))
      | _ \<Rightarrow> (Panic, k))"

text \<open>A fresh pair: its public half, which the object keeps.\<close>

definition fresh_key :: "(key_exchange, bytes) sr" where
  "fresh_key k =
     (case generate (kex_library k) None of
        Ok pub \<Rightarrow> (Ok pub, k\<lparr>kex_key := Some pub\<rparr>)
      | Err e \<Rightarrow> (Err e, k)
      | Panic \<Rightarrow> (Panic, k))"

definition agreed :: "bytes \<Rightarrow> bytes \<Rightarrow> key_exchange \<Rightarrow> bytes res" where
  "agreed own peer k = agree (kex_library k) (kex_group k) own peer"

abbreviation no_key :: error where
  "no_key \<equiv> InvalidOperation ''Generate key first''"

text \<open>\<open>EllipticCurveDiffieHellmanImpl\<close>: the private key is used once.\<close>

definition ecdh_generate_key :: "(key_exchange, bytes) sr" where
  "ecdh_generate_key = fresh_key"

definition ecdh_compute_secret_key :: "bytes \<Rightarrow> (key_exchange, bytes) sr" where
  "ecdh_compute_secret_key peer k =
     (case kex_key k of
        None \<Rightarrow> (Err (InvalidOperation ''Genreate key first''), k)
      | Some own \<Rightarrow> (res_map into_integer (agreed own peer k), k\<lparr>kex_key := None\<rparr>))"

definition ecdh_compute_hash :: "information \<Rightarrow> key_exchange \<Rightarrow> bytes res" where
  "ecdh_compute_hash i k = Ok (digest (kex_library k) (hash_input i))"

text \<open>\<open>ExchangeDiffieHellmanImpl\<close>: the pair is made by \<open>initialize\<close>.\<close>

definition gex_generate_key :: "(key_exchange, bytes) sr" where
  "gex_generate_key k =
     (case kex_key k of
        None \<Rightarrow> (Err (InvalidOperation ''Initialize first''), k)
      | Some own \<Rightarrow> (Ok (into_integer own), k))"

definition gex_compute_secret_key :: "bytes \<Rightarrow> (key_exchange, bytes) sr" where
  "gex_compute_secret_key peer k =
     (case kex_key k of
        None \<Rightarrow> (Err no_key, k)
      | Some own \<Rightarrow> (res_map into_integer (agreed own peer k), k))"

definition gex_compute_hash :: "information \<Rightarrow> key_exchange \<Rightarrow> bytes res" where
  "gex_compute_hash i k =
     (case (kex_group k, kex_key k, kex_method k) of
        (Some (p, g), Some own, GroupExchange a b c) \<Rightarrow>
          Ok (digest (kex_library k) (gex_hash_input a b c p g i))
      | _ \<Rightarrow> Err no_key)"

text \<open>\<open>StandardDiffieHellmanImpl\<close>.\<close>

definition dh_generate_key :: "(key_exchange, bytes) sr" where
  "dh_generate_key = sbind fresh_key (\<lambda>own. sreturn (into_integer own))"

definition dh_compute_secret_key :: "bytes \<Rightarrow> (key_exchange, bytes) sr" where
  "dh_compute_secret_key peer k =
     (case kex_key k of
        None \<Rightarrow> (Err no_key, k)
      | Some own \<Rightarrow> (res_map into_integer (agreed own peer k), k))"

text \<open>\<open>Curve25519Impl\<close>.\<close>

definition x25519_generate_key :: "(key_exchange, bytes) sr" where
  "x25519_generate_key = fresh_key"

definition x25519_compute_secret_key :: "bytes \<Rightarrow> (key_exchange, bytes) sr" where
  "x25519_compute_secret_key peer k =
     (case kex_key k of
        None \<Rightarrow> (Err no_key, k)
      | Some own \<Rightarrow> (res_map into_integer (agreed own peer k), k))"

text \<open>\<open>MlKem768X25519\<close>: two pairs, two secrets, hashed together.\<close>

definition mlkem_generate_key :: "(key_exchange, bytes) sr" where
  "mlkem_generate_key =
     sbind fresh_key (\<lambda>own. \<lambda>k.
       case generate_x25519 (kex_library k) of
         Ok pub \<Rightarrow> (Ok (own @ pub), k\<lparr>kex_x25519 := Some pub\<rparr>)
       | Err e \<Rightarrow> (Err e, k)
       | Panic \<Rightarrow> (Panic, k))"

definition mlkem_compute_secret_key :: "bytes \<Rightarrow> (key_exchange, bytes) sr" where
  "mlkem_compute_secret_key peer k =
     (case kex_key k of
        None \<Rightarrow> (Err (InvalidOperation ''mlkem key not generated''), k)
      | Some own \<Rightarrow>
          if length peer \<noteq> 1088 + 32 then (Err (CipherError ''KeyLengthMismatch''), k)
          else sbind (slift (agreed own (take 1088 peer) k)) (\<lambda>secret1. \<lambda>k.
            case kex_x25519 k of
              None \<Rightarrow> (Err no_key, k)
            | Some own2 \<Rightarrow>
                sbind (slift (agree_x25519 (kex_library k) own2 (drop 1088 peer))) (\<lambda>secret2.
                sreturn (digest (kex_library k) (secret1 @ secret2))) k) k)"

text \<open>The trait's methods.\<close>

definition generate_key :: "(key_exchange, bytes) sr" where
  "generate_key k =
     (case kex_method k of
        EllipticCurve \<Rightarrow> ecdh_generate_key k
      | GroupExchange a b c \<Rightarrow> gex_generate_key k
      | StandardGroup \<Rightarrow> dh_generate_key k
      | Curve25519 \<Rightarrow> x25519_generate_key k
      | MlKem768X25519 \<Rightarrow> mlkem_generate_key k)"

definition compute_secret_key :: "bytes \<Rightarrow> (key_exchange, bytes) sr" where
  "compute_secret_key peer k =
     (case kex_method k of
        EllipticCurve \<Rightarrow> ecdh_compute_secret_key peer k
      | GroupExchange a b c \<Rightarrow> gex_compute_secret_key peer k
      | StandardGroup \<Rightarrow> dh_compute_secret_key peer k
      | Curve25519 \<Rightarrow> x25519_compute_secret_key peer k
      | MlKem768X25519 \<Rightarrow> mlkem_compute_secret_key peer k)"

text \<open>The bodies of \<open>compute_hash\<close> of all methods but the group exchange are the same.\<close>

definition compute_hash :: "information \<Rightarrow> key_exchange \<Rightarrow> bytes res" where
  "compute_hash i k =
     (if is_gex (kex_method k) then gex_compute_hash i k else ecdh_compute_hash i k)"

definition compute_communicate_key ::
    "bytes \<Rightarrow> bytes \<Rightarrow> bytes \<Rightarrow> u8 \<Rightarrow> nat \<Rightarrow> key_exchange \<Rightarrow> bytes res" where
  "compute_communicate_key secret sid h version len k =
     compute_keys (digest (kex_library k)) secret sid h version len"

section \<open>The registry\<close>

text \<open>\<open>all\<close> and \<open>new_all\<close>: the methods in preference order, each with its libraries.\<close>

definition kex_registry :: "(bytes \<times> kex_method) list" where
  "kex_registry =
     [(str ''mlkem768x25519-sha256'', MlKem768X25519),
      (str ''curve25519-sha256@libssh.org'', Curve25519),
      (str ''curve25519-sha256'', Curve25519),
      (str ''ecdh-sha2-nistp256'', EllipticCurve),
      (str ''ecdh-sha2-nistp384'', EllipticCurve),
      (str ''ecdh-sha2-nistp521'', EllipticCurve),
      (str ''diffie-hellman-group14-sha256'', StandardGroup),
      (str ''diffie-hellman-group16-sha512'', StandardGroup),
      (str ''diffie-hellman-group14-sha1'', StandardGroup),
      (str ''diffie-hellman-group18-sha512'', StandardGroup),
      (str ''diffie-hellman-group-exchange-sha256'', GroupExchange 2048 4096 8192),
      (str ''diffie-hellman-group-exchange-sha1'', GroupExchange 2048 4096 8192),
      (str ''diffie-hellman-group1-sha1'', StandardGroup)]"

definition kex_all :: "(bytes \<Rightarrow> kex_library) \<Rightarrow> (bytes \<times> key_exchange) list" where
  "kex_all lib = map (\<lambda>(n, m). (n, kex_new n m (lib n))) kex_registry"

section \<open>The hash binds the exchange\<close>

definition info_fits :: "information \<Rightarrow> bool" where
  "info_fits i \<longleftrightarrow> fits (client_version i) \<and> fits (server_version i) \<and> fits (client_kex_init i) \<and>
     fits (server_kex_init i) \<and> fits (server_host_key i) \<and> fits (client_public_key i) \<and>
     fits (server_public_key i) \<and> fits (secret_key i)"

lemma hash_input_eq:
  "hash_input i = one (client_version i) @ one (server_version i) @ one (client_kex_init i) @
     one (server_kex_init i) @ one (server_host_key i) @ one (client_public_key i) @
     one (server_public_key i) @ one (secret_key i)"
  by (simp add: hash_input_def put_one_def one_def put_bytes_def put_u32_def)

lemma gex_hash_input_eq:
  "gex_hash_input a b c p g i = one (client_version i) @ one (server_version i) @
     one (client_kex_init i) @ one (server_kex_init i) @ one (server_host_key i) @
     u32_to_be a @ u32_to_be b @ u32_to_be c @ one (into_integer p) @ one (into_integer g) @
     one (client_public_key i) @ one (server_public_key i) @ one (secret_key i)"
  by (simp add: gex_hash_input_def put_one_def one_def put_bytes_def put_u32_def)

lemma one_inject:
  assumes "fits a" "fits b"
  shows "one a @ r = one b @ s \<longleftrightarrow> a = b \<and> r = s"
  using one_codec.prefix_free [OF assms] by blast

lemma hash_input_inject:
  assumes "info_fits i" "info_fits j" "hash_input i = hash_input j"
  shows "i = j"
proof -
  have "one (secret_key i) = one (secret_key j) \<longleftrightarrow> secret_key i = secret_key j"
    using one_inject [of "secret_key i" "secret_key j" "[]" "[]"] assms(1,2)
    by (simp add: info_fits_def)
  then show ?thesis
    using assms unfolding hash_input_eq
    by (intro information.equality) (simp_all add: one_inject info_fits_def)
qed

lemma u32_append_inject: "u32_to_be a @ r = u32_to_be b @ s \<longleftrightarrow> a = b \<and> r = s"
  by (metis append_eq_append_conv from_be_u32 length_u32_to_be)

lemma gex_hash_input_inject:
  assumes "info_fits i" "info_fits j" "fits (into_integer p)" "fits (into_integer g)"
    "fits (into_integer q)" "fits (into_integer h)"
    and "gex_hash_input a b c p g i = gex_hash_input a' b' c' q h j"
  shows "i = j \<and> a = a' \<and> b = b' \<and> c = c' \<and> be_nat p = be_nat q \<and> be_nat g = be_nat h"
proof -
  have last: "one (secret_key i) = one (secret_key j) \<longleftrightarrow> secret_key i = secret_key j"
    using one_inject [of "secret_key i" "secret_key j" "[]" "[]"] assms(1,2)
    by (simp add: info_fits_def)
  have "into_integer p = into_integer q" "into_integer g = into_integer h"
    "a = a' \<and> b = b' \<and> c = c'"
    "client_version i = client_version j" "server_version i = server_version j"
    "client_kex_init i = client_kex_init j" "server_kex_init i = server_kex_init j"
    "server_host_key i = server_host_key j" "client_public_key i = client_public_key j"
    "server_public_key i = server_public_key j" "secret_key i = secret_key j"
    using assms unfolding gex_hash_input_eq
    by (simp_all add: one_inject u32_append_inject info_fits_def last)
  then show ?thesis
    using be_nat_into_integer by (metis information.equality old.unit.exhaust)
qed

section \<open>The derived keys\<close>

text \<open>
  RFC 4253, section 7.2: the key stream is \<open>K1 @ K2 @ ...\<close> with \<open>K1\<close> the digest of the secret, the
  exchange hash, the label and the session id, and each later block the digest of the
  secret, the exchange hash and all blocks before it. \<open>key_stream n\<close> are its first blocks.
\<close>

primrec key_stream :: "(bytes \<Rightarrow> bytes) \<Rightarrow> bytes \<Rightarrow> bytes \<Rightarrow> bytes \<Rightarrow> u8 \<Rightarrow> nat \<Rightarrow> bytes" where
  "key_stream dg secret sid h version 0 = dg (secret @ h @ [version] @ sid)"
| "key_stream dg secret sid h version (Suc n) =
     key_stream dg secret sid h version n @
     dg (secret @ h @ key_stream dg secret sid h version n)"

lemma length_key_stream:
  "\<forall>x. length (dg x) = l \<Longrightarrow> length (key_stream dg k sid h v n) = Suc n * l"
  by (induction n) simp_all

lemma key_stream_mono: "m \<le> n \<Longrightarrow> \<exists>r. key_stream dg k sid h v n = key_stream dg k sid h v m @ r"
proof (induction n)
  case (Suc n)
  then show ?case by (cases "m = Suc n") auto
qed simp

lemma expand_keys_stream:
  assumes l: "\<forall>x. length (dg x) = l" "0 < l"
  shows "len \<le> length (key_stream dg k sid h v m) + n \<Longrightarrow>
    \<exists>j. expand_keys n dg k h len (key_stream dg k sid h v m) = Ok (take len (key_stream dg k sid h v j)) \<and>
      len \<le> length (key_stream dg k sid h v j)"
proof (induction n arbitrary: m)
  case (Suc n)
  show ?case
  proof (cases "length (key_stream dg k sid h v m) < len")
    case True
    have "len \<le> length (key_stream dg k sid h v (Suc m)) + n"
      using Suc.prems l by (simp add: length_key_stream [OF l(1)])
    from Suc.IH [OF this] True show ?thesis by simp
  next
    case False
    then show ?thesis by (intro exI [of _ m]) simp
  qed
qed auto

lemma compute_keys_rfc:
  assumes l: "\<forall>x. length (dg x) = l" "0 < l" and n: "len \<le> Suc n * l"
  shows "compute_keys dg k sid h v len = Ok (take len (key_stream dg k sid h v n))"
proof -
  have "len \<le> length (key_stream dg k sid h v 0) + len" by simp
  from expand_keys_stream [OF l this] obtain j where
    j: "compute_keys dg k sid h v len = Ok (take len (key_stream dg k sid h v j))"
      "len \<le> length (key_stream dg k sid h v j)"
    by (auto simp: compute_keys_def)
  have nn: "len \<le> length (key_stream dg k sid h v n)"
    using n by (simp add: length_key_stream [OF l(1)])
  have "take len (key_stream dg k sid h v j) = take len (key_stream dg k sid h v n)"
  proof (cases "j \<le> n")
    case True
    from key_stream_mono [OF this] obtain r where
      "key_stream dg k sid h v n = key_stream dg k sid h v j @ r" by blast
    with j(2) show ?thesis by simp
  next
    case False
    then have "n \<le> j" by simp
    from key_stream_mono [OF this] obtain r where
      "key_stream dg k sid h v j = key_stream dg k sid h v n @ r" by blast
    with nn show ?thesis by simp
  qed
  with j(1) show ?thesis by simp
qed

end
