(* ===== verification/Negotiation.thy ===== *)
theory Negotiation
  imports KeyExchange Text
begin

text \<open>
  The algorithm negotiation of \<open>src/session/handshake.rs\<close>: server quirks, the client's
  preferences, the \<open>KEXINIT\<close> message, and the choice of one algorithm in each category.
\<close>

section \<open>Server quirks\<close>

record compat_options =
  unsupported_rekey :: bool
  curve25519_pad :: bool
  specify_server_sign_algorithm :: bool
  old_session_id :: bool
  limited_dh_ex :: bool

definition compat_default :: compat_options where
  "compat_default = \<lparr>unsupported_rekey = False, curve25519_pad = False,
     specify_server_sign_algorithm = False, old_session_id = False, limited_dh_ex = False\<rparr>"

definition compat_parse :: "bytes \<Rightarrow> compat_options" where
  "compat_parse suffix =
     \<lparr>unsupported_rekey = starts_with (str ''Sun_SSH_1.0'') suffix,
      curve25519_pad = starts_with (str ''OpenSSH_6.5'') suffix \<or>
        starts_with (str ''OpenSSH_6.6'') suffix,
      specify_server_sign_algorithm = starts_with (str ''OpenSSH_7.4'') suffix,
      old_session_id = starts_with (str ''3.0 SecureCRT'') suffix \<or>
        starts_with (str ''1.7 SecureFX'') suffix,
      limited_dh_ex = starts_with (str ''Cisco-1.'') suffix\<rparr>"

section \<open>Preferences\<close>

text \<open>
  The objects a factory makes. \<open>'e\<close>, \<open>'d\<close>, \<open>'c\<close>, \<open>'z\<close> and \<open>'m\<close> are the states of the
  keyed ciphers, compressors and MACs; the verifier of host keys is a pair of functions.
\<close>

record 'k cipher_factory =
  iv_len :: nat
  key_len :: nat
  cipher_block_size :: nat
  cipher_initialize :: "bytes \<Rightarrow> bytes \<Rightarrow> 'k res"

record 'm mac_factory =
  mac_key_len :: nat
  mac_initialize :: "bytes \<Rightarrow> 'm res"

record verifier =
  verifier_name :: bytes
  verifier_initialize :: "bytes \<Rightarrow> unit res"
  verifier_verify :: "bytes \<Rightarrow> bytes \<Rightarrow> bytes \<Rightarrow> bool res"

text \<open>\<open>Config\<close>: each \<open>IndexMap\<close> is an association list in insertion order.\<close>

record ('e, 'd, 'c, 'z, 'm) hs_config =
  kex_table :: "(bytes \<times> key_exchange) list"
  host_key_table :: "(bytes \<times> verifier) list"
  encrypt_table :: "(bytes \<times> 'e cipher_factory) list"
  decrypt_table :: "(bytes \<times> 'd cipher_factory) list"
  mac_out_table :: "(bytes \<times> 'm mac_factory) list"
  mac_in_table :: "(bytes \<times> 'm mac_factory) list"
  encode_table :: "(bytes \<times> 'c) list"
  decode_table :: "(bytes \<times> 'z) list"
  key_strict :: bool
  advertise_ext :: bool
  compat_disabled :: bool

record ('e, 'd, 'c, 'z, 'm) matched_methods =
  m_kex :: key_exchange
  m_host_key :: verifier
  m_encrypt :: "'e cipher_factory"
  m_decrypt :: "'d cipher_factory"
  m_mac_out :: "'m mac_factory"
  m_mac_in :: "'m mac_factory"
  m_encode :: 'c
  m_decode :: 'z

record methods =
  kex_names :: "bytes list"
  host_key_names :: "bytes list"
  crypt_client_to_server :: "bytes list"
  crypt_server_to_client :: "bytes list"
  mac_client_to_server :: "bytes list"
  mac_server_to_client :: "bytes list"
  compress_client_to_server :: "bytes list"
  compress_server_to_client :: "bytes list"
  lang_client_to_server :: "bytes list"
  lang_server_to_client :: "bytes list"
  methods_strict :: bool
  methods_ext_info :: bool

definition from_config :: "('e, 'd, 'c, 'z, 'm) hs_config \<Rightarrow> methods" where
  "from_config cf =
     \<lparr>kex_names = map fst (kex_table cf), host_key_names = map fst (host_key_table cf),
      crypt_client_to_server = map fst (encrypt_table cf),
      crypt_server_to_client = map fst (decrypt_table cf),
      mac_client_to_server = map fst (mac_out_table cf),
      mac_server_to_client = map fst (mac_in_table cf),
      compress_client_to_server = map fst (encode_table cf),
      compress_server_to_client = map fst (decode_table cf),
      lang_client_to_server = [], lang_server_to_client = [],
      methods_strict = key_strict cf, methods_ext_info = advertise_ext cf\<rparr>"

text \<open>\<open>do_compat\<close> removes the first occurrence of the padded method.\<close>

definition do_compat :: "bool \<Rightarrow> methods \<Rightarrow> methods" where
  "do_compat padded m =
     (if padded then m\<lparr>kex_names := remove1 (str ''curve25519-sha256@libssh.org'') (kex_names m)\<rparr>
      else m)"

section \<open>The \<open>KEXINIT\<close> message\<close>

text \<open>\<open>Methods::build\<close>; the 16 random bytes of the cookie are an argument.\<close>

definition advertised_kex :: "methods \<Rightarrow> bytes list" where
  "advertised_kex m = kex_names m @ (if methods_strict m then [KEX_STRICT_CLIENT] else []) @
     (if methods_ext_info m then [EXT_INFO_CLIENT] else [])"

definition methods_build :: "(nat \<Rightarrow> u8) \<Rightarrow> methods \<Rightarrow> bytes" where
  "methods_build cookie m =
     (let p = put_u8 SSH_MSG_KEXINIT [];
          p = resize 17 0 p;
          p = take 1 p @ map cookie [0..<16];
          p = fold (\<lambda>names p. put_one (join [comma] names) p)
            [advertised_kex m, host_key_names m, crypt_client_to_server m, crypt_server_to_client m,
             mac_client_to_server m, mac_server_to_client m, compress_client_to_server m,
             compress_server_to_client m, lang_client_to_server m, lang_server_to_client m] p;
          p = put_u8 0 p
      in put_bytes [0, 0, 0, 0] p)"

definition consume_names :: "(consumer, bytes list) sr" where
  "consume_names = sbind consume_one (\<lambda>d.
     if utf8_valid d then sreturn (split_on comma d) else sfail (HandshakeError InvalidString))"

definition parse_methods :: "(consumer, methods) sr" where
  "parse_methods =
     sbind consume_u8 (\<lambda>code.
     if code \<noteq> SSH_MSG_KEXINIT then sfail (InvalidOperation ''expected SSH_MSG_KEXINIT'')
     else
       sbind (consume_bytes 16) (\<lambda>_.
       sbind consume_names (\<lambda>kex.
       let is_strict = KEX_STRICT_SERVER \<in> set kex;
           kex = remove1 KEX_STRICT_SERVER kex;
           has_ext = EXT_INFO_SERVER \<in> set kex;
           kex = remove1 EXT_INFO_SERVER kex in
       sbind consume_names (\<lambda>host_key.
       sbind consume_names (\<lambda>en_cs.
       sbind consume_names (\<lambda>en_sc.
       sbind consume_names (\<lambda>mac_cs.
       sbind consume_names (\<lambda>mac_sc.
       sbind consume_names (\<lambda>com_cs.
       sbind consume_names (\<lambda>com_sc.
       sbind consume_names (\<lambda>lang_cs.
       sbind consume_names (\<lambda>lang_sc.
       sbind consume_u8 (\<lambda>_.
       sbind (consume_bytes 4) (\<lambda>_.
       sreturn \<lparr>kex_names = kex, host_key_names = host_key, crypt_client_to_server = en_cs,
         crypt_server_to_client = en_sc, mac_client_to_server = mac_cs,
         mac_server_to_client = mac_sc, compress_client_to_server = com_cs,
         compress_server_to_client = com_sc, lang_client_to_server = lang_cs,
         lang_server_to_client = lang_sc, methods_strict = is_strict,
         methods_ext_info = has_ext\<rparr>))))))))))))))"

definition methods_parse :: "bytes \<Rightarrow> methods res" where
  "methods_parse data = fst (parse_methods (consumer_new data))"

section \<open>The choice\<close>

text \<open>The loop over one table: the first entry the server also names.\<close>

fun pick :: "bytes list \<Rightarrow> (bytes \<times> 'v) list \<Rightarrow> 'v res" where
  "pick offered [] = Err (HandshakeError NegotiationFailed)"
| "pick offered ((k, v) # rest) = (if k \<in> set offered then Ok v else pick offered rest)"

definition res_bind :: "'a res \<Rightarrow> ('a \<Rightarrow> 'b res) \<Rightarrow> 'b res" where
  "res_bind r f = (case r of Ok a \<Rightarrow> f a | Err e \<Rightarrow> Err e | Panic \<Rightarrow> Panic)"

lemma res_bind_simps [simp]:
  "res_bind (Ok a) f = f a" "res_bind (Err e) f = Err e" "res_bind Panic f = Panic"
  by (simp_all add: res_bind_def)

lemma res_bind_Ok_iff: "res_bind r f = Ok b \<longleftrightarrow> (\<exists>a. r = Ok a \<and> f a = Ok b)"
  by (cases r) simp_all

definition negotiate ::
    "('e, 'd, 'c, 'z, 'm) hs_config \<Rightarrow> methods \<Rightarrow> ('e, 'd, 'c, 'z, 'm) matched_methods res" where
  "negotiate cf server =
     res_bind (pick (kex_names server) (kex_table cf)) (\<lambda>kex.
     res_bind (pick (host_key_names server) (host_key_table cf)) (\<lambda>host_key.
     res_bind (pick (crypt_client_to_server server) (encrypt_table cf)) (\<lambda>en.
     res_bind (pick (crypt_server_to_client server) (decrypt_table cf)) (\<lambda>de.
     res_bind (pick (mac_client_to_server server) (mac_out_table cf)) (\<lambda>mo.
     res_bind (pick (mac_server_to_client server) (mac_in_table cf)) (\<lambda>mi.
     res_bind (pick (compress_client_to_server server) (encode_table cf)) (\<lambda>ec.
     res_bind (pick (compress_server_to_client server) (decode_table cf)) (\<lambda>dc.
     Ok \<lparr>m_kex = kex, m_host_key = host_key, m_encrypt = en, m_decrypt = de, m_mac_out = mo,
         m_mac_in = mi, m_encode = ec, m_decode = dc\<rparr>))))))))"

section \<open>The session's keys\<close>

text \<open>
  \<open>MatchedMethods::initialize\<close>: the ciphers and MACs of both directions with their keys,
  labels \<open>A\<close> to \<open>F\<close>. The code keys its boxed objects in place; the keyed objects are the result.
\<close>

record ('e, 'd, 'm) session_keys =
  key_encrypt :: 'e
  key_decrypt :: 'd
  key_mac_out :: 'm
  key_mac_in :: 'm

definition initialize ::
    "('e, 'd, 'c, 'z, 'm) matched_methods \<Rightarrow> bytes \<Rightarrow> bytes \<Rightarrow> bytes \<Rightarrow>
     ('e, 'd, 'm) session_keys res" where
  "initialize m hash sid secret =
     (let key = (\<lambda>label len. compute_communicate_key secret sid hash label len (m_kex m)) in
      res_bind (key 65 (iv_len (m_encrypt m))) (\<lambda>local_iv.
      res_bind (key 67 (key_len (m_encrypt m))) (\<lambda>local_key.
      res_bind (cipher_initialize (m_encrypt m) local_iv local_key) (\<lambda>en.
      res_bind (key 66 (iv_len (m_decrypt m))) (\<lambda>remote_iv.
      res_bind (key 68 (key_len (m_decrypt m))) (\<lambda>remote_key.
      res_bind (cipher_initialize (m_decrypt m) remote_iv remote_key) (\<lambda>de.
      res_bind (key 69 (mac_key_len (m_mac_out m))) (\<lambda>local_mac.
      res_bind (key 70 (mac_key_len (m_mac_in m))) (\<lambda>remote_mac.
      res_bind (mac_initialize (m_mac_out m) local_mac) (\<lambda>mo.
      res_bind (mac_initialize (m_mac_in m) remote_mac) (\<lambda>mi.
      Ok \<lparr>key_encrypt = en, key_decrypt = de, key_mac_out = mo, key_mac_in = mi\<rparr>)))))))))))"

text \<open>
  The size of the Diffie-Hellman group that is asked for: from the longest key, IV or block
  of the matched ciphers and MACs, at most 4096 for a server that cannot do more.
\<close>

definition gex_need :: "('e, 'd, 'c, 'z, 'm) matched_methods \<Rightarrow> nat" where
  "gex_need m = 8 * max (max (max (max (max (max (max (key_len (m_encrypt m))
     (cipher_block_size (m_encrypt m))) (iv_len (m_encrypt m))) (mac_key_len (m_mac_out m)))
     (key_len (m_decrypt m))) (cipher_block_size (m_decrypt m))) (iv_len (m_decrypt m)))
     (mac_key_len (m_mac_in m))"

definition gex_bits_for :: "bool \<Rightarrow> nat \<Rightarrow> u32" where
  "gex_bits_for limited need =
     (let bits = (if need \<le> 112 then 2048 else if need \<le> 128 then 3072
          else if need \<le> 192 then 7680 else 8192 :: u32)
      in if limited \<and> bits > 4096 then 4096 else bits)"

section \<open>Facts about the negotiation\<close>

text \<open>The entry \<open>pick\<close> finds is offered by the server, and no entry in front of it is.\<close>

definition chosen :: "bytes list \<Rightarrow> (bytes \<times> 'v) list \<Rightarrow> 'v \<Rightarrow> bool" where
  "chosen offered table v \<longleftrightarrow>
     (\<exists>front k tail. table = front @ (k, v) # tail \<and> k \<in> set offered \<and>
        (\<forall>(k', v') \<in> set front. k' \<notin> set offered))"

lemma pick_Ok: "pick offered table = Ok v \<Longrightarrow> chosen offered table v"
proof (induction offered table rule: pick.induct)
  case (2 offered k w rest)
  show ?case
  proof (cases "k \<in> set offered")
    case True
    with 2(2) show ?thesis unfolding chosen_def
      by (intro exI [of _ "[]"] exI [of _ k] exI [of _ rest]) auto
  next
    case False
    with 2 obtain front k' tail where "rest = front @ (k', v) # tail" "k' \<in> set offered"
      "\<forall>(k'', v') \<in> set front. k'' \<notin> set offered"
      by (auto simp: chosen_def)
    with False show ?thesis unfolding chosen_def
      by (intro exI [of _ "(k, w) # front"]) auto
  qed
qed simp

lemma pick_cases:
  "pick offered table = Err (HandshakeError NegotiationFailed) \<and> set offered \<inter> fst ` set table = {} \<or>
   (\<exists>v. pick offered table = Ok v \<and> set offered \<inter> fst ` set table \<noteq> {})"
  by (induction offered table rule: pick.induct) auto

lemma negotiate_Ok:
  assumes "negotiate cf server = Ok m"
  shows "chosen (kex_names server) (kex_table cf) (m_kex m)"
    and "chosen (host_key_names server) (host_key_table cf) (m_host_key m)"
    and "chosen (crypt_client_to_server server) (encrypt_table cf) (m_encrypt m)"
    and "chosen (crypt_server_to_client server) (decrypt_table cf) (m_decrypt m)"
    and "chosen (mac_client_to_server server) (mac_out_table cf) (m_mac_out m)"
    and "chosen (mac_server_to_client server) (mac_in_table cf) (m_mac_in m)"
    and "chosen (compress_client_to_server server) (encode_table cf) (m_encode m)"
    and "chosen (compress_server_to_client server) (decode_table cf) (m_decode m)"
  using assms by (auto simp: negotiate_def res_bind_Ok_iff intro: pick_Ok)

definition shares_all :: "('e, 'd, 'c, 'z, 'm) hs_config \<Rightarrow> methods \<Rightarrow> bool" where
  "shares_all cf server \<longleftrightarrow>
     set (kex_names server) \<inter> fst ` set (kex_table cf) \<noteq> {} \<and>
     set (host_key_names server) \<inter> fst ` set (host_key_table cf) \<noteq> {} \<and>
     set (crypt_client_to_server server) \<inter> fst ` set (encrypt_table cf) \<noteq> {} \<and>
     set (crypt_server_to_client server) \<inter> fst ` set (decrypt_table cf) \<noteq> {} \<and>
     set (mac_client_to_server server) \<inter> fst ` set (mac_out_table cf) \<noteq> {} \<and>
     set (mac_server_to_client server) \<inter> fst ` set (mac_in_table cf) \<noteq> {} \<and>
     set (compress_client_to_server server) \<inter> fst ` set (encode_table cf) \<noteq> {} \<and>
     set (compress_server_to_client server) \<inter> fst ` set (decode_table cf) \<noteq> {}"

lemma res_bind_chain:
  assumes "r = Err e \<and> \<not> P \<or> (\<exists>v. r = Ok v \<and> P)"
    and "\<And>v. f v = Err e \<and> \<not> Q \<or> (\<exists>w. f v = Ok w \<and> Q)"
  shows "res_bind r f = Err e \<and> \<not> (P \<and> Q) \<or> (\<exists>w. res_bind r f = Ok w \<and> P \<and> Q)"
  using assms by fastforce

lemma pick_cases':
  "pick offered table = Err (HandshakeError NegotiationFailed) \<and>
     \<not> set offered \<inter> fst ` set table \<noteq> {} \<or>
   (\<exists>v. pick offered table = Ok v \<and> set offered \<inter> fst ` set table \<noteq> {})"
  using pick_cases [of offered table] by blast

lemma negotiate_cases:
  "negotiate cf server = Err (HandshakeError NegotiationFailed) \<and> \<not> shares_all cf server \<or>
   (\<exists>m. negotiate cf server = Ok m \<and> shares_all cf server)"
proof -
  have last: "res_bind (pick offered table) (\<lambda>v. Ok (g v)) = Err (HandshakeError NegotiationFailed) \<and>
       \<not> set offered \<inter> fst ` set table \<noteq> {} \<or>
     (\<exists>w. res_bind (pick offered table) (\<lambda>v. Ok (g v)) = Ok w \<and> set offered \<inter> fst ` set table \<noteq> {})"
    for offered table and g :: "'x \<Rightarrow> 'y"
    using pick_cases' [of offered table] by auto
  show ?thesis
    unfolding negotiate_def shares_all_def
    by (rule res_bind_chain [OF pick_cases'])+ (rule last)
qed

section \<open>Writing and reading \<open>KEXINIT\<close>\<close>

definition names_ok :: "bytes list \<Rightarrow> bool" where
  "names_ok ns \<longleftrightarrow> (\<forall>n \<in> set ns. comma \<notin> set n \<and> (\<forall>b \<in> set n. b < 0x80)) \<and>
     fits (join [comma] ns)"

text \<open>An empty list is written as an empty string, which is read as a list of one empty name.\<close>

definition reread :: "bytes list \<Rightarrow> bytes list" where
  "reread ns = (if ns = [] then [[]] else ns)"

lemma set_join: "set (join sep ns) \<subseteq> set sep \<union> (\<Union>n \<in> set ns. set n)"
  by (induction sep ns rule: join.induct) auto

lemma utf8_join: "names_ok ns \<Longrightarrow> utf8_valid (join [comma] ns)"
proof (rule utf8_valid_ascii)
  fix b assume "names_ok ns" "b \<in> set (join [comma] ns)"
  then show "b < 0x80"
    using set_join [of "[comma]" ns] by (auto simp: names_ok_def comma_def)
qed

lemma split_reread: "names_ok ns \<Longrightarrow> split_on comma (join [comma] ns) = reread ns"
  by (cases "ns = []") (auto simp: reread_def names_ok_def intro: split_join)

lemma decodes_names [dec_rules]:
  assumes "names_ok ns"
  shows "decodes consume_names (reread ns) (one (join [comma] ns))"
proof -
  have "decodes (sbind consume_one (\<lambda>d.
      if utf8_valid d then sreturn (split_on comma d) else sfail (HandshakeError InvalidString)))
    (reread ns) (one (join [comma] ns))"
    using assms utf8_join [OF assms] split_reread [OF assms]
    by (intro decodes_one_bind) (simp_all add: names_ok_def decodes_return)
  then show ?thesis unfolding consume_names_def .
qed

lemma decodes_names_bind:
  "names_ok ns \<Longrightarrow> decodes (f (reread ns)) y bs \<Longrightarrow>
   decodes (sbind consume_names f) y (one (join [comma] ns) @ bs)"
  by (rule decodes_bind [OF decodes_names])

definition methods_wf :: "methods \<Rightarrow> bool" where
  "methods_wf m \<longleftrightarrow> names_ok (advertised_kex m) \<and> names_ok (host_key_names m) \<and>
     names_ok (crypt_client_to_server m) \<and> names_ok (crypt_server_to_client m) \<and>
     names_ok (mac_client_to_server m) \<and> names_ok (mac_server_to_client m) \<and>
     names_ok (compress_client_to_server m) \<and> names_ok (compress_server_to_client m) \<and>
     names_ok (lang_client_to_server m) \<and> names_ok (lang_server_to_client m)"

lemma methods_build_eq:
  "methods_build cookie m = SSH_MSG_KEXINIT # map cookie [0..<16] @
     one (join [comma] (advertised_kex m)) @ one (join [comma] (host_key_names m)) @
     one (join [comma] (crypt_client_to_server m)) @ one (join [comma] (crypt_server_to_client m)) @
     one (join [comma] (mac_client_to_server m)) @ one (join [comma] (mac_server_to_client m)) @
     one (join [comma] (compress_client_to_server m)) @ one (join [comma] (compress_server_to_client m)) @
     one (join [comma] (lang_client_to_server m)) @ one (join [comma] (lang_server_to_client m)) @
     [0] @ [0, 0, 0, 0]"
  by (simp add: methods_build_def resize_def put_u8_def put_one_def put_bytes_def put_u32_def one_def
      del: upt_Suc)

text \<open>What a reader makes of a message that was built from \<open>m\<close>.\<close>

definition as_read :: "methods \<Rightarrow> methods" where
  "as_read m =
     (let kex = reread (advertised_kex m); kex' = remove1 KEX_STRICT_SERVER kex in
      \<lparr>kex_names = remove1 EXT_INFO_SERVER kex', host_key_names = reread (host_key_names m),
       crypt_client_to_server = reread (crypt_client_to_server m),
       crypt_server_to_client = reread (crypt_server_to_client m),
       mac_client_to_server = reread (mac_client_to_server m),
       mac_server_to_client = reread (mac_server_to_client m),
       compress_client_to_server = reread (compress_client_to_server m),
       compress_server_to_client = reread (compress_server_to_client m),
       lang_client_to_server = reread (lang_client_to_server m),
       lang_server_to_client = reread (lang_server_to_client m),
       methods_strict = KEX_STRICT_SERVER \<in> set kex, methods_ext_info = EXT_INFO_SERVER \<in> set kex'\<rparr>)"

lemma decodes_bytes_bind:
  "length bs = n \<Longrightarrow> decodes (f bs) y r \<Longrightarrow> decodes (sbind (consume_bytes n) f) y (bs @ r)"
  using decodes_bytes [of bs] by (auto intro: decodes_bind)

lemma methods_parse_build:
  assumes "methods_wf m"
  shows "methods_parse (methods_build cookie m @ rest) = Ok (as_read m)"
proof -
  have wf: "names_ok (advertised_kex m)" "names_ok (host_key_names m)"
    "names_ok (crypt_client_to_server m)" "names_ok (crypt_server_to_client m)"
    "names_ok (mac_client_to_server m)" "names_ok (mac_server_to_client m)"
    "names_ok (compress_client_to_server m)" "names_ok (compress_server_to_client m)"
    "names_ok (lang_client_to_server m)" "names_ok (lang_server_to_client m)"
    using assms by (simp_all add: methods_wf_def)
  have tail: "decodes (sbind consume_u8 (\<lambda>_. sbind (consume_bytes 4) (\<lambda>_. sreturn (as_read m))))
      (as_read m) ([0] @ [0, 0, 0, 0])"
    using decodes_bytes_bind [of "[0, 0, 0, 0]" 4 "\<lambda>_. sreturn (as_read m)" "as_read m" "[]"]
    by (simp add: decodes_u8_Cons decodes_return)
  note names = wf [THEN decodes_names_bind]
  have "decodes parse_methods (as_read m) (methods_build cookie m)"
    unfolding methods_build_eq parse_methods_def
    apply (rule decodes_u8_Cons)
    apply (simp only: simp_thms if_False)
    apply (rule decodes_bytes_bind, simp)
    apply (rule names(1), unfold Let_def)
    apply (rule names)+
    using tail by (simp add: as_read_def Let_def)
  then show ?thesis
    using decodes_new [of parse_methods "as_read m" "methods_build cookie m" rest]
    by (simp add: methods_parse_def)
qed

section \<open>Both ends choose the same\<close>

text \<open>
  RFC 4253, section 7.1: each end takes the first name on the client's list that is also on the
  server's. \<open>rfc_choice\<close> is that rule, as the server applies it to what the client sent.
\<close>

definition rfc_choice :: "bytes list \<Rightarrow> bytes list \<Rightarrow> bytes option" where
  "rfc_choice client server = find (\<lambda>n. n \<in> set server) client"

definition named :: "(bytes \<times> 'v) list \<Rightarrow> bytes option \<Rightarrow> 'v \<Rightarrow> bool" where
  "named table n v \<longleftrightarrow> (\<exists>k. n = Some k \<and> map_of table k = Some v)"

lemma pick_named: "pick offered table = Ok v \<Longrightarrow> named table (rfc_choice (map fst table) offered) v"
proof (induction offered table rule: pick.induct)
  case (2 offered k w rest)
  show ?case
  proof (cases "k \<in> set offered")
    case True
    with 2(2) show ?thesis by (simp add: named_def rfc_choice_def)
  next
    case False
    with 2 obtain n where n: "find (\<lambda>n. n \<in> set offered) (map fst rest) = Some n" "map_of rest n = Some v"
      by (auto simp: named_def rfc_choice_def)
    then have "n \<in> set offered" by (auto simp: find_Some_iff)
    with False n show ?thesis by (auto simp: named_def rfc_choice_def)
  qed
qed simp

lemma negotiate_agrees:
  assumes "negotiate cf server = Ok m"
  shows "named (kex_table cf) (rfc_choice (kex_names (from_config cf)) (kex_names server)) (m_kex m)"
    and "named (host_key_table cf)
      (rfc_choice (host_key_names (from_config cf)) (host_key_names server)) (m_host_key m)"
    and "named (encrypt_table cf)
      (rfc_choice (crypt_client_to_server (from_config cf)) (crypt_client_to_server server)) (m_encrypt m)"
    and "named (decrypt_table cf)
      (rfc_choice (crypt_server_to_client (from_config cf)) (crypt_server_to_client server)) (m_decrypt m)"
    and "named (mac_out_table cf)
      (rfc_choice (mac_client_to_server (from_config cf)) (mac_client_to_server server)) (m_mac_out m)"
    and "named (mac_in_table cf)
      (rfc_choice (mac_server_to_client (from_config cf)) (mac_server_to_client server)) (m_mac_in m)"
    and "named (encode_table cf)
      (rfc_choice (compress_client_to_server (from_config cf)) (compress_client_to_server server)) (m_encode m)"
    and "named (decode_table cf)
      (rfc_choice (compress_server_to_client (from_config cf)) (compress_server_to_client server)) (m_decode m)"
  using assms by (auto simp: negotiate_def res_bind_Ok_iff from_config_def intro: pick_named)

end
