(* ===== verification/SessionState.thy ===== *)
theory SessionState
  imports Streams Messages TtyModes "HOL-Library.AList"
begin

text \<open>
  The state of the session backend, \<open>SessionInner\<close> of \<open>src/session/backend.rs\<close>, with the types
  it uses from \<open>src/session/channel.rs\<close>, \<open>src/session/forward.rs\<close> and \<open>src/session/mod.rs\<close>.

  The session sees its encrypted stream as a transport that takes payloads and delivers
  packets (the packet layer itself is in \<open>CipherStreams\<close>). Application objects the code calls
  are scripts consumed in order: what the next \<open>recv_packet\<close> yields, whether the next
  \<open>send_payload\<close> fails, how the notifier answers. Bounded queues are modelled without their
  bound: a full queue delays the sender and changes nothing else.
\<close>

section \<open>The transport of a session\<close>

record transport = endpoints +
  rx :: "packet res list"
  tx :: "bytes list"
  tx_faults :: "error option list"
  authenticated :: bool

definition send_payload :: "bytes \<Rightarrow> (transport, unit) sr" where
  "send_payload data s =
     (if data = [] then (Panic, s)
      else if length data > MAX_PACKET_PAYLOAD_LENGTH
      then (Err (TransportError (PayloadTooLong MAX_PACKET_PAYLOAD_LENGTH (length data))), s)
      else (case tx_faults s of
          Some e # fs \<Rightarrow> (Err e, s\<lparr>tx_faults := fs\<rparr>)
        | fs \<Rightarrow> (Ok (), bump_client (hd data = SSH_MSG_NEWKEYS \<and> strict s)
                   (s\<lparr>tx_faults := tl fs, tx := tx s @ [data]\<rparr>))))"

definition recv_packet :: "(transport, packet) sr" where
  "recv_packet s =
     (case rx s of
        [] \<Rightarrow> (Err (IOError UnexpectedEof), s)
      | Ok p # rest \<Rightarrow>
          (Ok p, bump_server (payload p \<noteq> [] \<and> hd (payload p) = SSH_MSG_NEWKEYS \<and> strict s)
             (s\<lparr>rx := rest\<rparr>))
      | Err e # rest \<Rightarrow> (Err e, s\<lparr>rx := rest\<rparr>)
      | Panic # rest \<Rightarrow> (Panic, s\<lparr>rx := rest\<rparr>))"

lemma send_payload_seq:
  "send_payload d s = (Ok (), s') \<Longrightarrow>
   sequence_number (client s') =
     (if hd d = SSH_MSG_NEWKEYS \<and> strict s then 0 else sequence_number (client s) + 1) \<and>
   strict s' = strict s"
  by (auto simp: send_payload_def bump_client_def strict_def split: if_splits list.splits option.splits)

interpretation transport: payload_sender send_payload "\<lambda>s. sequence_number (client s)" strict
proof unfold_locales
  show "send_payload [] s = (Panic, s)" for s
    by (simp add: send_payload_def)
next
  show "MAX_PACKET_PAYLOAD_LENGTH < length d \<Longrightarrow> send_payload d s =
      (Err (TransportError (PayloadTooLong MAX_PACKET_PAYLOAD_LENGTH (length d))), s)" for d s
    by (auto simp: send_payload_def)
qed (auto dest: send_payload_seq)

section \<open>Channels\<close>

text \<open>\<open>IdentityPair\<close> derives its order: client number first, then server number.\<close>

datatype identity_pair = IdentityPair (pair_client: u32) (pair_server: u32)

instantiation identity_pair :: linorder
begin

definition less_eq_identity_pair :: "identity_pair \<Rightarrow> identity_pair \<Rightarrow> bool" where
  "less_eq_identity_pair a b \<longleftrightarrow> pair_client a < pair_client b \<or>
     pair_client a = pair_client b \<and> pair_server a \<le> pair_server b"

definition less_identity_pair :: "identity_pair \<Rightarrow> identity_pair \<Rightarrow> bool" where
  "less_identity_pair a b \<longleftrightarrow> pair_client a < pair_client b \<or>
     pair_client a = pair_client b \<and> pair_server a < pair_server b"

instance
  by standard
    (auto simp: less_eq_identity_pair_def less_identity_pair_def identity_pair.expand)

end

datatype exit_status = Normal u32 | Interrupt bytes bool bytes

definition success :: "exit_status \<Rightarrow> bool" where
  "success st \<longleftrightarrow> st = Normal 0"

datatype channel_message =
    Close | Eof | Stdout bytes | Stderr bytes | Exit exit_status | FlowControl bool
  | WindowChange u32

text \<open>One half of an \<open>mpsc\<close> queue: what was sent and not yet received, and whether a receiver is left.\<close>

record 'a mpsc =
  queued :: "'a list"
  receiving :: bool

definition mpsc_new :: "'a mpsc" where
  "mpsc_new = \<lparr>queued = [], receiving = True\<rparr>"

definition mpsc_send :: "'a \<Rightarrow> ('a mpsc, bool) sr" where
  "mpsc_send x q =
     (if receiving q then (Ok True, q\<lparr>queued := queued q @ [x]\<rparr>) else (Ok False, q))"

record channel_endpoint =
  endpoint_id :: u32
  initial_window_size :: u32
  used_window_size :: int
  maximum_packet_size :: u32
  closed :: bool
  eof :: bool

record channel_handle =
  client_end :: channel_endpoint
  server_end :: channel_endpoint
  ch_sender :: "channel_message mpsc"

definition endpoint_new :: "u32 \<Rightarrow> u32 \<Rightarrow> u32 \<Rightarrow> channel_endpoint" where
  "endpoint_new i w m =
     \<lparr>endpoint_id = i, initial_window_size = w, used_window_size = 0, maximum_packet_size = m,
      closed = False, eof = False\<rparr>"

text \<open>
  The window left. The used size of the server's end goes below zero when the server grants
  more than it opened with. The difference is computed in \<open>i64\<close>; past its range the code
  panics (an overflow check, or the failing conversion to \<open>u64\<close> after a wrap).
\<close>

definition window_left :: "channel_endpoint \<Rightarrow> nat res" where
  "window_left e =
     (let initial = int (unat (initial_window_size e)) in
      if \<not> (used_window_size e < 0 \<or> used_window_size e \<le> initial) then Panic
      else if initial - used_window_size e \<ge> 2 ^ 63 then Panic
      else Ok (nat (initial - used_window_size e)))"

definition use_window :: "int \<Rightarrow> channel_endpoint \<Rightarrow> channel_endpoint" where
  "use_window n e = e\<lparr>used_window_size := used_window_size e + n\<rparr>"

text \<open>
  The contract of a window: consuming at most what is left keeps it well-formed and leaves the
  difference; granting adds to it. A sequence of chunks that fits is taken chunk by chunk.
\<close>

locale flow_window =
  fixes left :: "'e \<Rightarrow> nat res"
    and consume :: "nat \<Rightarrow> 'e \<Rightarrow> 'e"
    and ok :: "'e \<Rightarrow> bool"
  assumes consume_ok: "ok e \<Longrightarrow> left e = Ok l \<Longrightarrow> n \<le> l \<Longrightarrow> ok (consume n e)"
    and consume_left: "ok e \<Longrightarrow> left e = Ok l \<Longrightarrow> n \<le> l \<Longrightarrow> left (consume n e) = Ok (l - n)"
begin

lemma consume_all:
  "ok e \<Longrightarrow> left e = Ok l \<Longrightarrow> sum_list ns \<le> l \<Longrightarrow>
   ok (fold consume ns e) \<and> left (fold consume ns e) = Ok (l - sum_list ns)"
proof (induction ns arbitrary: e l)
  case (Cons n ns)
  then have "n \<le> l" by simp
  from Cons.IH [OF consume_ok [OF Cons.prems(1,2) this] consume_left [OF Cons.prems(1,2) this]] Cons.prems
  show ?case by simp
qed simp

end

definition endpoint_ok :: "channel_endpoint \<Rightarrow> bool" where
  "endpoint_ok e \<longleftrightarrow> - (2 ^ 63) \<le> used_window_size e \<and>
     used_window_size e \<le> int (unat (initial_window_size e))"

lemma window_left_Ok_iff:
  "window_left e = Ok l \<longleftrightarrow> used_window_size e \<le> int (unat (initial_window_size e)) \<and>
     int l = int (unat (initial_window_size e)) - used_window_size e \<and> l < 2 ^ 63"
proof -
  define n where "n = int (unat (initial_window_size e))"
  have "0 \<le> n" by (simp add: n_def)
  then show ?thesis unfolding window_left_def Let_def n_def [symmetric] by auto
qed

interpretation window: flow_window window_left "\<lambda>n. use_window (int n)" endpoint_ok
  by unfold_locales (auto simp: window_left_Ok_iff endpoint_ok_def use_window_def)

section \<open>Forwarding\<close>

record socket_addr =
  host :: bytes
  port :: u16

record 'a listener_handle =
  l_sender :: "(identity_pair \<times> 'a) mpsc"
  l_initial_window_size :: u32
  l_maximum_packet_size :: u32

definition listener_new :: "u32 \<Rightarrow> u32 \<Rightarrow> 'a listener_handle" where
  "listener_new w m = \<lparr>l_sender = mpsc_new, l_initial_window_size = w, l_maximum_packet_size = m\<rparr>"

text \<open>The two hash maps are association lists, in the order an iteration visits them.\<close>

record forwards =
  tcp :: "(socket_addr \<times> socket_addr listener_handle) list"
  local :: "(bytes \<times> unit listener_handle) list"

definition insert_tcp :: "socket_addr \<Rightarrow> socket_addr listener_handle \<Rightarrow> forwards \<Rightarrow> forwards" where
  "insert_tcp a h f = f\<lparr>tcp := AList.update a h (tcp f)\<rparr>"
definition insert_local :: "bytes \<Rightarrow> unit listener_handle \<Rightarrow> forwards \<Rightarrow> forwards" where
  "insert_local n h f = f\<lparr>local := AList.update n h (local f)\<rparr>"
definition get_tcp :: "socket_addr \<Rightarrow> forwards \<Rightarrow> socket_addr listener_handle option" where
  "get_tcp a f = map_of (tcp f) a"
definition get_local :: "bytes \<Rightarrow> forwards \<Rightarrow> unit listener_handle option" where
  "get_local n f = map_of (local f) n"
definition remove_tcp :: "socket_addr \<Rightarrow> forwards \<Rightarrow> forwards" where
  "remove_tcp a f = f\<lparr>tcp := AList.delete a (tcp f)\<rparr>"
definition remove_local :: "bytes \<Rightarrow> forwards \<Rightarrow> forwards" where
  "remove_local n f = f\<lparr>local := AList.delete n (local f)\<rparr>"

text \<open>The contract of both tables.\<close>

locale listener_table =
  fixes insert :: "'k \<Rightarrow> 'v \<Rightarrow> 't \<Rightarrow> 't"
    and get :: "'k \<Rightarrow> 't \<Rightarrow> 'v option"
    and remove :: "'k \<Rightarrow> 't \<Rightarrow> 't"
  assumes get_insert: "get k (insert k' v t) = (if k = k' then Some v else get k t)"
    and get_remove: "get k (remove k' t) = (if k = k' then None else get k t)"
begin

lemma remove_insert: "get k (remove k' (insert k' v t)) = get k (remove k' t)"
  by (simp add: get_insert get_remove)

lemma fold_remove: "get k (fold remove ks t) = (if k \<in> set ks then None else get k t)"
  by (induction ks arbitrary: t) (auto simp: get_remove)

end

interpretation tcp_table: listener_table insert_tcp get_tcp remove_tcp
  by unfold_locales (auto simp: insert_tcp_def get_tcp_def remove_tcp_def update_conv' delete_conv')

interpretation local_table: listener_table insert_local get_local remove_local
  by unfold_locales (auto simp: insert_local_def get_local_def remove_local_def update_conv' delete_conv')

section \<open>The session\<close>

text \<open>
  A call of the notifier with its arguments, and an answer: accepted or not, the window and
  packet sizes the callback left behind, and whether it kept the receiver of the stream.
\<close>

datatype notifier_call =
    ServerHostKeys "bytes list"
  | X11Forward socket_addr
  | AgentForward
  | DisconnectedCall u32 bytes
  | VerifyServerHostKey bytes bytes

record notifier_answer =
  accept :: bool
  answer_window :: "u32 option"
  answer_packet :: "u32 option"
  kept :: bool

record notifier =
  calls :: "notifier_call list"
  answers :: "notifier_answer list"

text \<open>\<open>Factory<dyn Signature>\<close>: the name of a signer, loading a private key, and signing.\<close>

record signer =
  signer_name :: bytes
  signer_initialize :: "bytes \<Rightarrow> unit res"
  signer_sign :: "bytes \<Rightarrow> bytes \<Rightarrow> bytes res"

record session_config =
  ext_enabled :: bool
  disable_compat :: bool
  signers :: "(bytes \<times> signer) list"

record session_inner =
  session_id :: bytes
  socket :: transport
  config :: session_config
  specify_server_sign_algorithm :: bool
  frontend_alive :: bool
  notifier :: notifier
  channels :: "channel_handle list"
  server_algorithms :: "bytes list"
  server_ping_supported :: bool
  forward :: forwards
  renegotiating :: bool
  renegotiate_msg :: "bytes option"
  queued_closes :: "identity_pair list"

abbreviation on_socket :: "(transport, 'a) sr \<Rightarrow> (session_inner, 'a) sr" where
  "on_socket \<equiv> zoom socket (\<lambda>t s. s\<lparr>socket := t\<rparr>)"

abbreviation on_forward :: "(forwards \<Rightarrow> forwards) \<Rightarrow> (session_inner, unit) sr" where
  "on_forward f \<equiv> smodify (\<lambda>s. s\<lparr>forward := f (forward s)\<rparr>)"

definition DEFAULT_INITIAL_WINDOW_SIZE :: u32 where
  "DEFAULT_INITIAL_WINDOW_SIZE = 64 * 32 * 1024"
definition DEFAULT_MAXIMUM_PACKET_SIZE :: u32 where
  "DEFAULT_MAXIMUM_PACKET_SIZE = 32 * 1024"

text \<open>
  \<open>queued_closes\<close> are the \<open>ChannelClose\<close> events that dropping a \<open>Channel\<close> put on the
  session's own event queue. \<open>SessionInner::new\<close>:
\<close>

definition session_new :: "bytes \<Rightarrow> transport \<Rightarrow> notifier \<Rightarrow> bool \<Rightarrow> session_config \<Rightarrow> session_inner" where
  "session_new sid sock nt specify conf =
     \<lparr>session_id = sid, socket = sock, config = conf, specify_server_sign_algorithm = specify,
      frontend_alive = True, notifier = nt, channels = [], server_algorithms = [],
      server_ping_supported = False, forward = \<lparr>tcp = [], local = []\<rparr>,
      renegotiating = False, renegotiate_msg = None, queued_closes = []\<rparr>"

section \<open>Elementary operations\<close>

definition find_client :: "u32 \<Rightarrow> session_inner \<Rightarrow> nat option" where
  "find_client i s = position (\<lambda>c. endpoint_id (client_end c) = i) (channels s)"

definition find_server :: "u32 \<Rightarrow> session_inner \<Rightarrow> nat option" where
  "find_server i s = position (\<lambda>c. endpoint_id (server_end c) = i) (channels s)"

definition update_channel :: "nat \<Rightarrow> (channel_handle \<Rightarrow> channel_handle) \<Rightarrow> (session_inner, unit) sr" where
  "update_channel i f = smodify (\<lambda>s. s\<lparr>channels := (channels s)[i := f (channels s ! i)]\<rparr>)"

definition remove_channel :: "nat \<Rightarrow> (session_inner, unit) sr" where
  "remove_channel i = smodify (\<lambda>s. s\<lparr>channels := remove_at i (channels s)\<rparr>)"

text \<open>\<open>channel.sender.send(msg).await\<close>.\<close>

definition deliver :: "nat \<Rightarrow> channel_message \<Rightarrow> (session_inner, bool) sr" where
  "deliver i m s =
     (case mpsc_send m (ch_sender (channels s ! i)) of
        (r, q) \<Rightarrow> (r, s\<lparr>channels := (channels s)[i := (channels s ! i)\<lparr>ch_sender := q\<rparr>]\<rparr>))"

text \<open>
  The receiver of a channel goes away: the last one with an early return, or in \<open>Drop\<close> of the
  \<open>Channel\<close> that holds it, which also queues a \<open>ChannelClose\<close> event.
\<close>

definition drop_receiver :: "nat \<Rightarrow> (session_inner, unit) sr" where
  "drop_receiver i = update_channel i (\<lambda>c. c\<lparr>ch_sender := (ch_sender c)\<lparr>receiving := False\<rparr>\<rparr>)"

definition drop_channel :: "nat \<Rightarrow> identity_pair \<Rightarrow> (session_inner, unit) sr" where
  "drop_channel i p = sbind (drop_receiver i) (\<lambda>_.
     smodify (\<lambda>s. s\<lparr>queued_closes := queued_closes s @ [p]\<rparr>))"

text \<open>
  \<open>next_channel_id\<close>: one more than the largest client number in use. At \<open>u32::MAX\<close> the
  addition overflows: a panic with overflow checks on, as in every debug build.
\<close>

definition next_channel_id :: "session_inner \<Rightarrow> u32 res" where
  "next_channel_id s =
     (let m = foldl (\<lambda>i c. max i (endpoint_id (client_end c))) 0 (channels s)
      in if m = - 1 then Panic else Ok (m + 1))"

definition upgrade_frontend :: "(session_inner, unit) sr" where
  "upgrade_frontend = sbind (sget frontend_alive) (\<lambda>b.
     if b then sreturn ()
     else sfail (SessionError (UnexpectedBehaviour ''Maybe session should be shutdown'')))"

text \<open>A notifier callback: it is logged and takes the next answer; without one it declines.\<close>

definition ask_notifier :: "notifier_call \<Rightarrow> (session_inner, notifier_answer) sr" where
  "ask_notifier c s =
     (let n = notifier s;
          a = (case answers n of
                 [] \<Rightarrow> \<lparr>accept = False, answer_window = None, answer_packet = None, kept = False\<rparr>
               | a # _ \<Rightarrow> a)
      in (Ok a, s\<lparr>notifier := \<lparr>calls = calls n @ [c], answers = tl (answers n)\<rparr>\<rparr>))"

text \<open>The display text of a session error, as it goes into a refusal.\<close>

fun error_text :: "session_error \<Rightarrow> bytes" where
  "error_text (UnexpectedBehaviour d) = str ''Unexpected behaviour: '' @ str d"
| "error_text (UnexpectedService e a) =
     str ''Unexpected service: expected '' @ e @ str '', got '' @ a"
| "error_text (ChannelOpenFailure c d) =
     str ''Channel open failure (code '' @ decimal (unat c) @ str ''): '' @ d"
| "error_text ChannelFailure = str ''Channel failure''"
| "error_text ChannelAlreadyOpen = str ''Channel already open''"
| "error_text (UnexpectedMessage d) = str ''Unexpected message: '' @ str d"
| "error_text (Disconnected r d) =
     str ''Disconnected: DisconnectReason('' @ decimal (unat r) @ str '') - '' @ d"
| "error_text (UnsupportedKeyType t) = str ''Unsupported key type: '' @ t"
| "error_text RequestFailure = str ''Request failure''"
| "error_text InvalidPort = str ''Invalid port''"
| "error_text UnexpectedChannelClosed = str ''Unexpected channel closed''"
| "error_text UnexpectedChannelEof = str ''Unexpected channel EOF''"
| "error_text UnexpectedWindowSize = str ''Unexpected window size''"
| "error_text ChannelWindowOverflow = str ''Channel window overflow''"

end
