(* ===== verification/Handshake.thy ===== *)
theory Handshake
  imports Negotiation CipherStreams SessionState
begin

text \<open>
  The initial handshake, \<open>Handshaker\<close> of \<open>src/session/handshake.rs\<close>: the exchange of the
  identification lines, the negotiation, the key exchange, and the change to the encrypted
  stream. The padding of the packet with sequence number \<open>n\<close> comes from the supply \<open>rnd n\<close>.
\<close>

section \<open>The state\<close>

record ('e, 'd, 'c, 'z, 'm) handshaker =
  hs_client_version :: bytes
  hs_banner :: "bytes list"
  hs_conf :: "('e, 'd, 'c, 'z, 'm) hs_config"
  hs_notifier :: notifier
  hs_socket :: "buffer_stream option"
  hs_plain :: "plain_stream option"
  hs_cipher :: "('e, 'd, 'c, 'z, 'm) cipher_stream option"
  hs_server_version :: "bytes option"
  hs_server_banner :: "bytes list option"
  hs_server_kex :: "bytes option"
  hs_client_kex :: "bytes option"
  hs_matched :: "('e, 'd, 'c, 'z, 'm) matched_methods option"
  hs_compat :: compat_options
  hs_session_id :: "bytes option"

definition handshaker_new ::
    "bytes \<Rightarrow> buffer_stream \<Rightarrow> notifier \<Rightarrow> ('e, 'd, 'c, 'z, 'm) hs_config \<Rightarrow>
     ('e, 'd, 'c, 'z, 'm) handshaker" where
  "handshaker_new version sock nt cf =
     \<lparr>hs_client_version = version, hs_banner = [], hs_conf = cf, hs_notifier = nt,
      hs_socket = Some sock, hs_plain = None, hs_cipher = None, hs_server_version = None,
      hs_server_banner = None, hs_server_kex = None, hs_client_kex = None, hs_matched = None,
      hs_compat = compat_default, hs_session_id = None\<rparr>"

text \<open>\<open>self.socket.as_mut().unwrap()\<close> and its like: without the part, a panic.\<close>

definition on_hs_socket :: "(buffer_stream, 'a) sr \<Rightarrow> (('e, 'd, 'c, 'z, 'm) handshaker, 'a) sr" where
  "on_hs_socket m s =
     (case hs_socket s of None \<Rightarrow> (Panic, s) | Some t \<Rightarrow> (case m t of (r, t') \<Rightarrow> (r, s\<lparr>hs_socket := Some t'\<rparr>)))"

definition on_plain :: "(plain_stream, 'a) sr \<Rightarrow> (('e, 'd, 'c, 'z, 'm) handshaker, 'a) sr" where
  "on_plain m s =
     (case hs_plain s of None \<Rightarrow> (Panic, s) | Some t \<Rightarrow> (case m t of (r, t') \<Rightarrow> (r, s\<lparr>hs_plain := Some t'\<rparr>)))"

definition on_matched ::
    "(('e, 'd, 'c, 'z, 'm) matched_methods, 'a) sr \<Rightarrow> (('e, 'd, 'c, 'z, 'm) handshaker, 'a) sr" where
  "on_matched m s =
     (case hs_matched s of None \<Rightarrow> (Panic, s) | Some t \<Rightarrow> (case m t of (r, t') \<Rightarrow> (r, s\<lparr>hs_matched := Some t'\<rparr>)))"

abbreviation on_kex ::
    "(key_exchange, 'a) sr \<Rightarrow> (('e, 'd, 'c, 'z, 'm) handshaker, 'a) sr" where
  "on_kex m \<equiv> on_matched (zoom m_kex (\<lambda>k t. t\<lparr>m_kex := k\<rparr>) m)"

definition unwrap :: "'a option \<Rightarrow> 'a res" where
  "unwrap x = (case x of None \<Rightarrow> Panic | Some a \<Rightarrow> Ok a)"

section \<open>Identification\<close>

abbreviation BANNER_ENDING :: bytes where
  "BANNER_ENDING \<equiv> [13, 10]"

text \<open>
  The regular expression of an identification line,
  \<open>^SSH-(version)-(software)(?: (comment))?\r?\n?$\<close>: the version is numbers separated by dots, the
  software printable characters without a space, the comment printable characters. As no
  two neighbouring classes overlap, matching is deterministic.
\<close>

fun dotted_number :: "bytes \<Rightarrow> bool" where
  "dotted_number bs = (\<forall>p \<in> set (split_on 46 bs). p \<noteq> [] \<and> (\<forall>b \<in> set p. is_digit b))"

definition graphic :: "u8 \<Rightarrow> bool" where
  "graphic b \<longleftrightarrow> 33 \<le> b \<and> b \<le> 126"

definition printable :: "u8 \<Rightarrow> bool" where
  "printable b \<longleftrightarrow> 32 \<le> b \<and> b \<le> 126"

definition line_end :: "bytes \<Rightarrow> bool" where
  "line_end bs \<longleftrightarrow> bs \<in> {[], [13], [10], [13, 10]}"

definition parse_identification :: "bytes \<Rightarrow> (bytes \<times> bytes \<times> bytes option) option" where
  "parse_identification line =
     (if \<not> starts_with (str ''SSH-'') line then None
      else
        let rest = drop 4 line;
            version = takeWhile (\<lambda>b. b \<noteq> 45) rest;
            rest = dropWhile (\<lambda>b. b \<noteq> 45) rest in
        if rest = [] \<or> \<not> dotted_number version then None
        else
          let software = takeWhile graphic (tl rest);
              rest = dropWhile graphic (tl rest) in
          if software = [] then None
          else if rest \<noteq> [] \<and> hd rest = 32
          then
            let comment = takeWhile printable (tl rest) in
            if line_end (dropWhile printable (tl rest))
            then Some (version, software, Some comment) else None
          else if line_end rest then Some (version, software, None) else None)"

text \<open>The loop over the server's lines; \<open>count\<close> is the number of bytes read so far.\<close>

lemma crlf_scan_bounds:
  "crlf_scan limit i bs = Some (Ok n) \<Longrightarrow> i + 2 \<le> n \<and> n \<le> i + length bs"
proof (induction limit i bs rule: crlf_scan.induct)
  case (2 limit i b bs)
  then show ?case by (cases bs) (auto split: if_splits)
qed simp

lemma read_line_nonempty: "read_line_crlf m s = (Ok line, s') \<Longrightarrow> 2 \<le> length line"
proof -
  have "read_crlf_loop m s = (Ok line, s') \<Longrightarrow> 2 \<le> length line" for s
  proof (induction m s rule: read_crlf_loop.induct)
    case (1 m s)
    show ?case
    proof (cases "crlf_scan m 0 (r_buf s)")
      case None
      with 1 show ?thesis
        by (auto simp: read_crlf_loop.simps [of m s] split: prod.splits res.splits)
    next
      case (Some r)
      with 1(2) show ?thesis
        by (cases r) (auto simp: read_crlf_loop.simps [of m s] dest: crlf_scan_bounds)
    qed
  qed
  then show "read_line_crlf m s = (Ok line, s') \<Longrightarrow> 2 \<le> length line"
    by (auto simp: read_line_crlf_def sfail_def split: if_splits)
qed

function read_banner ::
    "nat \<Rightarrow> bytes list \<Rightarrow>
     (buffer_stream, bytes \<times> bytes list \<times> bytes \<times> bytes option) sr" where
  "read_banner count seen s =
     (if count \<ge> 255 then (Err (HandshakeError BannerTooLong), s)
      else (case read_line_crlf (255 - count) s of
          (Ok raw, s') \<Rightarrow>
            if \<not> utf8_valid raw then (Err (HandshakeError InvalidBanner), s')
            else
              let line = trim_end_matches BANNER_ENDING raw in
              if starts_with (str ''SSH-'') line
              then (case parse_identification line of
                  None \<Rightarrow> (Err (HandshakeError (UnexpectedServerBanner line)), s')
                | Some (version, software, comment) \<Rightarrow>
                    if version \<noteq> str ''2.0'' \<and> version \<noteq> str ''1.99''
                    then (Err (HandshakeError (UnsupportedVersion line)), s')
                    else (Ok (line, seen, software, comment), s'))
              else read_banner (count + length raw) (seen @ [line]) s'
        | (Err e, s') \<Rightarrow> (Err e, s')
        | (Panic, s') \<Rightarrow> (Panic, s')))"
  by pat_completeness auto
termination
proof (relation "measure (\<lambda>(count, seen, s). 255 - count)", goal_cases)
  case (2 count seen s r s' raw line)
  then have "2 \<le> length raw" using read_line_nonempty by metis
  with 2 show ?case by simp
qed simp

declare read_banner.simps [simp del]

definition banner_version_exchange :: "(('e, 'd, 'c, 'z, 'm) handshaker, unit) sr" where
  "banner_version_exchange =
     sbind (sget hs_banner) (\<lambda>banner.
     sbind (sget hs_client_version) (\<lambda>version.
     sbind (on_hs_socket (smodify (\<lambda>t.
       let t = (if banner = [] then t
          else bs_put_bytes BANNER_ENDING (bs_put_bytes (join BANNER_ENDING banner) t))
       in bs_put_bytes BANNER_ENDING (bs_put_bytes version t)))) (\<lambda>_.
     sbind (on_hs_socket flush) (\<lambda>_.
     sbind (on_hs_socket (read_banner 0 [])) (\<lambda>(line, seen, software, comment).
     sbind (smodify (\<lambda>s. s\<lparr>hs_compat := compat_parse
        (case comment of Some c \<Rightarrow> software @ [32] @ c | None \<Rightarrow> software)\<rparr>)) (\<lambda>_.
     sbind (smodify (\<lambda>s. s\<lparr>hs_server_version := Some line, hs_server_banner := Some seen\<rparr>)) (\<lambda>_.
     sbind (sget hs_socket) (\<lambda>sock.
     sbind (slift (unwrap sock)) (\<lambda>sock.
     smodify (\<lambda>s. s\<lparr>hs_socket := None, hs_plain := Some (let p = plain_new sock in
        p\<lparr>client := (client p)\<lparr>ext := advertise_ext (hs_conf s),
          kex_strict := key_strict (hs_conf s)\<rparr>\<rparr>)\<rparr>))))))))))"

section \<open>Messages during the handshake\<close>

definition hs_send :: "(u32 \<Rightarrow> nat \<Rightarrow> u8) \<Rightarrow> bytes \<Rightarrow> (plain_stream, unit) sr" where
  "hs_send rnd d = sbind (sget (\<lambda>p. rnd (sequence_number (client p)))) (\<lambda>r. plain_send_payload r d)"

text \<open>\<open>PlainStream::handle_msg\<close>.\<close>

definition hs_handle_msg :: "(u32 \<Rightarrow> nat \<Rightarrow> u8) \<Rightarrow> packet \<Rightarrow> (plain_stream, unit) sr" where
  "hs_handle_msg rnd p = sbind (sget strict) (\<lambda>both.
     if both
     then (case payload p of
         [] \<Rightarrow> spanic
       | code # _ \<Rightarrow> sfail (HandshakeError (UnexpectedMessageInStrictMode code)))
     else
       sbind (slift (Message_parse (payload p))) (\<lambda>msg.
       let unimplemented = sbind (sget (\<lambda>s. sequence_number (server s))) (\<lambda>n.
             hs_send rnd (make_buffer_without_header [FU8 SSH_MSG_UNIMPLEMENTED, FU32 n])) in
       case msg of
         Debug always_display text language \<Rightarrow> sreturn ()
       | Ignore data \<Rightarrow> sreturn ()
       | Disconnect reason description language \<Rightarrow>
           sfail (HandshakeError (UnexpectedDisconnectMessage reason description))
       | Unimplemented n \<Rightarrow> sreturn ()
       | Ping data \<Rightarrow> sreturn ()
       | Pong data \<Rightarrow> sreturn ()
       | _ \<Rightarrow> unimplemented))"

text \<open>
  Read packets until one has the code \<open>code\<close>; the others go to \<open>other\<close>. Each packet takes bytes
  off the connection, so as many rounds as bytes are left, and one more, are enough
  (\<open>wait_packet_enough\<close>).
\<close>

definition packet_code :: "packet \<Rightarrow> u8 res" where
  "packet_code p = fst (consume_u8 (consumer_new (payload p)))"

primrec wait_fuel ::
    "nat \<Rightarrow> u8 \<Rightarrow> (packet \<Rightarrow> (plain_stream, unit) sr) \<Rightarrow> (plain_stream, bytes) sr" where
  "wait_fuel 0 code other = spanic"
| "wait_fuel (Suc n) code other =
     sbind plain_recv_packet (\<lambda>p. sbind (slift (packet_code p)) (\<lambda>c.
     if c = code then sreturn (payload p)
     else sbind (other p) (\<lambda>_. wait_fuel n code other)))"

definition wait_packet ::
    "u8 \<Rightarrow> (packet \<Rightarrow> (plain_stream, unit) sr) \<Rightarrow> (plain_stream, bytes) sr" where
  "wait_packet code other p = wait_fuel (Suc (length (unread (psock p)))) code other p"

section \<open>Negotiation\<close>

definition negotiate_methods ::
    "(u32 \<Rightarrow> nat \<Rightarrow> u8) \<Rightarrow> (nat \<Rightarrow> u8) \<Rightarrow> (('e, 'd, 'c, 'z, 'm) handshaker, unit) sr" where
  "negotiate_methods rnd cookie =
     sbind (sget hs_conf) (\<lambda>cf.
     sbind (sget (\<lambda>s. \<not> compat_disabled cf \<and> curve25519_pad (hs_compat s))) (\<lambda>pad.
     let v = methods_build cookie (do_compat pad (from_config cf)) in
     sbind (on_plain (hs_send rnd v)) (\<lambda>_.
     sbind (smodify (\<lambda>s. s\<lparr>hs_client_kex := Some v\<rparr>)) (\<lambda>_.
     sbind (on_plain (wait_packet SSH_MSG_KEXINIT (hs_handle_msg rnd))) (\<lambda>init.
     sbind (slift (methods_parse init)) (\<lambda>server_method.
     sbind (on_plain (smodify (\<lambda>p. p\<lparr>server := (server p)\<lparr>kex_strict := methods_strict server_method,
        ext := methods_ext_info server_method\<rparr>\<rparr>))) (\<lambda>_.
     sbind (slift (negotiate cf server_method)) (\<lambda>matched.
     smodify (\<lambda>s. s\<lparr>hs_matched := Some matched, hs_server_kex := Some init\<rparr>)))))))))"

section \<open>Key exchange\<close>

text \<open>The group exchange, for the methods that have one.\<close>

definition parse_group :: "bytes \<Rightarrow> (bytes \<times> bytes) res" where
  "parse_group d = fst (sbind consume_u8 (\<lambda>_. sbind consume_one (\<lambda>p. sbind consume_one (\<lambda>g.
     sreturn (p, g)))) (consumer_new d))"

definition group_exchange ::
    "(u32 \<Rightarrow> nat \<Rightarrow> u8) \<Rightarrow> (('e, 'd, 'c, 'z, 'm) handshaker, unit) sr" where
  "group_exchange rnd =
     sbind (on_matched (sget (\<lambda>m. m))) (\<lambda>m.
     if \<not> is_gex (kex_method (m_kex m)) then sreturn ()
     else
       sbind (sget (\<lambda>s. \<not> compat_disabled (hs_conf s) \<and> limited_dh_ex (hs_compat s))) (\<lambda>limited.
       sbind (on_kex (smodify (set_recommended_number_of_bits (gex_bits_for limited (gex_need m))))) (\<lambda>_.
       sbind (on_kex (sget kex_method)) (\<lambda>g.
       sbind (on_plain (hs_send rnd (put_u32 (gex_max g) (put_u32 (gex_bits g) (put_u32 (gex_min g)
          (put_u8 SSH_MSG_KEX_DH_GEX_REQUEST [])))))) (\<lambda>_.
       sbind (on_plain (wait_packet SSH_MSG_KEX_DH_GEX_GROUP (hs_handle_msg rnd))) (\<lambda>d.
       sbind (slift (parse_group d)) (\<lambda>(p, g).
       on_kex (exchange_initialize p g))))))))"

definition parse_reply :: "bytes \<Rightarrow> (bytes \<times> bytes \<times> bytes) res" where
  "parse_reply d = fst (sbind consume_u8 (\<lambda>_. sbind consume_one (\<lambda>host_key.
     sbind consume_one (\<lambda>server_public_key. sbind consume_one (\<lambda>signature.
     sreturn (host_key, server_public_key, signature))))) (consumer_new d))"

text \<open>\<open>notifier.verify_server_host_key\<close>: the question is logged, the next answer is taken.\<close>

definition ask_host_key :: "bytes \<Rightarrow> bytes \<Rightarrow> (('e, 'd, 'c, 'z, 'm) handshaker, bool) sr" where
  "ask_host_key type host_key s =
     (let n = hs_notifier s
      in (Ok (case answers n of [] \<Rightarrow> False | a # _ \<Rightarrow> accept a),
          s\<lparr>hs_notifier := \<lparr>calls = calls n @ [VerifyServerHostKey type host_key],
              answers = tl (answers n)\<rparr>\<rparr>))"

definition exchange_info ::
    "('e, 'd, 'c, 'z, 'm) handshaker \<Rightarrow> bytes \<Rightarrow> bytes \<Rightarrow> bytes \<Rightarrow> bytes \<Rightarrow> information res" where
  "exchange_info s host_key own peer secret =
     res_bind (unwrap (hs_server_version s)) (\<lambda>sv.
     res_bind (unwrap (hs_client_kex s)) (\<lambda>ck.
     res_bind (unwrap (hs_server_kex s)) (\<lambda>sk.
     Ok (information.make (hs_client_version s) sv ck sk host_key own peer secret))))"

text \<open>
  The reply of the server: the signature is verified over the exchange hash and the
  application accepts the host key before any key is derived.
\<close>

definition accept_reply ::
    "bytes \<Rightarrow> bytes \<times> bytes \<times> bytes \<Rightarrow>
     (('e, 'd, 'c, 'z, 'm) handshaker, ('e, 'd, 'm) session_keys) sr" where
  "accept_reply own = (\<lambda>(host_key, peer, signature).
     sbind (on_kex (compute_secret_key peer)) (\<lambda>secret.
     sbind (sget (\<lambda>s. exchange_info s host_key own peer secret)) (\<lambda>info.
     sbind (slift info) (\<lambda>info.
     sbind (on_kex (sget (compute_hash info))) (\<lambda>hash.
     sbind (slift hash) (\<lambda>hash.
     sbind (on_matched (sget m_host_key)) (\<lambda>v.
     sbind (slift (verifier_initialize v host_key)) (\<lambda>_.
     sbind (slift (verifier_verify v host_key signature hash)) (\<lambda>valid.
     if \<not> valid then sfail (HandshakeError SignatureVerificationFailed)
     else
       sbind (ask_host_key (verifier_name v) host_key) (\<lambda>accepted.
       if \<not> accepted then sfail (HandshakeError ServerHostKeyRejectedByUser)
       else
         sbind (on_matched (sget (\<lambda>m. initialize m hash hash (put_one secret [])))) (\<lambda>keys.
         sbind (slift keys) (\<lambda>keys.
         sbind (smodify (\<lambda>s. s\<lparr>hs_session_id := Some hash\<rparr>)) (\<lambda>_.
         sreturn keys)))))))))))))"

definition install_keys ::
    "('e, 'd, 'm) session_keys \<Rightarrow> (('e, 'd, 'c, 'z, 'm) handshaker, unit) sr" where
  "install_keys keys =
     sbind (sget hs_matched) (\<lambda>m. sbind (slift (unwrap m)) (\<lambda>m.
     sbind (sget hs_plain) (\<lambda>p. sbind (slift (unwrap p)) (\<lambda>p.
     smodify (\<lambda>s. s\<lparr>hs_matched := None, hs_plain := None, hs_cipher := Some (upgrade p
        (key_encrypt keys) (key_decrypt keys) (m_encode m) (m_decode m)
        (key_mac_out keys) (key_mac_in keys))\<rparr>)))))"

definition key_exchange ::
    "(u32 \<Rightarrow> nat \<Rightarrow> u8) \<Rightarrow> (('e, 'd, 'c, 'z, 'm) handshaker, unit) sr" where
  "key_exchange rnd =
     sbind (group_exchange rnd) (\<lambda>_.
     sbind (on_kex generate_key) (\<lambda>own.
     sbind (on_kex (sget kex_request_code)) (\<lambda>request.
     sbind (on_plain (hs_send rnd (put_one own (put_u8 request [])))) (\<lambda>_.
     sbind (on_kex (sget kex_response_code)) (\<lambda>response.
     sbind (on_plain (wait_packet response (hs_handle_msg rnd))) (\<lambda>d.
     sbind (slift (parse_reply d)) (\<lambda>reply.
     sbind (accept_reply own reply) (\<lambda>keys.
     sbind (on_plain (hs_send rnd [SSH_MSG_NEWKEYS])) (\<lambda>_.
     sbind (on_plain (wait_packet SSH_MSG_NEWKEYS (\<lambda>_. sreturn ()))) (\<lambda>_.
     install_keys keys))))))))))"

end
