(* ===== verification/Handlers.thy ===== *)
theory Handlers
  imports SessionState
begin

text \<open>
  The server's messages, \<open>SessionInner::handle_msg\<close> and the handlers it calls
  (\<open>src/session/backend.rs\<close>), one definition per handler.
\<close>

section \<open>Sending\<close>

text \<open>\<open>self.socket.send_payload(&make_buffer_without_header! { ... }[..])\<close>.\<close>

definition send_fields :: "field list \<Rightarrow> (session_inner, unit) sr" where
  "send_fields fs = on_socket (send_payload (make_buffer_without_header fs))"

definition send_channel_window_adjust :: "u32 \<Rightarrow> u32 \<Rightarrow> (session_inner, unit) sr" where
  "send_channel_window_adjust server_id count =
     send_fields [FU8 SSH_MSG_CHANNEL_WINDOW_ADJUST, FU32 server_id, FU32 count]"

definition send_channel_close :: "u32 \<Rightarrow> (session_inner, unit) sr" where
  "send_channel_close server_id = send_fields [FU8 SSH_MSG_CHANNEL_CLOSE, FU32 server_id]"

definition send_pong :: "bytes \<Rightarrow> (session_inner, unit) sr" where
  "send_pong data = send_fields [FU8 SSH_MSG_PONG, FOne data]"

definition send_unimplemented :: "(session_inner, unit) sr" where
  "send_unimplemented = sbind (sget (\<lambda>s. sequence_number (server (socket s)) - 1)) (\<lambda>seq.
     send_fields [FU8 SSH_MSG_UNIMPLEMENTED, FU32 seq])"

section \<open>Closing a channel\<close>

abbreviation no_such_channel :: error where
  "no_such_channel \<equiv> SessionError (UnexpectedBehaviour ''No such channel'')"

definition close_client :: "nat \<Rightarrow> (session_inner, unit) sr" where
  "close_client i = update_channel i (\<lambda>c. c\<lparr>client_end := (client_end c)\<lparr>closed := True\<rparr>\<rparr>)"

definition channel_close :: "identity_pair \<Rightarrow> (session_inner, unit) sr" where
  "channel_close p = sbind (sget (find_client (pair_client p))) (\<lambda>index.
     case index of
       None \<Rightarrow> sfail no_such_channel
     | Some i \<Rightarrow>
         sbind (send_channel_close (pair_server p)) (\<lambda>_.
         sbind (close_client i) (\<lambda>_.
         sbind (sget (\<lambda>s. closed (server_end (channels s ! i)))) (\<lambda>b.
         if b then remove_channel i else sreturn ()))))"

definition handle_channel_close :: "u32 \<Rightarrow> (session_inner, unit) sr" where
  "handle_channel_close recipient = sbind (sget (find_client recipient)) (\<lambda>index.
     case index of
       None \<Rightarrow> sreturn ()
     | Some i \<Rightarrow>
         sbind (deliver i Close) (\<lambda>_.
         sbind (update_channel i (\<lambda>c. c\<lparr>server_end := (server_end c)\<lparr>closed := True\<rparr>\<rparr>)) (\<lambda>_.
         sbind (sget (\<lambda>s. closed (client_end (channels s ! i)))) (\<lambda>b.
         if b then remove_channel i else sreturn ()))))"

definition handle_channel_eof :: "u32 \<Rightarrow> (session_inner, unit) sr" where
  "handle_channel_eof recipient = sbind (sget (find_client recipient)) (\<lambda>index.
     case index of
       None \<Rightarrow> sreturn ()
     | Some i \<Rightarrow>
         sbind (deliver i Eof) (\<lambda>_.
         update_channel i (\<lambda>c. c\<lparr>server_end := (server_end c)\<lparr>eof := True\<rparr>\<rparr>)))"

section \<open>Data and windows\<close>

definition add_client_used :: "nat \<Rightarrow> int \<Rightarrow> (session_inner, unit) sr" where
  "add_client_used i n = update_channel i (\<lambda>c. c\<lparr>client_end := use_window n (client_end c)\<rparr>)"

definition add_server_used :: "nat \<Rightarrow> int \<Rightarrow> (session_inner, unit) sr" where
  "add_server_used i n = update_channel i (\<lambda>c. c\<lparr>server_end := use_window n (server_end c)\<rparr>)"

definition adjust_size :: "int \<Rightarrow> u32" where
  "adjust_size used = (if \<bar>used\<bar> < 2 ^ 32 then of_int \<bar>used\<bar> else - 1)"

definition replenish :: "nat \<Rightarrow> (session_inner, unit) sr" where
  "replenish i = sbind (sget (\<lambda>s. channels s ! i)) (\<lambda>c.
     sbind (slift (window_left (client_end c))) (\<lambda>left.
     if left < 1024
     then
       let size = adjust_size (used_window_size (client_end c)) in
       sbind (send_channel_window_adjust (endpoint_id (server_end c)) size) (\<lambda>_.
       add_client_used i (- int (unat size)))
     else sreturn ()))"

definition handle_channel_data :: "u32 \<Rightarrow> bytes \<Rightarrow> bool \<Rightarrow> (session_inner, unit) sr" where
  "handle_channel_data client_id data stderr = sbind (sget (find_client client_id)) (\<lambda>index.
     case index of
       None \<Rightarrow> sreturn ()
     | Some i \<Rightarrow>
         sbind (sget (\<lambda>s. client_end (channels s ! i))) (\<lambda>e.
         if length data > unat (maximum_packet_size e) then sreturn ()
         else
           sbind (slift (window_left e)) (\<lambda>left.
           if length data > left then sfail (SessionError ChannelWindowOverflow)
           else
             sbind (add_client_used i (int (length data))) (\<lambda>_.
             sbind (deliver i (if stderr then Stderr data else Stdout data)) (\<lambda>sent.
             if sent then replenish i else sreturn ())))))"

definition handle_channel_window_adjust :: "u32 \<Rightarrow> u32 \<Rightarrow> (session_inner, unit) sr" where
  "handle_channel_window_adjust client_id count = sbind (sget (find_client client_id)) (\<lambda>index.
     case index of
       None \<Rightarrow> sreturn ()
     | Some i \<Rightarrow>
         sbind (sget (\<lambda>s. used_window_size (server_end (channels s ! i)))) (\<lambda>used.
         if used - int (unat count) < - (2 ^ 63) then sfail (SessionError UnexpectedWindowSize)
         else
           sbind (add_server_used i (- int (unat count))) (\<lambda>_.
           sbind (deliver i (WindowChange count)) (\<lambda>_. sreturn ()))))"

section \<open>Channel requests of the server\<close>

definition handle_channel_flow_control :: "u32 \<Rightarrow> bool \<Rightarrow> bool \<Rightarrow> (session_inner, unit) sr" where
  "handle_channel_flow_control recipient want_reply on =
     sbind (sget (find_client recipient)) (\<lambda>index.
     case index of
       None \<Rightarrow> sreturn ()
     | Some i \<Rightarrow> sbind (deliver i (FlowControl on)) (\<lambda>_. sreturn ()))"

definition handle_channel_exit_status :: "u32 \<Rightarrow> bool \<Rightarrow> u32 \<Rightarrow> (session_inner, unit) sr" where
  "handle_channel_exit_status recipient want_reply st =
     sbind (sget (find_client recipient)) (\<lambda>index.
     case index of
       None \<Rightarrow> sreturn ()
     | Some i \<Rightarrow> sbind (deliver i (Exit (Normal st))) (\<lambda>_. sreturn ()))"

definition handle_channel_exit_signal ::
    "u32 \<Rightarrow> bool \<Rightarrow> bytes \<Rightarrow> bool \<Rightarrow> bytes \<Rightarrow> bytes \<Rightarrow> (session_inner, unit) sr" where
  "handle_channel_exit_signal recipient want_reply signal core_dumped error_message language =
     sbind (sget (find_client recipient)) (\<lambda>index.
     case index of
       None \<Rightarrow> sreturn ()
     | Some i \<Rightarrow>
         sbind (deliver i (Exit (Interrupt signal core_dumped error_message))) (\<lambda>_. sreturn ()))"

definition handle_channel_unknown_request :: "u32 \<Rightarrow> bool \<Rightarrow> bytes \<Rightarrow> (session_inner, unit) sr" where
  "handle_channel_unknown_request recipient want_reply type =
     sbind (sget (find_client recipient)) (\<lambda>index.
     case index of
       None \<Rightarrow> sreturn ()
     | Some i \<Rightarrow>
         if want_reply
         then sbind (sget (\<lambda>s. endpoint_id (server_end (channels s ! i)))) (\<lambda>server_id.
           send_fields [FU8 SSH_MSG_CHANNEL_FAILURE, FU32 server_id])
         else sreturn ())"

section \<open>Global requests of the server\<close>

definition handle_global_request_keep_alive_openssh :: "bool \<Rightarrow> (session_inner, unit) sr" where
  "handle_global_request_keep_alive_openssh want_reply =
     (if want_reply then send_fields [FU8 SSH_MSG_REQUEST_SUCCESS] else sreturn ())"

definition handle_global_request_hosts_key_openssh ::
    "bool \<Rightarrow> bytes list \<Rightarrow> (session_inner, unit) sr" where
  "handle_global_request_hosts_key_openssh want_reply host_keys =
     sbind (ask_notifier (ServerHostKeys host_keys)) (\<lambda>a.
     if want_reply
     then if accept a then send_fields [FU8 SSH_MSG_REQUEST_SUCCESS]
          else send_fields [FU8 SSH_MSG_REQUEST_FAILURE]
     else sreturn ())"

definition handle_global_unknown_request :: "bool \<Rightarrow> bytes \<Rightarrow> (session_inner, unit) sr" where
  "handle_global_unknown_request want_reply type =
     (if want_reply then send_fields [FU8 SSH_MSG_REQUEST_FAILURE] else sreturn ())"

section \<open>Channels the server opens\<close>

definition refuse_open :: "u32 \<Rightarrow> u32 \<Rightarrow> bytes \<Rightarrow> (session_inner, unit) sr" where
  "refuse_open sender_channel reason text =
     send_fields [FU8 SSH_MSG_CHANNEL_OPEN_FAILURE, FU32 sender_channel, FU32 reason,
       FOne text, FOne []]"

definition handle_channel_open_unknown :: "bytes \<Rightarrow> u32 \<Rightarrow> (session_inner, unit) sr" where
  "handle_channel_open_unknown type sender_channel =
     refuse_open sender_channel SSH_OPEN_UNKNOWN_CHANNEL_TYPE
       (str ''Unrecognized channel type: '' @ type)"

definition push_channel :: "identity_pair \<Rightarrow> u32 \<Rightarrow> u32 \<Rightarrow> u32 \<Rightarrow> u32 \<Rightarrow> (session_inner, nat) sr" where
  "push_channel p client_window client_packet server_window server_packet =
     sbind (sget (\<lambda>s. length (channels s))) (\<lambda>i.
     sbind (smodify (\<lambda>s. s\<lparr>channels := channels s @
        [\<lparr>client_end = endpoint_new (pair_client p) client_window client_packet,
          server_end = endpoint_new (pair_server p) server_window server_packet,
          ch_sender = mpsc_new\<rparr>]\<rparr>)) (\<lambda>_.
     sreturn i))"

text \<open>
  What the four handlers below share once a channel is accepted: a client number, the
  confirmation, the new entry, and a \<open>Channel\<close> made from its receiver.
\<close>

definition confirm_channel ::
    "u32 \<Rightarrow> u32 \<Rightarrow> u32 \<Rightarrow> u32 \<Rightarrow> u32 \<Rightarrow> (session_inner, nat \<times> identity_pair) sr" where
  "confirm_channel sender_channel client_window client_packet server_window server_packet =
     sbind (sget next_channel_id) (\<lambda>n. sbind (slift n) (\<lambda>client_id.
     let p = IdentityPair client_id sender_channel in
     sbind (send_fields [FU8 SSH_MSG_CHANNEL_OPEN_CONFIRMATION, FU32 sender_channel,
        FU32 client_id, FU32 client_window, FU32 client_packet]) (\<lambda>_.
     sbind (push_channel p client_window client_packet server_window server_packet) (\<lambda>i.
     sbind (sget frontend_alive) (\<lambda>alive.
     if alive then sreturn (i, p)
     else sbind (drop_receiver i) (\<lambda>_. sbind upgrade_frontend (\<lambda>_. sreturn (i, p))))))))"

text \<open>The new stream found no taker: it is dropped, and the channel closed.\<close>

definition abandon :: "nat \<Rightarrow> identity_pair \<Rightarrow> (session_inner, unit) sr" where
  "abandon i p = sbind (drop_channel i p) (\<lambda>_. channel_close p)"

definition verify_forward ::
    "notifier_call \<Rightarrow> u32 \<Rightarrow> (session_inner, session_error + notifier_answer) sr" where
  "verify_forward call sender_channel = sbind (sget (find_server sender_channel)) (\<lambda>index.
     if index \<noteq> None then sreturn (Inl ChannelAlreadyOpen)
     else sbind (ask_notifier call) (\<lambda>a.
       sreturn (if accept a then Inr a else Inl RequestFailure)))"

definition open_for_notifier ::
    "session_error + notifier_answer \<Rightarrow> u32 \<Rightarrow> u32 \<Rightarrow> u32 \<Rightarrow> (session_inner, unit) sr" where
  "open_for_notifier v sender_channel window packet =
     (case v of
        Inl e \<Rightarrow> refuse_open sender_channel SSH_OPEN_CONNECT_FAILED (error_text e)
      | Inr a \<Rightarrow>
          sbind (confirm_channel sender_channel
             (case answer_window a of Some w \<Rightarrow> w | None \<Rightarrow> DEFAULT_INITIAL_WINDOW_SIZE)
             (case answer_packet a of Some m \<Rightarrow> m | None \<Rightarrow> DEFAULT_MAXIMUM_PACKET_SIZE)
             window packet) (\<lambda>(i, p).
          if kept a then sreturn () else abandon i p))"

definition handle_channel_open_agent_connect :: "u32 \<Rightarrow> u32 \<Rightarrow> u32 \<Rightarrow> (session_inner, unit) sr" where
  "handle_channel_open_agent_connect sender_channel window packet =
     sbind (verify_forward AgentForward sender_channel) (\<lambda>v.
     open_for_notifier v sender_channel window packet)"

text \<open>\<open>u16::try_from(port)\<close>.\<close>

definition u16_of_u32 :: "u32 \<Rightarrow> u16 option" where
  "u16_of_u32 p = (if unat p < 2 ^ 16 then Some (ucast p) else None)"

definition handle_channel_open_x11 ::
    "u32 \<Rightarrow> u32 \<Rightarrow> u32 \<Rightarrow> bytes \<Rightarrow> u32 \<Rightarrow> (session_inner, unit) sr" where
  "handle_channel_open_x11 sender_channel window packet originator_address originator_port =
     sbind (case u16_of_u32 originator_port of
         None \<Rightarrow> sreturn (Inl InvalidPort)
       | Some p \<Rightarrow> verify_forward (X11Forward \<lparr>host = originator_address, port = p\<rparr>) sender_channel)
     (\<lambda>v. open_for_notifier v sender_channel window packet)"

definition no_listener :: session_error where
  "no_listener = UnexpectedMessage ''No such forward listener''"

definition verify_tcp ::
    "bytes \<Rightarrow> u32 \<Rightarrow> u32 \<Rightarrow> session_inner \<Rightarrow>
     session_error + (socket_addr \<times> socket_addr listener_handle \<times> u16)" where
  "verify_tcp connected_address connected_port originator_port s =
     (case u16_of_u32 connected_port of
        None \<Rightarrow> Inl InvalidPort
      | Some cp \<Rightarrow>
          (case u16_of_u32 originator_port of
             None \<Rightarrow> Inl InvalidPort
           | Some op \<Rightarrow>
               let addr = \<lparr>host = connected_address, port = cp\<rparr> in
               (case get_tcp addr (forward s) of
                  None \<Rightarrow> Inl no_listener
                | Some l \<Rightarrow> Inr (addr, l, op))))"

definition handle_channel_open_forwarded_tcp_ip ::
    "u32 \<Rightarrow> u32 \<Rightarrow> u32 \<Rightarrow> bytes \<Rightarrow> u32 \<Rightarrow> bytes \<Rightarrow> u32 \<Rightarrow> (session_inner, unit) sr" where
  "handle_channel_open_forwarded_tcp_ip sender_channel window packet
      connected_address connected_port originator_address originator_port =
     sbind (sget (verify_tcp connected_address connected_port originator_port)) (\<lambda>v.
     case v of
       Inl e \<Rightarrow> refuse_open sender_channel SSH_OPEN_CONNECT_FAILED (error_text e)
     | Inr (addr, l, op) \<Rightarrow>
         sbind (confirm_channel sender_channel (l_initial_window_size l) (l_maximum_packet_size l)
            window packet) (\<lambda>(i, p).
         case mpsc_send (p, \<lparr>host = originator_address, port = op\<rparr>) (l_sender l) of
           (Ok True, q) \<Rightarrow> on_forward (insert_tcp addr (l\<lparr>l_sender := q\<rparr>))
         | _ \<Rightarrow> abandon i p))"

definition handle_channel_open_forwarded_stream_local ::
    "u32 \<Rightarrow> u32 \<Rightarrow> u32 \<Rightarrow> bytes \<Rightarrow> bytes \<Rightarrow> (session_inner, unit) sr" where
  "handle_channel_open_forwarded_stream_local sender_channel window packet path reserved =
     sbind (sget (\<lambda>s. get_local path (forward s))) (\<lambda>v.
     case v of
       None \<Rightarrow> refuse_open sender_channel SSH_OPEN_CONNECT_FAILED (error_text no_listener)
     | Some l \<Rightarrow>
         sbind (confirm_channel sender_channel (l_initial_window_size l) (l_maximum_packet_size l)
            window packet) (\<lambda>(i, p).
         case mpsc_send (p, ()) (l_sender l) of
           (Ok True, q) \<Rightarrow> on_forward (insert_local path (l\<lparr>l_sender := q\<rparr>))
         | _ \<Rightarrow> abandon i p))"

end
