(* ===== verification/Requests.thy ===== *)
theory Requests
  imports Handlers
begin

text \<open>
  The dispatch of the server's messages and the client's own requests
  (\<open>src/session/backend.rs\<close>): \<open>handle_msg\<close>, the loops that wait for an answer, channel
  opening and channel requests, forwarding, authentication, and the events of the frontend.
\<close>

section \<open>Dispatch\<close>

text \<open>
  \<open>handle_msg(msg, idle)\<close>. When the session is idle it runs a key re-exchange at once: the
  argument is then that procedure (\<open>Some rekey\<close>); otherwise (\<open>None\<close>) the server's \<open>KEXINIT\<close>
  is put aside.
\<close>

type_synonym rekey = "bytes option \<Rightarrow> (session_inner, unit) sr"

definition handle_ext_info :: "(bytes \<rightharpoonup> bytes) \<Rightarrow> (session_inner, unit) sr" where
  "handle_ext_info extensions =
     (let ping = (case extensions (str ''ping@openssh.com'') of
          Some v \<Rightarrow> if v = str ''0'' then smodify (\<lambda>s. s\<lparr>server_ping_supported := True\<rparr>) else sreturn ()
        | None \<Rightarrow> sreturn ())
      in (case extensions (str ''server-sig-algs'') of
          None \<Rightarrow> ping
        | Some methods \<Rightarrow>
            if \<not> utf8_valid methods then sreturn ()
            else sbind (smodify (\<lambda>s. s\<lparr>server_algorithms := split_on comma methods\<rparr>)) (\<lambda>_. ping)))"

definition handle_disconnect :: "u32 \<Rightarrow> bytes \<Rightarrow> (session_inner, unit) sr" where
  "handle_disconnect reason description =
     sbind (ask_notifier (DisconnectedCall reason description)) (\<lambda>_.
     sfail (SessionError (Disconnected reason description)))"

definition handle_kexinit :: "rekey option \<Rightarrow> bytes \<Rightarrow> (session_inner, unit) sr" where
  "handle_kexinit idle data =
     sbind (smodify (\<lambda>s. s\<lparr>renegotiating := True\<rparr>)) (\<lambda>_.
     case idle of
       Some rekey \<Rightarrow>
         sbind (rekey (Some data)) (\<lambda>_. smodify (\<lambda>s. s\<lparr>renegotiating := False\<rparr>))
     | None \<Rightarrow>
         smodify (\<lambda>s. case renegotiate_msg s of
             None \<Rightarrow> s\<lparr>renegotiate_msg := Some data\<rparr>
           | Some _ \<Rightarrow> s))"

fun handle_msg :: "rekey option \<Rightarrow> message \<Rightarrow> (session_inner, unit) sr" where
  "handle_msg idle (Debug always_display text language) = sreturn ()"
| "handle_msg idle (ExtInfo extensions) = handle_ext_info extensions"
| "handle_msg idle (Ignore data) = sreturn ()"
| "handle_msg idle (ServiceAccept service) = send_unimplemented"
| "handle_msg idle (Disconnect reason description language) = handle_disconnect reason description"
| "handle_msg idle (Unimplemented seq) = sreturn ()"
| "handle_msg idle (AuthenticationBanner text language) = sreturn ()"
| "handle_msg idle (Unrecognized code data) = sbind (sget renegotiating) (\<lambda>busy.
     if code = SSH_MSG_KEXINIT \<and> \<not> busy then handle_kexinit idle data else send_unimplemented)"
| "handle_msg idle (AuthenticationFailure methods partial) = send_unimplemented"
| "handle_msg idle AuthenticationSuccess = send_unimplemented"
| "handle_msg idle (ChannelOpenConfirmation r sc w m) = send_unimplemented"
| "handle_msg idle (ChannelOpenFailureMsg r c d l) = send_unimplemented"
| "handle_msg idle (ChannelSuccess r) = send_unimplemented"
| "handle_msg idle (ChannelFailureMsg r) = send_unimplemented"
| "handle_msg idle (ChannelData r data) = handle_channel_data r data False"
| "handle_msg idle (Ping data) = send_pong data"
| "handle_msg idle (Pong data) = sreturn ()"
| "handle_msg idle (ChannelExtendedData r data_type data) =
     (if data_type = SSH_EXTENDED_DATA_STDERR then handle_channel_data r data True
      else send_unimplemented)"
| "handle_msg idle (ChannelWindowAdjust r count) = handle_channel_window_adjust r count"
| "handle_msg idle (ChannelFlowControl r want_reply on) = handle_channel_flow_control r want_reply on"
| "handle_msg idle (ChannelExitStatus r want_reply st) = handle_channel_exit_status r want_reply st"
| "handle_msg idle (ChannelExitSignal r want_reply signal core_dumped text language) =
     handle_channel_exit_signal r want_reply signal core_dumped text language"
| "handle_msg idle (ChannelClose r) = handle_channel_close r"
| "handle_msg idle (ChannelEof r) = handle_channel_eof r"
| "handle_msg idle (ChannelUnknownRequest r type want_reply) =
     handle_channel_unknown_request r want_reply type"
| "handle_msg idle (GlobalRequestKeepAliveOpenSSH want_reply) =
     handle_global_request_keep_alive_openssh want_reply"
| "handle_msg idle (GlobalRequestHostKeysOpenSSH want_reply host_keys) =
     handle_global_request_hosts_key_openssh want_reply host_keys"
| "handle_msg idle (GlobalUnknownRequest want_reply type) =
     handle_global_unknown_request want_reply type"
| "handle_msg idle (ChannelOpenForwardedTcpIp sc w m ca cp oa op) =
     handle_channel_open_forwarded_tcp_ip sc w m ca cp oa op"
| "handle_msg idle (ChannelOpenAgentConnect sc w m) = handle_channel_open_agent_connect sc w m"
| "handle_msg idle (ChannelOpenUnknown sc type) = handle_channel_open_unknown type sc"
| "handle_msg idle RequestSuccess = sreturn ()"
| "handle_msg idle RequestFailureMsg = sreturn ()"
| "handle_msg idle (ChannelOpenX11 sc w m oa op) = handle_channel_open_x11 sc w m oa op"
| "handle_msg idle (ChannelOpenForwardedStreamLocal sc w m path reserved) =
     handle_channel_open_forwarded_stream_local sc w m path reserved"

section \<open>Waiting for an answer\<close>

text \<open>
  \<open>match_msg\<close> and \<open>match_this_msg\<close>: read packets, hand each message to \<open>f\<close>, and let
  \<open>handle_msg\<close> deal with those \<open>f\<close> does not want. Each round takes one packet off the
  transport, so the number of packets, and one more round to find it empty, is enough fuel
  (\<open>match_fuel_enough\<close>); without fuel the loop would not have returned, a \<open>Panic\<close> here.
\<close>

definition recv_message :: "(session_inner, message) sr" where
  "recv_message = sbind (on_socket recv_packet) (\<lambda>p. slift (Message_parse (payload p)))"

primrec match_fuel ::
    "nat \<Rightarrow> (message \<Rightarrow> (session_inner, 'a res option) sr) \<Rightarrow> (session_inner, 'a) sr" where
  "match_fuel 0 f = spanic"
| "match_fuel (Suc n) f = sbind recv_message (\<lambda>msg. sbind (f msg) (\<lambda>r.
     case r of
       Some x \<Rightarrow> slift x
     | None \<Rightarrow> sbind (handle_msg None msg) (\<lambda>_. match_fuel n f)))"

definition match_this_msg ::
    "(message \<Rightarrow> (session_inner, 'a res option) sr) \<Rightarrow> (session_inner, 'a) sr" where
  "match_this_msg f s = match_fuel (Suc (length (rx (socket s)))) f s"

definition match_msg :: "(message \<Rightarrow> 'a res option) \<Rightarrow> (session_inner, 'a) sr" where
  "match_msg f = match_this_msg (\<lambda>msg. sreturn (f msg))"

section \<open>Channel requests\<close>

definition channel_response :: "identity_pair \<Rightarrow> message \<Rightarrow> unit res option" where
  "channel_response p msg =
     (case msg of
        ChannelClose r \<Rightarrow>
          if r = pair_client p then Some (Err (SessionError UnexpectedChannelClosed)) else None
      | ChannelSuccess r \<Rightarrow>
          Some (if r \<noteq> pair_client p
                then Err (SessionError (UnexpectedMessage ''Unexpected recipient channel''))
                else Ok ())
      | ChannelFailureMsg r \<Rightarrow>
          Some (if r \<noteq> pair_client p
                then Err (SessionError (UnexpectedMessage ''Unexpected recipient channel''))
                else Err (SessionError ChannelFailure))
      | _ \<Rightarrow> None)"

definition wait_for_channel_response :: "bool \<Rightarrow> identity_pair \<Rightarrow> (session_inner, unit) sr" where
  "wait_for_channel_response want_reply p =
     (if want_reply then match_msg (channel_response p) else sreturn ())"

text \<open>A \<open>CHANNEL_REQUEST\<close> and the wait for its answer.\<close>

definition channel_request :: "identity_pair \<Rightarrow> bytes \<Rightarrow> bool \<Rightarrow> field list \<Rightarrow> (session_inner, unit) sr" where
  "channel_request p type want_reply args =
     sbind (send_fields ([FU8 SSH_MSG_CHANNEL_REQUEST, FU32 (pair_server p), FOne type,
        FU8 (u8_of_bool want_reply)] @ args)) (\<lambda>_.
     wait_for_channel_response want_reply p)"

definition channel_request_subsystem :: "identity_pair \<Rightarrow> bool \<Rightarrow> bytes \<Rightarrow> (session_inner, unit) sr" where
  "channel_request_subsystem p want_reply subsystem =
     channel_request p (str ''subsystem'') want_reply [FOne subsystem]"

definition channel_request_agent :: "identity_pair \<Rightarrow> bool \<Rightarrow> (session_inner, unit) sr" where
  "channel_request_agent p want_reply = channel_request p (str ''agent-req'') want_reply []"

definition channel_request_signal :: "identity_pair \<Rightarrow> bool \<Rightarrow> bytes \<Rightarrow> (session_inner, unit) sr" where
  "channel_request_signal p want_reply signal =
     channel_request p (str ''signal'') want_reply [FOne signal]"

definition channel_request_exec :: "identity_pair \<Rightarrow> bool \<Rightarrow> bytes \<Rightarrow> (session_inner, unit) sr" where
  "channel_request_exec p want_reply command =
     channel_request p (str ''exec'') want_reply [FOne command]"

definition channel_request_x11 ::
    "identity_pair \<Rightarrow> bool \<Rightarrow> bool \<Rightarrow> bytes \<Rightarrow> bytes \<Rightarrow> u32 \<Rightarrow> (session_inner, unit) sr" where
  "channel_request_x11 p want_reply single_connection protocol cookie screen =
     channel_request p (str ''x11-req'') want_reply
       [FU8 (u8_of_bool single_connection), FOne protocol, FOne cookie, FU32 screen]"

definition channel_request_env :: "identity_pair \<Rightarrow> bool \<Rightarrow> bytes \<Rightarrow> bytes \<Rightarrow> (session_inner, unit) sr" where
  "channel_request_env p want_reply name value =
     channel_request p (str ''env'') want_reply [FOne name, FOne value]"

definition channel_request_shell :: "identity_pair \<Rightarrow> bool \<Rightarrow> (session_inner, unit) sr" where
  "channel_request_shell p want_reply = channel_request p (str ''shell'') want_reply []"

definition channel_request_break :: "identity_pair \<Rightarrow> bool \<Rightarrow> u32 \<Rightarrow> (session_inner, unit) sr" where
  "channel_request_break p want_reply milliseconds =
     channel_request p (str ''break'') want_reply [FU32 milliseconds]"

text \<open>The encoded terminal modes are appended as they are, without a length in front.\<close>

definition channel_request_pty ::
    "identity_pair \<Rightarrow> bool \<Rightarrow> bytes \<Rightarrow> u32 \<Rightarrow> u32 \<Rightarrow> u32 \<Rightarrow> u32 \<Rightarrow> (tty_opcode \<times> u32) list \<Rightarrow>
     (session_inner, unit) sr" where
  "channel_request_pty p want_reply terminal columns rows width height modes =
     (let producer = fold (\<lambda>(opcode, value) b. put_u32 value (put_u8 (tty_code opcode) b)) modes [];
          producer = put_u8 (tty_code TtyOpEnd) producer
      in channel_request p (str ''pty-req'') want_reply
           [FOne terminal, FU32 columns, FU32 rows, FU32 width, FU32 height, FBytes producer])"

definition channel_request_window_change ::
    "identity_pair \<Rightarrow> u32 \<Rightarrow> u32 \<Rightarrow> u32 \<Rightarrow> u32 \<Rightarrow> (session_inner, unit) sr" where
  "channel_request_window_change p columns rows width height =
     send_fields [FU8 SSH_MSG_CHANNEL_REQUEST, FU32 (pair_server p), FOne (str ''window-change''),
       FU8 0, FU32 columns, FU32 rows, FU32 width, FU32 height]"

definition channel_eof :: "identity_pair \<Rightarrow> (session_inner, unit) sr" where
  "channel_eof p = sbind (sget (find_client (pair_client p))) (\<lambda>index.
     case index of
       None \<Rightarrow> sfail no_such_channel
     | Some i \<Rightarrow>
         sbind (send_fields [FU8 SSH_MSG_CHANNEL_EOF, FU32 (pair_server p)]) (\<lambda>_.
         update_channel i (\<lambda>c. c\<lparr>client_end := (client_end c)\<lparr>eof := True\<rparr>\<rparr>)))"

section \<open>Sending channel data\<close>

text \<open>
  The loop of \<open>channel_send\<close>. It sends chunks until the data or the window is used up. The fuel
  bounds the number of chunks; \<open>None\<close> is a loop that is still running.
\<close>

definition chunk_size :: "channel_endpoint \<Rightarrow> nat \<Rightarrow> nat \<Rightarrow> nat" where
  "chunk_size e left rest =
     min (min (min rest (MAX_PACKET_PAYLOAD_LENGTH - 1 - 4 - 4)) (unat (maximum_packet_size e))) left"

primrec send_chunks ::
    "nat \<Rightarrow> nat \<Rightarrow> u32 \<Rightarrow> bytes \<Rightarrow> nat \<Rightarrow> (session_inner, nat option) sr" where
  "send_chunks 0 i server_id data sent = sreturn None"
| "send_chunks (Suc n) i server_id data sent =
     (if sent = length data then sreturn (Some sent)
      else
        sbind (sget (\<lambda>s. server_end (channels s ! i))) (\<lambda>e.
        sbind (slift (window_left e)) (\<lambda>left.
        if left = 0 then sreturn (Some sent)
        else
          let size = chunk_size e left (length data - sent) in
          sbind (send_fields [FU8 SSH_MSG_CHANNEL_DATA, FU32 server_id,
             FOne (take size (drop sent data))]) (\<lambda>_.
          sbind (add_server_used i (int size)) (\<lambda>_.
          send_chunks n i server_id data (sent + size))))))"

definition u32_text :: "u32 \<Rightarrow> string" where
  "u32_text n = map (\<lambda>b. char_of (unat b)) (decimal (unat n))"

definition channel_not_found :: "u32 \<Rightarrow> error" where
  "channel_not_found i = InvalidOperation (''Channel('' @ u32_text i @ '') not found'')"

definition channel_send :: "nat \<Rightarrow> identity_pair \<Rightarrow> bytes \<Rightarrow> (session_inner, nat option) sr" where
  "channel_send fuel p data = sbind (sget (find_server (pair_server p))) (\<lambda>index.
     case index of
       None \<Rightarrow> sfail (channel_not_found (pair_server p))
     | Some i \<Rightarrow> send_chunks fuel i (pair_server p) data 0)"

section \<open>Opening channels\<close>

definition opening_response :: "u32 \<Rightarrow> message \<Rightarrow> (u32 \<times> u32 \<times> u32) res option" where
  "opening_response client_id msg =
     (case msg of
        ChannelOpenConfirmation r sc w m \<Rightarrow>
          Some (if r \<noteq> client_id
                then Err (SessionError (UnexpectedMessage (''Unexpected recipient channel: expected '' @
                  u32_text client_id @ '', got '' @ u32_text r)))
                else Ok (sc, w, m))
      | ChannelOpenFailureMsg r reason description language \<Rightarrow>
          Some (Err (SessionError (ChannelOpenFailure reason description)))
      | _ \<Rightarrow> None)"

definition wait_for_opening_channel :: "channel_endpoint \<Rightarrow> (session_inner, identity_pair) sr" where
  "wait_for_opening_channel e =
     sbind (match_msg (opening_response (endpoint_id e))) (\<lambda>(sc, w, m).
     sbind (sget (find_server sc)) (\<lambda>index.
     if index \<noteq> None then sfail (SessionError ChannelAlreadyOpen)
     else
       let p = IdentityPair (endpoint_id e) sc in
       sbind (push_channel p (initial_window_size e) (maximum_packet_size e) w m) (\<lambda>i.
       sbind (sget frontend_alive) (\<lambda>alive.
       if alive then sreturn p
       else sbind (drop_receiver i) (\<lambda>_. sbind upgrade_frontend (\<lambda>_. sreturn p))))))"

definition open_channel :: "bytes \<Rightarrow> u32 \<Rightarrow> u32 \<Rightarrow> field list \<Rightarrow> (session_inner, identity_pair) sr" where
  "open_channel type window packet args =
     sbind (sget next_channel_id) (\<lambda>n. sbind (slift n) (\<lambda>client_id.
     sbind (send_fields ([FU8 SSH_MSG_CHANNEL_OPEN, FOne type, FU32 client_id, FU32 window,
        FU32 packet] @ args)) (\<lambda>_.
     wait_for_opening_channel (endpoint_new client_id window packet))))"

definition channel_open_session :: "u32 \<Rightarrow> u32 \<Rightarrow> (session_inner, identity_pair) sr" where
  "channel_open_session window packet = open_channel (str ''session'') window packet []"

definition channel_open_direct_stream_local :: "u32 \<Rightarrow> u32 \<Rightarrow> bytes \<Rightarrow> (session_inner, identity_pair) sr" where
  "channel_open_direct_stream_local window packet path =
     open_channel DIRECT_STREM_LOCAL window packet [FOne path, FOne [], FU32 0]"

definition channel_open_direct_tcp_ip ::
    "u32 \<Rightarrow> u32 \<Rightarrow> socket_addr \<Rightarrow> socket_addr \<Rightarrow> (session_inner, identity_pair) sr" where
  "channel_open_direct_tcp_ip window packet target source =
     open_channel SSH_CHANNEL_TYPE_DIRECT_TCP_IP window packet
       [FOne (host target), FU32 (ucast (port target)), FOne (host source), FU32 (ucast (port source))]"

text \<open>
  When the subsystem is refused, the \<open>Channel\<close> just opened goes out of scope: its receiver is
  gone, and a \<open>ChannelClose\<close> event is queued.
\<close>

definition drop_pair :: "identity_pair \<Rightarrow> (session_inner, unit) sr" where
  "drop_pair p =
     sbind (sget (\<lambda>s. position (\<lambda>c. endpoint_id (client_end c) = pair_client p \<and>
        endpoint_id (server_end c) = pair_server p) (channels s))) (\<lambda>index.
     case index of
       None \<Rightarrow> smodify (\<lambda>s. s\<lparr>queued_closes := queued_closes s @ [p]\<rparr>)
     | Some i \<Rightarrow> drop_channel i p)"

definition on_error :: "('s, 'a) sr \<Rightarrow> ('s, unit) sr \<Rightarrow> ('s, 'a) sr" where
  "on_error m cleanup s = (case m s of (Err e, s') \<Rightarrow> (Err e, snd (cleanup s')) | r \<Rightarrow> r)"

definition channel_open_sftp :: "u32 \<Rightarrow> u32 \<Rightarrow> (session_inner, identity_pair) sr" where
  "channel_open_sftp window packet =
     sbind (channel_open_session window packet) (\<lambda>p.
     sbind (on_error (channel_request_subsystem p True (str ''sftp'')) (drop_pair p)) (\<lambda>_.
     sreturn p))"

section \<open>Remote forwarding\<close>

definition request_reply :: "(forwards \<Rightarrow> forwards) \<Rightarrow> message \<Rightarrow> (session_inner, unit res option) sr" where
  "request_reply f msg =
     (case msg of
        RequestSuccess \<Rightarrow> sbind (on_forward f) (\<lambda>_. sreturn (Some (Ok ())))
      | RequestFailureMsg \<Rightarrow> sreturn (Some (Err (SessionError RequestFailure)))
      | _ \<Rightarrow> sreturn None)"

definition global_request_cancel_stream_local_forward :: "bool \<Rightarrow> bytes \<Rightarrow> (session_inner, unit) sr" where
  "global_request_cancel_stream_local_forward want_reply path =
     sbind (send_fields [FU8 SSH_MSG_GLOBAL_REQUEST, FOne CANCEL_STREAM_LOCAL_FORWARD,
        FU8 (u8_of_bool want_reply), FOne path]) (\<lambda>_.
     if want_reply then match_this_msg (request_reply (remove_local path))
     else on_forward (remove_local path))"

definition global_request_cancel_tcp_ip_forward :: "bool \<Rightarrow> socket_addr \<Rightarrow> (session_inner, unit) sr" where
  "global_request_cancel_tcp_ip_forward want_reply addr =
     sbind (send_fields [FU8 SSH_MSG_GLOBAL_REQUEST,
        FOne SSH_GLOBAL_REQUEST_TYPE_CANCEL_TCP_IP_FORWARD, FU8 (u8_of_bool want_reply),
        FOne (host addr), FU32 (ucast (port addr))]) (\<lambda>_.
     if want_reply then match_this_msg (request_reply (remove_tcp addr))
     else on_forward (remove_tcp addr))"

text \<open>The request type the code sends is the one of a TCP forward.\<close>

definition stream_local_reply :: "bytes \<Rightarrow> u32 \<Rightarrow> u32 \<Rightarrow> message \<Rightarrow> (session_inner, unit res option) sr" where
  "stream_local_reply path window packet msg =
     (case msg of
        RequestSuccess \<Rightarrow> sbind (sget frontend_alive) (\<lambda>alive.
          if alive
          then sbind (on_forward (insert_local path (listener_new window packet)))
            (\<lambda>_. sreturn (Some (Ok ())))
          else sreturn (Some (Err (SessionError
            (UnexpectedBehaviour ''Maybe session should be shutdown'')))))
      | RequestFailureMsg \<Rightarrow> sreturn (Some (Err (SessionError RequestFailure)))
      | _ \<Rightarrow> sreturn None)"

definition global_request_stream_local_forward ::
    "bytes \<Rightarrow> u32 \<Rightarrow> u32 \<Rightarrow> (session_inner, bytes) sr" where
  "global_request_stream_local_forward path window packet =
     sbind (send_fields [FU8 SSH_MSG_GLOBAL_REQUEST, FOne SSH_GLOBAL_REQUEST_TYPE_TCP_IP_FORWARD,
        FU8 1, FOne path]) (\<lambda>_.
     sbind (match_this_msg (stream_local_reply path window packet)) (\<lambda>_. sreturn path))"

definition read_bound_port :: "bytes \<Rightarrow> u16 res" where
  "read_bound_port data = fst (sbind consume_u32 (\<lambda>p.
     case u16_of_u32 p of
       Some q \<Rightarrow> sreturn q
     | None \<Rightarrow> sfail (SessionError InvalidPort)) (consumer_new data))"

primrec tcp_forward_fuel :: "nat \<Rightarrow> socket_addr \<Rightarrow> u32 \<Rightarrow> u32 \<Rightarrow> (session_inner, socket_addr) sr" where
  "tcp_forward_fuel 0 addr window packet = spanic"
| "tcp_forward_fuel (Suc n) addr window packet = sbind (on_socket recv_packet) (\<lambda>p.
     case payload p of
       [] \<Rightarrow> spanic
     | code # rest \<Rightarrow>
         if code = SSH_MSG_REQUEST_SUCCESS
         then
           sbind (slift (read_bound_port rest)) (\<lambda>port.
           sbind upgrade_frontend (\<lambda>_.
           let addr = addr\<lparr>port := port\<rparr> in
           sbind (on_forward (insert_tcp addr (listener_new window packet))) (\<lambda>_. sreturn addr)))
         else if code = SSH_MSG_REQUEST_FAILURE then sfail (SessionError RequestFailure)
         else
           sbind (slift (Message_parse (payload p))) (\<lambda>msg.
           sbind (handle_msg None msg) (\<lambda>_. tcp_forward_fuel n addr window packet)))"

definition global_request_tcp_ip_forward ::
    "socket_addr \<Rightarrow> u32 \<Rightarrow> u32 \<Rightarrow> (session_inner, socket_addr) sr" where
  "global_request_tcp_ip_forward addr window packet =
     sbind (send_fields [FU8 SSH_MSG_GLOBAL_REQUEST, FOne SSH_GLOBAL_REQUEST_TYPE_TCP_IP_FORWARD,
        FU8 1, FOne (host addr), FU32 (ucast (port addr))]) (\<lambda>_.
     sbind (sget (\<lambda>s. Suc (length (rx (socket s))))) (\<lambda>fuel.
     tcp_forward_fuel fuel addr window packet))"

section \<open>Cleaning up\<close>

definition clean_one :: "nat \<Rightarrow> (session_inner, unit) sr" where
  "clean_one i = sbind (sget (\<lambda>s. channels s ! i)) (\<lambda>c.
     if receiving (ch_sender c) then sreturn ()
     else
       sbind (if closed (client_end c) then sreturn ()
              else sbind (send_channel_close (endpoint_id (server_end c))) (\<lambda>_. close_client i)) (\<lambda>_.
       if closed (server_end c) then remove_channel i else sreturn ()))"

definition channel_clean :: "(session_inner, unit) sr" where
  "channel_clean = sbind (sget (\<lambda>s. length (channels s))) (\<lambda>n. for_each clean_one (rev [0..<n]))"

definition forward_tcp_clean :: "(session_inner, unit) sr" where
  "forward_tcp_clean = sbind (sget (\<lambda>s. map fst (filter (\<lambda>(k, l). \<not> receiving (l_sender l)) (tcp (forward s)))))
     (for_each (global_request_cancel_tcp_ip_forward True))"

definition forward_local_clean :: "(session_inner, unit) sr" where
  "forward_local_clean = sbind (sget (\<lambda>s. map fst (filter (\<lambda>(k, l). \<not> receiving (l_sender l)) (local (forward s)))))
     (for_each (global_request_cancel_stream_local_forward True))"

definition clean :: "bool \<Rightarrow> bool \<Rightarrow> bool \<Rightarrow> (session_inner, unit) sr" where
  "clean channel forward_tcp forward_local =
     sbind (if channel then channel_clean else sreturn ()) (\<lambda>_.
     sbind (if forward_tcp then forward_tcp_clean else sreturn ()) (\<lambda>_.
     if forward_local then forward_local_clean else sreturn ()))"

end
