(* ===== verification/Authentication.thy ===== *)
theory Authentication
  imports Requests
begin

text \<open>
  User authentication: the method names and results of \<open>src/session/mod.rs\<close> and the
  \<open>authenticate_*\<close> requests of \<open>src/session/backend.rs\<close>.
\<close>

section \<open>Methods and results\<close>

datatype authentication_method =
    AuthNone | PublicKey | Password | HostBased | KeyboardInteractiveMethod | GssapiWithMIC
  | GssapiKeyExchange | Gssapi | ExternalKeyExchange | UnknownMethod bytes

text \<open>\<open>From<&str>\<close> and \<open>AsRef<str>\<close>.\<close>

definition method_names :: "(bytes \<times> authentication_method) list" where
  "method_names =
     [(str ''none'', AuthNone), (str ''publickey'', PublicKey), (str ''password'', Password),
      (str ''hostbased'', HostBased), (str ''keyboard-interactive'', KeyboardInteractiveMethod),
      (str ''gssapi-with-mic'', GssapiWithMIC), (str ''gssapi-keyex'', GssapiKeyExchange),
      (str ''gssapi'', Gssapi), (str ''external-keyx'', ExternalKeyExchange)]"

definition method_from :: "bytes \<Rightarrow> authentication_method" where
  "method_from value =
     (case map_of method_names value of Some m \<Rightarrow> m | None \<Rightarrow> UnknownMethod value)"

fun method_name :: "authentication_method \<Rightarrow> bytes" where
  "method_name AuthNone = str ''none''"
| "method_name PublicKey = str ''publickey''"
| "method_name Password = str ''password''"
| "method_name HostBased = str ''hostbased''"
| "method_name KeyboardInteractiveMethod = str ''keyboard-interactive''"
| "method_name GssapiWithMIC = str ''gssapi-with-mic''"
| "method_name GssapiKeyExchange = str ''gssapi-keyex''"
| "method_name Gssapi = str ''gssapi''"
| "method_name ExternalKeyExchange = str ''external-keyx''"
| "method_name (UnknownMethod m) = m"

datatype authenticate_result =
    AuthSuccess
  | PasswordChangeRequired
  | AuthFailure "authentication_method list" bool

definition auth_success :: "authenticate_result \<Rightarrow> bool" where
  "auth_success r \<longleftrightarrow> r = AuthSuccess"

datatype interactive_method = PAM | BSD | OtherInteractive bytes

fun interactive_name :: "interactive_method \<Rightarrow> bytes" where
  "interactive_name PAM = str ''pam''"
| "interactive_name BSD = str ''bsdauth''"
| "interactive_name (OtherInteractive m) = m"

section \<open>Requesting the service\<close>

definition service_reply :: "message \<Rightarrow> unit res option" where
  "service_reply msg =
     (case msg of
        ServiceAccept service \<Rightarrow>
          Some (if service \<noteq> SSH_SERVICE_NAME_USER_AUTHENTICATION_SERVICE
                then Err (SessionError (UnexpectedService
                  SSH_SERVICE_NAME_USER_AUTHENTICATION_SERVICE service))
                else Ok ())
      | _ \<Rightarrow> None)"

definition request_authentication :: "(session_inner, unit) sr" where
  "request_authentication =
     sbind (send_fields [FU8 SSH_MSG_SERVICE_REQUEST, FOne SSH_SERVICE_NAME_USER_AUTHENTICATION_SERVICE])
       (\<lambda>_. match_msg service_reply)"

section \<open>Answers to an authentication request\<close>

text \<open>
  \<open>AuthenticationSuccess\<close> sets \<open>socket.authenticated\<close>, which turns delayed compression on.
\<close>

definition set_authenticated :: "(session_inner, unit) sr" where
  "set_authenticated = on_socket (smodify (\<lambda>t. t\<lparr>authenticated := True\<rparr>))"

definition auth_reply :: "message \<Rightarrow> (session_inner, authenticate_result res option) sr" where
  "auth_reply msg =
     (case msg of
        AuthenticationSuccess \<Rightarrow> sbind set_authenticated (\<lambda>_. sreturn (Some (Ok AuthSuccess)))
      | AuthenticationFailure methods partial \<Rightarrow>
          sreturn (Some (Ok (AuthFailure (map method_from methods) partial)))
      | _ \<Rightarrow> sreturn None)"

definition ssh_connection :: bytes where
  "ssh_connection = str ''ssh-connection''"

definition authenticate_none :: "bytes \<Rightarrow> (session_inner, authenticate_result) sr" where
  "authenticate_none username =
     sbind (send_fields [FU8 SSH_MSG_USERAUTH_REQUEST, FOne username, FOne ssh_connection,
        FOne (str ''none'')]) (\<lambda>_. match_this_msg auth_reply)"

definition password_reply :: "message \<Rightarrow> (session_inner, authenticate_result res option) sr" where
  "password_reply msg =
     (case msg of
        Unrecognized code data \<Rightarrow>
          sreturn (if code = SSH_MSG_USERAUTH_PASSWD_CHANGEREQ
                   then Some (Ok PasswordChangeRequired) else None)
      | _ \<Rightarrow> auth_reply msg)"

definition authenticate_password :: "bytes \<Rightarrow> bytes \<Rightarrow> (session_inner, authenticate_result) sr" where
  "authenticate_password username password =
     sbind (send_fields [FU8 SSH_MSG_USERAUTH_REQUEST, FOne username, FOne ssh_connection,
        FOne (str ''password''), FU8 0, FOne password]) (\<lambda>_. match_this_msg password_reply)"

section \<open>Public keys\<close>

definition CERT_SUFFIX :: bytes where
  "CERT_SUFFIX = str ''-cert-v01@openssh.com''"

definition rsa_names :: "bytes list" where
  "rsa_names = [str ''rsa-sha2-512'', str ''rsa-sha2-256'', str ''ssh-rsa'']"

definition known_server_algorithms :: "session_inner \<Rightarrow> bytes list" where
  "known_server_algorithms s =
     (if \<not> disable_compat (config s) \<and> specify_server_sign_algorithm s
      then [str ''rsa-sha2-256'', str ''rsa-sha2-512'']
      else server_algorithms s)"

definition choose_signer :: "bytes \<Rightarrow> session_inner \<Rightarrow> signer option" where
  "choose_signer type s =
     (let table = signers (config s) in
      if type = str ''ssh-rsa''
      then (case find (\<lambda>(k, v). k \<in> set rsa_names \<and> k \<in> set (known_server_algorithms s)) table of
          Some (k, v) \<Rightarrow> Some v
        | None \<Rightarrow> map_of table (hd rsa_names))
      else map_of table type)"

text \<open>The probe without signature, the bytes that get signed, and the signed request.\<close>

definition pk_probe :: "bytes \<Rightarrow> bytes \<Rightarrow> bytes \<Rightarrow> field list" where
  "pk_probe username method public_blob =
     [FU8 SSH_MSG_USERAUTH_REQUEST, FOne username, FOne ssh_connection, FOne (str ''publickey''),
      FU8 0, FOne method, FOne public_blob]"

definition pk_signed_data :: "bytes \<Rightarrow> bytes \<Rightarrow> bytes \<Rightarrow> bytes \<Rightarrow> bytes" where
  "pk_signed_data sid username method public_blob =
     make_buffer_without_header
       [FOne sid, FU8 SSH_MSG_USERAUTH_REQUEST, FOne username, FOne ssh_connection,
        FOne (str ''publickey''), FU8 1, FOne method, FOne public_blob]"

definition pk_request :: "bytes \<Rightarrow> bytes \<Rightarrow> bytes \<Rightarrow> bytes \<Rightarrow> bytes \<Rightarrow> field list" where
  "pk_request username method public_blob type signature =
     (let len = 4 + length type + 4 + length signature in
      [FU8 SSH_MSG_USERAUTH_REQUEST, FOne username, FOne ssh_connection, FOne (str ''publickey''),
       FU8 1, FOne method, FOne public_blob, FU32 (as_u32 len), FOne type, FOne signature])"

definition probe_reply :: "message \<Rightarrow> (session_inner, authenticate_result option res option) sr" where
  "probe_reply msg =
     (case msg of
        Unrecognized code data \<Rightarrow>
          sreturn (if code = SSH_MSG_USERAUTH_PK_OK then Some (Ok None) else None)
      | _ \<Rightarrow> sbind (auth_reply msg) (\<lambda>r. sreturn (map_option (res_map Some) r)))"

definition authenticate_public_key ::
    "bytes \<Rightarrow> bytes \<Rightarrow> bool \<Rightarrow> bytes \<Rightarrow> bytes \<Rightarrow> (session_inner, authenticate_result) sr" where
  "authenticate_public_key username type is_certificate public_blob private_blob =
     sbind (sget (choose_signer type)) (\<lambda>sg.
     case sg of
       None \<Rightarrow> sfail (SessionError (UnsupportedKeyType type))
     | Some signer \<Rightarrow>
         let name = signer_name signer;
             method = (if is_certificate then name @ CERT_SUFFIX else name) in
         sbind (send_fields (pk_probe username method public_blob)) (\<lambda>_.
         sbind (match_this_msg probe_reply) (\<lambda>answer.
         case answer of
           Some r \<Rightarrow> sreturn r
         | None \<Rightarrow>
             sbind (sget session_id) (\<lambda>sid.
             sbind (slift (signer_initialize signer private_blob)) (\<lambda>_.
             sbind (slift (signer_sign signer private_blob
                (pk_signed_data sid username method public_blob))) (\<lambda>signature.
             sbind (send_fields (pk_request username method public_blob name signature)) (\<lambda>_.
             match_this_msg auth_reply)))))))"

section \<open>Keyboard-interactive\<close>

record prompt =
  content :: bytes
  echo :: bool

definition parse_prompt :: "(consumer, prompt) sr" where
  "parse_prompt =
     sbind consume_str (\<lambda>c. sbind consume_u8 (\<lambda>e. sreturn \<lparr>content = c, echo = e \<noteq> 0\<rparr>))"

text \<open>The \<open>INFO_REQUEST\<close> after its message code: name, instruction, language, prompts.\<close>

definition parse_info_request :: "bytes \<Rightarrow> (bytes \<times> bytes \<times> u32 \<times> prompt list) res" where
  "parse_info_request data =
     fst (sbind consume_str (\<lambda>name.
          sbind consume_str (\<lambda>instruction.
          sbind consume_one (\<lambda>lang.
          sbind consume_u32 (\<lambda>size.
          sbind (times (unat size) parse_prompt) (\<lambda>prompts.
          sreturn (name, instruction, size, prompts)))))) (consumer_new data))"

text \<open>\<open>KeyboardInteractive::interactive\<close>: the application's next round of answers.\<close>

type_synonym interactive = "bytes \<Rightarrow> bytes \<Rightarrow> prompt list \<Rightarrow> bytes list res"

primrec interactive_fuel :: "nat \<Rightarrow> interactive list \<Rightarrow> (session_inner, authenticate_result) sr" where
  "interactive_fuel 0 script = spanic"
| "interactive_fuel (Suc n) script = sbind recv_message (\<lambda>msg. sbind (auth_reply msg) (\<lambda>r.
     case r of
       Some x \<Rightarrow> slift x
     | None \<Rightarrow>
         (case msg of
            Unrecognized code data \<Rightarrow>
              if code = SSH_MSG_USERAUTH_INFO_REQUEST
              then
                sbind (slift (parse_info_request (tl data))) (\<lambda>(name, instruction, size, prompts).
                sbind (slift (case script of
                   [] \<Rightarrow> Err (InvalidOperation ''Invalid response'')
                 | answer # _ \<Rightarrow> answer name instruction prompts)) (\<lambda>responses.
                if length responses \<noteq> length prompts
                then sfail (InvalidOperation ''Invalid response'')
                else
                  sbind (send_fields (FU8 SSH_MSG_USERAUTH_INFO_RESPONSE # FU32 size #
                     map FOne responses)) (\<lambda>_.
                  interactive_fuel n (tl script))))
              else sbind (handle_msg None msg) (\<lambda>_. interactive_fuel n script)
          | _ \<Rightarrow> sbind (handle_msg None msg) (\<lambda>_. interactive_fuel n script))))"

definition authenticate_keyboard_interactive ::
    "bytes \<Rightarrow> interactive list \<Rightarrow> interactive_method list \<Rightarrow> (session_inner, authenticate_result) sr" where
  "authenticate_keyboard_interactive username script methods =
     sbind (send_fields [FU8 SSH_MSG_USERAUTH_REQUEST, FOne username, FOne ssh_connection,
        FOne (str ''keyboard-interactive''), FOne [],
        FOne (join [comma] (map interactive_name methods))]) (\<lambda>_.
     sbind (sget (\<lambda>s. Suc (length (rx (socket s))))) (\<lambda>fuel. interactive_fuel fuel script))"

end
