(* ===== verification/SessionLoop.thy ===== *)
theory SessionLoop
  imports Authentication
begin

text \<open>
  The events of the frontend (\<open>src/session/event.rs\<close>), \<open>handle_event\<close> and the loop \<open>exec\<close> of
  \<open>src/session/backend.rs\<close> that serves packets and events in turn.
\<close>

section \<open>Events\<close>

datatype event =
    AuthenticateNone bytes
  | AuthenticatePassword bytes bytes
  | AuthenticatePublicKey bytes bytes bool bytes bytes
  | AuthenticateKeyboardInteractive bytes "interactive list" "interactive_method list"
  | RequestAuthentication
  | SendDebugMessage bool bytes
  | SendIgnoreMessage bytes
  | ChannelRequestPty identity_pair bytes bool u32 u32 u32 u32 "(tty_opcode \<times> u32) list"
  | ChannelRequestBreak identity_pair bool u32
  | ChannelRequestShell identity_pair bool
  | ChannelRequestExec identity_pair bool bytes
  | ChannelRequestAgent identity_pair bool
  | ChannelRequestWindowChange identity_pair u32 u32 u32 u32
  | ChannelRequestSignal identity_pair bool bytes
  | ChannelRequestEnv identity_pair bool bytes bytes
  | ChannelOpenSFTP u32 u32
  | ChannelOpenSession u32 u32
  | ChannelOpenDirectTcpIp socket_addr socket_addr u32 u32
  | ChannelOpenDirectStreamLocal u32 u32 bytes
  | ChannelRequestX11 identity_pair bool bool bytes bytes u32
  | ChannelSendData identity_pair bytes
  | ChannelCloseEvent identity_pair
  | ChannelEofEvent identity_pair
  | Clean bool bool bool
  | GlobalRequestTcpIPForward socket_addr u32 u32
  | GlobalRequestCancelTcpIpForward bool socket_addr
  | GlobalRequestStreamLocalForward bytes u32 u32
  | GlobalRequestCancelStreamLocalForward bool bytes
  | Renegotiate
  | DisconnectEvent u32 bytes

text \<open>What goes back to the frontend.\<close>

datatype reply =
    ReplyAuth "authenticate_result res"
  | ReplyUnit "unit res"
  | ReplyChannel "identity_pair res"
  | ReplySize "nat res"
  | ReplyTcp "socket_addr res"
  | ReplyLocal "bytes res"

definition send_debug_message :: "bool \<Rightarrow> bytes \<Rightarrow> (session_inner, unit) sr" where
  "send_debug_message always_display text =
     send_fields [FU8 SSH_MSG_DEBUG, FU8 (u8_of_bool always_display), FOne text, FOne []]"

definition send_ignore_message :: "bytes \<Rightarrow> (session_inner, unit) sr" where
  "send_ignore_message data = send_fields [FU8 SSH_MSG_IGNORE, FOne data]"

definition disconnect :: "u32 \<Rightarrow> bytes \<Rightarrow> (session_inner, unit) sr" where
  "disconnect reason description =
     send_fields [FU8 SSH_MSG_DISCONNECT, FU32 reason, FOne description, FOne []]"

text \<open>
  \<open>let result = self.op().await; back.send_tracing(result)\<close>: an error is the frontend's, and
  the session goes on; only a panic ends the task.
\<close>

definition answer :: "('a res \<Rightarrow> reply) \<Rightarrow> (session_inner, 'a) sr \<Rightarrow> (session_inner, reply) sr" where
  "answer wrap m s = (case m s of (Panic, s') \<Rightarrow> (Panic, s') | (r, s') \<Rightarrow> (Ok (wrap r), s'))"

text \<open>
  \<open>channel_send\<close> with fuel for one byte in each chunk. A loop still running after that never
  ends (\<open>send_stuck\<close>): like a panic, the session task does not come back from it.
\<close>

definition channel_send_event :: "identity_pair \<Rightarrow> bytes \<Rightarrow> (session_inner, nat) sr" where
  "channel_send_event p data = sbind (channel_send (Suc (length data)) p data) (\<lambda>r.
     case r of Some n \<Rightarrow> sreturn n | None \<Rightarrow> spanic)"

definition renegotiate_event :: "rekey \<Rightarrow> (session_inner, unit) sr" where
  "renegotiate_event rekey s =
     (case rekey None (s\<lparr>renegotiating := True\<rparr>) of (r, s') \<Rightarrow> (r, s'\<lparr>renegotiating := False\<rparr>))"

fun handle_event :: "rekey \<Rightarrow> event \<Rightarrow> (session_inner, reply) sr" where
  "handle_event rk (AuthenticateNone u) = answer ReplyAuth (authenticate_none u)"
| "handle_event rk (AuthenticatePassword u p) = answer ReplyAuth (authenticate_password u p)"
| "handle_event rk (AuthenticatePublicKey u m cert pub priv) =
     answer ReplyAuth (authenticate_public_key u m cert pub priv)"
| "handle_event rk (AuthenticateKeyboardInteractive u i ms) =
     answer ReplyAuth (authenticate_keyboard_interactive u i ms)"
| "handle_event rk RequestAuthentication = answer ReplyUnit request_authentication"
| "handle_event rk (SendDebugMessage d m) = answer ReplyUnit (send_debug_message d m)"
| "handle_event rk (SendIgnoreMessage d) = answer ReplyUnit (send_ignore_message d)"
| "handle_event rk (ChannelRequestPty p term w c r wi he modes) =
     answer ReplyUnit (channel_request_pty p w term c r wi he modes)"
| "handle_event rk (ChannelRequestBreak p w ms) = answer ReplyUnit (channel_request_break p w ms)"
| "handle_event rk (ChannelRequestShell p w) = answer ReplyUnit (channel_request_shell p w)"
| "handle_event rk (ChannelRequestExec p w c) = answer ReplyUnit (channel_request_exec p w c)"
| "handle_event rk (ChannelRequestAgent p w) = answer ReplyUnit (channel_request_agent p w)"
| "handle_event rk (ChannelRequestWindowChange p c r wi he) =
     answer ReplyUnit (channel_request_window_change p c r wi he)"
| "handle_event rk (ChannelRequestSignal p w sg) = answer ReplyUnit (channel_request_signal p w sg)"
| "handle_event rk (ChannelRequestEnv p w n v) = answer ReplyUnit (channel_request_env p w n v)"
| "handle_event rk (ChannelOpenSFTP w m) = answer ReplyChannel (channel_open_sftp w m)"
| "handle_event rk (ChannelOpenSession w m) = answer ReplyChannel (channel_open_session w m)"
| "handle_event rk (ChannelOpenDirectTcpIp t so w m) =
     answer ReplyChannel (channel_open_direct_tcp_ip w m t so)"
| "handle_event rk (ChannelOpenDirectStreamLocal w m path) =
     answer ReplyChannel (channel_open_direct_stream_local w m path)"
| "handle_event rk (ChannelRequestX11 p w single pr cookie screen) =
     answer ReplyUnit (channel_request_x11 p w single pr cookie screen)"
| "handle_event rk (ChannelSendData p d) = answer ReplySize (channel_send_event p d)"
| "handle_event rk (ChannelCloseEvent p) = answer ReplyUnit (channel_close p)"
| "handle_event rk (ChannelEofEvent p) = answer ReplyUnit (channel_eof p)"
| "handle_event rk (Clean c t l) = answer ReplyUnit (clean c t l)"
| "handle_event rk (GlobalRequestTcpIPForward a w m) =
     answer ReplyTcp (global_request_tcp_ip_forward a w m)"
| "handle_event rk (GlobalRequestCancelTcpIpForward w a) =
     answer ReplyUnit (global_request_cancel_tcp_ip_forward w a)"
| "handle_event rk (GlobalRequestStreamLocalForward path w m) =
     answer ReplyLocal (global_request_stream_local_forward path w m)"
| "handle_event rk (GlobalRequestCancelStreamLocalForward w path) =
     answer ReplyUnit (global_request_cancel_stream_local_forward w path)"
| "handle_event rk Renegotiate = answer ReplyUnit (renegotiate_event rk)"
| "handle_event rk (DisconnectEvent r d) = answer ReplyUnit (disconnect r d)"

section \<open>The loop\<close>

text \<open>
  Which branch of the \<open>select!\<close> a round takes: a packet of the server, an event, or the event
  queue closed.
\<close>

datatype turn = TurnPacket | TurnEvent event | TurnClosed

definition take_renegotiation :: "rekey \<Rightarrow> (session_inner, unit) sr" where
  "take_renegotiation rk = sbind (sget renegotiate_msg) (\<lambda>m.
     case m of
       None \<Rightarrow> sreturn ()
     | Some data \<Rightarrow>
         sbind (smodify (\<lambda>s. s\<lparr>renegotiate_msg := None\<rparr>)) (\<lambda>_.
         sbind (rk (Some data)) (\<lambda>_. smodify (\<lambda>s. s\<lparr>renegotiating := False\<rparr>))))"

text \<open>The result tells whether the loop goes on.\<close>

fun exec_turn :: "rekey \<Rightarrow> turn \<Rightarrow> (session_inner, bool) sr" where
  "exec_turn rk TurnPacket =
     sbind recv_message (\<lambda>msg. sbind (handle_msg (Some rk) msg) (\<lambda>_.
     sbind (take_renegotiation rk) (\<lambda>_. sreturn True)))"
| "exec_turn rk (TurnEvent ev) =
     sbind (handle_event rk ev) (\<lambda>_. sbind (take_renegotiation rk) (\<lambda>_. sreturn True))"
| "exec_turn rk TurnClosed = sreturn False"

primrec exec :: "rekey \<Rightarrow> turn list \<Rightarrow> (session_inner, unit) sr" where
  "exec rk [] = sreturn ()"
| "exec rk (t # ts) = sbind (exec_turn rk t) (\<lambda>more. if more then exec rk ts else sreturn ())"

end
