(* ===== verification/SessionFacts.thy ===== *)
theory SessionFacts
  imports SessionLoop
begin

text \<open>
  The library of facts about the session: which parts of the state an operation leaves alone,
  the window invariant of every channel, and panic freedom.
\<close>

section \<open>Sending never panics\<close>

lemma make_buffer_not_Nil [simp]: "make_buffer_without_header (FU8 c # fs) \<noteq> []"
  by (simp add: make_buffer_without_header_eq)

lemma send_payload_no_panic: "d \<noteq> [] \<Longrightarrow> safe (\<lambda>_. True) (send_payload d)"
  by (auto simp: safe_def send_payload_def split: list.split option.split)

lemma safe_send_fields [safe_rules]:
  "(\<And>s t. P s \<Longrightarrow> P (s\<lparr>socket := t\<rparr>)) \<Longrightarrow> safe P (send_fields (FU8 c # fs))"
  unfolding send_fields_def by (intro safe_rules send_payload_no_panic) simp_all

lemma preserves_send_fields [preserves_rules]:
  "(\<And>s t. P s \<Longrightarrow> P (s\<lparr>socket := t\<rparr>)) \<Longrightarrow> preserves P (send_fields fs)"
  unfolding send_fields_def by (intro preserves_rules) simp

lemma send_fields_run:
  obtains r t where "send_fields fs s = (r, s\<lparr>socket := t\<rparr>)"
  by (cases "send_payload (make_buffer_without_header fs) (socket s)") (auto simp: send_fields_def)

section \<open>What the handlers leave alone\<close>

text \<open>
  No handler reads the transport or marks the session authenticated; outside a re-exchange the
  session id, the configuration and the frontend are fixed.
\<close>

definition fixed_part :: "session_inner \<Rightarrow> _" where
  "fixed_part s = (rx (socket s), authenticated (socket s), strict (socket s), session_id s, config s,
     specify_server_sign_algorithm s, frontend_alive s)"

lemma send_payload_fixed:
  "keeps (\<lambda>t. (rx t, authenticated t, strict t, server t)) (send_payload d)"
  by (auto simp: keeps_def send_payload_def bump_client_def strict_def split: list.split option.split)

lemma keeps_send_fields [keeps_rules]: "keeps fixed_part (send_fields fs)"
  unfolding keeps_def send_fields_def
proof
  fix s :: session_inner
  obtain r t where t: "send_payload (make_buffer_without_header fs) (socket s) = (r, t)"
    by (cases "send_payload (make_buffer_without_header fs) (socket s)")
  then show "fixed_part (snd (on_socket (send_payload (make_buffer_without_header fs)) s)) = fixed_part s"
    using keepsD [OF send_payload_fixed t] by (simp add: fixed_part_def)
qed

lemma keeps_update_channel [keeps_rules]:
  "keeps fixed_part (update_channel i f)" "keeps fixed_part (remove_channel i)"
  "keeps fixed_part (deliver i m)" "keeps fixed_part (drop_receiver i)"
  "keeps fixed_part (drop_channel i p)" "keeps fixed_part (ask_notifier c)"
  "keeps fixed_part (add_client_used i n)" "keeps fixed_part (add_server_used i n)"
  "keeps fixed_part (close_client i)"
  by (auto simp: keeps_def update_channel_def remove_channel_def deliver_def drop_receiver_def
      drop_channel_def ask_notifier_def add_client_used_def add_server_used_def close_client_def
      fixed_part_def sr_defs sbind_def Let_def split: prod.split)

lemma keeps_on_forward [keeps_rules]: "keeps fixed_part (on_forward f)"
  by (rule keeps_smodify) (simp add: fixed_part_def)

lemmas small_handler_defs =
  send_channel_window_adjust_def send_channel_close_def send_pong_def send_unimplemented_def
  channel_close_def handle_channel_close_def handle_channel_eof_def handle_channel_flow_control_def
  handle_channel_exit_status_def handle_channel_exit_signal_def handle_channel_unknown_request_def
  handle_global_request_keep_alive_openssh_def handle_global_request_hosts_key_openssh_def
  handle_global_unknown_request_def refuse_open_def handle_channel_open_unknown_def
  handle_channel_open_agent_connect_def handle_channel_open_x11_def verify_forward_def
  open_for_notifier_def abandon_def handle_channel_open_forwarded_tcp_ip_def
  handle_channel_open_forwarded_stream_local_def handle_disconnect_def

lemmas plain_handler_defs = small_handler_defs confirm_channel_def upgrade_frontend_def

lemmas handler_defs = plain_handler_defs
  replenish_def handle_channel_data_def handle_channel_window_adjust_def push_channel_def
  handle_kexinit_def

lemma keeps_ext_info [keeps_rules]: "keeps fixed_part (handle_ext_info x)"
  unfolding handle_ext_info_def Let_def by (intro keeps_rules) (simp_all add: fixed_part_def)

lemma keeps_handle_msg: "keeps fixed_part (handle_msg None m)"
  by (cases m) (auto simp: handler_defs intro!: keeps_rules simp: fixed_part_def split: option.split)

section \<open>The waiting loops return\<close>

abbreviation pending :: "session_inner \<Rightarrow> nat" where
  "pending s \<equiv> length (rx (socket s))"

lemma recv_packet_takes: "recv_packet t = (Ok p, t') \<Longrightarrow> length (rx t) = Suc (length (rx t'))"
  by (auto simp: recv_packet_def bump_server_def split: list.splits res.splits)

lemma recv_message_takes:
  assumes "recv_message s = (Ok m, s')"
  shows "pending s = Suc (pending s')"
proof -
  from assms obtain p u where u: "on_socket recv_packet s = (Ok p, u)"
    "slift (Message_parse (payload p)) u = (Ok m, s')"
    unfolding recv_message_def sbind_Ok_iff by blast
  from u(1) obtain t where t: "recv_packet (socket s) = (Ok p, t)" "u = s\<lparr>socket := t\<rparr>"
    unfolding zoom_Ok_iff by blast
  from u(2) have "s' = u" by (simp add: slift_def)
  with recv_packet_takes [OF t(1)] t(2) show ?thesis by simp
qed

lemma fixed_rx: "keeps fixed_part m \<Longrightarrow> keeps (\<lambda>s. rx (socket s)) m"
  by (simp add: keeps_def fixed_part_def)

lemma match_fuel_enough:
  assumes f: "\<And>m. keeps (\<lambda>s. rx (socket s)) (f m)"
  shows "pending s < n \<Longrightarrow> pending s < k \<Longrightarrow> match_fuel n f s = match_fuel k f s"
proof (induction n arbitrary: s k)
  case (Suc n)
  then obtain k' where k: "k = Suc k'" by (cases k) simp_all
  have step: "match_fuel n f t = match_fuel k' f t" if "pending s = Suc (pending t)" for t
    using Suc.IH [of t k'] Suc.prems that k by simp
  obtain r t where rt: "recv_message s = (r, t)" by (cases "recv_message s")
  show ?case
  proof (cases r)
    case (Ok m)
    obtain x u where xu: "f m t = (x, u)" by (cases "f m t")
    have pu: "pending s = Suc (pending u)"
      using recv_message_takes [of s m t] rt Ok keepsD [OF f xu] by simp
    show ?thesis
    proof (cases "x = Ok None")
      case True
      obtain y v where yv: "handle_msg None m u = (y, v)" by (cases "handle_msg None m u")
      have "pending s = Suc (pending v)"
        using pu keepsD [OF fixed_rx [OF keeps_handle_msg] yv] by simp
      then show ?thesis
        using rt Ok xu True yv step k by (cases y) simp_all
    qed (use rt Ok xu k in \<open>cases x; auto split: option.split\<close>)
  qed (use rt k in simp_all)
qed simp

lemma match_this_msg_unfold:
  assumes f: "\<And>m. keeps (\<lambda>s. rx (socket s)) (f m)"
  shows "match_this_msg f s = sbind recv_message (\<lambda>msg. sbind (f msg) (\<lambda>r.
     case r of Some x \<Rightarrow> slift x | None \<Rightarrow> sbind (handle_msg None msg) (\<lambda>_. match_this_msg f))) s"
proof -
  obtain r t where rt: "recv_message s = (r, t)" by (cases "recv_message s")
  show ?thesis
  proof (cases r)
    case (Ok m)
    obtain x u where xu: "f m t = (x, u)" by (cases "f m t")
    have pu: "pending s = Suc (pending u)"
      using recv_message_takes [of s m t] rt Ok keepsD [OF f xu] by simp
    show ?thesis
    proof (cases "x = Ok None")
      case True
      obtain y v where yv: "handle_msg None m u = (y, v)" by (cases "handle_msg None m u")
      have "pending s = Suc (pending v)"
        using pu keepsD [OF fixed_rx [OF keeps_handle_msg] yv] by simp
      then show ?thesis
        using rt Ok xu True yv
        by (cases y) (simp_all add: match_this_msg_def)
    qed (use rt Ok xu in \<open>cases x; auto simp: match_this_msg_def split: option.split\<close>)
  qed (use rt in \<open>simp_all add: match_this_msg_def\<close>)
qed

section \<open>The window invariant\<close>

definition channel_ok :: "channel_handle \<Rightarrow> bool" where
  "channel_ok c \<longleftrightarrow> 0 \<le> used_window_size (client_end c) \<and>
     endpoint_ok (client_end c) \<and> endpoint_ok (server_end c)"

definition windows_ok :: "session_inner \<Rightarrow> bool" where
  "windows_ok s \<longleftrightarrow> (\<forall>c \<in> set (channels s). channel_ok c)"

lemma windows_ok_nth: "windows_ok s \<Longrightarrow> i < length (channels s) \<Longrightarrow> channel_ok (channels s ! i)"
  by (simp add: windows_ok_def)

lemma windows_ok_list_update:
  assumes "windows_ok s" and "i < length (channels s) \<Longrightarrow> channel_ok x"
  shows "windows_ok (s\<lparr>channels := (channels s)[i := x]\<rparr>)"
proof (cases "i < length (channels s)")
  case True
  with assms show ?thesis
    using set_update_subset_insert [of "channels s" i x] by (auto simp: windows_ok_def)
qed (use assms in \<open>simp add: windows_ok_def list_update_beyond\<close>)

lemma u32_bound: "int (unat (w :: u32)) < 2 ^ 32"
proof -
  have "int (unat w) < int 4294967296" unfolding of_nat_less_iff by simp
  then show ?thesis by simp
qed

lemma windows_ok_other [simp]:
  "windows_ok (s\<lparr>socket := t\<rparr>) = windows_ok s" "windows_ok (s\<lparr>notifier := n\<rparr>) = windows_ok s"
  "windows_ok (s\<lparr>forward := f\<rparr>) = windows_ok s" "windows_ok (s\<lparr>renegotiating := b\<rparr>) = windows_ok s"
  "windows_ok (s\<lparr>renegotiate_msg := m\<rparr>) = windows_ok s"
  "windows_ok (s\<lparr>server_algorithms := l\<rparr>) = windows_ok s"
  "windows_ok (s\<lparr>server_ping_supported := b\<rparr>) = windows_ok s"
  "windows_ok (s\<lparr>queued_closes := q\<rparr>) = windows_ok s"
  by (simp_all add: windows_ok_def)

lemma windows_update_channel:
  "(\<And>c. channel_ok c \<Longrightarrow> channel_ok (f c)) \<Longrightarrow> preserves windows_ok (update_channel i f)"
  by (rule preservesI)
    (auto simp: update_channel_def smodify_def intro!: windows_ok_list_update windows_ok_nth)

lemma windows_deliver [preserves_rules]: "preserves windows_ok (deliver i m)"
  by (rule preservesI)
    (auto simp: deliver_def mpsc_send_def channel_ok_def intro!: windows_ok_list_update
      dest: windows_ok_nth)

lemma windows_simple [preserves_rules]:
  "preserves windows_ok (drop_receiver i)"
  "preserves windows_ok (close_client i)"
  "preserves windows_ok (update_channel i (\<lambda>c. c\<lparr>server_end := (server_end c)\<lparr>closed := b\<rparr>\<rparr>))"
  "preserves windows_ok (update_channel i (\<lambda>c. c\<lparr>server_end := (server_end c)\<lparr>eof := b\<rparr>\<rparr>))"
  "preserves windows_ok (update_channel i (\<lambda>c. c\<lparr>client_end := (client_end c)\<lparr>eof := b\<rparr>\<rparr>))"
  unfolding drop_receiver_def close_client_def
  by (intro windows_update_channel; simp add: channel_ok_def endpoint_ok_def)+

lemma windows_remove [preserves_rules]: "preserves windows_ok (remove_channel i)"
  using set_remove_at by (intro preservesI) (fastforce simp: remove_channel_def smodify_def windows_ok_def)

lemma windows_drop_channel [preserves_rules]: "preserves windows_ok (drop_channel i p)"
  unfolding drop_channel_def by (intro preserves_rules) simp

lemma windows_ask [preserves_rules]: "preserves windows_ok (ask_notifier c)"
  by (rule preservesI) (simp add: ask_notifier_def Let_def)

lemma windows_forward [preserves_rules]: "preserves windows_ok (on_forward f)"
  by (intro preserves_rules) simp

lemma windows_push [preserves_rules]: "preserves windows_ok (push_channel p a b c d)"
  unfolding push_channel_def
  by (intro preserves_rules) (auto simp: windows_ok_def channel_ok_def endpoint_ok_def endpoint_new_def)

lemma adjust_size_exact: "0 \<le> u \<Longrightarrow> u < 2 ^ 32 \<Longrightarrow> int (unat (adjust_size u)) = u"
  by (simp add: adjust_size_def uint_word_of_int take_bit_eq_mod)

lemma client_window_left:
  "channel_ok c \<Longrightarrow> window_left (client_end c) =
     Ok (nat (int (unat (initial_window_size (client_end c))) - used_window_size (client_end c)))"
proof -
  assume c: "channel_ok c"
  define n where "n = int (unat (initial_window_size (client_end c)))"
  have "n < 2 ^ 32" unfolding n_def by (rule u32_bound)
  with c show ?thesis
    unfolding window_left_Ok_iff channel_ok_def endpoint_ok_def n_def [symmetric] by auto
qed

lemma windows_add_client:
  assumes "windows_ok s"
    and "i < length (channels s) \<Longrightarrow> 0 \<le> used_window_size (client_end (channels s ! i)) + n \<and>
      used_window_size (client_end (channels s ! i)) + n
        \<le> int (unat (initial_window_size (client_end (channels s ! i))))"
  shows "windows_ok (snd (add_client_used i n s))"
  unfolding add_client_used_def update_channel_def smodify_def snd_conv
proof (rule windows_ok_list_update [OF assms(1)])
  assume i: "i < length (channels s)"
  show "channel_ok ((channels s ! i)\<lparr>client_end := use_window n (client_end (channels s ! i))\<rparr>)"
    using assms(2) [OF i] windows_ok_nth [OF assms(1) i]
    by (simp add: channel_ok_def endpoint_ok_def use_window_def)
qed

lemma windows_add_server:
  assumes "windows_ok s"
    and "i < length (channels s) \<Longrightarrow> - (2 ^ 63) \<le> used_window_size (server_end (channels s ! i)) + n \<and>
      used_window_size (server_end (channels s ! i)) + n
        \<le> int (unat (initial_window_size (server_end (channels s ! i))))"
  shows "windows_ok (snd (add_server_used i n s))"
  unfolding add_server_used_def update_channel_def smodify_def snd_conv
proof (rule windows_ok_list_update [OF assms(1)])
  assume i: "i < length (channels s)"
  show "channel_ok ((channels s ! i)\<lparr>server_end := use_window n (server_end (channels s ! i))\<rparr>)"
    using assms(2) [OF i] windows_ok_nth [OF assms(1) i]
    by (simp add: channel_ok_def endpoint_ok_def use_window_def)
qed

lemma windows_replenish [preserves_rules]: "preserves windows_ok (replenish i)"
proof (rule preservesI)
  fix s assume W: "windows_ok s"
  let ?e = "client_end (channels s ! i)"
  let ?size = "adjust_size (used_window_size ?e)"
  obtain r t where rt: "send_channel_window_adjust (endpoint_id (server_end (channels s ! i))) ?size s
      = (r, s\<lparr>socket := t\<rparr>)"
    unfolding send_channel_window_adjust_def by (rule send_fields_run)
  have "windows_ok (snd (add_client_used i (- int (unat ?size)) (s\<lparr>socket := t\<rparr>)))"
  proof (rule windows_add_client)
    assume i: "i < length (channels (s\<lparr>socket := t\<rparr>))"
    then have c: "0 \<le> used_window_size ?e" "used_window_size ?e < 2 ^ 32"
      using windows_ok_nth [OF W, of i] u32_bound [of "initial_window_size ?e"]
      unfolding channel_ok_def endpoint_ok_def by fastforce+
    show "0 \<le> used_window_size (client_end (channels (s\<lparr>socket := t\<rparr>) ! i)) + - int (unat ?size) \<and>
      used_window_size (client_end (channels (s\<lparr>socket := t\<rparr>) ! i)) + - int (unat ?size)
        \<le> int (unat (initial_window_size (client_end (channels (s\<lparr>socket := t\<rparr>) ! i))))"
      using adjust_size_exact [OF c] by simp
  qed (use W in simp)
  then show "windows_ok (snd (replenish i s))"
    using W rt by (cases r; cases "window_left ?e") (simp_all add: replenish_def Let_def sr_defs)
qed

lemma add_used_run [simp]:
  "sbind (add_client_used i n) f s = f () (snd (add_client_used i n s))"
  "sbind (add_server_used i n) f s = f () (snd (add_server_used i n s))"
  by (simp_all add: add_client_used_def add_server_used_def update_channel_def smodify_def sbind_def)

lemma find_client_length: "find_client c s = Some i \<Longrightarrow> i < length (channels s)"
  by (simp add: find_client_def position_length)

lemma find_server_length: "find_server c s = Some i \<Longrightarrow> i < length (channels s)"
  by (simp add: find_server_def position_length)

lemma windows_channel_data [preserves_rules]: "preserves windows_ok (handle_channel_data c data st)"
proof (rule preservesI)
  fix s assume W: "windows_ok s"
  show "windows_ok (snd (handle_channel_data c data st s))"
  proof (cases "find_client c s")
    case None
    with W show ?thesis by (simp add: handle_channel_data_def sr_defs)
  next
    case (Some i)
    let ?e = "client_end (channels s ! i)"
    have ok: "channel_ok (channels s ! i)" using windows_ok_nth [OF W find_client_length [OF Some]] .
    obtain left where left: "window_left ?e = Ok left" using client_window_left [OF ok] by blast
    show ?thesis
    proof (cases "length data > unat (maximum_packet_size ?e) \<or> length data > left")
      case True
      with W Some left show ?thesis by (auto simp: handle_channel_data_def sr_defs)
    next
      case False
      let ?t = "snd (add_client_used i (int (length data)) s)"
      let ?rest = "sbind (deliver i (if st then Stderr data else Stdout data))
        (\<lambda>sent. if sent then replenish i else sreturn ())"
      have "windows_ok ?t"
      proof (rule windows_add_client [OF W])
        show "0 \<le> used_window_size ?e + int (length data) \<and>
          used_window_size ?e + int (length data) \<le> int (unat (initial_window_size ?e))"
          using ok left False unfolding channel_ok_def window_left_Ok_iff by linarith
      qed
      moreover have "preserves windows_ok ?rest" by (intro preserves_rules)
      ultimately have "windows_ok (snd (?rest ?t))" by (simp add: preserves_def)
      with False Some left show ?thesis
        by (simp add: handle_channel_data_def slift_def)
    qed
  qed
qed

lemma windows_window_adjust [preserves_rules]:
  "preserves windows_ok (handle_channel_window_adjust c count)"
proof (rule preservesI)
  fix s assume W: "windows_ok s"
  show "windows_ok (snd (handle_channel_window_adjust c count s))"
  proof (cases "find_client c s")
    case None
    with W show ?thesis by (simp add: handle_channel_window_adjust_def sr_defs)
  next
    case (Some i)
    let ?e = "server_end (channels s ! i)"
    show ?thesis
    proof (cases "used_window_size ?e - int (unat count) < - (2 ^ 63)")
      case True
      with W Some show ?thesis by (simp add: handle_channel_window_adjust_def sr_defs)
    next
      case False
      let ?t = "snd (add_server_used i (- int (unat count)) s)"
      let ?rest = "sbind (deliver i (WindowChange count)) (\<lambda>_. sreturn ())"
      have "windows_ok ?t"
      proof (rule windows_add_server [OF W])
        show "- (2 ^ 63) \<le> used_window_size ?e + - int (unat count) \<and>
          used_window_size ?e + - int (unat count) \<le> int (unat (initial_window_size ?e))"
          using windows_ok_nth [OF W find_client_length [OF Some]] False of_nat_0_le_iff [of "unat count"]
          unfolding channel_ok_def endpoint_ok_def by linarith
      qed
      moreover have "preserves windows_ok ?rest" by (intro preserves_rules)
      ultimately have "windows_ok (snd (?rest ?t))" by (simp add: preserves_def)
      with False Some show ?thesis
        by (simp add: handle_channel_window_adjust_def)
    qed
  qed
qed

lemma windows_ext_info [preserves_rules]: "preserves windows_ok (handle_ext_info x)"
  unfolding handle_ext_info_def Let_def by (intro preserves_rules) simp_all

lemma windows_kexinit [preserves_rules]:
  "(\<And>rk d. idle = Some rk \<Longrightarrow> preserves windows_ok (rk d)) \<Longrightarrow> preserves windows_ok (handle_kexinit idle data)"
  unfolding handle_kexinit_def
  by (cases idle) (auto intro!: preserves_rules split: option.split)

lemma windows_handle_msg [preserves_rules]:
  assumes "\<And>rk d. idle = Some rk \<Longrightarrow> preserves windows_ok (rk d)"
  shows "preserves windows_ok (handle_msg idle m)"
  using assms by (cases m) (auto simp: plain_handler_defs intro!: preserves_rules split: option.split)

lemma windows_recv [preserves_rules]: "preserves windows_ok recv_message"
  unfolding recv_message_def by (intro preserves_rules) simp

lemma windows_match_fuel:
  "(\<And>m. preserves windows_ok (f m)) \<Longrightarrow> preserves windows_ok (match_fuel n f)"
  by (induction n) (auto intro!: preserves_rules)

lemma windows_match_this [preserves_rules]:
  assumes "\<And>m. preserves windows_ok (f m)"
  shows "preserves windows_ok (match_this_msg f)"
proof (rule preservesI)
  fix s assume "windows_ok s"
  then show "windows_ok (snd (match_this_msg f s))"
    using windows_match_fuel [of f "Suc (pending s)", OF assms]
    by (simp only: match_this_msg_def preserves_def)
qed

lemma windows_match [preserves_rules]: "preserves windows_ok (match_msg f)"
  unfolding match_msg_def by (intro preserves_rules)

lemma windows_request_reply [preserves_rules]:
  "preserves windows_ok (request_reply g m)" "preserves windows_ok (stream_local_reply a w q m)"
  "preserves windows_ok (auth_reply m)" "preserves windows_ok (password_reply m)"
  "preserves windows_ok (probe_reply m)"
  by (cases m; auto simp: request_reply_def stream_local_reply_def auth_reply_def password_reply_def
      probe_reply_def set_authenticated_def intro!: preserves_rules)+

lemma windows_send_chunks [preserves_rules]: "preserves windows_ok (send_chunks n i sid data sent)"
proof (induction n arbitrary: sent)
  case (Suc n)
  show ?case
  proof (rule preservesI)
    fix s assume W: "windows_ok s"
    let ?e = "server_end (channels s ! i)"
    show "windows_ok (snd (send_chunks (Suc n) i sid data sent s))"
    proof (cases "window_left ?e")
      case (Ok left)
      let ?size = "chunk_size ?e left (length data - sent)"
      obtain r t where rt: "send_fields [FU8 SSH_MSG_CHANNEL_DATA, FU32 sid,
          FOne (take ?size (drop sent data))] s = (r, s\<lparr>socket := t\<rparr>)"
        by (rule send_fields_run)
      have "windows_ok (snd (add_server_used i (int ?size) (s\<lparr>socket := t\<rparr>)))"
      proof (rule windows_add_server)
        assume "i < length (channels (s\<lparr>socket := t\<rparr>))"
        then have "channel_ok (channels s ! i)" using windows_ok_nth [OF W] by simp
        moreover have "?size \<le> left" by (simp add: chunk_size_def)
        ultimately show "- (2 ^ 63) \<le> used_window_size (server_end (channels (s\<lparr>socket := t\<rparr>) ! i)) + int ?size \<and>
          used_window_size (server_end (channels (s\<lparr>socket := t\<rparr>) ! i)) + int ?size
            \<le> int (unat (initial_window_size (server_end (channels (s\<lparr>socket := t\<rparr>) ! i))))"
          using Ok by (simp add: channel_ok_def endpoint_ok_def window_left_Ok_iff)
      qed (use W in simp)
      then show ?thesis
        using W Ok rt Suc.IH [of "sent + ?size", unfolded preserves_def]
        by (cases r) (simp_all add: Let_def sr_defs)
    qed (use W in \<open>simp_all add: sr_defs\<close>)
  qed
qed (auto intro!: preserves_rules)

lemma windows_tcp_fuel [preserves_rules]: "preserves windows_ok (tcp_forward_fuel n a w q)"
proof (induction n)
  case (Suc n)
  then show ?case by (auto intro!: preserves_rules simp: upgrade_frontend_def split: list.split)
qed (auto intro!: preserves_rules)

lemma windows_interactive_fuel [preserves_rules]: "preserves windows_ok (interactive_fuel n script)"
proof (induction n arbitrary: script)
  case (Suc n)
  then show ?case by (auto intro!: preserves_rules simp del: handle_msg.simps split: message.split)
qed (auto intro!: preserves_rules)

lemma preserves_on_error [preserves_rules]:
  "preserves P m \<Longrightarrow> preserves P c \<Longrightarrow> preserves P (on_error m c)"
  by (auto simp: preserves_def on_error_def split: prod.split res.split)

lemma windows_drop_pair [preserves_rules]: "preserves windows_ok (drop_pair p)"
  unfolding drop_pair_def by (intro preserves_rules) simp

lemmas request_defs =
  wait_for_channel_response_def channel_request_def channel_request_subsystem_def
  channel_request_agent_def channel_request_signal_def channel_request_exec_def
  channel_request_x11_def channel_request_env_def channel_request_shell_def
  channel_request_break_def channel_request_pty_def channel_request_window_change_def
  channel_eof_def channel_send_def wait_for_opening_channel_def open_channel_def
  channel_open_session_def channel_open_direct_stream_local_def channel_open_direct_tcp_ip_def
  channel_open_sftp_def global_request_cancel_stream_local_forward_def
  global_request_cancel_tcp_ip_forward_def global_request_stream_local_forward_def
  global_request_tcp_ip_forward_def clean_one_def channel_clean_def forward_tcp_clean_def
  forward_local_clean_def clean_def request_authentication_def authenticate_none_def
  authenticate_password_def authenticate_public_key_def authenticate_keyboard_interactive_def
  send_debug_message_def send_ignore_message_def disconnect_def channel_send_event_def

lemma preserves_answer [preserves_rules]: "preserves P m \<Longrightarrow> preserves P (answer w m)"
  by (auto simp: preserves_def answer_def split: prod.split res.split)

lemma windows_renegotiate [preserves_rules]:
  "(\<And>d. preserves windows_ok (rk d)) \<Longrightarrow> preserves windows_ok (renegotiate_event rk)"
  by (auto simp: preserves_def renegotiate_event_def split: prod.split)
    (metis snd_conv windows_ok_other(4))

lemma windows_handle_event [preserves_rules]:
  "(\<And>d. preserves windows_ok (rk d)) \<Longrightarrow> preserves windows_ok (handle_event rk ev)"
  by (cases ev) (auto simp: request_defs plain_handler_defs Let_def intro!: preserves_rules)

lemma windows_exec:
  assumes "\<And>d. preserves windows_ok (rk d)"
  shows "preserves windows_ok (exec rk ts)"
proof (induction ts)
  case (Cons t ts)
  have "preserves windows_ok (take_renegotiation rk)"
    unfolding take_renegotiation_def using assms by (intro preserves_rules) simp_all
  then have "preserves windows_ok (exec_turn rk t)"
    using assms by (cases t) (auto intro!: preserves_rules)
  with Cons show ?case by (auto intro!: preserves_rules)
qed (auto intro!: preserves_rules)

section \<open>Panic freedom of the handlers\<close>

lemma no_panic_bind:
  "fst (m s) \<noteq> Panic \<Longrightarrow> (\<And>a. safe (\<lambda>_. True) (f a)) \<Longrightarrow> fst (sbind m f s) \<noteq> Panic"
  by (cases "m s"; cases "fst (m s)") (auto simp: safe_def)

lemma total_simple [safe_rules]:
  "safe (\<lambda>_. True) (deliver i m)" "safe (\<lambda>_. True) (update_channel i f)"
  "safe (\<lambda>_. True) (remove_channel i)" "safe (\<lambda>_. True) (ask_notifier c)"
  "safe (\<lambda>_. True) (add_client_used i n)" "safe (\<lambda>_. True) (add_server_used i n)"
  "safe (\<lambda>_. True) (drop_receiver i)" "safe (\<lambda>_. True) (drop_channel i p)"
  "safe (\<lambda>_. True) (close_client i)" "safe (\<lambda>_. True) (push_channel p a b x y)"
  by (auto simp: safe_def deliver_def mpsc_send_def update_channel_def remove_channel_def ask_notifier_def
      add_client_used_def add_server_used_def drop_receiver_def drop_channel_def close_client_def
      push_channel_def sr_defs sbind_def Let_def)

lemma total_channel_close [safe_rules]: "safe (\<lambda>_. True) (channel_close p)"
  unfolding channel_close_def send_channel_close_def by (intro safe_rules) simp_all

lemma total_abandon [safe_rules]: "safe (\<lambda>_. True) (abandon i p)"
  unfolding abandon_def by (intro safe_rules)

lemma total_refuse [safe_rules]: "safe (\<lambda>_. True) (refuse_open c r t)"
  unfolding refuse_open_def by (intro safe_rules) simp_all

lemma total_verify [safe_rules]: "safe (\<lambda>_. True) (verify_forward c i)"
  unfolding verify_forward_def by (intro safe_rules)

lemma confirm_no_panic:
  assumes "next_channel_id s \<noteq> Panic"
  shows "fst (confirm_channel c a b d e s) \<noteq> Panic"
proof -
  obtain n where n: "next_channel_id s = Ok n"
    using assms by (auto simp: next_channel_id_def Let_def split: if_splits)
  have "safe (\<lambda>_. True) (let p = IdentityPair n c in
     sbind (send_fields [FU8 SSH_MSG_CHANNEL_OPEN_CONFIRMATION, FU32 c, FU32 n, FU32 a, FU32 b]) (\<lambda>_.
     sbind (push_channel p a b d e) (\<lambda>i.
     sbind (sget frontend_alive) (\<lambda>alive.
     if alive then sreturn (i, p)
     else sbind (drop_receiver i) (\<lambda>_. sbind upgrade_frontend (\<lambda>_. sreturn (i, p)))))))"
    unfolding upgrade_frontend_def by (intro safe_rules) simp_all
  then show ?thesis
    using n by (simp add: confirm_channel_def slift_def safe_def)
qed

lemma verify_forward_channels: "keeps channels (verify_forward c i)"
  unfolding verify_forward_def
  by (intro keeps_rules) (simp add: keeps_def ask_notifier_def Let_def)

lemma open_for_notifier_no_panic:
  assumes "next_channel_id s \<noteq> Panic"
  shows "fst (open_for_notifier v c w m s) \<noteq> Panic"
proof (cases v)
  case (Inl e)
  then show ?thesis
    using safe_no_panic [OF total_refuse] by (simp add: open_for_notifier_def)
next
  case (Inr a)
  have "safe (\<lambda>_. True) (case x of (i, p) \<Rightarrow> if kept a then sreturn () else abandon i p)" for x
    by (intro safe_rules)
  with Inr show ?thesis
    by (simp add: open_for_notifier_def) (intro no_panic_bind confirm_no_panic assms)
qed

lemma next_channel_id_cong: "channels s = channels t \<Longrightarrow> next_channel_id s = next_channel_id t"
  by (simp add: next_channel_id_def)

lemma open_no_panic:
  assumes "next_channel_id s \<noteq> Panic"
  shows "fst (handle_channel_open_agent_connect c w m s) \<noteq> Panic"
    "fst (handle_channel_open_x11 c w m oa op s) \<noteq> Panic"
    "fst (handle_channel_open_forwarded_tcp_ip c w m ca cp oa op s) \<noteq> Panic"
    "fst (handle_channel_open_forwarded_stream_local c w m path reserved s) \<noteq> Panic"
proof -
  have v: "fst (sbind (verify_forward call c) (\<lambda>v. open_for_notifier v c w m) s) \<noteq> Panic" for call
  proof -
    obtain r t where rt: "verify_forward call c s = (r, t)" by (cases "verify_forward call c s")
    have "next_channel_id t \<noteq> Panic"
      using assms next_channel_id_cong [OF keepsD [OF verify_forward_channels rt]] by simp
    then show ?thesis
      using rt safe_no_panic [OF total_verify [of call c], of s] open_for_notifier_no_panic
      by (cases r) simp_all
  qed
  show "fst (handle_channel_open_agent_connect c w m s) \<noteq> Panic"
    using v by (simp add: handle_channel_open_agent_connect_def)
  show "fst (handle_channel_open_x11 c w m oa op s) \<noteq> Panic"
    using v open_for_notifier_no_panic [OF assms]
    by (simp add: handle_channel_open_x11_def split: option.split)
  have take: "safe (\<lambda>_. True) (case x of (i, p) \<Rightarrow> case mpsc_send (y p) q of
      (Ok True, q) \<Rightarrow> on_forward (g q) | _ \<Rightarrow> abandon i p)"
    for x g q and y :: "identity_pair \<Rightarrow> 'z"
    by (intro safe_rules) simp_all
  have go: "fst (sbind (confirm_channel c a b d e) f s) \<noteq> Panic"
    if "\<And>x. safe (\<lambda>_. True) (f x)" for a b d e and f :: "nat \<times> identity_pair \<Rightarrow> (session_inner, unit) sr"
    by (rule no_panic_bind) (rule confirm_no_panic [OF assms], rule that)
  show "fst (handle_channel_open_forwarded_tcp_ip c w m ca cp oa op s) \<noteq> Panic"
  proof (cases "verify_tcp ca cp op s")
    case (Inr x)
    then show ?thesis
      by (cases x) (simp add: handle_channel_open_forwarded_tcp_ip_def, intro go take)
  qed (simp add: handle_channel_open_forwarded_tcp_ip_def safe_no_panic [OF total_refuse])
  show "fst (handle_channel_open_forwarded_stream_local c w m path reserved s) \<noteq> Panic"
    by (cases "get_local path (forward s)")
      (simp_all add: handle_channel_open_forwarded_stream_local_def safe_no_panic [OF total_refuse],
       intro go take)
qed

lemma deliver_run:
  "\<exists>b q. deliver i m s = (Ok b, s\<lparr>channels := (channels s)[i := (channels s ! i)\<lparr>ch_sender := q\<rparr>]\<rparr>)
     \<and> (b = receiving (ch_sender (channels s ! i)))
     \<and> q = (if b then (ch_sender (channels s ! i))\<lparr>queued := queued (ch_sender (channels s ! i)) @ [m]\<rparr>
            else ch_sender (channels s ! i))"
  by (simp add: deliver_def mpsc_send_def)

lemma replenish_no_panic:
  assumes "windows_ok s" "i < length (channels s)"
  shows "fst (replenish i s) \<noteq> Panic"
proof -
  obtain left where "window_left (client_end (channels s ! i)) = Ok left"
    using client_window_left [OF windows_ok_nth [OF assms]] by blast
  moreover have "safe (\<lambda>_. True) (send_channel_window_adjust x y)" for x y
    unfolding send_channel_window_adjust_def by (intro safe_rules) simp_all
  then have "safe (\<lambda>_. True) (sbind (send_channel_window_adjust x y) (\<lambda>_. add_client_used i n))" for x y n
    by (intro safe_rules)
  ultimately show ?thesis
    by (auto simp: replenish_def slift_def Let_def sreturn_def safe_def)
qed

lemma channel_data_no_panic:
  assumes W: "windows_ok s"
  shows "fst (handle_channel_data c data st s) \<noteq> Panic"
proof (cases "find_client c s")
  case (Some i)
  let ?e = "client_end (channels s ! i)" and ?msg = "if st then Stderr data else Stdout data"
  have i: "i < length (channels s)" using find_client_length [OF Some] .
  obtain left where left: "window_left ?e = Ok left"
    using client_window_left [OF windows_ok_nth [OF W i]] by blast
  show ?thesis
  proof (cases "length data > unat (maximum_packet_size ?e) \<or> length data > left")
    case False
    let ?t = "snd (add_client_used i (int (length data)) s)"
    have W': "windows_ok ?t"
    proof (rule windows_add_client [OF W])
      show "0 \<le> used_window_size ?e + int (length data) \<and>
        used_window_size ?e + int (length data) \<le> int (unat (initial_window_size ?e))"
        using windows_ok_nth [OF W i] left False unfolding channel_ok_def window_left_Ok_iff by linarith
    qed
    have len: "length (channels ?t) = length (channels s)"
      by (simp add: add_client_used_def update_channel_def smodify_def)
    obtain b q where d: "deliver i ?msg ?t = (Ok b, ?t\<lparr>channels := (channels ?t)[i := (channels ?t ! i)\<lparr>ch_sender := q\<rparr>]\<rparr>)"
      using deliver_run by blast
    have "windows_ok (snd (deliver i ?msg ?t))"
      using windows_deliver W' by (simp add: preserves_def)
    then have "fst (replenish i (snd (deliver i ?msg ?t))) \<noteq> Panic"
      using replenish_no_panic i len d by simp
    with False Some left d show ?thesis
      by (simp add: handle_channel_data_def slift_def sreturn_def)
  qed (use Some left in \<open>auto simp: handle_channel_data_def sr_defs\<close>)
qed (simp add: handle_channel_data_def sr_defs)

lemma handle_msg_no_panic:
  assumes "windows_ok s" "next_channel_id s \<noteq> Panic"
  shows "fst (handle_msg None m s) \<noteq> Panic"
proof -
  have t: "safe (\<lambda>_. True) send_unimplemented" "safe (\<lambda>_. True) (send_pong d)"
    "safe (\<lambda>_. True) (handle_ext_info x)" "safe (\<lambda>_. True) (handle_disconnect r t)"
    "safe (\<lambda>_. True) (handle_kexinit None d)" "safe (\<lambda>_. True) (handle_channel_window_adjust c n)"
    "safe (\<lambda>_. True) (handle_channel_flow_control c b o1)" "safe (\<lambda>_. True) (handle_channel_exit_status c b n)"
    "safe (\<lambda>_. True) (handle_channel_exit_signal c b d o1 d1 d2)" "safe (\<lambda>_. True) (handle_channel_close c)"
    "safe (\<lambda>_. True) (handle_channel_eof c)" "safe (\<lambda>_. True) (handle_channel_unknown_request c b d)"
    "safe (\<lambda>_. True) (handle_global_request_keep_alive_openssh b)"
    "safe (\<lambda>_. True) (handle_global_request_hosts_key_openssh b ks)"
    "safe (\<lambda>_. True) (handle_global_unknown_request b d)"
    "safe (\<lambda>_. True) (handle_channel_open_unknown d c)" for d x r t c n b o1 ks d1 d2
    by (auto simp: plain_handler_defs handle_ext_info_def handle_kexinit_def
        handle_channel_window_adjust_def Let_def intro!: safe_rules split: option.split)
  show ?thesis
    using channel_data_no_panic [OF assms(1)] open_no_panic [OF assms(2)]
    by (cases m) (simp_all add: t [THEN safe_no_panic] sr_defs)
qed

end
