(* ===== verification/SessionBehaviour.thy ===== *)
theory SessionBehaviour
  imports SessionFacts
begin

text \<open>
  What the operations of a session do, branch by branch: sending channel data, the numbering
  of channels, closing, delivery of received data, and waiting for scripted answers.
\<close>

section \<open>Sending data\<close>

text \<open>What a send does to a transport that accepts it.\<close>

definition after_send :: "bytes \<Rightarrow> transport \<Rightarrow> transport" where
  "after_send d t = bump_client (hd d = SSH_MSG_NEWKEYS \<and> strict t) (t\<lparr>tx := tx t @ [d]\<rparr>)"

lemma after_send_simps [simp]:
  "tx (after_send d t) = tx t @ [d]" "tx_faults (after_send d t) = tx_faults t"
  "rx (after_send d t) = rx t" "authenticated (after_send d t) = authenticated t"
  by (simp_all add: after_send_def bump_client_def)

lemma send_payload_Ok:
  "tx_faults t = [] \<Longrightarrow> d \<noteq> [] \<Longrightarrow> length d \<le> MAX_PACKET_PAYLOAD_LENGTH \<Longrightarrow>
   send_payload d t = (Ok (), after_send d t)"
  by (simp add: send_payload_def after_send_def bump_client_def strict_def)

lemma send_fields_Ok:
  "tx_faults (socket s) = [] \<Longrightarrow> sum_list (map match_type (FU8 c # fs)) \<le> MAX_PACKET_PAYLOAD_LENGTH \<Longrightarrow>
   send_fields (FU8 c # fs) s =
     (Ok (), s\<lparr>socket := after_send (make_buffer_without_header (FU8 c # fs)) (socket s)\<rparr>)"
  unfolding send_fields_def
  by (rule zoom_run, rule send_payload_Ok)
    (simp_all add: make_buffer_without_header_eq length_fields del: One_nat_def)

definition data_payload :: "u32 \<Rightarrow> bytes \<Rightarrow> bytes" where
  "data_payload sid chunk = make_buffer_without_header [FU8 SSH_MSG_CHANNEL_DATA, FU32 sid, FOne chunk]"

lemma send_chunks_run:
  assumes "windows_ok s" "i < length (channels s)" "tx_faults (socket s) = []"
    and "maximum_packet_size (server_end (channels s ! i)) \<noteq> 0"
    and "window_left (server_end (channels s ! i)) = Ok left"
    and "sent \<le> length data" "length data - sent < n"
  shows "\<exists>s' chunks. send_chunks n i sid data sent s = (Ok (Some (sent + min (length data - sent) left)), s') \<and>
    concat chunks = take (min (length data - sent) left) (drop sent data) \<and>
    (\<forall>c \<in> set chunks. c \<noteq> [] \<and>
       length c \<le> unat (maximum_packet_size (server_end (channels s ! i)))) \<and>
    tx (socket s') = tx (socket s) @ map (data_payload sid) chunks \<and>
    window_left (server_end (channels s' ! i)) = Ok (left - min (length data - sent) left)"
  using assms
proof (induction n arbitrary: sent s left)
  case (Suc n)
  let ?e = "server_end (channels s ! i)"
  show ?case
  proof (cases "sent = length data \<or> left = 0")
    case True
    with Suc.prems show ?thesis
      by (intro exI [of _ s] exI [of _ "[]"]) (auto simp: sr_defs)
  next
    case False
    let ?size = "chunk_size ?e left (length data - sent)"
    let ?chunk = "take ?size (drop sent data)"
    have sz: "0 < ?size" "?size \<le> left" "?size \<le> length data - sent" "?size \<le> 32759"
      "?size \<le> unat (maximum_packet_size ?e)"
      using False Suc.prems(4,6) by (auto simp: chunk_size_def unat_gt_0)
    let ?t = "after_send (data_payload sid ?chunk) (socket s)"
    have snd1: "send_fields [FU8 SSH_MSG_CHANNEL_DATA, FU32 sid, FOne ?chunk] s = (Ok (), s\<lparr>socket := ?t\<rparr>)"
      unfolding data_payload_def using Suc.prems(3) sz by (intro send_fields_Ok) simp_all
    let ?u = "snd (add_server_used i (int ?size) (s\<lparr>socket := ?t\<rparr>))"
    have u: "channels ?u = (channels s)[i := (channels s ! i)\<lparr>server_end := use_window (int ?size) ?e\<rparr>]"
      "socket ?u = ?t"
      by (simp_all add: add_server_used_def update_channel_def smodify_def)
    have ok: "endpoint_ok ?e"
      using windows_ok_nth [OF Suc.prems(1,2)] by (simp add: channel_ok_def)
    have W: "windows_ok ?u"
    proof (rule windows_add_server)
      show "- (2 ^ 63) \<le> used_window_size (server_end (channels (s\<lparr>socket := ?t\<rparr>) ! i)) + int ?size \<and>
          used_window_size (server_end (channels (s\<lparr>socket := ?t\<rparr>) ! i)) + int ?size
            \<le> int (unat (initial_window_size (server_end (channels (s\<lparr>socket := ?t\<rparr>) ! i))))"
        using ok Suc.prems(5) sz(2) by (simp add: endpoint_ok_def window_left_Ok_iff)
    qed (use Suc.prems in simp)
    have left: "window_left (server_end (channels ?u ! i)) = Ok (left - ?size)"
      using window.consume_left [OF ok Suc.prems(5) sz(2)] u Suc.prems(2) by simp
    let ?m = "min (length data - sent) left" and ?m' = "min (length data - (sent + ?size)) (left - ?size)"
    have "b \<le> l \<Longrightarrow> b \<le> d - k \<Longrightarrow> min (d - k) l = b + min (d - (k + b)) (l - b)" for b l d k :: nat
      by (auto simp: min_def)
    from this [OF sz(2,3)] have m: "sent + ?size + ?m' = sent + ?m" "?m = ?size + ?m'" by simp_all
    have max: "maximum_packet_size (server_end (channels ?u ! i)) = maximum_packet_size ?e"
      using u Suc.prems(2) by (simp add: use_window_def)
    have "i < length (channels ?u)" "tx_faults (socket ?u) = []"
      "maximum_packet_size (server_end (channels ?u ! i)) \<noteq> 0"
      "sent + ?size \<le> length data" "length data - (sent + ?size) < n"
      using Suc.prems u sz max by simp_all
    from Suc.IH [OF W this(1,2,3) left this(4,5)] obtain s' chunks where
      "send_chunks n i sid data (sent + ?size) ?u = (Ok (Some (sent + ?size + ?m')), s')"
      "concat chunks = take ?m' (drop (sent + ?size) data)"
      "\<forall>c \<in> set chunks. c \<noteq> [] \<and> length c \<le> unat (maximum_packet_size ?e)"
      "tx (socket s') = tx (socket ?u) @ map (data_payload sid) chunks"
      "window_left (server_end (channels s' ! i)) = Ok (left - ?size - ?m')"
      unfolding max by blast
    note IH = this
    have run: "send_chunks (Suc n) i sid data sent s = (Ok (Some (sent + ?m)), s')"
      using False Suc.prems(5) snd1 IH(1) m(1) by (simp add: Let_def slift_def)
    have cat: "concat (?chunk # chunks) = take ?m (drop sent data)"
      unfolding m(2) take_add using IH(2) by (simp add: drop_drop add.commute)
    have txs: "tx (socket s') = tx (socket s) @ map (data_payload sid) (?chunk # chunks)"
      using IH(4) u(2) by simp
    have nonempty: "?chunk \<noteq> []" "length ?chunk \<le> unat (maximum_packet_size ?e)"
      using sz by auto
    have "left - ?size - ?m' = left - ?m" using m(2) by simp
    with run cat txs nonempty IH(3,5) show ?thesis
      by (intro exI [of _ s'] exI [of _ "?chunk # chunks"]) simp
  qed
qed simp

text \<open>A peer that announced packets of size 0 keeps the loop running for ever.\<close>

lemma send_stuck:
  assumes "i < length (channels s)" "tx_faults (socket s) = []"
    and "maximum_packet_size (server_end (channels s ! i)) = 0"
    and "window_left (server_end (channels s ! i)) = Ok left" "0 < left" "sent < length data"
  shows "\<exists>s'. send_chunks n i sid data sent s = (Ok None, s') \<and>
    tx (socket s') = tx (socket s) @ replicate n (data_payload sid [])"
  using assms
proof (induction n arbitrary: s)
  case 0
  then show ?case by (simp add: sr_defs)
next
  case (Suc n)
  let ?t = "after_send (data_payload sid []) (socket s)"
  let ?u = "snd (add_server_used i 0 (s\<lparr>socket := ?t\<rparr>))"
  have z: "chunk_size (server_end (channels s ! i)) left (length data - sent) = 0"
    using Suc.prems(3) by (simp add: chunk_size_def)
  have snd1: "send_fields [FU8 SSH_MSG_CHANNEL_DATA, FU32 sid, FOne []] s = (Ok (), s\<lparr>socket := ?t\<rparr>)"
    unfolding data_payload_def using Suc.prems(2) by (intro send_fields_Ok) simp_all
  have u: "channels ?u = (channels s)[i := (channels s ! i)\<lparr>server_end := use_window 0 (server_end (channels s ! i))\<rparr>]"
    "socket ?u = ?t"
    by (simp_all add: add_server_used_def update_channel_def smodify_def)
  have "use_window 0 e = e" for e by (simp add: use_window_def)
  with u Suc.prems(1) have c: "channels ?u = channels s" by simp
  from Suc.IH [of ?u] Suc.prems c u obtain s' where
    "send_chunks n i sid data sent ?u = (Ok None, s')"
    "tx (socket s') = tx (socket ?u) @ replicate n (data_payload sid [])"
    by auto
  with Suc.prems z snd1 u(2) show ?case
    by (auto simp: Let_def slift_def)
qed

section \<open>Channel numbers\<close>

definition client_ids :: "session_inner \<Rightarrow> u32 list" where
  "client_ids s = map (\<lambda>c. endpoint_id (client_end c)) (channels s)"

lemma foldl_max_ge: "(m :: u32) \<le> foldl max m xs" "x \<in> set xs \<Longrightarrow> x \<le> foldl max m xs"
proof -
  show *: "(m :: u32) \<le> foldl max m xs" for m xs
    by (induction xs arbitrary: m) (auto intro: order_trans [OF max.cobounded1])
  show "x \<in> set xs \<Longrightarrow> x \<le> foldl max m xs"
  proof (induction xs arbitrary: m)
    case (Cons y ys)
    then show ?case using order_trans [OF max.cobounded2 *] by auto
  qed simp
qed

lemma foldl_map: "foldl (\<lambda>a x. f a (g x)) m xs = foldl f m (map g xs)"
  by (induction xs arbitrary: m) simp_all

lemma next_channel_id_fresh:
  assumes "next_channel_id s = Ok n"
  shows "n \<noteq> 0" "\<forall>i \<in> set (client_ids s). i < n"
proof -
  define m where "m = foldl max 0 (client_ids s)"
  have "foldl (\<lambda>i c. max i (endpoint_id (client_end c))) 0 (channels s) = m"
    unfolding m_def client_ids_def by (rule foldl_map)
  with assms have n: "n = m + 1" "m \<noteq> - 1"
    by (auto simp: next_channel_id_def Let_def split: if_splits)
  have "m < - 1" using n(2) by (simp add: less_le word_order.extremum_strict)
  then have lt: "m < m + 1" "m + 1 \<noteq> 0" by unat_arith+
  show "n \<noteq> 0" using lt n by simp
  show "\<forall>i \<in> set (client_ids s). i < n"
    using foldl_max_ge(2) [of _ "client_ids s" 0] lt(1) n(1) unfolding m_def [symmetric]
    by (meson order_le_less_trans)
qed

definition ids_ok :: "session_inner \<Rightarrow> bool" where
  "ids_ok s \<longleftrightarrow> distinct (client_ids s)"

lemma client_ids_other [simp]:
  "client_ids (s\<lparr>socket := t\<rparr>) = client_ids s" "client_ids (s\<lparr>notifier := n\<rparr>) = client_ids s"
  "client_ids (s\<lparr>forward := f\<rparr>) = client_ids s" "client_ids (s\<lparr>renegotiating := b\<rparr>) = client_ids s"
  "client_ids (s\<lparr>renegotiate_msg := m\<rparr>) = client_ids s"
  "client_ids (s\<lparr>server_algorithms := l\<rparr>) = client_ids s"
  "client_ids (s\<lparr>server_ping_supported := b\<rparr>) = client_ids s"
  "client_ids (s\<lparr>queued_closes := q\<rparr>) = client_ids s"
  by (simp_all add: client_ids_def)

lemma client_ids_update:
  assumes "\<And>c. endpoint_id (client_end (f c)) = endpoint_id (client_end c)"
  shows "keeps client_ids (update_channel i f)"
proof -
  have "map g (xs[i := x]) = map g xs" if "i < length xs \<Longrightarrow> g x = g (xs ! i)" for g x and xs :: "channel_handle list"
    using that by (cases "i < length xs") (simp_all add: map_update list_update_beyond list_update_same_conv)
  from this [of _ "\<lambda>c. endpoint_id (client_end c)"] assms show ?thesis
    by (simp add: keeps_def update_channel_def smodify_def client_ids_def)
qed

lemma keeps_client_ids [keeps_rules]:
  "keeps client_ids (drop_receiver i)" "keeps client_ids (close_client i)"
  "keeps client_ids (add_client_used i n)" "keeps client_ids (add_server_used i n)"
  "keeps client_ids (update_channel i (\<lambda>c. c\<lparr>server_end := (server_end c)\<lparr>closed := b\<rparr>\<rparr>))"
  "keeps client_ids (update_channel i (\<lambda>c. c\<lparr>server_end := (server_end c)\<lparr>eof := b\<rparr>\<rparr>))"
  "keeps client_ids (update_channel i (\<lambda>c. c\<lparr>client_end := (client_end c)\<lparr>eof := b\<rparr>\<rparr>))"
  unfolding drop_receiver_def close_client_def add_client_used_def add_server_used_def
  by (intro client_ids_update; simp add: use_window_def)+

lemma keeps_client_ids_deliver [keeps_rules]: "keeps client_ids (deliver i m)"
proof -
  have "deliver i m s = (Ok (receiving (ch_sender (channels s ! i))),
      snd (update_channel i (\<lambda>c. c\<lparr>ch_sender := snd (mpsc_send m (ch_sender c))\<rparr>) s))" for s
    by (simp add: deliver_def mpsc_send_def update_channel_def smodify_def)
  then show ?thesis
    using client_ids_update [of "\<lambda>c. c\<lparr>ch_sender := snd (mpsc_send m (ch_sender c))\<rparr>" i]
    by (simp add: keeps_def)
qed

lemma keeps_client_ids_more [keeps_rules]:
  "keeps client_ids (send_fields fs)" "keeps client_ids (ask_notifier c)"
  "keeps client_ids (on_forward g)" "keeps client_ids (on_socket m)"
  by (simp_all add: keeps_def ask_notifier_def Let_def send_fields_def zoom_def smodify_def split: prod.split)

lemma keeps_client_ids_drop [keeps_rules]: "keeps client_ids (drop_channel i p)"
  unfolding drop_channel_def by (intro keeps_rules) simp

lemma ids_keeps: "keeps client_ids m \<Longrightarrow> preserves ids_ok m"
  unfolding ids_ok_def by (rule keeps_preserves)

lemmas ids_rules [preserves_rules] =
  keeps_client_ids [THEN ids_keeps] keeps_client_ids_deliver [THEN ids_keeps]
  keeps_client_ids_more [THEN ids_keeps] keeps_client_ids_drop [THEN ids_keeps]

lemma ids_remove [preserves_rules]: "preserves ids_ok (remove_channel i)"
  by (rule preservesI)
    (simp add: remove_channel_def smodify_def ids_ok_def client_ids_def map_remove_at distinct_remove_at)

lemma push_channel_ids:
  "push_channel p a b c d s = (r, s') \<Longrightarrow> client_ids s' = client_ids s @ [pair_client p]"
  by (auto simp: push_channel_def sr_defs client_ids_def endpoint_new_def)

lemma ids_confirm [preserves_rules]: "preserves ids_ok (confirm_channel c a b d e)"
proof (rule preservesI)
  fix s assume I: "ids_ok s"
  show "ids_ok (snd (confirm_channel c a b d e s))"
  proof (cases "next_channel_id s")
    case (Ok n)
    obtain r t where rt: "send_fields [FU8 SSH_MSG_CHANNEL_OPEN_CONFIRMATION, FU32 c, FU32 n, FU32 a, FU32 b] s
        = (r, s\<lparr>socket := t\<rparr>)"
      by (rule send_fields_run)
    obtain r2 u where u: "push_channel (IdentityPair n c) a b d e (s\<lparr>socket := t\<rparr>) = (r2, u)"
      by (cases "push_channel (IdentityPair n c) a b d e (s\<lparr>socket := t\<rparr>)")
    have ids: "client_ids u = client_ids s @ [n]" using push_channel_ids [OF u] by simp
    then have Iu: "ids_ok u"
      using I next_channel_id_fresh(2) [OF Ok] by (auto simp: ids_ok_def)
    let ?rest = "\<lambda>i. sbind (sget frontend_alive) (\<lambda>alive.
       if alive then sreturn (i, IdentityPair n c)
       else sbind (drop_receiver i) (\<lambda>_. sbind upgrade_frontend (\<lambda>_. sreturn (i, IdentityPair n c))))"
    have "preserves ids_ok (?rest i)" for i
      unfolding upgrade_frontend_def by (intro preserves_rules)
    then have "ids_ok (snd (?rest i u))" for i using Iu by (simp add: preserves_def)
    then show ?thesis
      using I Ok rt u Iu by (cases r; cases r2) (simp_all add: confirm_channel_def slift_def Let_def ids_ok_def)
  qed (use I in \<open>simp_all add: confirm_channel_def slift_def\<close>)
qed

lemma ids_handle_msg: "preserves ids_ok (handle_msg None m)"
  by (cases m) (auto simp: small_handler_defs handle_channel_data_def replenish_def handle_ext_info_def
      handle_kexinit_def handle_channel_window_adjust_def Let_def ids_ok_def
      intro!: preserves_rules split: option.split)

section \<open>Closing\<close>

lemma remove_at_update [simp]: "remove_at i (xs[i := x]) = remove_at i xs"
  by (simp add: remove_at_def)

lemma position_update:
  "position p xs = Some i \<Longrightarrow> p x \<Longrightarrow> position p (xs[i := x]) = Some i"
proof (induction xs arbitrary: i)
  case (Cons y ys)
  then show ?case by (cases i) (auto split: if_splits)
qed simp

definition mark_client :: "channel_handle \<Rightarrow> channel_handle" where
  "mark_client c = c\<lparr>client_end := (client_end c)\<lparr>closed := True\<rparr>\<rparr>"

definition mark_server :: "channel_handle \<Rightarrow> channel_handle" where
  "mark_server c = c\<lparr>ch_sender := snd (mpsc_send Close (ch_sender c)),
     server_end := (server_end c)\<lparr>closed := True\<rparr>\<rparr>"

lemma channel_close_run:
  assumes "find_client (pair_client p) s = Some i" "tx_faults (socket s) = []"
  shows "channel_close p s = (Ok (),
    s\<lparr>socket := after_send (make_buffer_without_header [FU8 SSH_MSG_CHANNEL_CLOSE, FU32 (pair_server p)]) (socket s),
      channels := (if closed (server_end (channels s ! i)) then remove_at i (channels s)
                   else (channels s)[i := mark_client (channels s ! i)])\<rparr>)"
proof -
  have "i < length (channels s)" using find_client_length [OF assms(1)] .
  moreover have "send_channel_close (pair_server p) s =
    (Ok (), s\<lparr>socket := after_send (make_buffer_without_header [FU8 SSH_MSG_CHANNEL_CLOSE, FU32 (pair_server p)]) (socket s)\<rparr>)"
    unfolding send_channel_close_def using assms(2) by (intro send_fields_Ok) simp_all
  ultimately show ?thesis
    using assms(1)
    by (simp add: channel_close_def close_client_def update_channel_def remove_channel_def smodify_def
        mark_client_def sreturn_def)
qed

lemma handle_channel_close_run:
  assumes "find_client c s = Some i"
  shows "handle_channel_close c s = (Ok (),
    s\<lparr>channels := (if closed (client_end (channels s ! i)) then remove_at i (channels s)
                   else (channels s)[i := mark_server (channels s ! i)])\<rparr>)"
proof -
  have "i < length (channels s)" using find_client_length [OF assms] .
  then show ?thesis
    using assms
    by (simp add: handle_channel_close_def deliver_def update_channel_def remove_channel_def smodify_def
        mark_server_def mpsc_send_def sreturn_def)
qed

text \<open>Either side may close first; the entry goes when the second one does, and not before.\<close>

lemma close_both:
  assumes "find_client (pair_client p) s = Some i" "tx_faults (socket s) = []"
    and "\<not> closed (client_end (channels s ! i))" "\<not> closed (server_end (channels s ! i))"
  shows "length (channels (snd (channel_close p s))) = length (channels s)"
    "length (channels (snd (handle_channel_close (pair_client p) s))) = length (channels s)"
    "channels (snd (handle_channel_close (pair_client p) (snd (channel_close p s)))) = remove_at i (channels s)"
    "channels (snd (channel_close p (snd (handle_channel_close (pair_client p) s)))) = remove_at i (channels s)"
proof -
  let ?c = "channels s ! i"
  have i: "i < length (channels s)" using find_client_length [OF assms(1)] .
  have id: "endpoint_id (client_end ?c) = pair_client p"
    using position_prop assms(1) unfolding find_client_def by fastforce
  show "length (channels (snd (channel_close p s))) = length (channels s)"
    "length (channels (snd (handle_channel_close (pair_client p) s))) = length (channels s)"
    using channel_close_run [OF assms(1,2)] handle_channel_close_run [OF assms(1)] assms(3,4) by simp_all
  let ?s1 = "snd (channel_close p s)"
  have s1: "channels ?s1 = (channels s)[i := mark_client ?c]"
    using channel_close_run [OF assms(1,2)] assms(4) by simp
  have "find_client (pair_client p) ?s1 = Some i"
    using assms(1) id unfolding find_client_def s1 by (intro position_update) (simp_all add: mark_client_def)
  from handle_channel_close_run [OF this] s1 i
  show "channels (snd (handle_channel_close (pair_client p) ?s1)) = remove_at i (channels s)"
    by (simp add: mark_client_def)
  let ?s2 = "snd (handle_channel_close (pair_client p) s)"
  have s2: "channels ?s2 = (channels s)[i := mark_server ?c]" "socket ?s2 = socket s"
    using handle_channel_close_run [OF assms(1)] assms(3) by simp_all
  have "find_client (pair_client p) ?s2 = Some i"
    using assms(1) id unfolding find_client_def s2(1) by (intro position_update) (simp_all add: mark_server_def)
  from channel_close_run [OF this] s2 i assms(2)
  show "channels (snd (channel_close p ?s2)) = remove_at i (channels s)"
    by (simp add: mark_server_def)
qed

section \<open>Receiving data\<close>

definition take_data :: "bool \<Rightarrow> bytes \<Rightarrow> channel_handle \<Rightarrow> channel_handle" where
  "take_data st data c = c\<lparr>client_end := use_window (int (length data)) (client_end c),
     ch_sender := (ch_sender c)\<lparr>queued := queued (ch_sender c) @ [if st then Stderr data else Stdout data]\<rparr>\<rparr>"

lemma channel_data_run:
  assumes W: "windows_ok s" and f: "find_client c s = Some i" "channels s ! i = h"
    and fits: "length data \<le> unat (maximum_packet_size (client_end h))"
      "window_left (client_end h) = Ok left" "length data \<le> left"
    and open': "receiving (ch_sender h)" and tx: "tx_faults (socket s) = []"
  shows "\<exists>t u. handle_channel_data c data st s =
      (Ok (), s\<lparr>socket := t, channels := (channels s)[i := (take_data st data h)\<lparr>client_end := u\<rparr>]\<rparr>) \<and>
    (if left - length data < 1024
     then t = after_send (make_buffer_without_header [FU8 SSH_MSG_CHANNEL_WINDOW_ADJUST,
            FU32 (endpoint_id (server_end h)),
            FU32 (of_int (used_window_size (client_end h) + int (length data)))]) (socket s) \<and>
          u = (client_end h)\<lparr>used_window_size := 0\<rparr>
     else t = socket s \<and> u = use_window (int (length data)) (client_end h))"
proof -
  let ?c = "take_data st data h" and ?u = "used_window_size (client_end h) + int (length data)"
  have i: "i < length (channels s)" using find_client_length [OF f(1)] .
  have ok: "channel_ok h" using windows_ok_nth [OF W i] f(2) by simp
  have left': "window_left (use_window (int (length data)) (client_end h)) = Ok (left - length data)"
    using window.consume_left [OF _ fits(2,3)] ok by (simp add: channel_ok_def)
  have ul: "0 \<le> ?u" "?u < 2 ^ 32"
  proof -
    show "0 \<le> ?u" using ok by (simp add: channel_ok_def)
    have "?u \<le> int (unat (initial_window_size (client_end h)))"
      using fits(2,3) unfolding window_left_Ok_iff by linarith
    then show "?u < 2 ^ 32" using u32_bound [of "initial_window_size (client_end h)"] by linarith
  qed
  have adj: "int (unat (adjust_size ?u)) = ?u" "adjust_size ?u = of_int ?u"
    using adjust_size_exact [OF ul] ul by (simp_all add: adjust_size_def)
  define w where "w = adjust_size ?u"
  have w: "uint w = ?u" "of_int ?u = w" using adj by (simp_all add: w_def)
  let ?s1 = "s\<lparr>channels := (channels s)[i := ?c]\<rparr>"
  have pre: "handle_channel_data c data st s = replenish i ?s1"
    using f fits open' i
    by (simp add: handle_channel_data_def slift_def add_client_used_def update_channel_def smodify_def
        deliver_def mpsc_send_def take_data_def)
  have c: "channels ?s1 ! i = ?c" "client_end ?c = use_window (int (length data)) (client_end h)"
    "server_end ?c = server_end h" using i by (simp_all add: take_data_def)
  have rep: "replenish i ?s1 = (if left - length data < 1024
      then sbind (send_channel_window_adjust (endpoint_id (server_end h)) w)
        (\<lambda>_. add_client_used i (- ?u)) ?s1
      else (Ok (), ?s1))"
    unfolding replenish_def using c left' w(1)
    by (simp add: slift_def sreturn_def Let_def use_window_def flip: w_def)
  show ?thesis
  proof (cases "left - length data < 1024")
    case True
    let ?d = "make_buffer_without_header [FU8 SSH_MSG_CHANNEL_WINDOW_ADJUST, FU32 (endpoint_id (server_end h)),
      FU32 w]"
    have "send_channel_window_adjust (endpoint_id (server_end h)) w ?s1 =
        (Ok (), ?s1\<lparr>socket := after_send ?d (socket s)\<rparr>)"
      unfolding send_channel_window_adjust_def using tx by (subst send_fields_Ok) simp_all
    moreover have "?c\<lparr>client_end := use_window (- ?u) (client_end ?c)\<rparr> =
        ?c\<lparr>client_end := (client_end h)\<lparr>used_window_size := 0\<rparr>\<rparr>"
      by (simp add: take_data_def use_window_def)
    ultimately have "replenish i ?s1 = (Ok (), s\<lparr>socket := after_send ?d (socket s),
        channels := (channels s)[i := ?c\<lparr>client_end := (client_end h)\<lparr>used_window_size := 0\<rparr>\<rparr>]\<rparr>)"
      using True i by (simp add: rep add_client_used_def update_channel_def smodify_def)
    then show ?thesis using pre True
      by (intro exI [of _ "after_send ?d (socket s)"] exI [of _ "(client_end h)\<lparr>used_window_size := 0\<rparr>"])
        (simp only: w(2) if_True simp_thms)
  next
    case False
    have "?c\<lparr>client_end := use_window (int (length data)) (client_end h)\<rparr> = ?c"
      by (simp add: take_data_def)
    with pre False rep show ?thesis
      by (intro exI [of _ "socket s"] exI [of _ "use_window (int (length data)) (client_end h)"]) simp
  qed
qed

section \<open>Scripted answers\<close>

definition after_recv :: "packet \<Rightarrow> transport \<Rightarrow> transport" where
  "after_recv p t = bump_server (payload p \<noteq> [] \<and> hd (payload p) = SSH_MSG_NEWKEYS \<and> strict t)
     (t\<lparr>rx := tl (rx t)\<rparr>)"

lemma after_recv_simps [simp]:
  "rx (after_recv p t) = tl (rx t)" "tx (after_recv p t) = tx t"
  "tx_faults (after_recv p t) = tx_faults t" "authenticated (after_recv p t) = authenticated t"
  by (simp_all add: after_recv_def bump_server_def)

lemma recv_message_encoded:
  assumes "rx (socket s) = Ok p # rest" "payload p = encode_message m" "wf_message m"
  shows "recv_message s = (Ok m, s\<lparr>socket := after_recv p (socket s)\<rparr>)"
proof -
  have "recv_packet (socket s) = (Ok p, after_recv p (socket s))"
    using assms(1) by (simp add: recv_packet_def after_recv_def bump_server_def strict_def)
  then show ?thesis
    using Message_parse_encode [OF assms(3)] assms(2) by (simp add: recv_message_def slift_def)
qed

lemma match_msg_unfold:
  "match_msg f s = sbind recv_message (\<lambda>msg.
     case f msg of Some x \<Rightarrow> slift x | None \<Rightarrow> sbind (handle_msg None msg) (\<lambda>_. match_msg f)) s"
  unfolding match_msg_def
  by (subst match_this_msg_unfold) (simp_all add: sbind_sreturn keeps_simple)

lemma confirm_channel_run:
  assumes "next_channel_id s = Ok n" "tx_faults (socket s) = []" "frontend_alive s"
  shows "confirm_channel sc a b c d s = (Ok (length (channels s), IdentityPair n sc),
    s\<lparr>socket := after_send (make_buffer_without_header [FU8 SSH_MSG_CHANNEL_OPEN_CONFIRMATION,
        FU32 sc, FU32 n, FU32 a, FU32 b]) (socket s),
      channels := channels s @ [\<lparr>client_end = endpoint_new n a b, server_end = endpoint_new sc c d,
        ch_sender = mpsc_new\<rparr>]\<rparr>)"
proof -
  have "send_fields [FU8 SSH_MSG_CHANNEL_OPEN_CONFIRMATION, FU32 sc, FU32 n, FU32 a, FU32 b] s =
    (Ok (), s\<lparr>socket := after_send (make_buffer_without_header [FU8 SSH_MSG_CHANNEL_OPEN_CONFIRMATION,
        FU32 sc, FU32 n, FU32 a, FU32 b]) (socket s)\<rparr>)"
    using assms(2) by (intro send_fields_Ok) simp_all
  then show ?thesis
    using assms by (simp add: confirm_channel_def slift_def Let_def push_channel_def smodify_def sreturn_def)
qed

text \<open>
  The number a channel is opened with is not reserved: a channel the server opens before it
  confirms ours gets the same number.
\<close>

lemma open_session_race:
  assumes "next_channel_id s = Ok n" "tx_faults (socket s) = []" "frontend_alive s"
    and "get_local path (forward s) = Some l" "receiving (l_sender l)"
    and "rx (socket s) = Ok p1 # Ok p2 # rest"
    and p1: "payload p1 = encode_message (ChannelOpenForwardedStreamLocal sc w1 m1 path [])"
      "wf_message (ChannelOpenForwardedStreamLocal sc w1 m1 path [])"
    and p2: "payload p2 = encode_message (ChannelOpenConfirmation n sc2 w2 m2)"
      "wf_message (ChannelOpenConfirmation n sc2 w2 m2)"
    and "find_server sc2 s = None" "sc \<noteq> sc2"
  shows "\<exists>s'. channel_open_session w m s = (Ok (IdentityPair n sc2), s') \<and>
    client_ids s' = client_ids s @ [n, n]"
proof -
  let ?d = "make_buffer_without_header [FU8 SSH_MSG_CHANNEL_OPEN, FOne (str ''session''), FU32 n, FU32 w, FU32 m]"
  let ?s1 = "s\<lparr>socket := after_send ?d (socket s)\<rparr>"
  have s1: "send_fields [FU8 SSH_MSG_CHANNEL_OPEN, FOne (str ''session''), FU32 n, FU32 w, FU32 m] s = (Ok (), ?s1)"
    using assms(2) by (intro send_fields_Ok) simp_all
  let ?s2 = "?s1\<lparr>socket := after_recv p1 (socket ?s1)\<rparr>"
  have s2: "recv_message ?s1 = (Ok (ChannelOpenForwardedStreamLocal sc w1 m1 path []), ?s2)"
    using assms(6) p1 by (intro recv_message_encoded) simp_all
  have next2: "next_channel_id ?s2 = Ok n" using assms(1) by (simp add: next_channel_id_def)
  let ?h = "\<lparr>client_end = endpoint_new n (l_initial_window_size l) (l_maximum_packet_size l),
    server_end = endpoint_new sc w1 m1, ch_sender = mpsc_new\<rparr>"
  obtain t f where s3: "handle_msg None (ChannelOpenForwardedStreamLocal sc w1 m1 path []) ?s2 =
      (Ok (), ?s2\<lparr>socket := t, channels := channels s @ [?h], forward := f\<rparr>)"
    and t: "rx t = Ok p2 # rest" "tx_faults t = []"
    using confirm_channel_run [OF next2, of sc "l_initial_window_size l" "l_maximum_packet_size l" w1 m1] assms(2-6)
    by (auto simp: handle_channel_open_forwarded_stream_local_def mpsc_send_def smodify_def)
  let ?s3 = "?s2\<lparr>socket := t, channels := channels s @ [?h], forward := f\<rparr>"
  have s4: "recv_message ?s3 = (Ok (ChannelOpenConfirmation n sc2 w2 m2), ?s3\<lparr>socket := after_recv p2 t\<rparr>)"
    using t(1) p2 by (subst recv_message_encoded) simp_all
  have "match_msg (opening_response n) ?s1 = (Ok (sc2, w2, m2), ?s3\<lparr>socket := after_recv p2 t\<rparr>)"
    using s2 s3 s4 by (subst match_msg_unfold) (simp add: opening_response_def, subst match_msg_unfold,
      simp add: opening_response_def slift_def)
  moreover have "find_server sc2 (?s3\<lparr>socket := after_recv p2 t\<rparr>) = None"
    using assms(11,12) by (simp add: find_server_def endpoint_new_def)
  ultimately show ?thesis
    using assms(1,3) s1
    by (simp add: channel_open_session_def open_channel_def wait_for_opening_channel_def slift_def
        endpoint_new_def Let_def push_channel_def smodify_def sreturn_def client_ids_def)
qed

section \<open>Authentication\<close>

abbreviation is_authenticated :: "session_inner \<Rightarrow> bool" where
  "is_authenticated s \<equiv> authenticated (socket s)"

lemma keeps_zoom_part:
  "keeps f m \<Longrightarrow> (\<And>t s. g (put t s) = f t) \<Longrightarrow> (\<And>s. g s = f (get s)) \<Longrightarrow> keeps g (zoom get put m)"
  by (auto simp: keeps_def zoom_def split: prod.split) (metis snd_conv)

lemma recv_keeps_auth: "recv_message s = (r, s') \<Longrightarrow> is_authenticated s' = is_authenticated s"
proof (rule keepsD [of is_authenticated])
  have "keeps authenticated recv_packet"
    by (auto simp: keeps_def recv_packet_def bump_server_def split: list.split res.split)
  then show "keeps is_authenticated recv_message"
    unfolding recv_message_def
    by (intro keeps_bind keeps_simple keeps_zoom_part [of authenticated]) simp_all
qed

lemma handle_msg_keeps_auth: "handle_msg None m s = (r, s') \<Longrightarrow> is_authenticated s' = is_authenticated s"
  using keepsD [OF keeps_handle_msg] by (auto simp: fixed_part_def)

lemma send_fields_keeps_auth: "send_fields fs s = (r, s') \<Longrightarrow> is_authenticated s' = is_authenticated s"
  using keepsD [OF keeps_send_fields] by (auto simp: fixed_part_def)

text \<open>A loop whose answers set the flag exactly with the success result.\<close>

lemma match_fuel_auth:
  assumes f: "\<And>m t. fst (f m t) \<noteq> Panic \<and> (\<forall>e. fst (f m t) \<noteq> Err e) \<and>
      (is_authenticated (snd (f m t)) \<longleftrightarrow> is_authenticated t \<or> fst (f m t) = Ok (Some (Ok good)))"
  shows "match_fuel n f s = (r, s') \<Longrightarrow> is_authenticated s' \<longleftrightarrow> is_authenticated s \<or> r = Ok good"
proof (induction n arbitrary: s)
  case (Suc n)
  obtain x t where rt: "recv_message s = (x, t)" by (cases "recv_message s")
  note au = recv_keeps_auth [OF rt]
  show ?case
  proof (cases x)
    case (Ok m)
    obtain y u where yu: "f m t = (y, u)" by (cases "f m t")
    with f [of m t] have y: "y \<noteq> Panic" "\<forall>e. y \<noteq> Err e"
      "is_authenticated u \<longleftrightarrow> is_authenticated t \<or> y = Ok (Some (Ok good))" by simp_all
    then obtain z where z: "y = Ok z" by (cases y) simp_all
    show ?thesis
    proof (cases z)
      case None
      obtain v w where vw: "handle_msg None m u = (v, w)" by (cases "handle_msg None m u")
      note hw = handle_msg_keeps_auth [OF vw]
      show ?thesis
        using Suc rt Ok yu z None vw hw au y(3) by (cases v) auto
    next
      case (Some q)
      with Suc.prems rt Ok yu z au y(3) show ?thesis by (auto simp: slift_def)
    qed
  qed (use Suc.prems rt au in auto)
qed (simp add: sr_defs)

lemma auth_reply_flag:
  "fst (auth_reply m t) \<noteq> Panic \<and> (\<forall>e. fst (auth_reply m t) \<noteq> Err e) \<and>
   (is_authenticated (snd (auth_reply m t)) \<longleftrightarrow>
      is_authenticated t \<or> fst (auth_reply m t) = Ok (Some (Ok AuthSuccess)))"
  "fst (password_reply m t) \<noteq> Panic \<and> (\<forall>e. fst (password_reply m t) \<noteq> Err e) \<and>
   (is_authenticated (snd (password_reply m t)) \<longleftrightarrow>
      is_authenticated t \<or> fst (password_reply m t) = Ok (Some (Ok AuthSuccess)))"
  "fst (probe_reply m t) \<noteq> Panic \<and> (\<forall>e. fst (probe_reply m t) \<noteq> Err e) \<and>
   (is_authenticated (snd (probe_reply m t)) \<longleftrightarrow>
      is_authenticated t \<or> fst (probe_reply m t) = Ok (Some (Ok (Some AuthSuccess))))"
  by (cases m; simp add: auth_reply_def password_reply_def probe_reply_def set_authenticated_def sr_defs
      zoom_def sbind_def)+

lemma match_this_auth:
  "match_this_msg auth_reply s = (r, s') \<Longrightarrow> is_authenticated s' \<longleftrightarrow> is_authenticated s \<or> r = Ok AuthSuccess"
  "match_this_msg password_reply s = (r', s') \<Longrightarrow> is_authenticated s' \<longleftrightarrow> is_authenticated s \<or> r' = Ok AuthSuccess"
  "match_this_msg probe_reply s = (r2, s') \<Longrightarrow> is_authenticated s' \<longleftrightarrow> is_authenticated s \<or> r2 = Ok (Some AuthSuccess)"
  unfolding match_this_msg_def
  by (rule match_fuel_auth [OF auth_reply_flag(1)], assumption)
    (rule match_fuel_auth [OF auth_reply_flag(2)], assumption,
     rule match_fuel_auth [OF auth_reply_flag(3)], assumption)

lemma authenticate_public_key_flag:
  assumes "authenticate_public_key u ty cert pub priv s = (r, s')"
  shows "is_authenticated s' \<longleftrightarrow> is_authenticated s \<or> r = Ok AuthSuccess"
proof (cases "choose_signer ty s")
  case None
  with assms show ?thesis by (auto simp: authenticate_public_key_def sr_defs)
next
  case (Some g)
  let ?m = "if cert then signer_name g @ CERT_SUFFIX else signer_name g"
  obtain r1 t where t: "send_fields (pk_probe u ?m pub) s = (r1, t)" by (cases "send_fields (pk_probe u ?m pub) s")
  note au1 = send_fields_keeps_auth [OF t]
  obtain r2 v where v: "match_this_msg probe_reply t = (r2, v)" by (cases "match_this_msg probe_reply t")
  note au2 = match_this_auth(3) [OF v]
  have fin: "is_authenticated w' \<longleftrightarrow> is_authenticated w \<or> q = Ok AuthSuccess"
    if "sbind (send_fields fs) (\<lambda>_. match_this_msg auth_reply) w = (q, w')" for fs w q w'
  proof -
    obtain r3 x where x: "send_fields fs w = (r3, x)" by (cases "send_fields fs w")
    show ?thesis
      using that x send_fields_keeps_auth [OF x] match_this_auth(1) [of x q w'] by (cases r3) auto
  qed
  show ?thesis
    using assms Some t v au1 au2
      fin [of "pk_request u ?m pub (signer_name g) a" v for a]
    by (cases r1; cases r2) (auto simp: authenticate_public_key_def Let_def slift_def sreturn_def sfail_def
        sbind_def [of "slift _"] split: option.splits res.splits if_splits)
qed

section \<open>The signed bytes\<close>

lemma pk_signed_data_inject:
  assumes "pk_signed_data sid u m b = pk_signed_data sid' u' m' b'"
    and "\<forall>x \<in> {sid, u, m, b, sid', u', m', b'}. fits x"
  shows "sid = sid' \<and> u = u' \<and> m = m' \<and> b = b'"
proof -
  note inj = one_codec.prefix_free
  from assms(1) have eq: "one sid @ 50 # one u @ one ssh_connection @ one (str ''publickey'') @ 1 # one m @ one b @ [] =
    one sid' @ 50 # one u' @ one ssh_connection @ one (str ''publickey'') @ 1 # one m' @ one b' @ []"
    by (simp add: pk_signed_data_def make_buffer_without_header_eq)
  have 1: "sid = sid'" and e1: "one u @ one ssh_connection @ one (str ''publickey'') @ 1 # one m @ one b @ [] =
    one u' @ one ssh_connection @ one (str ''publickey'') @ 1 # one m' @ one b' @ []"
    using inj [OF _ _ eq] assms(2) by simp_all
  have 2: "u = u'" and e2: "one m @ one b @ [] = one m' @ one b' @ []"
    using inj [OF _ _ e1] assms(2) by simp_all
  have 3: "m = m'" and e3: "one b @ [] = one b' @ []"
    using inj [OF _ _ e2] assms(2) by blast+
  have "b = b'" using inj [OF _ _ e3] assms(2) by blast
  with 1 2 3 show ?thesis by simp
qed

section \<open>Cleaning\<close>

definition listening :: "session_inner \<Rightarrow> channel_handle list" where
  "listening s = filter (\<lambda>c. receiving (ch_sender c)) (channels s)"

lemma filter_remove_at: "i < length xs \<Longrightarrow> \<not> P (xs ! i) \<Longrightarrow> filter P (remove_at i xs) = filter P xs"
proof (induction xs arbitrary: i)
  case (Cons x xs)
  then show ?case by (cases i) auto
qed simp

lemma filter_update_out:
  "\<not> P (xs ! i) \<Longrightarrow> \<not> P x \<Longrightarrow> i < length xs \<Longrightarrow> filter P (xs[i := x]) = filter P xs"
proof (induction xs arbitrary: i)
  case (Cons y ys)
  then show ?case by (cases i) auto
qed simp

lemma listening_socket [simp]: "listening (s\<lparr>socket := t\<rparr>) = listening s"
  by (simp add: listening_def)

lemma clean_one_run:
  assumes "i < length (channels s)"
  shows "listening (snd (clean_one i s)) = listening s \<and>
    length (channels s) - 1 \<le> length (channels (snd (clean_one i s))) \<and>
    (\<forall>j < i. j < length (channels (snd (clean_one i s))))"
proof (cases "receiving (ch_sender (channels s ! i))")
  case True
  then show ?thesis using assms by (auto simp: clean_one_def sr_defs)
next
  case False
  let ?h = "channels s ! i"
  obtain r t where rt: "send_channel_close (endpoint_id (server_end ?h)) s = (r, s\<lparr>socket := t\<rparr>)"
    unfolding send_channel_close_def by (rule send_fields_run)
  show ?thesis
    using False assms rt
    by (cases r)
      (auto simp: clean_one_def close_client_def update_channel_def remove_channel_def smodify_def sreturn_def
        listening_def filter_update_out filter_remove_at)
qed

lemma clean_down:
  "n \<le> length (channels s) \<Longrightarrow> listening (snd (for_each clean_one (rev [0..<n]) s)) = listening s"
proof (induction n arbitrary: s)
  case (Suc n)
  obtain r t where rt: "clean_one n s = (r, t)" by (cases "clean_one n s")
  have t: "listening t = listening s" "n \<le> length (channels t)"
    using clean_one_run [of n s] Suc.prems rt by auto
  show ?case using Suc.IH [OF t(2)] t(1) rt by (cases r) simp_all
qed (simp add: sr_defs)

lemma channel_clean_listening: "listening (snd (channel_clean s)) = listening s"
  using clean_down [of "length (channels s)" s] by (simp add: channel_clean_def)

section \<open>A wait ends\<close>

text \<open>Channel numbers for \<open>n\<close> more channels are left.\<close>

definition room :: "nat \<Rightarrow> session_inner \<Rightarrow> bool" where
  "room n s \<longleftrightarrow> (\<forall>i \<in> insert 0 (set (client_ids s)). unat i + n < 2 ^ 32)"

lemma room_keeps: "keeps client_ids m \<Longrightarrow> preserves (room n) m"
  unfolding room_def by (rule keeps_preserves)

lemmas room_rules [preserves_rules] =
  keeps_client_ids [THEN room_keeps] keeps_client_ids_deliver [THEN room_keeps]
  keeps_client_ids_more [THEN room_keeps] keeps_client_ids_drop [THEN room_keeps]

lemma room_remove [preserves_rules]: "preserves (room n) (remove_channel i)"
  using set_remove_at
  by (intro preservesI) (fastforce simp: remove_channel_def smodify_def room_def client_ids_def)

lemma room_next:
  assumes "room (Suc n) s"
  shows "\<exists>k. next_channel_id s = Ok k \<and> unat k + n < 2 ^ 32"
proof -
  define m where "m = foldl max 0 (client_ids s)"
  have "foldl max b xs \<in> insert b (set xs)" for b :: u32 and xs
    by (induction xs arbitrary: b) (auto simp: max_def split: if_splits)
  from this [of 0 "client_ids s"] have m: "unat m + Suc n < 2 ^ 32"
    using assms unfolding room_def m_def by blast
  have "unat (- 1 :: u32) = 2 ^ 32 - 1" by (simp add: unsigned_minus_1_eq_mask mask_eq_exp_minus_1)
  with m have "m \<noteq> - 1" by auto
  moreover have "foldl (\<lambda>i c. max i (endpoint_id (client_end c))) 0 (channels s) = m"
    unfolding m_def client_ids_def by (rule foldl_map)
  moreover have "unat (m + 1) = unat m + 1" using m by (simp add: unat_word_ariths)
  ultimately show ?thesis
    using m by (simp add: next_channel_id_def)
qed

text \<open>A message of the server takes at most one number.\<close>

definition takes_one :: "(session_inner, 'a) sr \<Rightarrow> bool" where
  "takes_one m \<longleftrightarrow> (\<forall>n s. room (Suc n) s \<longrightarrow> room n (snd (m s)))"

lemma room_less: "room (Suc n) s \<Longrightarrow> room n s"
  by (auto simp: room_def)

lemma takes_none: "(\<And>n. preserves (room n) m) \<Longrightarrow> takes_one m"
  unfolding takes_one_def preserves_def using room_less by blast

lemma takes_bind:
  "(\<And>n. preserves (room n) m) \<Longrightarrow> (\<And>a. takes_one (f a)) \<Longrightarrow> takes_one (sbind m f)"
  "takes_one m' \<Longrightarrow> (\<And>n a. preserves (room n) (f' a)) \<Longrightarrow> takes_one (sbind m' f')"
  unfolding takes_one_def preserves_def sbind_def
  by (auto split: prod.split res.split dest: room_less) (metis room_less snd_conv)+

lemma takes_confirm: "takes_one (confirm_channel c a b d e)"
  unfolding takes_one_def
proof (intro allI impI)
  fix n s assume R: "room (Suc n) s"
  from room_next [OF R] obtain k where k: "next_channel_id s = Ok k" "unat k + n < 2 ^ 32" by blast
  obtain r t where rt: "send_fields [FU8 SSH_MSG_CHANNEL_OPEN_CONFIRMATION, FU32 c, FU32 k, FU32 a, FU32 b] s
      = (r, s\<lparr>socket := t\<rparr>)"
    by (rule send_fields_run)
  obtain r2 u where u: "push_channel (IdentityPair k c) a b d e (s\<lparr>socket := t\<rparr>) = (r2, u)"
    by (cases "push_channel (IdentityPair k c) a b d e (s\<lparr>socket := t\<rparr>)")
  have Ru: "room n u" using push_channel_ids [OF u] k(2) room_less [OF R] by (auto simp: room_def)
  let ?rest = "\<lambda>i. sbind (sget frontend_alive) (\<lambda>alive.
     if alive then sreturn (i, IdentityPair k c)
     else sbind (drop_receiver i) (\<lambda>_. sbind upgrade_frontend (\<lambda>_. sreturn (i, IdentityPair k c))))"
  have "preserves (room n) (?rest i)" for i
    unfolding upgrade_frontend_def by (intro preserves_rules)
  then have "room n (snd (?rest i u))" for i using Ru by (simp add: preserves_def)
  then show "room n (snd (confirm_channel c a b d e s))"
    using room_less [OF R] k(1) rt u Ru
    by (cases r; cases r2) (simp_all add: confirm_channel_def slift_def Let_def room_def)
qed

lemma room_closes [preserves_rules]:
  "preserves (room n) (channel_close p)" "preserves (room n) (refuse_open c r t)"
  "preserves (room n) (abandon i p)" "preserves (room n) (verify_forward call c)"
  unfolding abandon_def channel_close_def refuse_open_def verify_forward_def send_channel_close_def
  by (intro preserves_rules)+

lemma takes_open: "takes_one (open_for_notifier v c w m)"
proof (cases v)
  case (Inl e)
  then show ?thesis by (auto simp: open_for_notifier_def intro!: takes_none preserves_rules)
next
  case (Inr a)
  show ?thesis
    unfolding open_for_notifier_def Inr sum.case
    by (rule takes_bind(2) [OF takes_confirm]) (auto intro!: preserves_rules split: prod.split)
qed

lemma takes_handle_msg: "takes_one (handle_msg None m)"
proof -
  have plain: "preserves (room n) (handle_msg None m)"
    if "\<forall>a b c d e f g. m \<noteq> ChannelOpenForwardedTcpIp a b c d e f g" "\<forall>a b c. m \<noteq> ChannelOpenAgentConnect a b c"
      "\<forall>a b c d e. m \<noteq> ChannelOpenX11 a b c d e" "\<forall>a b c d e. m \<noteq> ChannelOpenForwardedStreamLocal a b c d e" for n
    using that
    by (cases m) (auto simp: small_handler_defs handle_channel_data_def replenish_def handle_ext_info_def
        handle_kexinit_def handle_channel_window_adjust_def Let_def room_def
        intro!: preserves_rules split: option.split)
  have take: "takes_one (sbind (confirm_channel c a b d e) (\<lambda>(i, p). case mpsc_send (x p) q of
      (Ok True, q) \<Rightarrow> on_forward (h q) | _ \<Rightarrow> abandon i p))"
    for a b c d e h q and x :: "identity_pair \<Rightarrow> 'z"
    by (rule takes_bind(2) [OF takes_confirm])
      (auto intro!: preserves_rules split: prod.split res.split bool.split simp: room_def)
  have refused: "takes_one (refuse_open c r t)" for c r t by (intro takes_none preserves_rules)
  have open_rest: "takes_one (sbind (sget h) (\<lambda>v. open_for_notifier v c w p))"
    "takes_one (sbind (verify_forward call c) (\<lambda>v. open_for_notifier v c w p))" for h c w p call
    by (intro takes_bind(1) takes_open preserves_rules)+
  show ?thesis
  proof (cases m)
    case (ChannelOpenForwardedTcpIp a b c d e f g)
    then show ?thesis
      by (auto simp: handle_channel_open_forwarded_tcp_ip_def intro!: takes_bind(1) take
          refused preserves_rules split: sum.split)
  next
    case (ChannelOpenForwardedStreamLocal a b c d e)
    then show ?thesis
      by (auto simp: handle_channel_open_forwarded_stream_local_def intro!: takes_bind(1) take
          refused preserves_rules split: option.split)
  next
    case (ChannelOpenX11 a b c d e)
    then show ?thesis
      by (auto simp: handle_channel_open_x11_def intro!: takes_bind(1) takes_open
          preserves_rules split: option.split)
  next
    case (ChannelOpenAgentConnect a b c)
    then show ?thesis by (simp add: handle_channel_open_agent_connect_def open_rest)
  qed (use plain in \<open>auto intro: takes_none\<close>)
qed

text \<open>The message the \<open>j\<close>-th packet still unread holds, if it is one.\<close>

definition incoming :: "session_inner \<Rightarrow> nat \<Rightarrow> message option" where
  "incoming s j =
     (case rx (socket s) ! j of
        Ok p \<Rightarrow> (case Message_parse (payload p) of Ok m \<Rightarrow> Some m | _ \<Rightarrow> None)
      | _ \<Rightarrow> None)"

lemma recv_message_cases:
  assumes "recv_message s = (r, t)" "Panic \<notin> set (rx (socket s))"
  shows "r \<noteq> Panic \<and> channels t = channels s \<and>
    (case rx (socket s) of
       [] \<Rightarrow> r = Err (IOError UnexpectedEof) \<and> t = s
     | p # rest \<Rightarrow> rx (socket t) = rest \<and> (\<forall>m. r = Ok m \<longrightarrow> incoming s 0 = Some m))"
  using assms Message_parse_no_panic
  by (cases "rx (socket s)"; cases "hd (rx (socket s))")
    (auto simp: recv_message_def recv_packet_def bump_server_def zoom_def sbind_def slift_def incoming_def
      split: res.splits)

text \<open>
  A wait whose test does not panic ends with a result: the first message that answers, or an
  error. It has then read \<open>n\<close> packets, and all before the last were no answer.
\<close>

lemma match_msg_ends:
  "windows_ok s \<Longrightarrow> room (pending s) s \<Longrightarrow> Panic \<notin> set (rx (socket s)) \<Longrightarrow> (\<And>m. f m \<noteq> Some Panic) \<Longrightarrow>
   match_msg f s = (r, s') \<Longrightarrow>
   r \<noteq> Panic \<and> windows_ok s' \<and> (\<exists>n \<le> pending s. rx (socket s') = drop n (rx (socket s)) \<and>
     (\<forall>j. Suc j < n \<longrightarrow> (\<exists>m. incoming s j = Some m \<and> f m = None)) \<and>
     (\<forall>a. r = Ok a \<longrightarrow> 0 < n \<and> (\<exists>m. incoming s (n - 1) = Some m \<and> f m = Some (Ok a))))"
proof (induction "rx (socket s)" arbitrary: s)
  case Nil
  from Nil.hyps have "recv_message s = (Err (IOError UnexpectedEof), s)"
    by (cases "recv_message s") (use recv_message_cases Nil in force)
  with Nil.prems(1,5) Nil.hyps show ?case by (auto simp: match_msg_unfold [of f s])
next
  case (Cons p rest)
  obtain q t where qt: "recv_message s = (q, t)" by (cases "recv_message s")
  from recv_message_cases [OF qt Cons.prems(3)] Cons.hyps(2) have
    t: "q \<noteq> Panic" "channels t = channels s" "rx (socket t) = rest" "\<And>m. q = Ok m \<Longrightarrow> incoming s 0 = Some m"
    by (auto split: list.splits)
  have Wt: "windows_ok t" using Cons.prems(1) t(2) by (simp add: windows_ok_def)
  have Rt: "room (Suc (length rest)) t"
    using Cons.prems(2) t(2) Cons.hyps(2) by (metis client_ids_def length_Cons room_def)
  show ?case
  proof (cases q)
    case (Err e)
    with Cons.prems(5) qt t Wt Cons.hyps(2) show ?thesis
      by (intro conjI exI [of _ 1]) (auto simp: match_msg_unfold [of f s] Cons.hyps(2) [symmetric])
  next
    case Panic
    with t show ?thesis by simp
  next
    case (Ok m)
    note m = t(4) [OF Ok]
    show ?thesis
    proof (cases "f m")
      case (Some x)
      with Cons.prems(4,5) qt Ok m t Wt show ?thesis
        by (intro conjI exI [of _ 1])
          (auto simp: match_msg_unfold [of f s] slift_def Cons.hyps(2) [symmetric])
    next
      case None
      obtain y u where yu: "handle_msg None m t = (y, u)" by (cases "handle_msg None m t")
      have u: "rx (socket u) = rest" using keepsD [OF fixed_rx [OF keeps_handle_msg] yu] t(3) by simp
      have Wu: "windows_ok u"
        using preservesD [OF windows_handle_msg yu Wt] by simp
      have y: "y \<noteq> Panic" using handle_msg_no_panic [OF Wt, of m] room_next [OF Rt] yu by auto
      have Ru: "room (pending u) u" using takes_handle_msg [of m] Rt yu u unfolding takes_one_def by (metis snd_conv)
      show ?thesis
      proof (cases y)
        case (Err e)
        with Cons.prems(5) qt Ok None yu u Wu show ?thesis
          by (intro conjI exI [of _ 1]) (auto simp: match_msg_unfold [of f s] Cons.hyps(2) [symmetric])
      next
        case Panic
        with y show ?thesis by simp
      next
        case (Ok z)
        have "match_msg f u = (r, s')"
          using Cons.prems(5) qt \<open>q = Ok m\<close> None yu Ok by (simp add: match_msg_unfold [of f s])
        with Cons.hyps(1) [of u] u Wu Ru Cons.prems(3,4) Cons.hyps(2) obtain n where
          n: "r \<noteq> Panic" "windows_ok s'" "n \<le> length rest" "rx (socket s') = drop n rest"
            "\<And>j. Suc j < n \<Longrightarrow> \<exists>m. incoming u j = Some m \<and> f m = None"
            "\<And>a. r = Ok a \<Longrightarrow> 0 < n \<and> (\<exists>m. incoming u (n - 1) = Some m \<and> f m = Some (Ok a))"
          by (metis list.set_intros(2))
        have shift: "incoming s (Suc j) = incoming u j" for j
          by (simp add: incoming_def u Cons.hyps(2) [symmetric])
        have "\<exists>m. incoming s j = Some m \<and> f m = None" if "Suc j < Suc n" for j
          using that m None n(5) shift by (cases j) auto
        moreover have "incoming s n = incoming u (n - 1)" if "0 < n" using that shift [of "n - 1"] by simp
        ultimately show ?thesis
          using n by (intro conjI exI [of _ "Suc n"]) (auto simp: Cons.hyps(2) [symmetric])
      qed
    qed
  qed
qed

section \<open>Other channels are left alone\<close>

text \<open>The channel a message names, by the number the client gave it.\<close>

definition recipient :: "message \<Rightarrow> u32 option" where
  "recipient m = (case m of
      ChannelOpenConfirmation r sc w p \<Rightarrow> Some r | ChannelOpenFailureMsg r c d l \<Rightarrow> Some r
    | ChannelSuccess r \<Rightarrow> Some r | ChannelFailureMsg r \<Rightarrow> Some r
    | ChannelData r d \<Rightarrow> Some r | ChannelExtendedData r t d \<Rightarrow> Some r
    | ChannelWindowAdjust r n \<Rightarrow> Some r | ChannelFlowControl r w b \<Rightarrow> Some r
    | ChannelExitStatus r w n \<Rightarrow> Some r | ChannelExitSignal r w sg c e l \<Rightarrow> Some r
    | ChannelEof r \<Rightarrow> Some r | ChannelClose r \<Rightarrow> Some r
    | ChannelUnknownRequest r t w \<Rightarrow> Some r | _ \<Rightarrow> None)"

text \<open>All channels with another number, in their order.\<close>

definition away :: "u32 \<Rightarrow> session_inner \<Rightarrow> channel_handle list" where
  "away r s = filter (\<lambda>c. endpoint_id (client_end c) \<noteq> r) (channels s)"

definition others :: "nat \<Rightarrow> session_inner \<Rightarrow> channel_handle list \<times> u32 list" where
  "others i s = ((channels s)[i := undefined], client_ids s)"

lemma others_iff:
  assumes "others i t = others i s" "i < length (channels s)"
  shows "channels t = (channels s)[i := channels t ! i] \<and>
    endpoint_id (client_end (channels t ! i)) = endpoint_id (client_end (channels s ! i))"
proof -
  from assms(1) have u: "(channels t)[i := undefined] = (channels s)[i := undefined]"
    and ids: "client_ids t = client_ids s" by (simp_all add: others_def)
  then have l: "length (channels t) = length (channels s)" by (metis length_list_update)
  have "(channels s)[i := channels t ! i] = (channels t)[i := undefined, i := channels t ! i]"
    unfolding u by simp
  then have "channels t = (channels s)[i := channels t ! i]" by simp
  moreover have "client_ids t ! i = client_ids s ! i" using ids by simp
  ultimately show ?thesis using l assms(2) by (simp add: client_ids_def)
qed

lemma keeps_others_pair:
  "keeps (\<lambda>s. (channels s)[i := undefined]) m \<Longrightarrow> keeps client_ids m \<Longrightarrow> keeps (others i) m"
  by (simp add: keeps_def others_def)

lemma keeps_others [keeps_rules]:
  "keeps (others i) (update_channel i (\<lambda>c. c\<lparr>server_end := (server_end c)\<lparr>closed := b\<rparr>\<rparr>))"
  "keeps (others i) (update_channel i (\<lambda>c. c\<lparr>server_end := (server_end c)\<lparr>eof := b\<rparr>\<rparr>))"
  "keeps (others i) (deliver i m)"
  "keeps (others i) (add_client_used i n)" "keeps (others i) (add_server_used i n)"
  "keeps (others i) (send_fields fs)"
  by (intro keeps_others_pair keeps_rules;
      auto simp: keeps_def update_channel_def deliver_def add_client_used_def add_server_used_def
        smodify_def send_fields_def zoom_def split: prod.split)+

lemma keeps_replenish [keeps_rules]: "keeps (others i) (replenish i)"
  unfolding replenish_def send_channel_window_adjust_def by (intro keeps_rules)

lemma at_client:
  "find_client r s = Some i \<Longrightarrow> keeps f (g i) \<Longrightarrow>
   f (snd (sbind (sget (find_client r)) (case_option n g) s)) = f s"
  by (simp add: sbind_def sget_def keeps_def)

lemma keeps_snd: "keeps f m \<Longrightarrow> f (snd (m s)) = f s"
  by (simp add: keeps_def)

lemma handlers_keep_others:
  assumes f: "find_client r s = Some i"
  shows "others i (snd (handle_channel_data r d st s)) = others i s"
    and "others i (snd (handle_channel_window_adjust r n s)) = others i s"
    and "others i (snd (handle_channel_flow_control r w on s)) = others i s"
    and "others i (snd (handle_channel_exit_status r w n s)) = others i s"
    and "others i (snd (handle_channel_exit_signal r w sg c e l s)) = others i s"
    and "others i (snd (handle_channel_eof r s)) = others i s"
    and "others i (snd (handle_channel_unknown_request r w ty s)) = others i s"
  unfolding handle_channel_data_def handle_channel_window_adjust_def
    handle_channel_flow_control_def handle_channel_exit_status_def handle_channel_exit_signal_def
    handle_channel_eof_def handle_channel_unknown_request_def
  by (rule at_client [OF f], intro keeps_rules)+

lemma unimplemented_keeps_others: "others i (snd (send_unimplemented s)) = others i s"
  unfolding send_unimplemented_def by (rule keeps_snd) (intro keeps_rules)

lemma unimplemented_keeps_channels: "channels (snd (send_unimplemented s)) = channels s"
  by (auto simp: send_unimplemented_def sbind_def sget_def send_fields_def zoom_def split: prod.split)

text \<open>A close removes the channel exactly when this side has closed it too.\<close>

lemma close_effect:
  assumes "find_client r s = Some i"
  shows "others i (snd (handle_channel_close r s)) = others i s \<or>
    closed (client_end (channels s ! i)) \<and> channels (snd (handle_channel_close r s)) = remove_at i (channels s)"
proof -
  have i: "i < length (channels s)" using find_client_length [OF assms] .
  obtain b q where d: "deliver i Close s = (Ok b, s\<lparr>channels := (channels s)[i := (channels s ! i)\<lparr>ch_sender := q\<rparr>]\<rparr>)"
    using deliver_run by blast
  define t1 where "t1 = s\<lparr>channels := (channels s)[i := (channels s ! i)\<lparr>ch_sender := q\<rparr>]\<rparr>"
  obtain t where t: "update_channel i (\<lambda>c. c\<lparr>server_end := (server_end c)\<lparr>closed := True\<rparr>\<rparr>) t1 = (Ok (), t)"
    by (simp add: update_channel_def smodify_def)
  have k: "others i t = others i s"
    using keepsD [OF keeps_others(1) t] keepsD [OF keeps_others(3) d] by (simp add: t1_def)
  have c: "closed (client_end (channels t ! i)) = closed (client_end (channels s ! i))"
    using t i by (auto simp: t1_def update_channel_def smodify_def)
  have "handle_channel_close r s =
      (if closed (client_end (channels t ! i)) then remove_channel i else sreturn ()) t"
    using assms d [folded t1_def] t by (simp add: handle_channel_close_def sbind_def sget_def)
  moreover have "remove_at i (channels t) = remove_at i (channels s)"
    using others_iff [OF k i] by (metis remove_at_update)
  ultimately show ?thesis using k c by (auto simp: remove_channel_def smodify_def sreturn_def)
qed

lemma channel_message_found:
  assumes "recipient m = Some r" "find_client r s = Some i"
  shows "others i (snd (handle_msg h m s)) = others i s \<or>
    m = ChannelClose r \<and> closed (client_end (channels s ! i)) \<and>
    channels (snd (handle_msg h m s)) = remove_at i (channels s)"
  using assms close_effect [OF assms(2)]
  by (cases m) (auto simp: recipient_def handlers_keep_others unimplemented_keeps_others)

lemma channel_message_unknown:
  assumes "recipient m = Some r" "find_client r s = None"
  shows "channels (snd (handle_msg h m s)) = channels s"
  using assms
  by (cases m)
    (auto simp: recipient_def unimplemented_keeps_channels handle_channel_data_def handle_channel_window_adjust_def
      handle_channel_flow_control_def handle_channel_exit_status_def handle_channel_exit_signal_def
      handle_channel_eof_def handle_channel_unknown_request_def handle_channel_close_def sbind_def sget_def sreturn_def)

text \<open>What a message to the channel \<open>r\<close> makes of the list of channels.\<close>

lemma channel_message_effect:
  assumes "recipient m = Some r"
  shows "away r (snd (handle_msg h m s)) = away r s \<and>
    (case find_client r s of
       None \<Rightarrow> channels (snd (handle_msg h m s)) = channels s
     | Some i \<Rightarrow>
         (\<exists>c. endpoint_id (client_end c) = r \<and> channels (snd (handle_msg h m s)) = (channels s)[i := c]) \<or>
         m = ChannelClose r \<and> closed (client_end (channels s ! i)) \<and>
         channels (snd (handle_msg h m s)) = remove_at i (channels s))"
proof (cases "find_client r s")
  case None
  with channel_message_unknown [OF assms None, of h] show ?thesis by (simp add: away_def)
next
  case (Some i)
  let ?t = "snd (handle_msg h m s)"
  have i: "i < length (channels s)" "endpoint_id (client_end (channels s ! i)) = r"
    using Some position_Some by (auto simp: find_client_def dest!: position_Some)
  from channel_message_found [OF assms Some, of h] show ?thesis
  proof
    assume "others i ?t = others i s"
    from others_iff [OF this i(1)] i have t: "channels ?t = (channels s)[i := channels ?t ! i]"
      "endpoint_id (client_end (channels ?t ! i)) = r" by simp_all
    from t(1) have "away r ?t = filter (\<lambda>c. endpoint_id (client_end c) \<noteq> r) ((channels s)[i := channels ?t ! i])"
      by (simp add: away_def)
    also have "\<dots> = away r s" unfolding away_def using i t(2) by (intro filter_update_out) simp_all
    finally show ?thesis using Some t by auto
  next
    assume "m = ChannelClose r \<and> closed (client_end (channels s ! i)) \<and> channels ?t = remove_at i (channels s)"
    then have t: "m = ChannelClose r" "closed (client_end (channels s ! i))" "channels ?t = remove_at i (channels s)"
      by blast+
    moreover have "filter (\<lambda>c. endpoint_id (client_end c) \<noteq> r) (remove_at i (channels s)) =
        filter (\<lambda>c. endpoint_id (client_end c) \<noteq> r) (channels s)"
      using i by (simp add: filter_remove_at)
    ultimately show ?thesis unfolding away_def Some option.case t(3) by blast
  qed
qed

end
