(* ===== verification/Rekey.thy ===== *)
theory Rekey
  imports Handshake SessionBehaviour
begin

text \<open>
  The key re-exchange on a live session, \<open>RekeyExchange\<close> of \<open>src/session/handshake.rs\<close>, which
  \<open>SessionInner::renegotiate\<close> runs. Messages that do not belong to it go to the session's own
  \<open>handle_msg\<close>. The session of the model sends and receives payloads, so the change of keys is
  what \<open>upgrade_client\<close> and \<open>upgrade_server\<close> of the stream are called with, and when.
\<close>

section \<open>The state\<close>

text \<open>The parts of \<open>SessionInner\<close> that only the re-exchange reads: they never change.\<close>

record ('e, 'd, 'c, 'z, 'm) rekey_env =
  env_config :: "('e, 'd, 'c, 'z, 'm) hs_config"
  env_compat :: compat_options
  env_client_version :: bytes
  env_server_version :: bytes
  env_cookie :: "nat \<Rightarrow> u8"

text \<open>\<open>installed_out\<close> and \<open>installed_in\<close>: the last \<open>upgrade_client\<close> and \<open>upgrade_server\<close>, each with
  the number of payloads that were sent, or left unread, at that moment.\<close>

record ('e, 'd, 'c, 'z, 'm) rekey_exchange =
  rx_session :: session_inner
  rx_client_kex :: "bytes option"
  rx_matched :: "('e, 'd, 'c, 'z, 'm) matched_methods option"
  rx_server_kex :: "bytes option"
  installed_out :: "('e \<times> 'c \<times> 'm \<times> nat) option"
  installed_in :: "('d \<times> 'z \<times> 'm \<times> nat) option"

definition rekey_new :: "session_inner \<Rightarrow> ('e, 'd, 'c, 'z, 'm) rekey_exchange" where
  "rekey_new s =
     \<lparr>rx_session = s, rx_client_kex = None, rx_matched = None, rx_server_kex = None,
      installed_out = None, installed_in = None\<rparr>"

abbreviation on_session ::
    "(session_inner, 'a) sr \<Rightarrow> (('e, 'd, 'c, 'z, 'm) rekey_exchange, 'a) sr" where
  "on_session \<equiv> zoom rx_session (\<lambda>t s. s\<lparr>rx_session := t\<rparr>)"

text \<open>The matched methods are taken out once; using them without that is a panic.\<close>

definition on_rematched ::
    "(('e, 'd, 'c, 'z, 'm) matched_methods, 'a) sr \<Rightarrow> (('e, 'd, 'c, 'z, 'm) rekey_exchange, 'a) sr" where
  "on_rematched m s =
     (case rx_matched s of None \<Rightarrow> (Panic, s) | Some t \<Rightarrow> (case m t of (r, t') \<Rightarrow> (r, s\<lparr>rx_matched := Some t'\<rparr>)))"

abbreviation on_rekex ::
    "(key_exchange, 'a) sr \<Rightarrow> (('e, 'd, 'c, 'z, 'm) rekey_exchange, 'a) sr" where
  "on_rekex m \<equiv> on_rematched (zoom m_kex (\<lambda>k t. t\<lparr>m_kex := k\<rparr>) m)"

section \<open>Waiting on the session\<close>

text \<open>
  Read packets until one has the code; the others are handled by the session. Each takes a
  packet off the transport, so one round more than there are packets is enough.
\<close>

primrec await_fuel :: "nat \<Rightarrow> u8 \<Rightarrow> (session_inner, bytes) sr" where
  "await_fuel 0 code = spanic"
| "await_fuel (Suc n) code =
     sbind (on_socket recv_packet) (\<lambda>p. sbind (slift (packet_code p)) (\<lambda>c.
     if c = code then sreturn (payload p)
     else sbind (slift (Message_parse (payload p))) (\<lambda>msg.
       sbind (handle_msg None msg) (\<lambda>_. await_fuel n code))))"

definition await_packet :: "u8 \<Rightarrow> (session_inner, bytes) sr" where
  "await_packet code s = await_fuel (Suc (length (rx (socket s)))) code s"

section \<open>Negotiation\<close>

definition rekey_negotiate ::
    "('e, 'd, 'c, 'z, 'm) rekey_env \<Rightarrow> bytes option \<Rightarrow> (('e, 'd, 'c, 'z, 'm) rekey_exchange, unit) sr" where
  "rekey_negotiate env server_kex =
     (let cf = env_config env;
          pad = (\<not> compat_disabled cf \<and> curve25519_pad (env_compat env));
          v = methods_build (env_cookie env) (do_compat pad (from_config cf)) in
      sbind (on_session (on_socket (send_payload v))) (\<lambda>_.
      sbind (smodify (\<lambda>s. s\<lparr>rx_client_kex := Some v\<rparr>)) (\<lambda>_.
      sbind (case server_kex of
          Some d \<Rightarrow> sreturn d
        | None \<Rightarrow> on_session (await_packet SSH_MSG_KEXINIT)) (\<lambda>init.
      sbind (slift (methods_parse init)) (\<lambda>server_method.
      sbind (slift (negotiate cf server_method)) (\<lambda>matched.
      smodify (\<lambda>s. s\<lparr>rx_matched := Some matched, rx_server_kex := Some init\<rparr>)))))))"

section \<open>Key exchange\<close>

definition rekey_group ::
    "('e, 'd, 'c, 'z, 'm) rekey_env \<Rightarrow> (('e, 'd, 'c, 'z, 'm) rekey_exchange, unit) sr" where
  "rekey_group env =
     sbind (on_rematched (sget (\<lambda>m. m))) (\<lambda>m.
     if \<not> is_gex (kex_method (m_kex m)) then sreturn ()
     else
       let limited = (limited_dh_ex (env_compat env) \<and> \<not> compat_disabled (env_config env)) in
       sbind (on_rekex (smodify (set_recommended_number_of_bits (gex_bits_for limited (gex_need m))))) (\<lambda>_.
       sbind (on_rekex (sget kex_method)) (\<lambda>g.
       sbind (on_session (on_socket (send_payload (put_u32 (gex_max g) (put_u32 (gex_bits g)
          (put_u32 (gex_min g) (put_u8 SSH_MSG_KEX_DH_GEX_REQUEST []))))))) (\<lambda>_.
       sbind (on_session (await_packet SSH_MSG_KEX_DH_GEX_GROUP)) (\<lambda>d.
       sbind (slift (parse_group d)) (\<lambda>(p, g). on_rekex (exchange_initialize p g)))))))"

definition rekey_info ::
    "('e, 'd, 'c, 'z, 'm) rekey_env \<Rightarrow> ('e, 'd, 'c, 'z, 'm) rekey_exchange \<Rightarrow> bytes \<Rightarrow> bytes \<Rightarrow> bytes \<Rightarrow>
     bytes \<Rightarrow> information res" where
  "rekey_info env s host_key own peer secret =
     res_bind (unwrap (rx_client_kex s)) (\<lambda>ck.
     res_bind (unwrap (rx_server_kex s)) (\<lambda>sk.
     Ok (information.make (env_client_version env) (env_server_version env) ck sk host_key own peer secret)))"

text \<open>The session id stays the hash of the first exchange.\<close>

definition rekey_accept ::
    "('e, 'd, 'c, 'z, 'm) rekey_env \<Rightarrow> bytes \<Rightarrow> bytes \<times> bytes \<times> bytes \<Rightarrow>
     (('e, 'd, 'c, 'z, 'm) rekey_exchange, ('e, 'd, 'm) session_keys) sr" where
  "rekey_accept env own = (\<lambda>(host_key, peer, signature).
     sbind (on_rekex (compute_secret_key peer)) (\<lambda>secret.
     sbind (sget (\<lambda>s. rekey_info env s host_key own peer secret)) (\<lambda>info.
     sbind (slift info) (\<lambda>info.
     sbind (on_rekex (sget (compute_hash info))) (\<lambda>hash.
     sbind (slift hash) (\<lambda>hash.
     sbind (on_rematched (sget m_host_key)) (\<lambda>v.
     sbind (slift (verifier_initialize v host_key)) (\<lambda>_.
     sbind (slift (verifier_verify v host_key signature hash)) (\<lambda>valid.
     if \<not> valid then sfail (HandshakeError SignatureVerificationFailed)
     else
       sbind (on_session (ask_notifier (VerifyServerHostKey (verifier_name v) host_key))) (\<lambda>a.
       if \<not> accept a then sfail (HandshakeError ServerHostKeyRejectedByUser)
       else
         sbind (sget (\<lambda>s. session_id (rx_session s))) (\<lambda>sid.
         sbind (on_rematched (sget (\<lambda>m. initialize m hash sid (put_one secret [])))) slift)))))))))))"

text \<open>\<open>SSH_MSG_NEWKEYS\<close> out, then the new outgoing keys; the incoming ones after the server's.\<close>

definition rekey_switch ::
    "('e, 'd, 'm) session_keys \<Rightarrow> (('e, 'd, 'c, 'z, 'm) rekey_exchange, unit) sr" where
  "rekey_switch keys =
     sbind (on_session (on_socket (send_payload [SSH_MSG_NEWKEYS]))) (\<lambda>_.
     sbind (on_rematched (sget (\<lambda>m. m))) (\<lambda>m.
     sbind (smodify (\<lambda>s. s\<lparr>installed_out := Some (key_encrypt keys, m_encode m, key_mac_out keys,
        length (tx (socket (rx_session s))))\<rparr>)) (\<lambda>_.
     sbind (on_session (await_packet SSH_MSG_NEWKEYS)) (\<lambda>_.
     smodify (\<lambda>s. s\<lparr>installed_in := Some (key_decrypt keys, m_decode m, key_mac_in keys,
        length (rx (socket (rx_session s))))\<rparr>)))))"

definition rekey_key_exchange ::
    "('e, 'd, 'c, 'z, 'm) rekey_env \<Rightarrow> (('e, 'd, 'c, 'z, 'm) rekey_exchange, unit) sr" where
  "rekey_key_exchange env =
     sbind (rekey_group env) (\<lambda>_.
     sbind (on_rekex generate_key) (\<lambda>own.
     sbind (on_rekex (sget kex_request_code)) (\<lambda>request.
     sbind (on_session (on_socket (send_payload (put_one own (put_u8 request []))))) (\<lambda>_.
     sbind (on_rekex (sget kex_response_code)) (\<lambda>response.
     sbind (on_session (await_packet response)) (\<lambda>d.
     sbind (slift (parse_reply d)) (\<lambda>reply.
     sbind (rekey_accept env own reply) rekey_switch)))))))"

definition rekey_exec ::
    "('e, 'd, 'c, 'z, 'm) rekey_env \<Rightarrow> bytes option \<Rightarrow> (('e, 'd, 'c, 'z, 'm) rekey_exchange, unit) sr" where
  "rekey_exec env server_kex = sbind (rekey_negotiate env server_kex) (\<lambda>_. rekey_key_exchange env)"

text \<open>\<open>SessionInner::renegotiate\<close>, the procedure that \<open>handle_msg\<close>, \<open>handle_event\<close> and \<open>exec\<close> call.\<close>

definition renegotiate :: "('e, 'd, 'c, 'z, 'm) rekey_env \<Rightarrow> rekey" where
  "renegotiate env server_kex s =
     (case rekey_exec env server_kex (rekey_new s) of (r, x) \<Rightarrow> (r, rx_session x))"

definition session_exec :: "('e, 'd, 'c, 'z, 'm) rekey_env \<Rightarrow> turn list \<Rightarrow> (session_inner, unit) sr" where
  "session_exec env = exec (renegotiate env)"

end
