(* ===== verification/RekeyFacts.thy ===== *)
theory RekeyFacts
  imports Rekey
begin

text \<open>
  What a key re-exchange leaves alone: the windows, the session id and authentication of the
  session; what was sent stays sent, and what was asked stays asked; and the waits for its packets
  return.
\<close>

section \<open>The waits return\<close>

lemma await_fuel_enough:
  "pending s < n \<Longrightarrow> pending s < k \<Longrightarrow> await_fuel n code s = await_fuel k code s"
proof (induction n arbitrary: s k)
  case (Suc n)
  then obtain k' where k: "k = Suc k'" by (cases k) simp_all
  obtain r t where rt: "on_socket recv_packet s = (r, t)" by (cases "on_socket recv_packet s")
  show ?case
  proof (cases r)
    case (Ok p)
    have p: "pending s = Suc (pending t)"
      using rt Ok recv_packet_takes by (auto simp: zoom_Ok_iff)
    have step: "sbind (handle_msg None m) (\<lambda>_. await_fuel n code) t =
        sbind (handle_msg None m) (\<lambda>_. await_fuel k' code) t" for m
    proof -
      obtain y v where v: "handle_msg None m t = (y, v)" by (cases "handle_msg None m t")
      have "pending v = pending t" using keepsD [OF fixed_rx [OF keeps_handle_msg] v] by simp
      with Suc.IH [of v k'] Suc.prems p k v show ?thesis by (cases y) simp_all
    qed
    show ?thesis
      using rt Ok k step by (cases "packet_code p"; cases "Message_parse (payload p)") (simp_all add: slift_def)
  qed (use rt k in simp_all)
qed simp

lemma await_packet_unfold:
  "await_packet code s =
     sbind (on_socket recv_packet) (\<lambda>p. sbind (slift (packet_code p)) (\<lambda>c.
     if c = code then sreturn (payload p)
     else sbind (slift (Message_parse (payload p))) (\<lambda>msg.
       sbind (handle_msg None msg) (\<lambda>_. await_packet code)))) s"
proof -
  obtain r t where rt: "on_socket recv_packet s = (r, t)" by (cases "on_socket recv_packet s")
  show ?thesis
  proof (cases r)
    case (Ok p)
    have p: "pending s = Suc (pending t)"
      using rt Ok recv_packet_takes by (auto simp: zoom_Ok_iff)
    have step: "sbind (handle_msg None m) (\<lambda>_. await_fuel (pending s) code) t =
        sbind (handle_msg None m) (\<lambda>_. await_packet code) t" for m
    proof -
      obtain y v where v: "handle_msg None m t = (y, v)" by (cases "handle_msg None m t")
      have "pending v = pending t" using keepsD [OF fixed_rx [OF keeps_handle_msg] v] by simp
      with p v await_fuel_enough [of v "pending s" "Suc (pending v)" code] show ?thesis
        by (cases y) (simp_all add: await_packet_def)
    qed
    show ?thesis
      using rt Ok step by (cases "packet_code p"; cases "Message_parse (payload p)")
        (simp_all add: slift_def await_packet_def)
  qed (use rt in \<open>simp_all add: await_packet_def\<close>)
qed

section \<open>Invariants of the session carry over\<close>

text \<open>
  The operations a re-exchange applies to the session: it sends and receives packets, handles
  messages and asks the notifier. What those keep, the re-exchange keeps.
\<close>

definition session_stable :: "(session_inner \<Rightarrow> bool) \<Rightarrow> bool" where
  "session_stable P \<longleftrightarrow> (\<forall>d. preserves P (on_socket (send_payload d))) \<and>
     preserves P (on_socket recv_packet) \<and> (\<forall>m. preserves P (handle_msg None m)) \<and>
     (\<forall>c. preserves P (ask_notifier c))"

lemma await_preserves:
  assumes "session_stable P"
  shows "preserves P (await_packet code)"
proof -
  have f: "preserves P (await_fuel n code)" for n
    using assms by (induction n) (auto simp: session_stable_def intro!: preserves_rules)
  show ?thesis
    unfolding preserves_def await_packet_def using f by (simp add: preserves_def del: await_fuel.simps)
qed

lemma lift_session: "preserves P m \<Longrightarrow> preserves (\<lambda>x. P (rx_session x)) (on_session m)"
  by (auto simp: preserves_def zoom_def split: prod.split)

lemma lift_matched: "preserves (\<lambda>x. P (rx_session x)) (on_rematched m)"
  by (simp add: preserves_def on_rematched_def split: option.split prod.split)

lemma rekey_parts_preserve:
  assumes "session_stable P"
  shows "preserves (\<lambda>x. P (rx_session x)) (rekey_negotiate env d)"
    and "preserves (\<lambda>x. P (rx_session x)) (rekey_group env)"
    and "preserves (\<lambda>x. P (rx_session x)) (rekey_accept env own reply)"
    and "preserves (\<lambda>x. P (rx_session x)) (rekey_switch keys)"
proof -
  have S: "preserves P (on_socket (send_payload x))" "preserves P (ask_notifier c)" for x c
    using assms by (simp_all add: session_stable_def)
  note R = preserves_rules lift_matched lift_session [OF S(1)] lift_session [OF S(2)]
    lift_session [OF await_preserves [OF assms]]
  show "preserves (\<lambda>x. P (rx_session x)) (rekey_negotiate env d)"
    unfolding rekey_negotiate_def by (intro R) simp_all
  show "preserves (\<lambda>x. P (rx_session x)) (rekey_group env)"
    unfolding rekey_group_def by (intro R)
  show "preserves (\<lambda>x. P (rx_session x)) (rekey_accept env own reply)"
    unfolding rekey_accept_def by (intro R)
  show "preserves (\<lambda>x. P (rx_session x)) (rekey_switch keys)"
    unfolding rekey_switch_def by (intro R) simp_all
qed

lemma rekey_preserves:
  assumes "session_stable P"
  shows "preserves P (renegotiate env d)"
proof -
  have S: "preserves P (on_socket (send_payload x))" for x
    using assms by (simp add: session_stable_def)
  have "preserves (\<lambda>x. P (rx_session x)) (rekey_exec env d)"
    unfolding rekey_exec_def rekey_key_exchange_def
    by (intro preserves_rules rekey_parts_preserve [OF assms] lift_matched lift_session [OF S]
        lift_session [OF await_preserves [OF assms]])
  then show ?thesis
    by (auto simp: preserves_def renegotiate_def rekey_new_def split: prod.split)
      (metis rekey_exchange.select_convs(1) snd_conv)
qed

lemma windows_stable: "session_stable windows_ok"
  unfolding session_stable_def
  by (auto intro!: preserves_zoom windows_ask windows_handle_msg)

lemma windows_renegotiate_run: "preserves windows_ok (renegotiate env d)"
  by (rule rekey_preserves [OF windows_stable])

lemma ids_stable: "session_stable ids_ok"
  unfolding session_stable_def
  by (auto intro!: ids_handle_msg ids_keeps keeps_client_ids_more)

text \<open>The session id, the configuration and the authenticated flag.\<close>

definition login :: "session_inner \<Rightarrow> _" where
  "login s = (session_id s, config s, is_authenticated s)"

lemma login_stable: "session_stable (\<lambda>s. login s = l)"
  unfolding session_stable_def
proof (intro conjI allI)
  show "preserves (\<lambda>s. login s = l) (on_socket (send_payload d))" for d
    by (auto simp: preserves_def zoom_def login_def send_payload_def bump_client_def split: prod.splits list.splits option.splits if_splits)
  show "preserves (\<lambda>s. login s = l) (on_socket recv_packet)"
    by (auto simp: preserves_def zoom_def login_def recv_packet_def bump_server_def split: prod.splits list.splits res.splits)
  show "preserves (\<lambda>s. login s = l) (handle_msg None m)" for m
    using keeps_handle_msg [of m] by (auto simp: keeps_def preserves_def fixed_part_def login_def)
  show "preserves (\<lambda>s. login s = l) (ask_notifier c)" for c
    by (simp add: preserves_def ask_notifier_def login_def Let_def)
qed

text \<open>What was sent stays sent.\<close>

definition wrote :: "bytes list \<Rightarrow> session_inner \<Rightarrow> bool" where
  "wrote ds s \<longleftrightarrow> (\<exists>r. tx (socket s) = ds @ r)"

lemma wrote_other [simp]:
  "wrote ds (s\<lparr>notifier := n\<rparr>) = wrote ds s" "wrote ds (s\<lparr>forward := f\<rparr>) = wrote ds s"
  "wrote ds (s\<lparr>channels := c\<rparr>) = wrote ds s" "wrote ds (s\<lparr>renegotiating := b\<rparr>) = wrote ds s"
  "wrote ds (s\<lparr>renegotiate_msg := m\<rparr>) = wrote ds s" "wrote ds (s\<lparr>server_algorithms := l\<rparr>) = wrote ds s"
  "wrote ds (s\<lparr>server_ping_supported := b\<rparr>) = wrote ds s" "wrote ds (s\<lparr>queued_closes := q\<rparr>) = wrote ds s"
  by (simp_all add: wrote_def)

lemma wrote_send [preserves_rules]: "preserves (wrote ds) (on_socket (send_payload d))"
  by (auto simp: preserves_def zoom_def wrote_def send_payload_def bump_client_def
      split: prod.splits list.splits option.splits if_splits)

lemma wrote_fields [preserves_rules]: "preserves (wrote ds) (send_fields fs)"
  unfolding send_fields_def by (rule wrote_send)

lemma wrote_recv [preserves_rules]: "preserves (wrote ds) (on_socket recv_packet)"
  by (auto simp: preserves_def zoom_def wrote_def recv_packet_def bump_server_def
      split: prod.splits list.splits res.splits)

lemma wrote_small [preserves_rules]:
  "preserves (wrote ds) (deliver i m)" "preserves (wrote ds) (update_channel i f)"
  "preserves (wrote ds) (remove_channel i)" "preserves (wrote ds) (ask_notifier c)"
  "preserves (wrote ds) (add_client_used i n)" "preserves (wrote ds) (add_server_used i n)"
  "preserves (wrote ds) (drop_receiver i)" "preserves (wrote ds) (drop_channel i p)"
  "preserves (wrote ds) (close_client i)" "preserves (wrote ds) (push_channel p a b x y)"
  by (auto simp: preserves_def deliver_def update_channel_def remove_channel_def ask_notifier_def
      add_client_used_def add_server_used_def drop_receiver_def drop_channel_def close_client_def
      push_channel_def sr_defs sbind_def Let_def split: prod.split)

lemma wrote_handle_msg: "preserves (wrote ds) (handle_msg None m)"
  by (cases m) (auto simp: handler_defs handle_ext_info_def Let_def intro!: preserves_rules split: option.split)

lemma wrote_stable: "session_stable (wrote ds)"
  unfolding session_stable_def by (auto intro: preserves_rules wrote_handle_msg)

text \<open>What the notifier was asked stays on record.\<close>

definition asked_first :: "notifier_call list \<Rightarrow> session_inner \<Rightarrow> bool" where
  "asked_first cs s \<longleftrightarrow> (\<exists>r. calls (notifier s) = cs @ r)"

lemma asked_first_other [simp]:
  "asked_first cs (s\<lparr>socket := t\<rparr>) = asked_first cs s" "asked_first cs (s\<lparr>forward := f\<rparr>) = asked_first cs s"
  "asked_first cs (s\<lparr>channels := c\<rparr>) = asked_first cs s" "asked_first cs (s\<lparr>renegotiating := b\<rparr>) = asked_first cs s"
  "asked_first cs (s\<lparr>renegotiate_msg := m\<rparr>) = asked_first cs s"
  "asked_first cs (s\<lparr>server_algorithms := l\<rparr>) = asked_first cs s"
  "asked_first cs (s\<lparr>server_ping_supported := b\<rparr>) = asked_first cs s"
  "asked_first cs (s\<lparr>queued_closes := q\<rparr>) = asked_first cs s"
  by (simp_all add: asked_first_def)

lemma asked_first_small [preserves_rules]:
  "preserves (asked_first cs) (deliver i m)" "preserves (asked_first cs) (update_channel i f)"
  "preserves (asked_first cs) (remove_channel i)" "preserves (asked_first cs) (ask_notifier c)"
  "preserves (asked_first cs) (add_client_used i n)" "preserves (asked_first cs) (add_server_used i n)"
  "preserves (asked_first cs) (drop_receiver i)" "preserves (asked_first cs) (drop_channel i p)"
  "preserves (asked_first cs) (close_client i)" "preserves (asked_first cs) (push_channel p a b x y)"
  by (auto simp: preserves_def asked_first_def deliver_def update_channel_def remove_channel_def ask_notifier_def
      add_client_used_def add_server_used_def drop_receiver_def drop_channel_def close_client_def
      push_channel_def sr_defs sbind_def Let_def split: prod.split)

lemma asked_first_stable: "session_stable (asked_first cs)"
  unfolding session_stable_def
proof (intro conjI allI)
  show "preserves (asked_first cs) (handle_msg None m)" for m
    by (cases m) (auto simp: handler_defs handle_ext_info_def Let_def intro!: preserves_rules split: option.split)
qed (intro preserves_rules; simp)+

end
