(* ===== verification/SessionProperties.thy ===== *)
theory SessionProperties
  imports SessionBehaviour
begin

text \<open>
  The properties of an established session, stated over the model of
  \<open>src/session/backend.rs\<close>: safety and flow control of its channels, their numbering and
  closing, authentication, and the waits for scripted answers.
\<close>

section \<open>A session with two channels\<close>

definition demo_transport :: "packet res list \<Rightarrow> transport" where
  "demo_transport ps = \<lparr>client = endpoint_default, server = endpoint_default, rx = ps, tx = [],
     tx_faults = [], authenticated = False\<rparr>"

definition demo_channel :: "u32 \<Rightarrow> u32 \<Rightarrow> channel_handle" where
  "demo_channel c s = \<lparr>client_end = endpoint_new c 2000 512, server_end = endpoint_new s 5 2,
     ch_sender = mpsc_new\<rparr>"

definition demo_session :: "packet res list \<Rightarrow> session_inner" where
  "demo_session ps =
     (session_new [7] (demo_transport ps) \<lparr>calls = [], answers = []\<rparr> False
        \<lparr>ext_enabled = True, disable_compat = False, signers = []\<rparr>)
     \<lparr>channels := [demo_channel 1 10, demo_channel 2 20]\<rparr>"

lemmas demo_defs = demo_session_def demo_transport_def demo_channel_def session_new_def endpoint_new_def
  endpoint_default_def mpsc_new_def

lemma demo_windows: "windows_ok (demo_session ps)"
  by (simp add: demo_defs windows_ok_def channel_ok_def endpoint_ok_def)

lemma demo_next: "next_channel_id (demo_session ps) = Ok 3"
  by (simp add: demo_defs next_channel_id_def Let_def)

lemma demo_find: "find_client 1 (demo_session ps) = Some 0" "find_client 2 (demo_session ps) = Some 1"
  by (simp_all add: demo_defs find_client_def)

lemma demo_parts:
  "channels (demo_session ps) = [demo_channel 1 10, demo_channel 2 20]"
  "tx_faults (socket (demo_session ps)) = []" "rx (socket (demo_session ps)) = ps"
  "is_authenticated (demo_session ps) = False" "frontend_alive (demo_session ps)"
  by (simp_all add: demo_session_def session_new_def demo_transport_def)

section \<open>Messages of the server\<close>

text \<open>C6: No message the server can send makes the client panic while its channels are in order
  and a channel number is free, and every outcome, errors included, leaves them in order.\<close>

theorem server_messages_safe:
  assumes "windows_ok s" "next_channel_id s \<noteq> Panic"
  shows "fst (handle_msg None m s) \<noteq> Panic \<and> windows_ok (snd (handle_msg None m s))"
proof
  show "fst (handle_msg None m s) \<noteq> Panic" using assms by (rule handle_msg_no_panic)
  have "preserves windows_ok (handle_msg None m)" by (rule windows_handle_msg) simp
  with assms(1) show "windows_ok (snd (handle_msg None m s))" by (simp add: preserves_def)
qed

theorem server_messages_safe_witness:
  "fst (handle_msg None (ChannelData 1 [1, 2, 3]) (demo_session [])) \<noteq> Panic \<and>
   windows_ok (snd (handle_msg None (ChannelData 1 [1, 2, 3]) (demo_session [])))"
  by (rule server_messages_safe) (simp_all add: demo_windows demo_next)

text \<open>C16: A message addressed to a channel, closes and replies included, leaves every other channel as
  it is and in its place: it changes nothing when no channel has the number, and otherwise only
  the entry with that number, which it removes exactly on a close the client has asked for too.\<close>

theorem channels_isolated:
  assumes "recipient m = Some r" "handle_msg h m s = (res, s')"
  shows "away r s' = away r s \<and>
    (case find_client r s of
       None \<Rightarrow> channels s' = channels s
     | Some i \<Rightarrow>
         (\<exists>c. endpoint_id (client_end c) = r \<and> channels s' = (channels s)[i := c]) \<or>
         m = ChannelClose r \<and> closed (client_end (channels s ! i)) \<and> channels s' = remove_at i (channels s))"
  using channel_message_effect [OF assms(1), of h s] unfolding assms(2) snd_conv .

theorem channels_isolated_witness:
  "\<exists>s'. handle_msg None (ChannelClose 1) (demo_session []) = (Ok (), s') \<and> away 1 s' = [demo_channel 2 20]"
proof -
  have "recipient (ChannelClose 1) = Some 1" by (simp add: recipient_def)
  moreover obtain s' where "handle_msg None (ChannelClose 1) (demo_session []) = (Ok (), s')"
    by (simp add: demo_find handle_channel_close_def deliver_def mpsc_send_def update_channel_def sr_defs sbind_def
        demo_parts demo_channel_def endpoint_new_def mpsc_new_def)
  moreover have "away 1 (demo_session []) = [demo_channel 2 20]"
    by (simp add: away_def demo_parts demo_channel_def endpoint_new_def)
  ultimately show ?thesis using channels_isolated by metis
qed

text \<open>No message of the server touches the authentication state, the session id, the
  configuration or the packets still unread: an unsolicited \<open>SSH_MSG_USERAUTH_SUCCESS\<close> has no
  effect on them.\<close>

theorem server_messages_confined:
  "fixed_part (snd (handle_msg None m s)) = fixed_part s"
  using keeps_handle_msg [of m] by (simp add: keeps_def)

section \<open>Channel data\<close>

text \<open>Data within the packet size and the window is delivered to the application unchanged, and
  a window adjustment for exactly what was used goes out once fewer than 1024 bytes are left.\<close>

theorem channel_data_delivered:
  assumes "windows_ok s" and "find_client c s = Some i" "channels s ! i = h"
    and "length data \<le> unat (maximum_packet_size (client_end h))"
      "window_left (client_end h) = Ok left" "length data \<le> left"
    and "receiving (ch_sender h)" "tx_faults (socket s) = []"
  shows "\<exists>t u. handle_channel_data c data st s =
      (Ok (), s\<lparr>socket := t, channels := (channels s)[i := (take_data st data h)\<lparr>client_end := u\<rparr>]\<rparr>) \<and>
    (if left - length data < 1024
     then t = after_send (make_buffer_without_header [FU8 SSH_MSG_CHANNEL_WINDOW_ADJUST,
            FU32 (endpoint_id (server_end h)),
            FU32 (of_int (used_window_size (client_end h) + int (length data)))]) (socket s) \<and>
          u = (client_end h)\<lparr>used_window_size := 0\<rparr>
     else t = socket s \<and> u = use_window (int (length data)) (client_end h))"
  using assms by (rule channel_data_run)

theorem channel_data_delivered_witness:
  "\<exists>s'. handle_channel_data 2 [5, 6] False (demo_session []) = (Ok (), s') \<and>
     queued (ch_sender (channels s' ! 1)) = [Stdout [5, 6]] \<and> tx (socket s') = []"
proof -
  have w: "window_left (client_end (demo_channel 2 20)) = Ok 2000"
    by (simp add: window_left_def demo_channel_def endpoint_new_def)
  have p: "length [5, 6 :: u8] \<le> unat (maximum_packet_size (client_end (demo_channel 2 20)))"
    "length [5, 6 :: u8] \<le> 2000" "receiving (ch_sender (demo_channel 2 20))"
    by (simp_all add: demo_channel_def endpoint_new_def mpsc_new_def)
  have c: "channels (demo_session []) ! 1 = demo_channel 2 20" by (simp add: demo_parts)
  from channel_data_delivered [OF demo_windows demo_find(2) c p(1) w p(2,3) demo_parts(2), of False]
  show ?thesis by (auto simp: demo_parts take_data_def) (auto simp: demo_defs)
qed

text \<open>C15: Sending splits the data into non-empty chunks of at most the server's packet size, sends
  them in order, and stops exactly where the data or the window ends; the reported count and the
  window account are those of the bytes sent.\<close>

theorem channel_send_chunks:
  assumes "windows_ok s" "i < length (channels s)" "tx_faults (socket s) = []"
    and "maximum_packet_size (server_end (channels s ! i)) \<noteq> 0"
    and "window_left (server_end (channels s ! i)) = Ok left"
  shows "\<exists>s' chunks. send_chunks (Suc (length data)) i sid data 0 s = (Ok (Some (min (length data) left)), s') \<and>
    concat chunks = take (min (length data) left) data \<and>
    (\<forall>c \<in> set chunks. c \<noteq> [] \<and>
       length c \<le> unat (maximum_packet_size (server_end (channels s ! i)))) \<and>
    tx (socket s') = tx (socket s) @ map (data_payload sid) chunks \<and>
    window_left (server_end (channels s' ! i)) = Ok (left - min (length data) left)"
  using send_chunks_run [OF assms, of 0 data "Suc (length data)" sid] by simp

theorem channel_send_chunks_witness:
  "\<exists>s' chunks. send_chunks (Suc (length [1, 2, 3, 4, 5, 6, 7 :: u8])) 0 10 [1, 2, 3, 4, 5, 6, 7] 0 (demo_session []) =
       (Ok (Some 5), s') \<and>
     concat chunks = [1, 2, 3, 4, 5] \<and> tx (socket s') = map (data_payload 10) chunks"
proof -
  have w: "window_left (server_end (channels (demo_session []) ! 0)) = Ok 5"
    and m: "maximum_packet_size (server_end (channels (demo_session []) ! 0)) \<noteq> 0"
    and i: "0 < length (channels (demo_session []))" and t: "tx (socket (demo_session [])) = []"
    by (simp_all add: window_left_def demo_defs)
  have n: "min (length [1, 2, 3, 4, 5, 6, 7 :: u8]) 5 = 5" "take 5 [1, 2, 3, 4, 5, 6, 7 :: u8] = [1, 2, 3, 4, 5]"
    by simp_all
  from channel_send_chunks [OF demo_windows i demo_parts(2) m w, of "[1, 2, 3, 4, 5, 6, 7]" 10]
  show ?thesis unfolding n t by fastforce
qed

text \<open>C21: A server that announces a maximum packet size of 0 traps the client: whatever the number
  of rounds, the send loop is still running and has sent one empty data message per round.\<close>

theorem zero_packet_size_traps:
  assumes "i < length (channels s)" "tx_faults (socket s) = []"
    and "maximum_packet_size (server_end (channels s ! i)) = 0"
    and "window_left (server_end (channels s ! i)) = Ok left" "0 < left" "data \<noteq> []"
  shows "\<exists>s'. send_chunks n i sid data 0 s = (Ok None, s') \<and>
    tx (socket s') = tx (socket s) @ replicate n (data_payload sid [])"
  using assms by (intro send_stuck) simp_all

theorem zero_packet_size_traps_witness:
  "\<exists>s'. send_chunks 1000 0 10 [1] 0
      ((demo_session [])\<lparr>channels := [(demo_channel 1 10)\<lparr>server_end := endpoint_new 10 5 0\<rparr>]\<rparr>) = (Ok None, s')"
  using zero_packet_size_traps [of 0 "(demo_session [])\<lparr>channels := [(demo_channel 1 10)\<lparr>server_end := endpoint_new 10 5 0\<rparr>]\<rparr>"
      5 "[1]" 1000 10]
  by (auto simp: demo_parts window_left_def endpoint_new_def)

section \<open>Channel numbers and closing\<close>

text \<open>A number given to a new channel is one no open channel has, and handling a message of the
  server keeps the client's numbers distinct, also when it opens a forwarded channel.\<close>

theorem channel_numbers_distinct:
  assumes "ids_ok s"
  shows "ids_ok (snd (handle_msg None m s)) \<and>
    (\<forall>n. next_channel_id s = Ok n \<longrightarrow> n \<noteq> 0 \<and> n \<notin> set (client_ids s))"
  using assms ids_handle_msg [of m] next_channel_id_fresh [of s] by (auto simp: preserves_def)

theorem channel_numbers_distinct_witness:
  "ids_ok (snd (handle_msg None (ChannelClose 1) (demo_session [])))"
  using channel_numbers_distinct [of "demo_session []" "ChannelClose 1"]
  by (simp add: demo_defs ids_ok_def client_ids_def)

text \<open>Closing takes both sides: after the first \<open>SSH_MSG_CHANNEL_CLOSE\<close>, in either direction,
  the channel is still known; after the second it is gone, in either order.\<close>

theorem close_needs_both_sides:
  assumes "find_client (pair_client p) s = Some i" "tx_faults (socket s) = []"
    and "\<not> closed (client_end (channels s ! i))" "\<not> closed (server_end (channels s ! i))"
  shows "length (channels (snd (channel_close p s))) = length (channels s) \<and>
    length (channels (snd (handle_channel_close (pair_client p) s))) = length (channels s) \<and>
    channels (snd (handle_channel_close (pair_client p) (snd (channel_close p s)))) = remove_at i (channels s) \<and>
    channels (snd (channel_close p (snd (handle_channel_close (pair_client p) s)))) = remove_at i (channels s)"
  using close_both [OF assms] by blast

theorem close_needs_both_sides_witness:
  "channels (snd (handle_channel_close 1 (snd (channel_close (IdentityPair 1 10) (demo_session []))))) =
     [demo_channel 2 20]"
  using close_needs_both_sides [of "IdentityPair 1 10" "demo_session []" 0]
  by (simp add: demo_find demo_parts) (simp add: demo_channel_def endpoint_new_def)

text \<open>The number of a channel being opened is not reserved while the client waits: if the server
  opens a forwarded channel in that time, both get the same client number.\<close>

theorem opening_race:
  assumes "next_channel_id s = Ok n" "tx_faults (socket s) = []" "frontend_alive s"
    and "get_local path (forward s) = Some l" "receiving (l_sender l)"
    and "rx (socket s) = Ok p1 # Ok p2 # rest"
    and "payload p1 = encode_message (ChannelOpenForwardedStreamLocal sc w1 m1 path [])"
      "wf_message (ChannelOpenForwardedStreamLocal sc w1 m1 path [])"
    and "payload p2 = encode_message (ChannelOpenConfirmation n sc2 w2 m2)"
      "wf_message (ChannelOpenConfirmation n sc2 w2 m2)"
    and "find_server sc2 s = None" "sc \<noteq> sc2"
  shows "\<exists>s'. channel_open_session w m s = (Ok (IdentityPair n sc2), s') \<and>
    client_ids s' = client_ids s @ [n, n]"
  using assms by (rule open_session_race)

definition race_packets :: "packet res list" where
  "race_packets =
     [Ok \<lparr>payload = encode_message (ChannelOpenForwardedStreamLocal 30 100 100 (str ''/s'') []), padding = []\<rparr>,
      Ok \<lparr>payload = encode_message (ChannelOpenConfirmation 3 31 100 100), padding = []\<rparr>]"

theorem opening_race_witness:
  "\<exists>s'. channel_open_session 9 9 ((demo_session race_packets)
       \<lparr>forward := \<lparr>tcp = [], local = [(str ''/s'', listener_new 50 50)]\<rparr>\<rparr>) = (Ok (IdentityPair 3 31), s') \<and>
     client_ids s' = [1, 2, 3, 3]"
proof -
  let ?s = "(demo_session race_packets)\<lparr>forward := \<lparr>tcp = [], local = [(str ''/s'', listener_new 50 50)]\<rparr>\<rparr>"
  have n: "next_channel_id ?s = Ok 3" "find_server 31 ?s = None" "client_ids ?s = [1, 2]"
    by (simp_all add: demo_defs next_channel_id_def find_server_def client_ids_def Let_def)
  have l: "get_local (str ''/s'') (forward ?s) = Some (listener_new 50 50)" "receiving (l_sender (listener_new 50 50))"
    by (simp_all add: get_local_def listener_new_def mpsc_new_def)
  have "\<exists>s'. channel_open_session 9 9 ?s = (Ok (IdentityPair 3 31), s') \<and> client_ids s' = client_ids ?s @ [3, 3]"
    by (rule opening_race [OF n(1) _ _ l, where rest = "[]" and sc = 30 and ?w1.0 = 100 and ?m1.0 = 100 and
        ?w2.0 = 100 and ?m2.0 = 100 and
        ?p1.0 = "\<lparr>payload = encode_message (ChannelOpenForwardedStreamLocal 30 100 100 (str ''/s'') []), padding = []\<rparr>" and
        ?p2.0 = "\<lparr>payload = encode_message (ChannelOpenConfirmation 3 31 100 100), padding = []\<rparr>"])
      (simp_all add: demo_parts race_packets_def wf_str_def fits_def utf8_valid_ascii find_server_def
        demo_channel_def endpoint_new_def)
  with n(3) show ?thesis by simp
qed

text \<open>\<open>clean\<close> only removes channels whose receiver the application dropped; a channel somebody
  still listens on stays, with its state and in its place.\<close>

theorem clean_keeps_listening:
  "listening (snd (channel_clean s)) = listening s"
  by (rule channel_clean_listening)

text \<open>A registered listener is found again under its own address only, and removing
  addresses leaves the listeners of all others, for both tables.\<close>

theorem listener_tables:
  "get_tcp k (fold remove_tcp ks (insert_tcp k' v f)) =
     (if k \<in> set ks then None else if k = k' then Some v else get_tcp k f) \<and>
   get_local n (fold remove_local ns (insert_local n' u g)) =
     (if n \<in> set ns then None else if n = n' then Some u else get_local n g)"
  by (simp add: tcp_table.fold_remove local_table.fold_remove tcp_table.get_insert local_table.get_insert)

section \<open>Waiting for an answer\<close>

text \<open>C22: A wait for a reply ends, whatever packets come: while channel numbers last, it returns the
  result of the first message that answers, having read no packet after it, or fails with an error; it
  never panics, and the windows of all channels stay in order.\<close>

theorem wait_ends:
  assumes "windows_ok s" "room (length (rx (socket s))) s" "Panic \<notin> set (rx (socket s))"
    and "\<And>m. f m \<noteq> Some Panic" "match_msg f s = (r, s')"
  shows "r \<noteq> Panic \<and> windows_ok s' \<and> (\<exists>n \<le> length (rx (socket s)). rx (socket s') = drop n (rx (socket s)) \<and>
    (\<forall>j. Suc j < n \<longrightarrow> (\<exists>m. incoming s j = Some m \<and> f m = None)) \<and>
    (\<forall>a. r = Ok a \<longrightarrow> 0 < n \<and> (\<exists>m. incoming s (n - 1) = Some m \<and> f m = Some (Ok a))))"
  using assms by (rule match_msg_ends)

definition wait_packets :: "packet res list" where
  "wait_packets = [Ok \<lparr>payload = [96, 0, 0, 0, 1], padding = []\<rparr>, Ok \<lparr>payload = [81], padding = []\<rparr>,
     Ok \<lparr>payload = [82], padding = []\<rparr>]"

abbreviation wait_answer :: "message \<Rightarrow> bool res option" where
  "wait_answer m \<equiv> (case m of RequestSuccess \<Rightarrow> Some (Ok True) | RequestFailureMsg \<Rightarrow> Some (Ok False) | _ \<Rightarrow> None)"

theorem wait_ends_witness:
  "\<exists>r s' n. match_msg wait_answer (demo_session wait_packets) = (r, s') \<and> r \<noteq> Panic \<and> windows_ok s' \<and>
     rx (socket s') = drop n wait_packets"
proof -
  let ?s = "demo_session wait_packets"
  obtain r s' where run: "match_msg wait_answer ?s = (r, s')" by (cases "match_msg wait_answer ?s")
  have "room (length (rx (socket ?s))) ?s" "Panic \<notin> set (rx (socket ?s))"
    by (simp_all add: room_def client_ids_def demo_parts demo_channel_def endpoint_new_def wait_packets_def)
  moreover have "wait_answer m \<noteq> Some Panic" for m by (cases m) simp_all
  ultimately show ?thesis
    using wait_ends [OF demo_windows _ _ _ run] run by (auto simp: demo_parts)
qed

section \<open>Authentication\<close>

text \<open>C17: The session counts as authenticated after an attempt exactly if it did before or the
  attempt reported success, for all three methods, whatever the server sends meanwhile.\<close>

theorem authenticated_iff_success:
  "(is_authenticated (snd (authenticate_none u s)) \<longleftrightarrow>
      is_authenticated s \<or> fst (authenticate_none u s) = Ok AuthSuccess) \<and>
   (is_authenticated (snd (authenticate_password u pw s)) \<longleftrightarrow>
      is_authenticated s \<or> fst (authenticate_password u pw s) = Ok AuthSuccess) \<and>
   (is_authenticated (snd (authenticate_public_key u ty cert pub priv s)) \<longleftrightarrow>
      is_authenticated s \<or> fst (authenticate_public_key u ty cert pub priv s) = Ok AuthSuccess)"
proof -
  have sent: "sbind (send_fields fs) (\<lambda>_. match_this_msg reply) s = (r, s') \<Longrightarrow>
      (is_authenticated s' \<longleftrightarrow> is_authenticated s \<or> r = Ok AuthSuccess)"
    if "\<And>t r s'. match_this_msg reply t = (r, s') \<Longrightarrow>
      (is_authenticated s' \<longleftrightarrow> is_authenticated t \<or> r = Ok AuthSuccess)" for fs reply r s'
    using that by (auto simp: sbind_def dest: send_fields_keeps_auth split: prod.splits res.splits)
  show ?thesis
    unfolding authenticate_none_def authenticate_password_def
    using sent [OF match_this_auth(1) surjective_pairing] sent [OF match_this_auth(2) surjective_pairing]
      authenticate_public_key_flag [OF surjective_pairing] by blast
qed

text \<open>C19: The bytes a public-key signature covers determine the session, the user, the algorithm and
  the key: a signature made for one login cannot serve another.\<close>

theorem signed_data_binds:
  assumes "pk_signed_data sid u m b = pk_signed_data sid' u' m' b'"
    and "\<forall>x \<in> {sid, u, m, b, sid', u', m', b'}. fits x"
  shows "sid = sid' \<and> u = u' \<and> m = m' \<and> b = b'"
  using assms by (rule pk_signed_data_inject)

theorem signed_data_binds_witness:
  "pk_signed_data [1] (str ''ann'') [2] [3] \<noteq> pk_signed_data [1] (str ''bob'') [2] [3]"
proof
  assume "pk_signed_data [1] (str ''ann'') [2] [3] = pk_signed_data [1] (str ''bob'') [2] [3]"
  from signed_data_binds [OF this] show False by (simp add: fits_def)
qed

text \<open>Method names and methods correspond: reading back the name of a method gives the method,
  and the name of what was read is the name that came, for known and unknown names alike.\<close>

theorem method_names_roundtrip:
  "method_name (method_from n) = n \<and>
   (m \<in> snd ` set method_names \<longrightarrow> method_from (method_name m) = m)"
proof
  have "map_of method_names n = Some m' \<Longrightarrow> method_name m' = n" for m'
    by (auto simp: method_names_def split: if_splits)
  then show "method_name (method_from n) = n"
    by (auto simp: method_from_def split: option.split)
  show "m \<in> snd ` set method_names \<longrightarrow> method_from (method_name m) = m"
    by (auto simp: method_names_def method_from_def)
qed

theorem method_names_roundtrip_witness: "method_from (method_name GssapiWithMIC) = GssapiWithMIC"
  using method_names_roundtrip [of "[]" GssapiWithMIC] by (simp add: method_names_def)

end
