(* ===== verification/HandshakeFacts.thy ===== *)
theory HandshakeFacts
  imports Handshake
begin

text \<open>
  The waiting loops of the handshake return, whatever the chunks the packets come in, and strict
  key exchange takes no packet but the one that is due.
\<close>

section \<open>The waiting loops return\<close>

lemma plain_recv_Ok:
  assumes "plain_recv_packet s = (Ok p, s')"
  shows "length (unread (psock s')) < length (unread (psock s)) \<and> strict s' = strict s \<and>
    payload p \<noteq> []"
proof -
  note H = assms [unfolded plain_recv_packet_def Let_def]
  from H [unfolded sbind_Ok_iff [of "on_psock (fill 4)"]] obtain h s1
    where f1: "on_psock (fill 4) s = (Ok h, s1)" and
      H1: "(if unat (from_be h :: u32) + 4 > MAX_PACKET_LENGTH
       then sfail (TransportError (PacketTooLong MAX_PACKET_LENGTH (unat (from_be h :: u32) + 4)))
       else sbind (on_psock (fill (4 + unat (from_be h :: u32)))) (\<lambda>data.
         sbind (slift (Packet_parse (drop 4 data))) (\<lambda>packet.
         sbind (smodify (\<lambda>s. s\<lparr>psock := consume_read_buffer (4 + unat (from_be h :: u32)) (psock s)\<rparr>)) (\<lambda>_.
         sbind (smodify (bump_server False)) (\<lambda>_.
         if payload packet = [] then sfail (TransportError PayloadIsEmpty)
         else
           sbind (sget (\<lambda>s. hd (payload packet) = SSH_MSG_NEWKEYS \<and> strict s)) (\<lambda>reset.
           sbind (smodify (\<lambda>s. if reset then s\<lparr>server := (server s)\<lparr>sequence_number := 0\<rparr>\<rparr> else s)) (\<lambda>_.
           sreturn packet))))))) s1 = (Ok p, s')"
    by blast
  let ?n = "4 + unat (from_be h :: u32)"
  from H1 obtain d s2 where f2: "on_psock (fill ?n) s1 = (Ok d, s2)" and
    s': "psock s' = consume_read_buffer ?n (psock s2)" "strict s' = strict s2" "payload p \<noteq> []"
    by (cases "on_psock (fill ?n) s1"; cases "fst (on_psock (fill ?n) s1)"; cases "Packet_parse (drop 4 (case fst (on_psock (fill ?n) s1) of Ok d \<Rightarrow> d))")
      (auto simp: sfail_def slift_def sreturn_def bump_server_def strict_def split: if_splits)
  from f1 obtain t1 where t1: "fill 4 (psock s) = (Ok h, t1)" "s1 = s\<lparr>psock := t1\<rparr>"
    by (auto simp: zoom_Ok_iff)
  from f2 obtain t2 where t2: "fill ?n (psock s1) = (Ok d, t2)" "s2 = s1\<lparr>psock := t2\<rparr>"
    by (auto simp: zoom_Ok_iff)
  have "unread t2 = unread (psock s)" "?n \<le> length (r_buf t2)"
    using fill_Ok [OF t1(1)] fill_Ok [OF t2(1)] t1(2) by simp_all
  moreover from this(2) have "length (unread (consume_read_buffer ?n t2)) + ?n = length (unread t2)"
    by (simp add: unread_def consume_read_buffer_def)
  moreover have "strict s2 = strict s" using t1(2) t2(2) by (simp add: strict_def)
  ultimately show ?thesis using s' t2(2) by simp
qed

lemmas plain_recv_shrinks = plain_recv_Ok [THEN conjunct1]
lemmas plain_recv_strict = plain_recv_Ok [THEN conjunct2, THEN conjunct1]

lemma keeps_flush: "keeps unread flush"
  unfolding keeps_def
proof
  show "unread (snd (flush s)) = unread s" for s
  proof (induction s rule: flush.induct)
    case (1 s)
    show ?case
    proof (cases "w_buf s = []")
      case False
      obtain r t where w: "write_buf s = (r, t)" by (cases "write_buf s")
      then have "unread t = unread s"
        by (auto simp: write_buf_def unread_def Let_def split: if_splits)
      with 1 [OF False] w False show ?thesis
        by (cases r) (simp_all add: flush.simps [of s])
    qed (simp add: flush.simps [of s])
  qed
qed

lemma keeps_bs_write: "keeps unread (bs_write d)"
proof -
  have "keeps unread write_buf"
    by (auto simp: keeps_def write_buf_def unread_def Let_def)
  then show ?thesis
    unfolding bs_write_def
    by (intro keeps_rules) (simp_all add: unread_def bs_put_bytes_def)
qed

abbreviation unread_plain :: "plain_stream \<Rightarrow> bytes" where
  "unread_plain p \<equiv> unread (psock p)"

lemma keeps_on_psock: "keeps unread m \<Longrightarrow> keeps unread_plain (on_psock m)"
  by (auto simp: keeps_def zoom_def split: prod.split) (metis snd_conv)

lemma keeps_plain_send: "keeps unread_plain (plain_send_payload r d)"
  unfolding plain_send_payload_def Let_def
  by (intro keeps_rules keeps_on_psock keeps_bs_write keeps_flush) (simp add: bump_client_def)

lemma keeps_hs_send: "keeps unread_plain (hs_send rnd d)"
  unfolding hs_send_def by (intro keeps_rules keeps_plain_send)

lemma keeps_message_cases:
  "keeps f u \<Longrightarrow> keeps f (case msg of
         Debug always_display text language \<Rightarrow> sreturn ()
       | Ignore data \<Rightarrow> sreturn ()
       | Disconnect reason description language \<Rightarrow> sfail (e reason description)
       | Unimplemented n \<Rightarrow> sreturn ()
       | Ping data \<Rightarrow> sreturn ()
       | Pong data \<Rightarrow> sreturn ()
       | _ \<Rightarrow> u)"
  by (cases msg) (simp_all add: keeps_simple)

lemma keeps_list_case:
  "keeps f m \<Longrightarrow> (\<And>x xs. keeps f (g x xs)) \<Longrightarrow> keeps f (case l of [] \<Rightarrow> m | x # xs \<Rightarrow> g x xs)"
  by (cases l) simp_all

lemma keeps_hs_handle_msg: "keeps unread_plain (hs_handle_msg rnd p)"
  unfolding hs_handle_msg_def Let_def
  by (intro keeps_bind keeps_simple keeps_if keeps_list_case keeps_message_cases keeps_hs_send)

lemma wait_fuel_enough:
  assumes o: "\<And>p. keeps unread_plain (other p)"
  shows "length (unread_plain s) < n \<Longrightarrow> length (unread_plain s) < m \<Longrightarrow>
    wait_fuel n code other s = wait_fuel m code other s"
proof (induction n arbitrary: m s)
  case (Suc n)
  then obtain m' where m: "m = Suc m'" by (cases m) simp_all
  obtain r t where rt: "plain_recv_packet s = (r, t)" by (cases "plain_recv_packet s")
  show ?case
  proof (cases r)
    case (Ok p)
    have less: "length (unread_plain t) < length (unread_plain s)"
      using plain_recv_shrinks rt Ok by blast
    obtain q u where qu: "other p t = (q, u)" by (cases "other p t")
    with keepsD [OF o qu] less Suc.prems m
    have "wait_fuel n code other u = wait_fuel m' code other u"
      by (intro Suc.IH) simp_all
    with rt Ok qu m show ?thesis
      by (cases q; cases "packet_code p") (simp_all add: slift_def)
  qed (use rt m in simp_all)
qed simp

lemma wait_packet_unfold:
  assumes "\<And>p. keeps unread_plain (other p)"
  shows "wait_packet code other s =
    sbind plain_recv_packet (\<lambda>p. sbind (slift (packet_code p)) (\<lambda>c.
      if c = code then sreturn (payload p) else sbind (other p) (\<lambda>_. wait_packet code other))) s"
proof -
  obtain r t where rt: "plain_recv_packet s = (r, t)" by (cases "plain_recv_packet s")
  show ?thesis
  proof (cases r)
    case (Ok p)
    have less: "length (unread_plain t) < length (unread_plain s)"
      using plain_recv_shrinks rt Ok by blast
    obtain q u where qu: "other p t = (q, u)" by (cases "other p t")
    have "wait_fuel (length (unread_plain s)) code other u = wait_packet code other u"
      unfolding wait_packet_def
      using keepsD [OF assms qu] less by (intro wait_fuel_enough assms) simp_all
    with rt Ok qu show ?thesis
      unfolding wait_packet_def [of _ _ s]
      by (cases q; cases "packet_code p") (simp_all add: slift_def)
  qed (use rt in \<open>simp_all add: wait_packet_def\<close>)
qed

section \<open>Strict key exchange\<close>

text \<open>Under strict key exchange a wait with the ordinary handler looks at one packet only.\<close>

lemma wait_strict:
  assumes "strict s" "plain_recv_packet s = (Ok p, t)" "packet_code p = Ok c"
  shows "wait_packet code (hs_handle_msg rnd) s =
    (if c = code then Ok (payload p) else Err (HandshakeError (UnexpectedMessageInStrictMode c)), t)"
proof -
  have t: "strict t" using plain_recv_strict [OF assms(2)] assms(1) by simp
  have "hs_handle_msg rnd p t = (Err (HandshakeError (UnexpectedMessageInStrictMode c)), t)"
  proof (cases "payload p")
    case Nil
    with plain_recv_Ok [OF assms(2)] show ?thesis by simp
  next
    case (Cons b bs)
    with assms(3) have "b = c"
      by (auto simp: packet_code_def consume_u8_def peek_def consumer_new_def sbind_def sr_defs
          split: prod.splits res.splits)
    with Cons t show ?thesis by (simp add: hs_handle_msg_def sr_defs)
  qed
  then show ?thesis
    unfolding wait_packet_unfold [of "hs_handle_msg rnd" code s, OF keeps_hs_handle_msg]
    using assms(2,3) by (simp add: slift_def sreturn_def)
qed

lemma received_code:
  assumes "plain_recv_packet s = (Ok p, t)"
  shows "packet_code p = Ok (hd (payload p))"
  using plain_recv_Ok [OF assms]
  by (cases "payload p")
    (simp_all add: packet_code_def consume_u8_def peek_def consumer_new_def consume_def sbind_def sr_defs)

end
