(* ===== verification/Authenticity.thy ===== *)
theory Authenticity
  imports HandshakeFacts
begin

text \<open>
  What a key exchange proves about the server, for the first exchange and the later ones: a
  reference for the exchange hash (RFC 4253 section 8, RFC 4419) and for the agreed secret,
  and the shape of a reply that was accepted. Nothing in \<open>signed_exchange\<close> is left open: the
  reply fixes the host key, the peer's value and the signature, and these and the state of the
  key-exchange object fix the secret and the hash.
\<close>

section \<open>The hash of an exchange\<close>

text \<open>What a group exchange adds: the sizes asked for, the prime and the generator.\<close>

definition rfc_group :: "key_exchange \<Rightarrow> bytes" where
  "rfc_group k =
     (case (kex_method k, kex_group k) of
        (GroupExchange low wanted high, Some (p, g)) \<Rightarrow>
          u32_to_be low @ u32_to_be wanted @ u32_to_be high @ one (into_integer p) @ one (into_integer g)
      | _ \<Rightarrow> [])"

text \<open>\<open>front\<close> are the two identifications, the two \<open>KEXINIT\<close> payloads and the host key; \<open>values\<close>
  the two public values and the secret.\<close>

definition rfc_exchange_hash :: "key_exchange \<Rightarrow> bytes list \<Rightarrow> bytes list \<Rightarrow> bytes" where
  "rfc_exchange_hash k front values =
     digest (kex_library k) (concat (map one front) @ rfc_group k @ concat (map one values))"

text \<open>The secret shared with the peer whose public value is \<open>peer\<close>, by the library's agreement.\<close>

definition agreed_secret :: "key_exchange \<Rightarrow> bytes \<Rightarrow> bytes option" where
  "agreed_secret k peer =
     (case kex_method k of
        MlKem768X25519 \<Rightarrow>
          (case (kex_key k, kex_x25519 k) of
             (Some kem, Some curve) \<Rightarrow>
               (case (agree (kex_library k) (kex_group k) kem (take 1088 peer),
                      agree_x25519 (kex_library k) curve (drop 1088 peer)) of
                  (Ok z1, Ok z2) \<Rightarrow> if length peer = 1120 then Some (digest (kex_library k) (z1 @ z2)) else None
                | _ \<Rightarrow> None)
           | _ \<Rightarrow> None)
      | _ \<Rightarrow>
          (case kex_key k of
             Some own \<Rightarrow>
               (case agree (kex_library k) (kex_group k) own peer of
                  Ok z \<Rightarrow> Some (into_integer z)
                | _ \<Rightarrow> None)
           | None \<Rightarrow> None))"

lemma compute_secret_key_Ok:
  assumes "compute_secret_key peer k = (Ok secret, k')"
  shows "agreed_secret k peer = Some secret \<and> kex_library k' = kex_library k \<and>
    kex_method k' = kex_method k \<and> kex_group k' = kex_group k"
  using assms
  by (cases "kex_method k")
    (auto simp: compute_secret_key_def agreed_secret_def agreed_def ecdh_compute_secret_key_def
      gex_compute_secret_key_def dh_compute_secret_key_def x25519_compute_secret_key_def
      mlkem_compute_secret_key_def sbind_Ok_iff sr_defs res_map_Ok_iff split: option.splits if_splits res.splits)

lemma compute_hash_Ok:
  assumes "compute_hash (information.make vc vs ci si hk own peer secret) k = Ok hash"
  shows "hash = rfc_exchange_hash k [vc, vs, ci, si, hk] [own, peer, secret]"
  using assms
  by (cases "kex_method k")
    (auto simp: compute_hash_def ecdh_compute_hash_def gex_compute_hash_def rfc_exchange_hash_def rfc_group_def
      hash_input_eq gex_hash_input_eq information.make_def split: option.splits)

lemma rfc_exchange_hash_same:
  "kex_library k' = kex_library k \<Longrightarrow> kex_method k' = kex_method k \<Longrightarrow> kex_group k' = kex_group k \<Longrightarrow>
   rfc_exchange_hash k' = rfc_exchange_hash k"
  by (simp add: rfc_exchange_hash_def rfc_group_def fun_eq_iff)

section \<open>A signed reply\<close>

text \<open>
  The reply is, byte for byte, the code, the host key, the peer's value and the signature; the
  hash is the one of this exchange, with the client's own value \<open>own\<close> and the secret agreed
  with the peer's; the host key loads and its signature over that hash is valid.
\<close>

definition signed_exchange ::
    "('e, 'd, 'c, 'z, 'm) matched_methods \<Rightarrow> bytes list \<Rightarrow> bytes \<Rightarrow> bytes \<Rightarrow> bytes \<Rightarrow> bytes \<Rightarrow> bytes \<Rightarrow>
     bytes \<Rightarrow> bool" where
  "signed_exchange m front own reply host_key signature secret hash \<longleftrightarrow>
     (\<exists>peer rest.
        reply = kex_response_code (m_kex m) # one host_key @ one peer @ one signature @ rest \<and>
        fits host_key \<and> fits peer \<and> fits signature \<and>
        agreed_secret (m_kex m) peer = Some secret \<and>
        hash = rfc_exchange_hash (m_kex m) (front @ [host_key]) [own, peer, secret] \<and>
        verifier_initialize (m_host_key m) host_key = Ok () \<and>
        verifier_verify (m_host_key m) host_key signature hash = Ok True)"

lemma signed_exchange_unique:
  assumes "signed_exchange m front own reply hk sg secret hash"
    and "signed_exchange m front own reply hk' sg' secret' hash'"
  shows "hk' = hk \<and> sg' = sg \<and> secret' = secret \<and> hash' = hash"
  using assms unfolding signed_exchange_def by (auto simp: one_inject)

lemma parse_reply_Ok:
  assumes "parse_reply d = Ok (host_key, peer, signature)"
  shows "\<exists>code rest. d = code # one host_key @ one peer @ one signature @ rest \<and>
    fits host_key \<and> fits peer \<and> fits signature"
proof -
  from assms obtain b c1 c2 c3 c4 where
    "consume_u8 (consumer_new d) = (Ok b, c1)" "consume_one c1 = (Ok host_key, c2)"
    "consume_one c2 = (Ok peer, c3)" "consume_one c3 = (Ok signature, c4)"
    by (auto simp: parse_reply_def fst_Ok_iff sbind_Ok_iff sreturn_def)
  with consume_u8_exact [of "consumer_new d" b c1] consume_one_exact [of c1 host_key c2]
    consume_one_exact [of c2 peer c3] consume_one_exact [of c3 signature c4]
  show ?thesis by auto
qed

lemma packet_code_hd: "packet_code p = Ok c \<Longrightarrow> \<exists>r. payload p = c # r"
  using consume_u8_exact [of "consumer_new (payload p)" c] by (auto simp: packet_code_def fst_Ok_iff)

lemma wait_packet_code: "wait_packet code other s = (Ok d, s') \<Longrightarrow> \<exists>r. d = code # r"
proof -
  have "wait_fuel n code other s = (Ok d, s') \<Longrightarrow> \<exists>r. d = code # r" for n s
    by (induction n arbitrary: s)
      (auto simp: sbind_Ok_iff slift_def sr_defs split: if_splits dest: packet_code_hd)
  then show "wait_packet code other s = (Ok d, s') \<Longrightarrow> \<exists>r. d = code # r"
    unfolding wait_packet_def .
qed

text \<open>The session keys depend on the methods only through the digest and the factories.\<close>

lemma initialize_same:
  "kex_library k = kex_library (m_kex m) \<Longrightarrow> initialize (m\<lparr>m_kex := k\<rparr>) = initialize m"
  by (simp add: initialize_def compute_communicate_key_def fun_eq_iff)

text \<open>What negotiation chose: everything but the state of the key-exchange object.\<close>

definition choices :: "('e, 'd, 'c, 'z, 'm) matched_methods \<Rightarrow> _" where
  "choices m = (kex_name (m_kex m), kex_library (m_kex m), m_host_key m, (m_encrypt m, m_decrypt m),
     (m_mac_out m, m_mac_in m), (m_encode m, m_decode m))"

end
