(* ===== verification/HandshakeProperties.thy ===== *)
theory HandshakeProperties
  imports Authenticity
begin

text \<open>
  The properties of the handshake: negotiation, exchange hash, key derivation, the host-key
  check and strict key exchange, stated over the model of \<open>src/session/handshake.rs\<close> and
  \<open>src/cipher/kex.rs\<close>.
\<close>

section \<open>Lifting to the handshaker\<close>

lemma on_plain_Ok_iff:
  "on_plain m s = (Ok a, s') \<longleftrightarrow>
     (\<exists>p p'. hs_plain s = Some p \<and> m p = (Ok a, p') \<and> s' = s\<lparr>hs_plain := Some p'\<rparr>)"
  by (auto simp: on_plain_def split: option.splits prod.splits)

lemma on_matched_Ok_iff:
  "on_matched m s = (Ok a, s') \<longleftrightarrow>
     (\<exists>p p'. hs_matched s = Some p \<and> m p = (Ok a, p') \<and> s' = s\<lparr>hs_matched := Some p'\<rparr>)"
  by (auto simp: on_matched_def split: option.splits prod.splits)

text \<open>What a key exchange cannot change before the server's reply is accepted; of the matched
  methods only the state of the key-exchange object changes.\<close>

definition settled :: "('e, 'd, 'c, 'z, 'm) handshaker \<Rightarrow> _" where
  "settled s = (hs_client_version s, hs_server_version s, hs_client_kex s, hs_server_kex s,
     hs_notifier s, hs_session_id s, hs_cipher s, map_option choices (hs_matched s))"

abbreviation origin :: "key_exchange \<Rightarrow> bytes \<times> kex_library" where
  "origin k \<equiv> (kex_name k, kex_library k)"

lemma origin_kept [keeps_rules]:
  "keeps origin generate_key" "keeps origin (compute_secret_key peer)"
  "keeps origin (exchange_initialize p g)" "keeps origin (smodify (set_recommended_number_of_bits n))"
  "keeps origin (sget h)"
proof -
  show "keeps origin generate_key"
    by (auto simp: keeps_def generate_key_def ecdh_generate_key_def gex_generate_key_def dh_generate_key_def
        x25519_generate_key_def mlkem_generate_key_def fresh_key_def sbind_def sr_defs
        split: kex_method.split option.split res.split)
  show "keeps origin (compute_secret_key peer)"
    by (auto simp: keeps_def compute_secret_key_def ecdh_compute_secret_key_def gex_compute_secret_key_def
        dh_compute_secret_key_def x25519_compute_secret_key_def mlkem_compute_secret_key_def sbind_def sr_defs
        split: kex_method.split option.split res.split)
  show "keeps origin (exchange_initialize p g)"
    by (auto simp: keeps_def exchange_initialize_def Let_def split: kex_method.split res.split)
  show "keeps origin (smodify (set_recommended_number_of_bits n))"
    by (auto simp: keeps_def smodify_def set_recommended_number_of_bits_def split: kex_method.split)
  show "keeps origin (sget h)" by (simp add: keeps_def sget_def)
qed

lemma settled_plain [keeps_rules]: "keeps settled (on_plain m)"
  by (auto simp: keeps_def settled_def on_plain_def split: option.splits prod.splits)

lemma settled_matched:
  "keeps choices m \<Longrightarrow> keeps settled (on_matched m)"
  by (auto simp: keeps_def settled_def on_matched_def split: option.splits prod.splits) (metis snd_conv)

lemma settled_kex [keeps_rules]: "keeps origin m \<Longrightarrow> keeps settled (on_kex m)"
  by (rule settled_matched) (auto simp: keeps_def zoom_def choices_def split: prod.split; metis snd_conv)

lemma settled_look [keeps_rules]: "keeps settled (on_matched (sget f))"
  by (rule settled_matched) (simp add: keeps_def sget_def)

lemma settled_group_exchange [keeps_rules]: "keeps settled (group_exchange rnd)"
  unfolding group_exchange_def by (intro keeps_rules)


section \<open>Who the server is\<close>

text \<open>The exchange up to the server's reply: the client's own public value, and the reply.\<close>

definition exchange_front ::
    "(u32 \<Rightarrow> nat \<Rightarrow> u8) \<Rightarrow> (('e, 'd, 'c, 'z, 'm) handshaker, bytes \<times> bytes) sr" where
  "exchange_front rnd =
     sbind (group_exchange rnd) (\<lambda>_.
     sbind (on_kex generate_key) (\<lambda>own.
     sbind (on_kex (sget kex_request_code)) (\<lambda>request.
     sbind (on_plain (hs_send rnd (put_one own (put_u8 request [])))) (\<lambda>_.
     sbind (on_kex (sget kex_response_code)) (\<lambda>response.
     sbind (on_plain (wait_packet response (hs_handle_msg rnd))) (\<lambda>reply.
     sreturn (own, reply)))))))"

lemma key_exchange_front:
  "key_exchange rnd = sbind (exchange_front rnd) (\<lambda>(own, reply).
     sbind (slift (parse_reply reply)) (\<lambda>fields.
     sbind (accept_reply own fields) (\<lambda>keys.
     sbind (on_plain (hs_send rnd [SSH_MSG_NEWKEYS])) (\<lambda>_.
     sbind (on_plain (wait_packet SSH_MSG_NEWKEYS (\<lambda>_. sreturn ()))) (\<lambda>_.
     install_keys keys)))))"
  by (simp add: key_exchange_def exchange_front_def sbind_assoc sbind_sreturn)

lemma settled_front: "keeps settled (exchange_front rnd)"
  unfolding exchange_front_def by (intro keeps_rules)

lemma exchange_front_Ok:
  assumes "exchange_front rnd s = (Ok (own, reply), t)"
  shows "\<exists>m r. hs_matched t = Some m \<and> reply = kex_response_code (m_kex m) # r"
proof -
  from assms obtain s4 s5 resp where
    look: "on_kex (sget kex_response_code) s4 = (Ok resp, s5)"
    and wait: "on_plain (wait_packet resp (hs_handle_msg rnd)) s5 = (Ok reply, t)"
    by (auto simp: exchange_front_def sbind_Ok_iff sreturn_def)
  from look obtain m where m: "hs_matched s5 = Some m" "resp = kex_response_code (m_kex m)"
    by (auto simp: on_matched_Ok_iff zoom_Ok_iff sget_def)
  from wait have "hs_matched t = hs_matched s5" "\<exists>r. reply = resp # r"
    by (auto simp: on_plain_Ok_iff dest: wait_packet_code)
  with m show ?thesis by auto
qed

text \<open>
  The host key, the signature, the exchange hash and the session keys of the exchange that starts
  in \<open>s\<close>, when the reply is signed and the application's next answer accepts. The run up to the
  reply fixes all of them (\<open>vouched_unique\<close>).
\<close>

definition vouched ::
    "(u32 \<Rightarrow> nat \<Rightarrow> u8) \<Rightarrow> ('e, 'd, 'c, 'z, 'm) handshaker \<Rightarrow> bytes \<Rightarrow> bytes \<Rightarrow> bytes \<Rightarrow>
     ('e, 'd, 'm) session_keys \<Rightarrow> bool" where
  "vouched rnd s host_key signature hash keys \<longleftrightarrow>
     (\<exists>own reply t m sv ck sk secret.
        exchange_front rnd s = (Ok (own, reply), t) \<and> hs_matched t = Some m \<and>
        map_option choices (hs_matched s) = Some (choices m) \<and>
        hs_server_version s = Some sv \<and> hs_client_kex s = Some ck \<and> hs_server_kex s = Some sk \<and>
        signed_exchange m [hs_client_version s, sv, ck, sk] own reply host_key signature secret hash \<and>
        initialize m hash hash (put_one secret []) = Ok keys \<and>
        (\<exists>a rest. answers (hs_notifier s) = a # rest \<and> accept a))"

lemma vouched_unique:
  assumes "vouched rnd s hk sg hash keys" "vouched rnd s hk' sg' hash' keys'"
  shows "hk' = hk \<and> sg' = sg \<and> hash' = hash \<and> keys' = keys"
proof -
  from assms(1) obtain own reply t m sv ck sk secret where
    1: "exchange_front rnd s = (Ok (own, reply), t)" "hs_matched t = Some m"
      "hs_server_version s = Some sv" "hs_client_kex s = Some ck" "hs_server_kex s = Some sk"
    and 2: "signed_exchange m [hs_client_version s, sv, ck, sk] own reply hk sg secret hash"
      "initialize m hash hash (put_one secret []) = Ok keys"
    unfolding vouched_def by blast
  with assms(2) obtain secret' where
    3: "signed_exchange m [hs_client_version s, sv, ck, sk] own reply hk' sg' secret' hash'"
      "initialize m hash' hash' (put_one secret' []) = Ok keys'"
    unfolding vouched_def by auto
  from signed_exchange_unique [OF 2(1) 3(1)] 2(2) 3(2) show ?thesis by auto
qed

lemma ask_host_key_Ok:
  "ask_host_key ty hk s = (Ok True, s') \<Longrightarrow>
   (\<exists>a rest. answers (hs_notifier s) = a # rest \<and> accept a) \<and>
   calls (hs_notifier s') = calls (hs_notifier s) @ [VerifyServerHostKey ty hk] \<and>
   hs_plain s' = hs_plain s \<and> hs_matched s' = hs_matched s \<and> hs_cipher s' = hs_cipher s"
  by (auto simp: ask_host_key_def Let_def split: list.splits)

lemma accept_reply_Ok:
  assumes "accept_reply own (host_key, peer, signature) s = (Ok keys, s')" "hs_matched s = Some m"
  shows "\<exists>sv ck sk secret hash. hs_server_version s = Some sv \<and> hs_client_kex s = Some ck \<and>
    hs_server_kex s = Some sk \<and> agreed_secret (m_kex m) peer = Some secret \<and>
    hash = rfc_exchange_hash (m_kex m) [hs_client_version s, sv, ck, sk, host_key] [own, peer, secret] \<and>
    verifier_initialize (m_host_key m) host_key = Ok () \<and>
    verifier_verify (m_host_key m) host_key signature hash = Ok True \<and>
    initialize m hash hash (put_one secret []) = Ok keys \<and>
    (\<exists>a rest. answers (hs_notifier s) = a # rest \<and> accept a) \<and> hs_session_id s' = Some hash \<and>
    calls (hs_notifier s') = calls (hs_notifier s) @ [VerifyServerHostKey (verifier_name (m_host_key m)) host_key] \<and>
    map_option choices (hs_matched s') = Some (choices m)"
proof -
  from assms(1) obtain secret s1 info hash m1 v s3 m3 where
    1: "on_kex (compute_secret_key peer) s = (Ok secret, s1)"
    and 2: "exchange_info s1 host_key own peer secret = Ok info"
    and 3: "hs_matched s1 = Some m1" "compute_hash info (m_kex m1) = Ok hash" "v = m_host_key m1"
    and 4: "verifier_initialize v host_key = Ok ()" "verifier_verify v host_key signature hash = Ok True"
    and 5: "ask_host_key (verifier_name v) host_key s1 = (Ok True, s3)"
    and "hs_session_id s' = Some hash" "hs_notifier s' = hs_notifier s3" "hs_matched s' = hs_matched s3"
      "hs_matched s3 = Some m3" "initialize m3 hash hash (put_one secret []) = Ok keys"
    by (auto simp: accept_reply_def sbind_Ok_iff on_matched_Ok_iff sr_defs zoom_def split: if_splits)
  with ask_host_key_Ok [OF 5] have
    6: "hs_session_id s' = Some hash" "hs_notifier s' = hs_notifier s3" "hs_matched s' = hs_matched s1"
      "initialize m1 hash hash (put_one secret []) = Ok keys"
    by simp_all
  from 1 assms(2) obtain k where k: "compute_secret_key peer (m_kex m) = (Ok secret, k)" "m1 = m\<lparr>m_kex := k\<rparr>"
    using 3(1) by (auto simp: on_matched_Ok_iff zoom_Ok_iff)
  note K = compute_secret_key_Ok [OF k(1)]
  have s1: "settled s1 = settled s" by (rule keepsD [OF settled_kex [OF origin_kept(2)] 1])
  then obtain sv ck sk where v: "hs_server_version s = Some sv" "hs_client_kex s = Some ck" "hs_server_kex s = Some sk"
    "info = information.make (hs_client_version s) sv ck sk host_key own peer secret"
    using 2 by (auto simp: settled_def exchange_info_def res_bind_Ok_iff unwrap_def split: option.splits)
  have "hash = rfc_exchange_hash (m_kex m) [hs_client_version s, sv, ck, sk, host_key] [own, peer, secret]"
    using compute_hash_Ok [OF 3(2) [unfolded v(4)]] rfc_exchange_hash_same [of k "m_kex m"] K k(2) by simp
  moreover have "initialize m hash hash (put_one secret []) = Ok keys"
    using 6(4) initialize_same [of k m] K k(2) by simp
  moreover have "map_option choices (hs_matched s') = Some (choices m)" "hs_notifier s1 = hs_notifier s"
    using s1 6(3) assms(2) by (simp_all add: settled_def)
  ultimately show ?thesis
    using v(1-3) K 3(3) 4 k(2) 6 ask_host_key_Ok [OF 5] by auto
qed

text \<open>\<open>m\<close> can change the part \<open>f\<close> of the state only when it succeeds.\<close>

definition commits :: "('s \<Rightarrow> 'b) \<Rightarrow> ('s, 'a) sr \<Rightarrow> bool" where
  "commits f m \<longleftrightarrow> (\<forall>s. (\<nexists>a. fst (m s) = Ok a) \<longrightarrow> f (snd (m s)) = f s)"

lemma commits_bind: "keeps f m \<Longrightarrow> (\<And>a. commits f (g a)) \<Longrightarrow> commits f (sbind m g)"
  unfolding commits_def keeps_def sbind_def
  by (auto split: prod.splits res.splits) (metis snd_conv fst_conv)+

lemma cipher_plain: "keeps hs_cipher (on_plain m)" "keeps hs_cipher (on_matched m')"
  by (auto simp: keeps_def on_plain_def on_matched_def split: option.splits prod.splits)

lemma cipher_group: "keeps hs_cipher (group_exchange rnd)"
  unfolding group_exchange_def by (intro keeps_rules cipher_plain)

lemma cipher_ask: "keeps hs_cipher (ask_host_key t k)"
  by (simp add: keeps_def ask_host_key_def Let_def)

lemma cipher_accept: "keeps hs_cipher (accept_reply own x)"
  unfolding accept_reply_def by (intro keeps_rules cipher_plain cipher_ask; simp)

lemma cipher_install: "commits hs_cipher (install_keys keys)"
  by (auto simp: commits_def install_keys_def sbind_def sr_defs unwrap_def split: option.splits res.splits)

lemma key_exchange_commits: "commits hs_cipher (key_exchange rnd)"
  unfolding key_exchange_def
  by (intro commits_bind cipher_install cipher_group cipher_accept cipher_plain keeps_rules)

text \<open>The cipher stream runs with the keys and with the algorithms that were negotiated.\<close>

definition runs_with ::
    "('e, 'd, 'c, 'z, 'm) cipher_stream \<Rightarrow> ('e, 'd, 'c, 'z, 'm) matched_methods \<Rightarrow> ('e, 'd, 'm) session_keys \<Rightarrow> bool" where
  "runs_with c m keys \<longleftrightarrow> encrypt c = key_encrypt keys \<and> decrypt c = key_decrypt keys \<and>
     calculator c = key_mac_out keys \<and> verify c = key_mac_in keys \<and> encode c = m_encode m \<and> decode c = m_decode m"

lemma key_exchange_Ok:
  assumes "key_exchange rnd s = (Ok (), s')"
  shows "\<exists>host_key signature hash keys m c. vouched rnd s host_key signature hash keys \<and>
    hs_session_id s' = Some hash \<and> hs_matched s = Some m \<and>
    calls (hs_notifier s') = calls (hs_notifier s) @ [VerifyServerHostKey (verifier_name (m_host_key m)) host_key] \<and>
    hs_cipher s' = Some c \<and> runs_with c m keys \<and> hs_plain s' = None"
proof -
  from assms obtain own reply t host_key peer signature keys s7 s8 nk s9 where
    front: "exchange_front rnd s = (Ok (own, reply), t)"
    and fields: "parse_reply reply = Ok (host_key, peer, signature)"
    and acc: "accept_reply own (host_key, peer, signature) t = (Ok keys, s7)"
    and fin: "on_plain (hs_send rnd [SSH_MSG_NEWKEYS]) s7 = (Ok (), s8)"
      "on_plain (wait_packet SSH_MSG_NEWKEYS (\<lambda>_. sreturn ())) s8 = (Ok nk, s9)"
      "install_keys keys s9 = (Ok (), s')"
    by (auto simp: key_exchange_front sbind_Ok_iff slift_def)
  from exchange_front_Ok [OF front] obtain m r where m: "hs_matched t = Some m" "reply = kex_response_code (m_kex m) # r"
    by blast
  have t: "settled t = settled s" by (rule keepsD [OF settled_front front])
  from accept_reply_Ok [OF acc m(1)] obtain sv ck sk secret hash where
    A: "hs_server_version t = Some sv" "hs_client_kex t = Some ck" "hs_server_kex t = Some sk"
      "agreed_secret (m_kex m) peer = Some secret"
      "hash = rfc_exchange_hash (m_kex m) [hs_client_version t, sv, ck, sk, host_key] [own, peer, secret]"
      "verifier_initialize (m_host_key m) host_key = Ok ()"
      "verifier_verify (m_host_key m) host_key signature hash = Ok True"
      "initialize m hash hash (put_one secret []) = Ok keys"
      "\<exists>a rest. answers (hs_notifier t) = a # rest \<and> accept a"
    and B: "hs_session_id s7 = Some hash"
      "calls (hs_notifier s7) = calls (hs_notifier t) @ [VerifyServerHostKey (verifier_name (m_host_key m)) host_key]"
      "map_option choices (hs_matched s7) = Some (choices m)"
    by blast
  from parse_reply_Ok [OF fields] m(2) A(4-7)
  have "signed_exchange m [hs_client_version t, sv, ck, sk] own reply host_key signature secret hash"
    unfolding signed_exchange_def by auto
  moreover from t m(1) have T: "hs_client_version t = hs_client_version s" "hs_server_version t = hs_server_version s"
    "hs_client_kex t = hs_client_kex s" "hs_server_kex t = hs_server_kex s" "hs_notifier t = hs_notifier s"
    and "map_option choices (hs_matched s) = Some (choices m)"
    by (simp_all add: settled_def)
  ultimately have v: "vouched rnd s host_key signature hash keys"
    unfolding vouched_def using front m(1) A(1-3,8,9) [unfolded T] by (unfold T) blast
  from t m(1) obtain m0 where m0: "hs_matched s = Some m0" "choices m0 = choices m"
    by (cases "hs_matched s") (simp_all add: settled_def)
  from fin B(3) obtain m9 c where "hs_matched s9 = Some m9" "choices m9 = choices m"
    "hs_session_id s' = hs_session_id s7" "hs_notifier s' = hs_notifier s7" "hs_plain s' = None"
    "hs_cipher s' = Some c" "runs_with c m9 keys"
    by (auto simp: on_plain_Ok_iff install_keys_def sbind_Ok_iff sr_defs unwrap_def upgrade_def runs_with_def
        split: option.splits)
  with v m0 B(1,2) t show ?thesis by (auto simp: settled_def choices_def runs_with_def)
qed

text \<open>C1: The client switches to encryption, and fixes the session id, only after a reply that holds a
  host key, a public value and a signature which is valid, for the negotiated algorithm, over the
  RFC 4253 hash of exactly this exchange: the versions and \<open>KEXINIT\<close> messages of this connection,
  that host key, both public values and the secret agreed between them; and after the application
  was asked about that host key and accepted it. The hash is the session id, the stream runs with
  the keys derived from it, and on every failure the connection keeps the cipher state it had.\<close>

theorem key_exchange_authenticates:
  assumes "key_exchange rnd s = (r, s')"
  shows "(r = Ok () \<and> (\<exists>host_key signature hash keys m c.
       vouched rnd s host_key signature hash keys \<and>
       hs_session_id s' = Some hash \<and> hs_matched s = Some m \<and>
       calls (hs_notifier s') = calls (hs_notifier s) @ [VerifyServerHostKey (verifier_name (m_host_key m)) host_key] \<and>
       hs_cipher s' = Some c \<and> runs_with c m keys \<and> hs_plain s' = None)) \<or>
    (r \<noteq> Ok () \<and> hs_cipher s' = hs_cipher s)"
proof (cases "\<exists>a. r = Ok a")
  case False
  with key_exchange_commits [of rnd] assms show ?thesis
    unfolding commits_def by (metis fst_conv snd_conv)
next
  case True
  with key_exchange_Ok [of rnd s s'] assms show ?thesis by simp
qed

text \<open>
  A run of the key exchange with a small library: the server's reply and its \<open>SSH_MSG_NEWKEYS\<close>
  are in the buffer, the signature is valid, and the application says yes.
\<close>

definition toy_kex :: key_exchange where
  "toy_kex = kex_new (str ''curve25519-sha256'') Curve25519
     \<lparr>digest = (\<lambda>_. [1, 2, 3, 4]), generate = (\<lambda>_. Ok [5]), agree = (\<lambda>_ _ _. Ok [6]),
      generate_x25519 = Ok [5], agree_x25519 = (\<lambda>_ _. Ok [6])\<rparr>"

definition toy_cipher :: "u8 cipher_factory" where
  "toy_cipher = \<lparr>iv_len = 1, key_len = 2, cipher_block_size = 8, cipher_initialize = (\<lambda>iv key. Ok (hd key))\<rparr>"

definition toy_mac :: "bytes mac_factory" where
  "toy_mac = \<lparr>mac_key_len = 3, mac_initialize = Ok\<rparr>"

definition toy_verifier :: verifier where
  "toy_verifier = \<lparr>verifier_name = str ''ssh-ed25519'', verifier_initialize = (\<lambda>_. Ok ()),
     verifier_verify = (\<lambda>k sg h. Ok (k = [9] \<and> sg = [7] \<and> h = [1, 2, 3, 4]))\<rparr>"

definition toy_config :: "(u8, u8, unit, unit, bytes) hs_config" where
  "toy_config = \<lparr>kex_table = [(str ''curve25519-sha256'', toy_kex)],
     host_key_table = [(str ''ssh-ed25519'', toy_verifier)],
     encrypt_table = [(str ''toy'', toy_cipher)], decrypt_table = [(str ''toy'', toy_cipher)],
     mac_out_table = [(str ''mac'', toy_mac)], mac_in_table = [(str ''mac'', toy_mac)],
     encode_table = [(str ''none'', ())], decode_table = [(str ''none'', ())],
     key_strict = True, advertise_ext = False, compat_disabled = False\<rparr>"

definition toy_matched :: "(u8, u8, unit, unit, bytes) matched_methods" where
  "toy_matched = \<lparr>m_kex = toy_kex, m_host_key = toy_verifier, m_encrypt = toy_cipher,
     m_decrypt = toy_cipher, m_mac_out = toy_mac, m_mac_in = toy_mac, m_encode = (), m_decode = ()\<rparr>"

lemma toy_negotiate: "negotiate toy_config (as_read (from_config toy_config)) = Ok toy_matched"
  by (simp add: negotiate_def toy_config_def as_read_def from_config_def advertised_kex_def reread_def
      toy_matched_def KEX_STRICT_CLIENT_def KEX_STRICT_SERVER_def EXT_INFO_SERVER_def)

lemma toy_wf: "methods_wf (from_config toy_config)"
  by (simp add: methods_wf_def names_ok_def fits_def from_config_def toy_config_def advertised_kex_def
      KEX_STRICT_CLIENT_def comma_def)

definition buffered :: "bytes \<Rightarrow> buffer_stream" where
  "buffered d = \<lparr>inbound = [], outbound = [], quotas = [], broken = False, r_buf = d, w_buf = []\<rparr>"

definition toy_reply :: bytes where
  "toy_reply = [0, 0, 0, 28, 11, 31, 0, 0, 0, 1, 9, 0, 0, 0, 1, 8, 0, 0, 0, 1, 7, 0, 0, 0, 0, 0, 0,
     0, 0, 0, 0, 0]"

definition toy_newkeys :: bytes where
  "toy_newkeys = [0, 0, 0, 12, 10, 21, 0, 0, 0, 0, 0, 0, 0, 0, 0, 0]"

definition toy_handshaker :: "bytes \<Rightarrow> (u8, u8, unit, unit, bytes) handshaker" where
  "toy_handshaker d = (handshaker_new (str ''SSH-2.0-client'') (buffered [])
       \<lparr>calls = [], answers = [\<lparr>accept = True, answer_window = None, answer_packet = None, kept = True\<rparr>]\<rparr> toy_config)
     \<lparr>hs_plain := Some (plain_new (buffered d)), hs_matched := Some toy_matched,
      hs_server_version := Some (str ''SSH-2.0-server''), hs_client_kex := Some [20],
      hs_server_kex := Some [20]\<rparr>"


lemmas run_defs = hs_send_def plain_send_payload_def bs_write_def write_buf_def bs_put_bytes_def
  frame_eq plain_recv_packet_def Packet_parse_eq consume_read_buffer_def packet_code_def
  consume_u8_def consume_bytes_def consume_def consume_one_def consume_u32_def peek_def consumer_new_def
  from_be_def shift_in_def 
  zoom_def sbind_def sr_defs  Let_def flush.simps fill.simps

lemma expand_numeral: "expand_keys (numeral v) dg k h len out =
     (if length out < len then expand_keys (pred_numeral v) dg k h len (out @ dg (k @ h @ out))
      else Ok (take len out))"
  by (simp add: numeral_eq_Suc)

lemma toy_run: "fst (key_exchange (\<lambda>_ _. 0) (toy_handshaker (toy_reply @ toy_newkeys))) = Ok ()"
  by (simp add: key_exchange_def group_exchange_def on_matched_def on_plain_def generate_key_def
    x25519_generate_key_def fresh_key_def kex_request_code_def kex_response_code_def
    toy_handshaker_def handshaker_new_def toy_matched_def toy_kex_def kex_new_def plain_new_def buffered_def
    endpoint_default_def run_defs strict_def padding_for_def bump_client_def random_bytes_def 
     as_u8_def put_one_def put_u8_def put_u32_def put_bytes_def u32_to_be_def as_u32_def
     wait_packet_def unread_def toy_reply_def toy_newkeys_def parse_reply_def accept_reply_def exchange_info_def
     unwrap_def compute_secret_key_def x25519_compute_secret_key_def agreed_def compute_hash_def ecdh_compute_hash_def
     toy_verifier_def ask_host_key_def initialize_def compute_communicate_key_def toy_cipher_def toy_mac_def
     information.make_def compute_keys_def expand_numeral install_keys_def bump_server_def into_integer_def)

theorem key_exchange_authenticates_witness:
  "\<exists>s' keys. key_exchange (\<lambda>_ _. 0) (toy_handshaker (toy_reply @ toy_newkeys)) = (Ok (), s') \<and>
    hs_session_id s' = Some [1, 2, 3, 4] \<and>
    vouched (\<lambda>_ _. 0) (toy_handshaker (toy_reply @ toy_newkeys)) [9] [7] [1, 2, 3, 4] keys"
proof -
  obtain s' where s': "key_exchange (\<lambda>_ _. 0) (toy_handshaker (toy_reply @ toy_newkeys)) = (Ok (), s')"
    using toy_run by (cases "key_exchange (\<lambda>_ _. 0) (toy_handshaker (toy_reply @ toy_newkeys))") auto
  from key_exchange_authenticates [OF s'] obtain host_key signature hash keys where
    h: "vouched (\<lambda>_ _. 0) (toy_handshaker (toy_reply @ toy_newkeys)) host_key signature hash keys" "hs_session_id s' = Some hash"
    by auto
  from h(1) obtain m where m: "verifier_verify (m_host_key m) host_key signature hash = Ok True"
      "map_option choices (hs_matched (toy_handshaker (toy_reply @ toy_newkeys))) = Some (choices m)"
    unfolding vouched_def signed_exchange_def by blast
  from m(2) have "toy_verifier = m_host_key m" by (simp add: choices_def toy_handshaker_def toy_matched_def)
  from m(1) [folded this] have "host_key = [9]" "signature = [7]" "hash = [1, 2, 3, 4]" by (simp_all add: toy_verifier_def)
  with s' h show ?thesis by auto
qed

text \<open>C11: A session key is the RFC 4253 key stream of its label, cut to the length its algorithm
  asks for: labels A and C key the outgoing cipher, B and D the incoming one, E and F the MACs.\<close>

theorem session_keys_rfc:
  assumes "\<forall>x. length (digest (kex_library (m_kex m)) x) = l" "0 < l"
    and "initialize m hash sid secret = Ok ks"
    and "\<forall>n \<in> {iv_len (m_encrypt m), key_len (m_encrypt m), iv_len (m_decrypt m), key_len (m_decrypt m),
        mac_key_len (m_mac_out m), mac_key_len (m_mac_in m)}. n \<le> Suc blocks * l"
  shows "let stream = (\<lambda>label. key_stream (digest (kex_library (m_kex m))) secret sid hash label blocks) in
      cipher_initialize (m_encrypt m) (take (iv_len (m_encrypt m)) (stream 65))
        (take (key_len (m_encrypt m)) (stream 67)) = Ok (key_encrypt ks) \<and>
      cipher_initialize (m_decrypt m) (take (iv_len (m_decrypt m)) (stream 66))
        (take (key_len (m_decrypt m)) (stream 68)) = Ok (key_decrypt ks) \<and>
      mac_initialize (m_mac_out m) (take (mac_key_len (m_mac_out m)) (stream 69)) = Ok (key_mac_out ks) \<and>
      mac_initialize (m_mac_in m) (take (mac_key_len (m_mac_in m)) (stream 70)) = Ok (key_mac_in ks)"
  using assms(3,4)
  by (auto simp: initialize_def compute_communicate_key_def compute_keys_rfc [OF assms(1,2), of _ blocks]
      res_bind_Ok_iff Let_def)

theorem session_keys_rfc_witness:
  "\<exists>ks. initialize toy_matched [1, 2, 3, 4] [5] [6] = Ok ks \<and> cipher_initialize toy_cipher [1] [1, 2] = Ok (key_encrypt ks)"
proof -
  have "\<exists>ks. initialize toy_matched [1, 2, 3, 4] [5] [6] = Ok ks"
    by (simp add: initialize_def toy_matched_def toy_kex_def kex_new_def toy_cipher_def toy_mac_def
        compute_communicate_key_def compute_keys_def expand_numeral)
  then obtain ks where "initialize toy_matched [1, 2, 3, 4] [5] [6] = Ok ks" ..
  with session_keys_rfc [of toy_matched 4 "[1, 2, 3, 4]" "[5]" "[6]" ks 0] show ?thesis
    by (simp add: toy_matched_def toy_kex_def kex_new_def toy_cipher_def toy_mac_def)
qed

section \<open>What the exchange hash binds\<close>

text \<open>C12: Two key exchanges with the same hash input agree in every field, for the fixed methods
  and for the group exchange, where the requested sizes, the prime and the generator are bound
  too: a signature on the hash cannot be moved to another exchange.\<close>

theorem exchange_hash_binds:
  assumes "info_fits i" "info_fits j" "fits (into_integer p)" "fits (into_integer g)"
    "fits (into_integer q)" "fits (into_integer h)"
  shows "(hash_input i = hash_input j \<longrightarrow> i = j) \<and>
    (gex_hash_input a b c p g i = gex_hash_input a' b' c' q h j \<longrightarrow>
       i = j \<and> a = a' \<and> b = b' \<and> c = c' \<and> be_nat p = be_nat q \<and> be_nat g = be_nat h)"
  using hash_input_inject [OF assms(1,2)] gex_hash_input_inject [OF assms] by blast

theorem exchange_hash_binds_witness:
  "hash_input (information.make [1] [2] [3] [4] [5] [6] [7] [8]) \<noteq>
     hash_input (information.make [1] [2] [3] [4] [5] [6] [8] [7])"
  using exchange_hash_binds [of "information.make [1] [2] [3] [4] [5] [6] [7] [8]"
      "information.make [1] [2] [3] [4] [5] [6] [8] [7]" "[1]" "[1]" "[1]" "[1]" 0 0 0 0 0 0]
  by (simp add: info_fits_def information.make_def fits_def into_integer_def)

section \<open>Negotiation\<close>

text \<open>A \<open>KEXINIT\<close> message that was built is read back as the name lists it was built from,
  with the strict and extension markers recognised and an empty list read as one empty name.\<close>

theorem kexinit_roundtrip:
  assumes "methods_wf m"
  shows "methods_parse (methods_build cookie m @ rest) = Ok (as_read m)"
  using assms by (rule methods_parse_build)

theorem kexinit_roundtrip_witness:
  "methods_parse (methods_build (\<lambda>n. of_nat n) (from_config toy_config)) = Ok (as_read (from_config toy_config))"
  using kexinit_roundtrip [OF toy_wf, of "\<lambda>n. of_nat n" "[]"] by simp

text \<open>C13: The client's choice in each of the eight categories is the one RFC 4253 prescribes: the
  first name of its own list that the server offers, which is what the server computes from the
  list the client configured.\<close>

theorem negotiation_follows_rfc:
  assumes "negotiate cf srv = Ok m"
  shows "named (kex_table cf) (rfc_choice (kex_names (from_config cf)) (kex_names srv)) (m_kex m) \<and>
    named (host_key_table cf)
      (rfc_choice (host_key_names (from_config cf)) (host_key_names srv)) (m_host_key m) \<and>
    named (encrypt_table cf)
      (rfc_choice (crypt_client_to_server (from_config cf)) (crypt_client_to_server srv)) (m_encrypt m) \<and>
    named (decrypt_table cf)
      (rfc_choice (crypt_server_to_client (from_config cf)) (crypt_server_to_client srv)) (m_decrypt m) \<and>
    named (mac_out_table cf)
      (rfc_choice (mac_client_to_server (from_config cf)) (mac_client_to_server srv)) (m_mac_out m) \<and>
    named (mac_in_table cf)
      (rfc_choice (mac_server_to_client (from_config cf)) (mac_server_to_client srv)) (m_mac_in m) \<and>
    named (encode_table cf)
      (rfc_choice (compress_client_to_server (from_config cf)) (compress_client_to_server srv)) (m_encode m) \<and>
    named (decode_table cf)
      (rfc_choice (compress_server_to_client (from_config cf)) (compress_server_to_client srv)) (m_decode m)"
  using negotiate_agrees [OF assms] by blast

definition toy_server :: methods where
  "toy_server = (from_config toy_config)\<lparr>kex_names := [str ''x'', str ''curve25519-sha256'']\<rparr>"

theorem negotiation_follows_rfc_witness:
  "rfc_choice [str ''curve25519-sha256''] [str ''x'', str ''curve25519-sha256''] = Some (str ''curve25519-sha256'')"
proof -
  have "\<exists>m. negotiate toy_config toy_server = Ok m"
    by (simp add: negotiate_def toy_config_def toy_server_def from_config_def)
  then obtain m where "negotiate toy_config toy_server = Ok m" ..
  from negotiation_follows_rfc [OF this] show ?thesis
    by (auto simp: named_def toy_config_def toy_server_def from_config_def rfc_choice_def)
qed

text \<open>Negotiation succeeds exactly when the two sides share a name in every category, and
  otherwise fails with \<open>NegotiationFailed\<close>; it never falls back to something not offered.\<close>

theorem negotiation_exact:
  "(negotiate cf srv = Err (HandshakeError NegotiationFailed) \<longleftrightarrow> \<not> shares_all cf srv) \<and>
   ((\<exists>m. negotiate cf srv = Ok m) \<longleftrightarrow> shares_all cf srv)"
  using negotiate_cases [of cf srv] by auto

text \<open>Against a server known for the padding bug (OpenSSH 6.5 and 6.6) the two ends disagree on
  the method: the name is left out of the list that is sent, so the server takes the next one,
  but the client's own choice still uses the full table.\<close>

theorem padded_curve_mismatch:
  assumes "kex_table cf = kex_all lib"
    and offer: "kex_names srv = [str ''curve25519-sha256@libssh.org'', str ''ecdh-sha2-nistp256'']"
    and "negotiate cf srv = Ok m"
  shows "kex_name (m_kex m) = str ''curve25519-sha256@libssh.org'' \<and>
    rfc_choice (kex_names (do_compat True (from_config cf))) (kex_names srv) = Some (str ''ecdh-sha2-nistp256'')"
  using assms
  by (auto simp: negotiate_def res_bind_Ok_iff kex_all_def kex_registry_def kex_new_def do_compat_def
      from_config_def rfc_choice_def)

theorem padded_curve_mismatch_witness:
  "\<exists>(cf :: (u8, u8, unit, unit, bytes) hs_config) srv m. negotiate cf srv = Ok m \<and>
     kex_name (m_kex m) = str ''curve25519-sha256@libssh.org'' \<and>
     rfc_choice (kex_names (do_compat True (from_config cf))) (kex_names srv) = Some (str ''ecdh-sha2-nistp256'')"
proof -
  let ?cf = "toy_config\<lparr>kex_table := kex_all (\<lambda>_. kex_library toy_kex)\<rparr>"
  let ?s = "toy_server\<lparr>kex_names := [str ''curve25519-sha256@libssh.org'', str ''ecdh-sha2-nistp256'']\<rparr>"
  have "\<exists>m. negotiate ?cf ?s = Ok m"
    by (simp add: negotiate_def toy_config_def toy_server_def from_config_def kex_all_def kex_registry_def)
  then obtain m where m: "negotiate ?cf ?s = Ok m" ..
  have "kex_table ?cf = kex_all (\<lambda>_. kex_library toy_kex)"
    "kex_names ?s = [str ''curve25519-sha256@libssh.org'', str ''ecdh-sha2-nistp256'']"
    by simp_all
  from padded_curve_mismatch [OF this m] m show ?thesis by blast
qed

section \<open>Waiting for a message\<close>

text \<open>Waiting for a packet of one kind returns or fails on every stream: each round takes
  bytes off the connection, so the loop satisfies its own recursion equation and its fuel never
  runs out.\<close>

theorem wait_packet_recursion:
  "wait_packet code (hs_handle_msg rnd) s =
    sbind plain_recv_packet (\<lambda>p. sbind (slift (packet_code p)) (\<lambda>c.
      if c = code then sreturn (payload p)
      else sbind (hs_handle_msg rnd p) (\<lambda>_. wait_packet code (hs_handle_msg rnd)))) s"
  by (rule wait_packet_unfold [OF keeps_hs_handle_msg])

text \<open>C10: Under strict key exchange the waits for the group and for the server's reply look at one
  packet: it is the awaited one, or the exchange fails and names the code that came instead. The wait for
  \<open>SSH_MSG_NEWKEYS\<close> is not like that: it drops whatever comes before and goes on.\<close>

theorem strict_wait_exact:
  assumes "strict s"
  shows "case plain_recv_packet s of
      (Ok p, t) \<Rightarrow> \<exists>c r. payload p = c # r \<and>
        wait_packet code (hs_handle_msg rnd) s =
          (if c = code then Ok (payload p) else Err (HandshakeError (UnexpectedMessageInStrictMode c)), t) \<and>
        wait_packet SSH_MSG_NEWKEYS (\<lambda>_. sreturn ()) s =
          (if c = SSH_MSG_NEWKEYS then (Ok (payload p), t) else wait_packet SSH_MSG_NEWKEYS (\<lambda>_. sreturn ()) t)
    | (Err e, t) \<Rightarrow> wait_packet code (hs_handle_msg rnd) s = (Err e, t)
    | (Panic, t) \<Rightarrow> wait_packet code (hs_handle_msg rnd) s = (Panic, t)"
proof -
  obtain r t where rt: "plain_recv_packet s = (r, t)" by (cases "plain_recv_packet s")
  note unfold = wait_packet_unfold [of "hs_handle_msg rnd" code s, OF keeps_hs_handle_msg]
  show ?thesis
  proof (cases r)
    case (Ok p)
    with rt received_code have c: "plain_recv_packet s = (Ok p, t)" "packet_code p = Ok (hd (payload p))" by auto
    have "keeps unread_plain (sreturn ())" by (simp add: keeps_def sreturn_def)
    from wait_packet_unfold [of "\<lambda>_. sreturn ()" SSH_MSG_NEWKEYS s, OF this] c wait_strict [OF assms c]
      plain_recv_Ok [OF c(1)] show ?thesis
      by (cases "payload p") (auto simp: slift_def sreturn_def sbind_def)
  qed (use unfold rt in simp_all)
qed

definition strict_stream :: "bytes \<Rightarrow> plain_stream" where
  "strict_stream d = (plain_new (buffered d))
     \<lparr>client := \<lparr>kex_strict = True, ext = False, sequence_number = 1\<rparr>,
      server := \<lparr>kex_strict = True, ext = False, sequence_number = 1\<rparr>\<rparr>"

lemma strict_first:
  "\<exists>p t. plain_recv_packet (strict_stream (toy_reply @ d)) = (Ok p, t) \<and> hd (payload p) = 31"
  by (simp add: strict_stream_def plain_new_def buffered_def toy_reply_def run_defs
        bump_server_def unread_def strict_def)

theorem strict_wait_exact_witness:
  "\<exists>p t. plain_recv_packet (strict_stream (toy_reply @ toy_newkeys)) = (Ok p, t) \<and>
     wait_packet 31 (hs_handle_msg (\<lambda>_ _. 0)) (strict_stream (toy_reply @ toy_newkeys)) = (Ok (payload p), t) \<and>
     wait_packet SSH_MSG_NEWKEYS (\<lambda>_. sreturn ()) (strict_stream (toy_reply @ toy_newkeys)) =
       wait_packet SSH_MSG_NEWKEYS (\<lambda>_. sreturn ()) t"
proof -
  let ?s = "strict_stream (toy_reply @ toy_newkeys)"
  obtain p t where p: "plain_recv_packet ?s = (Ok p, t)" "hd (payload p) = 31" using strict_first by blast
  have "strict ?s" by (simp add: strict_def strict_stream_def)
  from strict_wait_exact [OF this, of 31 "\<lambda>_ _. 0"] p show ?thesis by auto
qed

section \<open>Identification lines\<close>

lemma read_line_takes:
  assumes "read_line_crlf limit s = (Ok line, s')"
  shows "length line \<le> limit \<and> unread s = line @ unread s'"
proof -
  have scan: "crlf_scan limit i bs = Some (Ok n) \<Longrightarrow> i < limit \<Longrightarrow> n \<le> limit" for limit i bs n
    by (induction limit i bs rule: crlf_scan.induct) (auto split: if_splits)
  have "0 < limit \<Longrightarrow> read_crlf_loop limit s = (Ok line, s') \<Longrightarrow> length line \<le> limit \<and> unread s = line @ unread s'"
  proof (induction limit s rule: read_crlf_loop.induct)
    case (1 limit s)
    show ?case
    proof (cases "crlf_scan limit 0 (r_buf s)")
      case None
      with 1(3) obtain k t where t: "internal_read s = (Ok k, t)" "read_crlf_loop limit t = (Ok line, s')"
        by (auto simp: read_crlf_loop.simps [of limit s] split: prod.splits res.splits)
      from t(1) have "unread t = unread s"
        by (auto simp: internal_read_def unread_def Let_def split: list.splits if_splits)
      with 1(1) [OF None t(1) [symmetric] refl 1(2) t(2)] show ?thesis by simp
    next
      case (Some r)
      with 1(3) obtain n where n: "crlf_scan limit 0 (r_buf s) = Some (Ok n)"
        "line = take n (r_buf s)" "s' = s\<lparr>r_buf := drop n (r_buf s)\<rparr>"
        by (cases r) (auto simp: read_crlf_loop.simps [of limit s])
      with scan [OF n(1) 1(2)] show ?thesis by (simp add: unread_def)
    qed
  qed
  with assms show ?thesis by (auto simp: read_line_crlf_def sfail_def split: if_splits)
qed

lemma read_banner_bounds:
  "read_banner count seen s = (Ok (line, banners, software, comment), s') \<Longrightarrow>
   length (unread s) \<le> length (unread s') + (255 - count) \<and>
   (\<exists>version. parse_identification line = Some (version, software, comment) \<and>
      version \<in> {str ''2.0'', str ''1.99''})"
proof (induction count seen s rule: read_banner.induct)
  case (1 count seen s)
  from 1(2) obtain raw t where c: "\<not> count \<ge> 255" and r: "read_line_crlf (255 - count) s = (Ok raw, t)"
    and u: "\<not> \<not> utf8_valid raw"
    by (auto simp: read_banner.simps [of count seen s] split: if_splits prod.splits res.splits)
  have l: "length raw \<le> 255 - count" "length (unread s) = length raw + length (unread t)"
    using read_line_takes [OF r] by simp_all
  show ?case
  proof (cases "starts_with (str ''SSH-'') (trim_end_matches BANNER_ENDING raw)")
    case True
    with 1(2) c r u l show ?thesis
      by (auto simp: read_banner.simps [of count seen s] Let_def simp del: str_simps
          split: option.splits if_splits)
  next
    case False
    with 1(2) c r u have "read_banner (count + length raw) (seen @ [trim_end_matches BANNER_ENDING raw]) t =
        (Ok (line, banners, software, comment), s')"
      by (auto simp: read_banner.simps [of count seen s] Let_def simp del: str_simps)
    from 1(1) [OF c r [symmetric] refl u refl False this] l show ?thesis by auto
  qed
qed

text \<open>The client accepts an identification only of a protocol version it speaks, and reads at
  most 255 bytes to find it, however many lines the server sends before it.\<close>

theorem identification_bounded:
  assumes "read_banner 0 [] s = (Ok (line, banners, software, comment), s')"
  shows "length (unread s) \<le> length (unread s') + 255 \<and>
    (\<exists>version. parse_identification line = Some (version, software, comment) \<and>
      version \<in> {str ''2.0'', str ''1.99''})"
  using read_banner_bounds [OF assms] by simp

definition toy_greeting :: bytes where
  "toy_greeting = str ''hi'' @ [13, 10] @ str ''SSH-2.0-srv x'' @ [13, 10] @ [0, 0]"

theorem identification_bounded_witness:
  "\<exists>line s'. read_banner 0 [] (buffered toy_greeting) = (Ok (line, [str ''hi''], str ''srv'', Some (str ''x'')), s') \<and>
     (\<exists>version. parse_identification line = Some (version, str ''srv'', Some (str ''x'')))"
proof -
  have "fst (read_banner 0 [] (buffered toy_greeting)) =
      Ok (str ''SSH-2.0-srv x'', [str ''hi''], str ''srv'', Some (str ''x''))"
    by (simp add: read_banner.simps read_line_crlf_def read_crlf_loop.simps buffered_def toy_greeting_def
        utf8_valid_ascii trim_end_matches.simps parse_identification_def is_digit_def
        graphic_def printable_def line_end_def Let_def)
  then obtain s' where r: "read_banner 0 [] (buffered toy_greeting) =
      (Ok (str ''SSH-2.0-srv x'', [str ''hi''], str ''srv'', Some (str ''x'')), s')"
    by (cases "read_banner 0 [] (buffered toy_greeting)") simp
  from identification_bounded [OF r] r show ?thesis by blast
qed

end
