(* ===== verification/RekeyProperties.thy ===== *)
theory RekeyProperties
  imports RekeyFacts SessionProperties HandshakeProperties
begin

text \<open>
  The properties of a whole session, key re-exchanges included: the channel accounts in every
  reachable state, and what a re-exchange establishes before the keys change.
\<close>

text \<open>C3: In every state a session reaches from its start, through any interleaving of server
  packets and application events, key re-exchanges by either side included, each channel's
  accounts are in range: the client never granted more than its window, and never sent more than
  the server granted.\<close>

theorem session_windows_ok:
  "windows_ok (snd (session_exec env ts (session_new sid sock nt sp conf)))"
proof -
  have "windows_ok (session_new sid sock nt sp conf)" by (simp add: windows_ok_def session_new_def)
  with windows_exec [of "renegotiate env" ts] windows_renegotiate_run show ?thesis
    by (auto simp: session_exec_def preserves_def)
qed

section \<open>When the keys change\<close>

lemma changed_bind:
  "sbind m f s = (r, x) \<Longrightarrow> keeps g m \<Longrightarrow> g x \<noteq> g s \<Longrightarrow>
   \<exists>a s'. m s = (Ok a, s') \<and> f a s' = (r, x) \<and> g x \<noteq> g s'"
  by (cases "m s"; cases "fst (m s)") (auto simp: keeps_def, (metis snd_conv)+)

abbreviation installed :: "('e, 'd, 'c, 'z, 'm) rekey_exchange \<Rightarrow> _" where
  "installed x \<equiv> (installed_out x, installed_in x)"

lemma installed_simple:
  "keeps installed (on_session m)" "keeps installed (on_rematched m')"
  by (auto simp: keeps_def zoom_def on_rematched_def split: prod.split option.split)

lemma installed_parts:
  "keeps installed (rekey_negotiate env d)" "keeps installed (rekey_group env)"
  "keeps installed (rekey_accept env own reply)"
  unfolding rekey_negotiate_def rekey_group_def rekey_accept_def
  by (intro keeps_rules installed_simple; simp)+

lemma on_rematched_Ok_iff:
  "on_rematched m s = (Ok a, s') \<longleftrightarrow>
     (\<exists>p p'. rx_matched s = Some p \<and> m p = (Ok a, p') \<and> s' = s\<lparr>rx_matched := Some p'\<rparr>)"
  by (auto simp: on_rematched_def split: option.splits prod.splits)

text \<open>What a re-exchange negotiated stays, up to the state of the key-exchange object.\<close>

definition agreed_on :: "('e, 'd, 'c, 'z, 'm) rekey_exchange \<Rightarrow> _" where
  "agreed_on x = (rx_client_kex x, rx_server_kex x, map_option choices (rx_matched x))"

lemma agreed_session [keeps_rules]: "keeps agreed_on (on_session m)"
  by (auto simp: keeps_def agreed_on_def zoom_def split: prod.split)

lemma agreed_kex [keeps_rules]: "keeps origin m \<Longrightarrow> keeps agreed_on (on_rekex m)"
  by (auto simp: keeps_def agreed_on_def on_rematched_def zoom_def choices_def split: option.splits prod.splits)
    (metis snd_conv)+

lemma agreed_look [keeps_rules]: "keeps agreed_on (on_rematched (sget f))"
  by (auto simp: keeps_def agreed_on_def on_rematched_def sget_def split: option.splits)

lemma agreed_group: "keeps agreed_on (rekey_group env)"
  unfolding rekey_group_def Let_def by (intro keeps_rules)

lemma await_packet_code: "await_packet code s = (Ok d, s') \<Longrightarrow> \<exists>r. d = code # r"
proof -
  have "await_fuel n code s = (Ok d, s') \<Longrightarrow> \<exists>r. d = code # r" for n s
    by (induction n arbitrary: s)
      (auto simp: sbind_Ok_iff slift_def sr_defs split: if_splits dest: packet_code_hd)
  then show "await_packet code s = (Ok d, s') \<Longrightarrow> \<exists>r. d = code # r"
    unfolding await_packet_def .
qed

lemma rekey_accept_Ok:
  assumes "rekey_accept env own (host_key, peer, signature) y = (Ok keys, z)" "rx_matched y = Some m"
  shows "\<exists>ck sk secret hash m'. rx_client_kex y = Some ck \<and> rx_server_kex y = Some sk \<and>
    agreed_secret (m_kex m) peer = Some secret \<and>
    hash = rfc_exchange_hash (m_kex m) [env_client_version env, env_server_version env, ck, sk, host_key]
      [own, peer, secret] \<and>
    verifier_initialize (m_host_key m) host_key = Ok () \<and>
    verifier_verify (m_host_key m) host_key signature hash = Ok True \<and>
    initialize m hash (session_id (rx_session y)) (put_one secret []) = Ok keys \<and>
    (\<exists>a rest. answers (notifier (rx_session y)) = a # rest \<and> accept a) \<and>
    calls (notifier (rx_session z)) = calls (notifier (rx_session y)) @
      [VerifyServerHostKey (verifier_name (m_host_key m)) host_key] \<and>
    rx_matched z = Some m' \<and> choices m' = choices m"
proof -
  from assms obtain secret y1 m1 info hash a t where
    1: "on_rekex (compute_secret_key peer) y = (Ok secret, y1)" "rx_matched y1 = Some m1"
    and 2: "rekey_info env y1 host_key own peer secret = Ok info" "compute_hash info (m_kex m1) = Ok hash"
    and 3: "verifier_initialize (m_host_key m1) host_key = Ok ()"
      "verifier_verify (m_host_key m1) host_key signature hash = Ok True"
    and 4: "ask_notifier (VerifyServerHostKey (verifier_name (m_host_key m1)) host_key) (rx_session y1) = (Ok a, t)"
      "accept a"
    and 5: "initialize m1 hash (session_id t) (put_one secret []) = Ok keys" "rx_matched z = Some m1" "rx_session z = t"
    by (auto simp: rekey_accept_def sbind_Ok_iff on_rematched_Ok_iff zoom_Ok_iff sr_defs split: if_splits)
  from 1 assms(2) obtain k where k: "compute_secret_key peer (m_kex m) = (Ok secret, k)" "m1 = m\<lparr>m_kex := k\<rparr>"
    and y1: "rx_session y1 = rx_session y"
    by (auto simp: on_rematched_Ok_iff zoom_Ok_iff)
  note K = compute_secret_key_Ok [OF k(1)]
  have ag: "agreed_on y1 = agreed_on y" by (rule keepsD [OF agreed_kex [OF origin_kept(2)] 1(1)])
  then obtain ck sk where v: "rx_client_kex y = Some ck" "rx_server_kex y = Some sk"
    "info = information.make (env_client_version env) (env_server_version env) ck sk host_key own peer secret"
    using 2(1) by (auto simp: agreed_on_def rekey_info_def res_bind_Ok_iff unwrap_def split: option.splits)
  have "hash = rfc_exchange_hash (m_kex m) [env_client_version env, env_server_version env, ck, sk, host_key]
      [own, peer, secret]"
    using compute_hash_Ok [OF 2(2) [unfolded v(3)]] rfc_exchange_hash_same [of k "m_kex m"] K k(2) by simp
  moreover have "session_id t = session_id (rx_session y)" "\<exists>a rest. answers (notifier (rx_session y)) = a # rest \<and> accept a"
    "calls (notifier t) = calls (notifier (rx_session y)) @ [VerifyServerHostKey (verifier_name (m_host_key m1)) host_key]"
    using 4 y1 by (auto simp: ask_notifier_def Let_def split: list.splits)
  moreover have "initialize m1 = initialize m" using initialize_same [of k m] K k(2) by simp
  moreover have "choices m1 = choices m" using ag 1(2) assms(2) by (simp add: agreed_on_def)
  ultimately show ?thesis using v(1,2) 3 5 K k(2) by auto
qed

lemma rekey_switch_out:
  assumes "rekey_switch keys z = (r, x)" "installed x \<noteq> installed z" "rx_matched z = Some m"
  shows "\<exists>n. installed_out x = Some (key_encrypt keys, m_encode m, key_mac_out keys, Suc n) \<and>
    n < length (tx (socket (rx_session x))) \<and> tx (socket (rx_session x)) ! n = [SSH_MSG_NEWKEYS] \<and>
    (installed_in x = installed_in z \<or> (\<exists>k. installed_in x = Some (key_decrypt keys, m_decode m, key_mac_in keys, k)))"
proof -
  let ?send = "on_session (on_socket (send_payload [SSH_MSG_NEWKEYS])) ::
    (('a, 'b, 'c, 'd, 'e) rekey_exchange, unit) sr"
  obtain z1 where z1: "?send z = (Ok (), z1)"
    and rest: "sbind (on_rematched (sget (\<lambda>m. m))) (\<lambda>m.
       sbind (smodify (\<lambda>s. s\<lparr>installed_out := Some (key_encrypt keys, m_encode m, key_mac_out keys,
          length (tx (socket (rx_session s))))\<rparr>)) (\<lambda>_.
       sbind (on_session (await_packet SSH_MSG_NEWKEYS)) (\<lambda>_.
       smodify (\<lambda>s. s\<lparr>installed_in := Some (key_decrypt keys, m_decode m, key_mac_in keys,
          length (rx (socket (rx_session s))))\<rparr>)))) z1 = (r, x)"
    using changed_bind [OF assms(1) [unfolded rekey_switch_def] installed_simple(1) assms(2)] by auto
  let ?T = "tx (socket (rx_session z1))"
  obtain n where T: "?T = tx (socket (rx_session z)) @ [[SSH_MSG_NEWKEYS]]" "length ?T = Suc n"
    "?T ! n = [SSH_MSG_NEWKEYS]"
    using z1 by (auto simp: zoom_Ok_iff send_payload_def bump_client_def split: if_splits list.splits option.splits)
  have m1: "rx_matched z1 = Some m" using z1 assms(3) by (auto simp: zoom_Ok_iff)
  let ?z2 = "z1\<lparr>installed_out := Some (key_encrypt keys, m_encode m, key_mac_out keys, Suc n)\<rparr>"
  let ?tail = "sbind (on_session (await_packet SSH_MSG_NEWKEYS)) (\<lambda>_.
       smodify (\<lambda>s. s\<lparr>installed_in := Some (key_decrypt keys, m_decode m, key_mac_in keys,
          length (rx (socket (rx_session s))))\<rparr>))"
  have "on_rematched (sget (\<lambda>m. m)) z1 = (Ok m, z1)"
    using m1 by (cases z1) (simp add: on_rematched_def sget_def)
  with rest T(2) have tail: "?tail ?z2 = (r, x)" by simp
  have "preserves (\<lambda>x. wrote ?T (rx_session x)) ?tail"
    by (intro preserves_bind lift_session [OF await_preserves [OF wrote_stable]] preserves_smodify) simp
  then have "wrote ?T (rx_session x)"
    using tail by (auto simp: wrote_def dest!: preservesD)
  moreover have "keeps installed_out ?tail" by (intro keeps_rules) simp_all
  from keepsD [OF this tail] have "installed_out x = installed_out ?z2" .
  moreover have "installed_in x = installed_in z \<or> (\<exists>k. installed_in x = Some (key_decrypt keys, m_decode m, key_mac_in keys, k))"
  proof -
    obtain q w where w: "on_session (await_packet SSH_MSG_NEWKEYS) ?z2 = (q, w)"
      by (cases "on_session (await_packet SSH_MSG_NEWKEYS) ?z2")
    have "installed_in w = installed_in z"
      using keepsD [OF installed_simple(1) w] keepsD [OF installed_simple(1) z1] by simp
    with tail w show ?thesis by (cases q) (auto simp: sbind_def smodify_def)
  qed
  ultimately show ?thesis
    using T(2,3) by (auto simp: wrote_def nth_append)
qed

text \<open>Everything before the reply is accepted: the own public value, and the reply.\<close>

definition rekey_front ::
    "('e, 'd, 'c, 'z, 'm) rekey_env \<Rightarrow> bytes option \<Rightarrow>
     (('e, 'd, 'c, 'z, 'm) rekey_exchange, bytes \<times> bytes) sr" where
  "rekey_front env d =
     sbind (rekey_negotiate env d) (\<lambda>_. sbind (rekey_group env) (\<lambda>_.
     sbind (on_rekex generate_key) (\<lambda>own.
     sbind (on_rekex (sget kex_request_code)) (\<lambda>request.
     sbind (on_session (on_socket (send_payload (put_one own (put_u8 request []))))) (\<lambda>_.
     sbind (on_rekex (sget kex_response_code)) (\<lambda>response.
     sbind (on_session (await_packet response)) (\<lambda>reply. sreturn (own, reply))))))))"

lemma rekey_exec_front:
  "rekey_exec env d = sbind (rekey_front env d) (\<lambda>(own, reply). sbind (slift (parse_reply reply)) (\<lambda>fields.
     sbind (rekey_accept env own fields) rekey_switch))"
  by (simp add: rekey_exec_def rekey_key_exchange_def rekey_front_def sbind_assoc sbind_sreturn)

lemma rekey_front_keeps: "keeps installed (rekey_front env d)"
  unfolding rekey_front_def by (intro keeps_rules installed_simple installed_parts)

lemma rekey_front_preserves:
  assumes "session_stable P"
  shows "preserves (\<lambda>x. P (rx_session x)) (rekey_front env d)"
proof -
  have S: "preserves P (on_socket (send_payload x))" for x
    using assms by (simp add: session_stable_def)
  show ?thesis
    unfolding rekey_front_def
    by (intro preserves_bind preserves_simple rekey_parts_preserve [OF assms] lift_matched lift_session [OF S]
        lift_session [OF await_preserves [OF assms]])
qed

text \<open>
  Both \<open>KEXINIT\<close> messages are those of this re-exchange, and the methods in use are the ones
  negotiation computes from the server's.
\<close>

definition negotiated ::
    "('e, 'd, 'c, 'z, 'm) rekey_env \<Rightarrow> bytes \<Rightarrow> bytes \<Rightarrow> ('e, 'd, 'c, 'z, 'm) matched_methods \<Rightarrow> bool" where
  "negotiated env ck sk m \<longleftrightarrow>
     ck = methods_build (env_cookie env) (do_compat
       (\<not> compat_disabled (env_config env) \<and> curve25519_pad (env_compat env)) (from_config (env_config env))) \<and>
     (\<exists>server_lists chosen. methods_parse sk = Ok server_lists \<and> negotiate (env_config env) server_lists = Ok chosen \<and>
        choices m = choices chosen)"

lemma rekey_front_Ok:
  assumes "rekey_front env d x = (Ok (own, reply), y)"
  shows "\<exists>m r ck sk. rx_matched y = Some m \<and> reply = kex_response_code (m_kex m) # r \<and>
    rx_client_kex y = Some ck \<and> rx_server_kex y = Some sk \<and> negotiated env ck sk m"
proof -
  from assms obtain x1 x2 x3 req x4 x5 resp x6 where
    1: "rekey_negotiate env d x = (Ok (), x1)" "rekey_group env x1 = (Ok (), x2)"
      "on_rekex generate_key x2 = (Ok own, x3)" "on_rekex (sget kex_request_code) x3 = (Ok req, x4)"
      "on_session (on_socket (send_payload (put_one own (put_u8 req [])))) x4 = (Ok (), x5)"
    and look: "on_rekex (sget kex_response_code) x5 = (Ok resp, x6)"
    and wait: "on_session (await_packet resp) x6 = (Ok reply, y)"
    by (auto simp: rekey_front_def sbind_Ok_iff sreturn_def)
  from look obtain m where m: "rx_matched x6 = Some m" "resp = kex_response_code (m_kex m)"
    by (auto simp: on_rematched_Ok_iff zoom_Ok_iff sget_def)
  from wait have y: "rx_matched y = rx_matched x6" "\<exists>r. reply = resp # r"
    by (auto simp: zoom_Ok_iff dest: await_packet_code)
  have "agreed_on y = agreed_on x1"
    using keepsD [OF agreed_group 1(2)] keepsD [OF agreed_kex [OF origin_kept(1)] 1(3)]
      keepsD [OF agreed_kex [OF origin_kept(5)] 1(4)] keepsD [OF agreed_session 1(5)]
      keepsD [OF agreed_kex [OF origin_kept(5)] look] keepsD [OF agreed_session wait]
    by simp
  moreover obtain ck sk chosen where "rx_client_kex x1 = Some ck" "rx_server_kex x1 = Some sk"
    "rx_matched x1 = Some chosen" "negotiated env ck sk chosen"
    using 1(1) by (auto simp: rekey_negotiate_def Let_def sbind_Ok_iff sr_defs zoom_Ok_iff negotiated_def
        split: option.splits)
  ultimately show ?thesis using m y by (auto simp: agreed_on_def negotiated_def)
qed

text \<open>
  What a re-exchange has established when it installs keys. The run up to the reply,
  \<open>rekey_front\<close>, fixes the methods, the reply and with it the host key, the signature, the secret,
  the hash and the keys (\<open>signed_exchange_unique\<close>).
\<close>

definition renewed ::
    "('e, 'd, 'c, 'z, 'm) rekey_env \<Rightarrow> bytes option \<Rightarrow> session_inner \<Rightarrow>
     ('e, 'd, 'c, 'z, 'm) rekey_exchange \<Rightarrow> bool" where
  "renewed env d s x \<longleftrightarrow> (\<exists>own reply y m ck sk host_key signature secret hash keys n.
     rekey_front env d (rekey_new s) = (Ok (own, reply), y) \<and>
     rx_matched y = Some m \<and> rx_client_kex y = Some ck \<and> rx_server_kex y = Some sk \<and> negotiated env ck sk m \<and>
     signed_exchange m [env_client_version env, env_server_version env, ck, sk] own reply
       host_key signature secret hash \<and>
     (\<exists>a rest. answers (notifier (rx_session y)) = a # rest \<and> accept a) \<and>
     asked_first (calls (notifier (rx_session y)) @ [VerifyServerHostKey (verifier_name (m_host_key m)) host_key])
       (rx_session x) \<and>
     initialize m hash (session_id s) (put_one secret []) = Ok keys \<and>
     installed_out x = Some (key_encrypt keys, m_encode m, key_mac_out keys, Suc n) \<and>
     n < length (tx (socket (rx_session x))) \<and> tx (socket (rx_session x)) ! n = [SSH_MSG_NEWKEYS] \<and>
     (\<forall>i. installed_in x = Some i \<longrightarrow> (\<exists>k. i = (key_decrypt keys, m_decode m, key_mac_in keys, k))))"

lemma rekey_installs:
  assumes run: "rekey_exec env d (rekey_new s) = (r, x)" and inst: "installed x \<noteq> (None, None)"
  shows "renewed env d s x"
proof -
  have "installed x \<noteq> installed (rekey_new s)" using inst by (simp add: rekey_new_def)
  from changed_bind [OF run [unfolded rekey_exec_front] rekey_front_keeps this]
  obtain own reply y where front: "rekey_front env d (rekey_new s) = (Ok (own, reply), y)"
    and y: "installed x \<noteq> installed y"
      "sbind (slift (parse_reply reply)) (\<lambda>fields. sbind (rekey_accept env own fields) rekey_switch) y = (r, x)"
    by auto
  have inst_y: "installed y = (None, None)" using keepsD [OF rekey_front_keeps front] by (simp add: rekey_new_def)
  from y obtain host_key peer signature where fields: "parse_reply reply = Ok (host_key, peer, signature)"
    and y2: "sbind (rekey_accept env own (host_key, peer, signature)) rekey_switch y = (r, x)"
    by (cases "parse_reply reply") (auto simp: slift_def)
  from changed_bind [OF y2 installed_parts(3) y(1)] obtain keys z where
    acc: "rekey_accept env own (host_key, peer, signature) y = (Ok keys, z)" and sw: "rekey_switch keys z = (r, x)"
    and z: "installed x \<noteq> installed z"
    by auto
  have inst_z: "installed_in z = None" using keepsD [OF installed_parts(3) acc] inst_y by simp
  from rekey_front_Ok [OF front] obtain m rest ck sk where
    m: "rx_matched y = Some m" "reply = kex_response_code (m_kex m) # rest"
      "rx_client_kex y = Some ck" "rx_server_kex y = Some sk" "negotiated env ck sk m"
    by blast
  from rekey_accept_Ok [OF acc m(1)] m(3,4) obtain secret hash m' where
    A: "agreed_secret (m_kex m) peer = Some secret"
      "hash = rfc_exchange_hash (m_kex m) [env_client_version env, env_server_version env, ck, sk, host_key]
        [own, peer, secret]"
      "verifier_initialize (m_host_key m) host_key = Ok ()"
      "verifier_verify (m_host_key m) host_key signature hash = Ok True"
    and B: "initialize m hash (session_id (rx_session y)) (put_one secret []) = Ok keys"
      "\<exists>a rest. answers (notifier (rx_session y)) = a # rest \<and> accept a"
      "calls (notifier (rx_session z)) = calls (notifier (rx_session y)) @
        [VerifyServerHostKey (verifier_name (m_host_key m)) host_key]"
      "rx_matched z = Some m'" "choices m' = choices m"
    by auto
  from parse_reply_Ok [OF fields] m(2) A
  have S: "signed_exchange m [env_client_version env, env_server_version env, ck, sk] own reply
      host_key signature secret hash"
    unfolding signed_exchange_def by auto
  from rekey_switch_out [OF sw z B(4)] inst_z B(5) obtain n where
    C: "installed_out x = Some (key_encrypt keys, m_encode m, key_mac_out keys, Suc n)"
      "n < length (tx (socket (rx_session x)))" "tx (socket (rx_session x)) ! n = [SSH_MSG_NEWKEYS]"
      "\<forall>i. installed_in x = Some i \<longrightarrow> (\<exists>k. i = (key_decrypt keys, m_decode m, key_mac_in keys, k))"
    by (auto simp: choices_def)
  have "session_id (rx_session y) = session_id s"
    using preservesD [OF rekey_front_preserves [OF login_stable [of "login s"]] front]
    by (simp add: login_def rekey_new_def)
  with B(1) have keys: "initialize m hash (session_id s) (put_one secret []) = Ok keys" by simp
  have "asked_first (calls (notifier (rx_session z))) (rx_session x)"
    using preservesD [OF rekey_parts_preserve(4) [OF asked_first_stable] sw] by (simp add: asked_first_def)
  then have asked: "asked_first (calls (notifier (rx_session y)) @
      [VerifyServerHostKey (verifier_name (m_host_key m)) host_key]) (rx_session x)"
    using B(3) by simp
  show ?thesis
    unfolding renewed_def
    using front m(1,3-5) S B(2) asked keys C by blast
qed

text \<open>C4: A re-exchange changes the keys only after a reply whose signature is valid, for the host-key
  algorithm negotiated from both \<open>KEXINIT\<close> messages, over the RFC 4253 hash of exactly this exchange,
  and only if the application, asked about that host key, accepts it again; the new keys derive
  from that hash and the first exchange's session id, they apply to what is sent directly after
  \<open>SSH_MSG_NEWKEYS\<close>, and session id, configuration and login stay as they were.\<close>

theorem rekey_authenticates:
  assumes run: "rekey_exec env d (rekey_new s) = (r, x)"
  shows "login (rx_session x) = login s \<and>
    (installed x \<noteq> (None, None) \<longrightarrow> renewed env d s x)"
proof -
  have "renegotiate env d s = (r, rx_session x)" using run by (simp add: renegotiate_def)
  from preservesD [OF rekey_preserves [OF login_stable [of "login s"]] this] have "login (rx_session x) = login s" by simp
  with rekey_installs [OF run] show ?thesis by blast
qed

text \<open>A run: the server's reply and its \<open>SSH_MSG_NEWKEYS\<close> are waiting, the signature is valid.\<close>

definition toy_env :: "(u8, u8, unit, unit, bytes) rekey_env" where
  "toy_env = \<lparr>env_config = toy_config, env_compat = compat_default,
     env_client_version = str ''SSH-2.0-client'', env_server_version = str ''SSH-2.0-server'',
     env_cookie = (\<lambda>n. of_nat n)\<rparr>"

definition toy_live :: session_inner where
  "toy_live = (demo_session
      [Ok \<lparr>payload = [31, 0, 0, 0, 1, 9, 0, 0, 0, 1, 8, 0, 0, 0, 1, 7], padding = []\<rparr>,
       Ok \<lparr>payload = [21], padding = []\<rparr>])
     \<lparr>notifier := \<lparr>calls = [], answers = [\<lparr>accept = True, answer_window = None, answer_packet = None, kept = True\<rparr>]\<rparr>\<rparr>"

lemma toy_rekey_run:
  "\<exists>x. rekey_exec toy_env (Some (methods_build (\<lambda>_. 0) (from_config toy_config))) (rekey_new toy_live) = (Ok (), x) \<and>
     installed_in x \<noteq> None"
proof -
  have p: "methods_parse (methods_build (\<lambda>_. 0) (from_config toy_config)) = Ok (as_read (from_config toy_config))"
    using methods_parse_build [OF toy_wf, of "\<lambda>_. 0" "[]"] by simp
  have l: "\<not> 32768 < length (methods_build c (from_config toy_config))"
    "methods_build c (from_config toy_config) \<noteq> []" for c
    by (simp_all add: methods_build_eq from_config_def toy_config_def advertised_kex_def KEX_STRICT_CLIENT_def)
  show ?thesis using p toy_negotiate l
    by (simp add: rekey_exec_def rekey_negotiate_def toy_env_def do_compat_def compat_default_def rekey_new_def
        zoom_def sbind_def sr_defs Let_def send_payload_def toy_live_def demo_defs bump_client_def
        strict_def rekey_key_exchange_def rekey_group_def on_rematched_def toy_matched_def toy_kex_def
        kex_new_def generate_key_def x25519_generate_key_def fresh_key_def kex_request_code_def
        kex_response_code_def put_one_def put_u8_def put_u32_def put_bytes_def u32_to_be_def
        as_u32_def await_packet_def recv_packet_def packet_code_def consume_u8_def consume_bytes_def
        consume_def consume_one_def consume_u32_def peek_def consumer_new_def from_be_def shift_in_def
        bump_server_def parse_reply_def rekey_accept_def rekey_info_def unwrap_def
        compute_secret_key_def x25519_compute_secret_key_def agreed_def compute_hash_def
        ecdh_compute_hash_def toy_verifier_def initialize_def compute_communicate_key_def
        toy_cipher_def toy_mac_def information.make_def compute_keys_def into_integer_def
        expand_numeral ask_notifier_def rekey_switch_def)
qed

theorem rekey_authenticates_witness:
  "\<exists>x. rekey_exec toy_env (Some (methods_build (\<lambda>_. 0) (from_config toy_config))) (rekey_new toy_live) = (Ok (), x) \<and>
     renewed toy_env (Some (methods_build (\<lambda>_. 0) (from_config toy_config))) toy_live x"
  using toy_rekey_run rekey_authenticates by fastforce

end
