(* ===== verification/Channels.thy ===== *)
theory Channels
  imports SessionLoop
begin

text \<open>
  The application's side of a channel: \<open>Channel\<close> and \<open>BufferChannel\<close> of
  \<open>src/session/channel.rs\<close>. A call puts an event on the queue of the session task and waits for
  its answer; what the session delivers waits in the channel's inbox.
\<close>

section \<open>The connection to the session task\<close>

text \<open>
  How the session takes the next event: it answers, it drops the answer's sender without
  answering, or the queue is full at this moment. An empty script is a session that has ended.
  \<open>asked\<close> records the events that got into the queue, with what became of them.
\<close>

datatype outcome = Answered reply | Dropped | Full

record port =
  script :: "outcome list"
  asked :: "(event \<times> outcome) list"

definition shutdown :: error where
  "shutdown = SessionError (UnexpectedBehaviour ''Maybe session was shutdown'')"

definition is_full :: "outcome \<Rightarrow> bool" where
  "is_full out = (case out of Full \<Rightarrow> True | _ \<Rightarrow> False)"

text \<open>\<open>sender.send_next(event).await?; receiver.receive_next().await?\<close>: a full queue delays.\<close>

definition ask :: "event \<Rightarrow> (port, reply) sr" where
  "ask e s =
     (case dropWhile is_full (script s) of
        Answered r # rest \<Rightarrow> (Ok r, s\<lparr>script := rest, asked := asked s @ [(e, Answered r)]\<rparr>)
      | Dropped # rest \<Rightarrow> (Err shutdown, s\<lparr>script := rest, asked := asked s @ [(e, Dropped)]\<rparr>)
      | _ \<Rightarrow> (Err shutdown, s\<lparr>script := []\<rparr>))"

text \<open>\<open>sender.try_send(event)\<close>, without waiting for the answer: whether the event is in the queue.\<close>

definition try_put :: "event \<Rightarrow> (port, bool) sr" where
  "try_put e s =
     (case script s of
        [] \<Rightarrow> (Ok False, s)
      | Full # rest \<Rightarrow> (Ok False, s\<lparr>script := rest\<rparr>)
      | out # rest \<Rightarrow> (Ok True, s\<lparr>script := rest, asked := asked s @ [(e, out)]\<rparr>))"

text \<open>
  The answer of an event has the type the event's sender carries; a session cannot send another
  one. The model counts such an answer as a dropped one.
\<close>

fun unit_reply :: "reply \<Rightarrow> unit res" where
  "unit_reply (ReplyUnit r) = r"
| "unit_reply _ = Err shutdown"

fun size_reply :: "reply \<Rightarrow> nat res" where
  "size_reply (ReplySize r) = r"
| "size_reply _ = Err shutdown"

definition ask_unit :: "event \<Rightarrow> (port, unit) sr" where
  "ask_unit e = sbind (ask e) (\<lambda>r. slift (unit_reply r))"

definition ask_size :: "event \<Rightarrow> (port, nat) sr" where
  "ask_size e = sbind (ask e) (\<lambda>r. slift (size_reply r))"

section \<open>Channel\<close>

text \<open>
  In the inbox a \<open>None\<close> is a moment when no message waits; past its end the session has dropped
  the sender.
\<close>

record channel =
  chan_id :: identity_pair
  inbox :: "channel_message option list"
  chan_port :: port
  chan_closed :: bool

definition channel_new :: "identity_pair \<Rightarrow> channel_message option list \<Rightarrow> port \<Rightarrow> channel" where
  "channel_new p ms q = \<lparr>chan_id = p, inbox = ms, chan_port = q, chan_closed = False\<rparr>"

abbreviation on_port :: "(port, 'a) sr \<Rightarrow> (channel, 'a) sr" where
  "on_port \<equiv> zoom chan_port (\<lambda>p c. c\<lparr>chan_port := p\<rparr>)"

definition request :: "(identity_pair \<Rightarrow> event) \<Rightarrow> (channel, unit) sr" where
  "request e = sbind (sget chan_id) (\<lambda>i. on_port (ask_unit (e i)))"

definition chan_eof :: "(channel, unit) sr" where
  "chan_eof = request ChannelEofEvent"

text \<open>\<open>close\<close> consumes the channel: the close event went out, or the drop at its end sends one.\<close>

definition chan_drop :: "(channel, unit) sr" where
  "chan_drop = sbind (sget chan_closed) (\<lambda>done.
     if done then sreturn ()
     else sbind (sget chan_id) (\<lambda>i. sbind (on_port (try_put (ChannelCloseEvent i))) (\<lambda>sent.
       if sent then smodify (\<lambda>c. c\<lparr>chan_closed := True\<rparr>) else sreturn ())))"

definition chan_close :: "(channel, unit) sr" where
  "chan_close c =
     (case on_port (ask (ChannelCloseEvent (chan_id c))) c of
        (Ok r, c') \<Rightarrow> (unit_reply r, c'\<lparr>chan_closed := True\<rparr>)
      | (Err e, c') \<Rightarrow>
          (Err e, if length (asked (chan_port c')) > length (asked (chan_port c))
                  then c'\<lparr>chan_closed := True\<rparr> else snd (chan_drop c'))
      | (Panic, c') \<Rightarrow> (Panic, c'))"

definition chan_try_receive :: "(channel, channel_message option) sr" where
  "chan_try_receive c =
     (case inbox c of [] \<Rightarrow> (Err shutdown, c) | m # ms \<Rightarrow> (Ok m, c\<lparr>inbox := ms\<rparr>))"

fun next_arrival :: "'a option list \<Rightarrow> ('a \<times> 'a option list) option" where
  "next_arrival [] = None"
| "next_arrival (None # ms) = next_arrival ms"
| "next_arrival (Some m # ms) = Some (m, ms)"

definition chan_receive :: "(channel, channel_message) sr" where
  "chan_receive c =
     (case next_arrival (inbox c) of
        None \<Rightarrow> (Err shutdown, c\<lparr>inbox := []\<rparr>)
      | Some (m, ms) \<Rightarrow> (Ok m, c\<lparr>inbox := ms\<rparr>))"

definition chan_send :: "bytes \<Rightarrow> (channel, nat) sr" where
  "chan_send data =
     (if data = [] then sreturn 0
      else sbind (sget chan_id) (\<lambda>i. on_port (ask_size (ChannelSendData i data))))"

definition request_x11 :: "bool \<Rightarrow> bool \<Rightarrow> bytes \<Rightarrow> bytes \<Rightarrow> u32 \<Rightarrow> (channel, unit) sr" where
  "request_x11 want single protocol cookie screen =
     request (\<lambda>i. ChannelRequestX11 i want single protocol cookie screen)"

definition request_env :: "bool \<Rightarrow> bytes \<Rightarrow> bytes \<Rightarrow> (channel, unit) sr" where
  "request_env want name val = request (\<lambda>i. ChannelRequestEnv i want name val)"

definition request_signal :: "bool \<Rightarrow> bytes \<Rightarrow> (channel, unit) sr" where
  "request_signal want sig = request (\<lambda>i. ChannelRequestSignal i want sig)"

definition request_window_change :: "u32 \<Rightarrow> u32 \<Rightarrow> u32 \<Rightarrow> u32 \<Rightarrow> (channel, unit) sr" where
  "request_window_change columns rows width height =
     request (\<lambda>i. ChannelRequestWindowChange i columns rows width height)"

definition request_exec :: "bool \<Rightarrow> bytes \<Rightarrow> (channel, unit) sr" where
  "request_exec want command = request (\<lambda>i. ChannelRequestExec i want command)"

definition request_shell :: "bool \<Rightarrow> (channel, unit) sr" where
  "request_shell want = request (\<lambda>i. ChannelRequestShell i want)"

definition request_agent :: "bool \<Rightarrow> (channel, unit) sr" where
  "request_agent want = request (\<lambda>i. ChannelRequestAgent i want)"

definition request_break :: "bool \<Rightarrow> u32 \<Rightarrow> (channel, unit) sr" where
  "request_break want milliseconds = request (\<lambda>i. ChannelRequestBreak i want milliseconds)"

definition request_pty ::
    "bytes \<Rightarrow> bool \<Rightarrow> u32 \<Rightarrow> u32 \<Rightarrow> u32 \<Rightarrow> u32 \<Rightarrow> (tty_opcode \<times> u32) list \<Rightarrow> (channel, unit) sr" where
  "request_pty terminal want columns rows width height modes =
     request (\<lambda>i. ChannelRequestPty i terminal want columns rows width height modes)"

section \<open>BufferChannel\<close>

record buffer_channel =
  bc_channel :: channel
  out_buf :: bytes
  in_buf :: bytes

definition buffer_new :: "channel \<Rightarrow> buffer_channel" where
  "buffer_new c = \<lparr>bc_channel = c, out_buf = [], in_buf = []\<rparr>"

abbreviation on_channel :: "(channel, 'a) sr \<Rightarrow> (buffer_channel, 'a) sr" where
  "on_channel \<equiv> zoom bc_channel (\<lambda>c b. b\<lparr>bc_channel := c\<rparr>)"

definition unexpected_message :: "string \<Rightarrow> error" where
  "unexpected_message detail = SessionError (UnexpectedMessage detail)"

definition store_input :: "bytes \<Rightarrow> (buffer_channel, unit) sr" where
  "store_input d = smodify (\<lambda>b. b\<lparr>in_buf := in_buf b @ d\<rparr>)"

text \<open>
  The inner loop of \<open>flush\<close>: read messages until the window grows. Each round takes a message
  off the inbox, so one round more than there are messages is enough.
\<close>

primrec await_window :: "nat \<Rightarrow> (buffer_channel, unit) sr" where
  "await_window 0 = spanic"
| "await_window (Suc n) = sbind (on_channel chan_receive) (\<lambda>m.
     case m of
       Close \<Rightarrow> sfail (unexpected_message ''Unexpected close message'')
     | Stdout data \<Rightarrow> sbind (store_input data) (\<lambda>_. await_window n)
     | WindowChange _ \<Rightarrow> sreturn ()
     | _ \<Rightarrow> await_window n)"

text \<open>The outer loop, at position \<open>pos\<close> of the write buffer; each round takes an answer of the session.\<close>

primrec flush_from :: "nat \<Rightarrow> nat \<Rightarrow> (buffer_channel, unit) sr" where
  "flush_from 0 p = spanic"
| "flush_from (Suc n) p = sbind (sget out_buf) (\<lambda>buf.
     if length buf < p then spanic
     else sbind (on_channel (chan_send (drop p buf))) (\<lambda>written.
       if p + written = length buf then smodify (\<lambda>b. b\<lparr>out_buf := []\<rparr>)
       else sbind (sget (\<lambda>b. length (inbox (bc_channel b)))) (\<lambda>k.
         sbind (await_window (Suc k)) (\<lambda>_. flush_from n (p + written)))))"

definition buf_flush :: "(buffer_channel, unit) sr" where
  "buf_flush = sbind (sget id) (\<lambda>b.
     if out_buf b = [] then sreturn ()
     else flush_from (Suc (length (script (chan_port (bc_channel b))))) 0)"

definition buf_send :: "bytes \<Rightarrow> (buffer_channel, unit) sr" where
  "buf_send data = sbind (sget out_buf) (\<lambda>buf.
     if buf = [] then
       sbind (on_channel (chan_send data)) (\<lambda>size.
       if size < length data then smodify (\<lambda>b. b\<lparr>out_buf := out_buf b @ drop size data\<rparr>)
       else sreturn ())
     else
       sbind (smodify (\<lambda>b. b\<lparr>out_buf := out_buf b @ data\<rparr>)) (\<lambda>_.
       sbind (on_channel (chan_send (buf @ data))) (\<lambda>written.
       if written > length (buf @ data) then spanic
       else smodify (\<lambda>b. b\<lparr>out_buf := drop written (out_buf b)\<rparr>))))"

definition consumer_read_buffer :: "nat \<Rightarrow> (buffer_channel, unit) sr" where
  "consumer_read_buffer n = sbind (sget in_buf) (\<lambda>buf.
     if n = 0 \<or> buf = [] then sreturn ()
     else if length buf < n then spanic
     else smodify (\<lambda>b. b\<lparr>in_buf := drop n buf\<rparr>))"

primrec fill_loop :: "nat \<Rightarrow> (buffer_channel, unit) sr" where
  "fill_loop 0 = spanic"
| "fill_loop (Suc n) = sbind (on_channel chan_receive) (\<lambda>m.
     case m of
       Close \<Rightarrow> sfail (unexpected_message ''Unexpected close message'')
     | Eof \<Rightarrow> sfail (unexpected_message ''Unexpected eof message'')
     | Stdout data \<Rightarrow> store_input data
     | _ \<Rightarrow> fill_loop n)"

definition fill_once :: "(buffer_channel, unit) sr" where
  "fill_once b = fill_loop (Suc (length (inbox (bc_channel b)))) b"

text \<open>\<open>while self.read_buf.len() < len { self.fill_once().await? }\<close>; each round takes a message.\<close>

primrec fill_upto :: "nat \<Rightarrow> nat \<Rightarrow> (buffer_channel, unit) sr" where
  "fill_upto 0 len = spanic"
| "fill_upto (Suc n) len = sbind (sget in_buf) (\<lambda>buf.
     if len \<le> length buf then sreturn () else sbind fill_once (\<lambda>_. fill_upto n len))"

definition fill_exact :: "nat \<Rightarrow> (buffer_channel, bytes) sr" where
  "fill_exact len b =
     sbind (fill_upto (Suc (length (inbox (bc_channel b)))) len) (\<lambda>_. sget (\<lambda>b. take len (in_buf b))) b"

definition buf_fill :: "(buffer_channel, bytes) sr" where
  "buf_fill b =
     sbind (fill_upto (Suc (length (inbox (bc_channel b)))) 1) (\<lambda>_. sget in_buf) b"

fun find_lf :: "nat \<Rightarrow> bytes \<Rightarrow> nat option" where
  "find_lf i [] = None"
| "find_lf i (b # bs) = (if b = 10 then Some i else find_lf (Suc i) bs)"

primrec read_line_from :: "nat \<Rightarrow> nat \<Rightarrow> (buffer_channel, bytes) sr" where
  "read_line_from 0 p = spanic"
| "read_line_from (Suc n) p = sbind (sget in_buf) (\<lambda>buf.
     case find_lf p (drop p buf) of
       Some i \<Rightarrow> sreturn (take (Suc i) buf)
     | None \<Rightarrow> sbind fill_once (\<lambda>_. read_line_from n (length buf)))"

definition read_line_lf :: "(buffer_channel, bytes) sr" where
  "read_line_lf b = read_line_from (Suc (length (inbox (bc_channel b)))) 0 b"

definition buf_close :: "(buffer_channel, unit) sr" where
  "buf_close = on_channel chan_close"

end
