(* ===== verification/SftpTypes.thy ===== *)
theory SftpTypes
  imports Messages "HOL-Library.AList"
begin

text \<open>
  The wire types of the SFTP client, \<open>src/session/sftp/types.rs\<close>: open flags, permissions, file
  types, attribute blocks, status codes, directory entries and the replies of the server, with
  the constants of \<open>src/ssh/protocol.rs\<close> they use.
\<close>

section \<open>Constants\<close>

definition VERSION :: u32 where [simp]: "VERSION = 3"

definition SSH_FXP_INIT :: u8 where [simp]: "SSH_FXP_INIT = 1"
definition SSH_FXP_VERSION :: u8 where [simp]: "SSH_FXP_VERSION = 2"
definition SSH_FXP_OPEN :: u8 where [simp]: "SSH_FXP_OPEN = 3"
definition SSH_FXP_CLOSE :: u8 where [simp]: "SSH_FXP_CLOSE = 4"
definition SSH_FXP_READ :: u8 where [simp]: "SSH_FXP_READ = 5"
definition SSH_FXP_WRITE :: u8 where [simp]: "SSH_FXP_WRITE = 6"
definition SSH_FXP_LSTAT :: u8 where [simp]: "SSH_FXP_LSTAT = 7"
definition SSH_FXP_FSTAT :: u8 where [simp]: "SSH_FXP_FSTAT = 8"
definition SSH_FXP_SETSTAT :: u8 where [simp]: "SSH_FXP_SETSTAT = 9"
definition SSH_FXP_FSETSTAT :: u8 where [simp]: "SSH_FXP_FSETSTAT = 10"
definition SSH_FXP_OPENDIR :: u8 where [simp]: "SSH_FXP_OPENDIR = 11"
definition SSH_FXP_READDIR :: u8 where [simp]: "SSH_FXP_READDIR = 12"
definition SSH_FXP_REMOVE :: u8 where [simp]: "SSH_FXP_REMOVE = 13"
definition SSH_FXP_MKDIR :: u8 where [simp]: "SSH_FXP_MKDIR = 14"
definition SSH_FXP_RMDIR :: u8 where [simp]: "SSH_FXP_RMDIR = 15"
definition SSH_FXP_REALPATH :: u8 where [simp]: "SSH_FXP_REALPATH = 16"
definition SSH_FXP_STAT :: u8 where [simp]: "SSH_FXP_STAT = 17"
definition SSH_FXP_RENAME :: u8 where [simp]: "SSH_FXP_RENAME = 18"
definition SSH_FXP_READLINK :: u8 where [simp]: "SSH_FXP_READLINK = 19"
definition SSH_FXP_SYMLINK :: u8 where [simp]: "SSH_FXP_SYMLINK = 20"
definition SSH_FXP_STATUS :: u8 where [simp]: "SSH_FXP_STATUS = 101"
definition SSH_FXP_HANDLE :: u8 where [simp]: "SSH_FXP_HANDLE = 102"
definition SSH_FXP_DATA :: u8 where [simp]: "SSH_FXP_DATA = 103"
definition SSH_FXP_NAME :: u8 where [simp]: "SSH_FXP_NAME = 104"
definition SSH_FXP_ATTRS :: u8 where [simp]: "SSH_FXP_ATTRS = 105"
definition SSH_FXP_EXTENDED :: u8 where [simp]: "SSH_FXP_EXTENDED = 200"
definition SSH_FXP_EXTENDED_REPLY :: u8 where [simp]: "SSH_FXP_EXTENDED_REPLY = 201"

definition SSH_FILEXFER_ATTR_SIZE :: u32 where "SSH_FILEXFER_ATTR_SIZE = 0x1"
definition SSH_FILEXFER_ATTR_UIDGID :: u32 where "SSH_FILEXFER_ATTR_UIDGID = 0x2"
definition SSH_FILEXFER_ATTR_PERMISSIONS :: u32 where "SSH_FILEXFER_ATTR_PERMISSIONS = 0x4"
definition SSH_FILEXFER_ATTR_ACMODTIME :: u32 where "SSH_FILEXFER_ATTR_ACMODTIME = 0x8"
definition SSH_FILEXFER_ATTR_EXTENDED :: u32 where "SSH_FILEXFER_ATTR_EXTENDED = 0x80000000"

lemmas attr_flags =
  SSH_FILEXFER_ATTR_SIZE_def SSH_FILEXFER_ATTR_UIDGID_def SSH_FILEXFER_ATTR_PERMISSIONS_def
  SSH_FILEXFER_ATTR_ACMODTIME_def SSH_FILEXFER_ATTR_EXTENDED_def

text \<open>\<open>OpenFlags\<close> and \<open>Permissions\<close> are \<open>bitflags\<close> over a \<open>u32\<close>: the word itself.\<close>

type_synonym open_flags = u32
type_synonym permissions = u32

definition READ :: open_flags where "READ = 0x01"
definition WRITE :: open_flags where "WRITE = 0x02"
definition APPEND :: open_flags where "APPEND = 0x04"
definition CREAT :: open_flags where "CREAT = 0x08"
definition TRUNC :: open_flags where "TRUNC = 0x10"
definition EXCL :: open_flags where "EXCL = 0x20"

definition class_bits :: "nat \<Rightarrow> permissions" where
  "class_bits n = push_bit n 1 OR push_bit n 2 OR push_bit n 4"

definition all_permissions :: permissions where
  "all_permissions = class_bits 0 OR class_bits 3 OR class_bits 6"

definition p0755 :: permissions where
  "p0755 = push_bit 6 7 OR push_bit 3 5 OR 5"

section \<open>File types\<close>

datatype file_type =
    Directory | CharacterDevice | BlockDevice | RegularFile | FIFO | SymbolicLink | Socket

fun file_type_code :: "file_type \<Rightarrow> u32" where
  "file_type_code Directory = 0x4000"
| "file_type_code CharacterDevice = 0x2000"
| "file_type_code BlockDevice = 0x6000"
| "file_type_code RegularFile = 0x8000"
| "file_type_code FIFO = 0x1000"
| "file_type_code SymbolicLink = 0xA000"
| "file_type_code Socket = 0xC000"

definition file_types :: "file_type list" where
  "file_types = [Directory, CharacterDevice, BlockDevice, RegularFile, FIFO, SymbolicLink, Socket]"

text \<open>\<open>FileType::MASK\<close> and \<open>TryFromPrimitive\<close>.\<close>

definition type_mask :: u32 where
  "type_mask = 0xF000"

definition file_type_from :: "u32 \<Rightarrow> file_type option" where
  "file_type_from v = find (\<lambda>t. file_type_code t = v) file_types"

record mode =
  m_permissions :: permissions
  m_file_type :: file_type

text \<open>\<open>PermissionsAndFileType::try_from\<close> and \<open>bits\<close>.\<close>

definition mode_try_from :: "u32 \<Rightarrow> mode res" where
  "mode_try_from v =
     (case file_type_from (v AND type_mask) of
        None \<Rightarrow> Err (SftpError (UnknownFileType (v AND type_mask)))
      | Some t \<Rightarrow> Ok \<lparr>m_permissions = v AND NOT type_mask AND all_permissions, m_file_type = t\<rparr>)"

definition mode_bits :: "mode \<Rightarrow> u32" where
  "mode_bits m = m_permissions m OR file_type_code (m_file_type m)"

section \<open>Replies of extensions\<close>

record statvfs_data =
  bsize :: u64
  frsize :: u64
  blocks :: u64
  bfree :: u64
  bavail :: u64
  files :: u64
  ffree :: u64
  favail :: u64
  fsid :: u64
  flag :: u64
  namemax :: u64

definition statvfs_parse :: "bytes \<Rightarrow> statvfs_data res" where
  "statvfs_parse data = fst (
     sbind consume_u64 (\<lambda>bs. sbind consume_u64 (\<lambda>frs. sbind consume_u64 (\<lambda>bl.
     sbind consume_u64 (\<lambda>bf. sbind consume_u64 (\<lambda>ba. sbind consume_u64 (\<lambda>fi.
     sbind consume_u64 (\<lambda>ff. sbind consume_u64 (\<lambda>fa. sbind consume_u64 (\<lambda>fs.
     sbind consume_u64 (\<lambda>fl. sbind consume_u64 (\<lambda>nm.
     sreturn \<lparr>bsize = bs, frsize = frs, blocks = bl, bfree = bf, bavail = ba, files = fi,
       ffree = ff, favail = fa, fsid = fs, flag = fl, namemax = nm\<rparr>)))))))))))
     (consumer_new data))"

record limits =
  max_packet_len :: u64
  max_read_len :: u64
  max_write_len :: u64
  max_open_handles :: u64

definition limits_parse :: "bytes \<Rightarrow> limits res" where
  "limits_parse data = fst (
     sbind consume_u64 (\<lambda>p. sbind consume_u64 (\<lambda>r. sbind consume_u64 (\<lambda>w. sbind consume_u64 (\<lambda>h.
     sreturn \<lparr>max_packet_len = p, max_read_len = r, max_write_len = w, max_open_handles = h\<rparr>))))
     (consumer_new data))"

section \<open>Status codes\<close>

datatype status =
    StatusOK | StatusEof | StatusNoSuchFile | StatusPermissionDenied | StatusFailure
  | StatusBadMessage | StatusNoConnection | StatusConnectionLost | StatusOpUnsupported

definition statuses :: "status list" where
  "statuses =
     [StatusOK, StatusEof, StatusNoSuchFile, StatusPermissionDenied, StatusFailure,
      StatusBadMessage, StatusNoConnection, StatusConnectionLost, StatusOpUnsupported]"

text \<open>The discriminants are \<open>0 .. 8\<close>, in the order of the declaration.\<close>

definition status_try_from :: "u32 \<Rightarrow> status option" where
  "status_try_from code = (if unat code < length statuses then Some (statuses ! unat code) else None)"

fun status_to_error :: "status \<Rightarrow> bytes \<Rightarrow> error" where
  "status_to_error StatusOK msg = SftpError UnexpectedResponse"
| "status_to_error StatusEof msg = SftpError (SftpUnexpectedEof msg)"
| "status_to_error StatusNoSuchFile msg = SftpError (NoSuchFile msg)"
| "status_to_error StatusPermissionDenied msg = SftpError (PermissionDenied msg)"
| "status_to_error StatusFailure msg = SftpError (Failure msg)"
| "status_to_error StatusBadMessage msg = SftpError (BadMessage msg)"
| "status_to_error StatusNoConnection msg = SftpError (NoConnection msg)"
| "status_to_error StatusConnectionLost msg = SftpError (ConnectionLost msg)"
| "status_to_error StatusOpUnsupported msg = SftpError (OpUnsupported msg)"

definition status_to_result :: "status \<Rightarrow> bytes \<Rightarrow> unit res" where
  "status_to_result st msg = (if st = StatusOK then Ok () else Err (status_to_error st msg))"

text \<open>\<open>Error::is_broken\<close>: the server reported it as a status.\<close>

fun is_broken :: "sftp_error \<Rightarrow> bool" where
  "is_broken (SftpUnexpectedMessage _) = False"
| "is_broken (UnknownFileType _) = False"
| "is_broken (UnexpectedStatus _) = False"
| "is_broken (MismatchResponse _ _) = False"
| "is_broken UnexpectedResponse = False"
| "is_broken _ = True"

section \<open>Attributes\<close>

text \<open>\<open>Timestamp\<close> and \<open>User\<close> are pairs; the hash map is a list in the order an iteration visits it.\<close>

record attributes =
  a_size :: "u64 option"
  a_user :: "(u32 \<times> u32) option"
  a_property :: "mode option"
  a_time :: "(u32 \<times> u32) option"
  a_extend :: "(bytes \<times> bytes) list option"

definition flag_if :: "u32 \<Rightarrow> 'a option \<Rightarrow> u32" where
  "flag_if f x = (if x = None then 0 else f)"

definition attributes_flags :: "attributes \<Rightarrow> u32" where
  "attributes_flags a =
     flag_if SSH_FILEXFER_ATTR_SIZE (a_size a) OR flag_if SSH_FILEXFER_ATTR_UIDGID (a_user a) OR
     flag_if SSH_FILEXFER_ATTR_PERMISSIONS (a_property a) OR
     flag_if SSH_FILEXFER_ATTR_ACMODTIME (a_time a) OR
     flag_if SSH_FILEXFER_ATTR_EXTENDED (a_extend a)"

definition put_option :: "('a \<Rightarrow> producer \<Rightarrow> producer) \<Rightarrow> 'a option \<Rightarrow> producer \<Rightarrow> producer" where
  "put_option f x p = (case x of None \<Rightarrow> p | Some a \<Rightarrow> f a p)"

definition put_pair :: "u32 \<times> u32 \<Rightarrow> producer \<Rightarrow> producer" where
  "put_pair ab p = put_u32 (snd ab) (put_u32 (fst ab) p)"

definition put_extend :: "(bytes \<times> bytes) list \<Rightarrow> producer \<Rightarrow> producer" where
  "put_extend kvs p =
     fold (\<lambda>(k, v) p. put_one v (put_one k p)) kvs (put_u32 (as_u32 (length kvs)) p)"

text \<open>The flag word goes in front last, over a placeholder of four zero bytes.\<close>

definition to_bytes :: "attributes \<Rightarrow> bytes" where
  "to_bytes a =
     (let body = put_option put_extend (a_extend a) (put_option put_pair (a_time a)
        (put_option (\<lambda>m. put_u32 (mode_bits m)) (a_property a) (put_option put_pair (a_user a)
        (put_option put_u64 (a_size a) (put_u32 0 [])))))
      in u32_to_be (attributes_flags a) @ drop 4 body)"

definition consume_pair :: "(consumer, u32 \<times> u32) sr" where
  "consume_pair = sbind consume_u32 (\<lambda>a. sbind consume_u32 (\<lambda>b. sreturn (a, b)))"

definition consume_mode :: "(consumer, mode option) sr" where
  "consume_mode = sbind consume_u32 (\<lambda>v.
     sreturn (case mode_try_from v of Ok m \<Rightarrow> Some m | _ \<Rightarrow> None))"

definition collect :: "(bytes \<times> bytes) list \<Rightarrow> (bytes \<times> bytes) list" where
  "collect kvs = fold (\<lambda>(k, v). AList.update k v) kvs []"

definition consume_attribute :: "(consumer, bytes \<times> bytes) sr" where
  "consume_attribute = sbind consume_one (\<lambda>key. sbind consume_one (\<lambda>val.
     sbind (slift (from_utf8 key)) (\<lambda>key. sreturn (key, val))))"

definition consume_extend :: "(consumer, (bytes \<times> bytes) list) sr" where
  "consume_extend = sbind consume_u32 (\<lambda>ecount.
     sbind (times (unat ecount) consume_attribute) (\<lambda>kvs. sreturn (collect kvs)))"

definition when_flag :: "u32 \<Rightarrow> u32 \<Rightarrow> (consumer, 'a) sr \<Rightarrow> (consumer, 'a option) sr" where
  "when_flag flags f m =
     (if flags AND f \<noteq> 0 then sbind m (\<lambda>a. sreturn (Some a)) else sreturn None)"

definition attributes_parse :: "(consumer, attributes) sr" where
  "attributes_parse =
     sbind consume_u32 (\<lambda>flags.
     sbind (when_flag flags SSH_FILEXFER_ATTR_SIZE consume_u64) (\<lambda>sz.
     sbind (when_flag flags SSH_FILEXFER_ATTR_UIDGID consume_pair) (\<lambda>user.
     sbind (when_flag flags SSH_FILEXFER_ATTR_PERMISSIONS consume_mode) (\<lambda>prop.
     sbind (when_flag flags SSH_FILEXFER_ATTR_ACMODTIME consume_pair) (\<lambda>time.
     sbind (when_flag flags SSH_FILEXFER_ATTR_EXTENDED consume_extend) (\<lambda>extend.
     sreturn \<lparr>a_size = sz, a_user = user, a_property = Option.bind prop id, a_time = time,
       a_extend = extend\<rparr>))))))"

section \<open>Replies\<close>

record file_info =
  file_name :: bytes
  long_name :: bytes
  fi_attributes :: attributes

definition consume_file_info :: "(consumer, file_info) sr" where
  "consume_file_info =
     sbind consume_str (\<lambda>name. sbind consume_str (\<lambda>long. sbind attributes_parse (\<lambda>a.
     sreturn \<lparr>file_name = name, long_name = long, fi_attributes = a\<rparr>)))"

definition parse_more :: "bytes \<Rightarrow> nat \<Rightarrow> file_info list res" where
  "parse_more data count = fst (times count consume_file_info (consumer_new data))"

datatype payload =
    PStatus status bytes bytes
  | PHandle bytes
  | PData bytes
  | PName "file_info list"
  | PAttributes attributes
  | PExtendReply bytes

record sftp_message =
  msg_id :: u32
  msg_payload :: payload

text \<open>\<open>consumer.consume_one().unwrap_or_default()\<close>\<close>

definition consume_one_or_empty :: "(consumer, bytes) sr" where
  "consume_one_or_empty c = (case consume_one c of (Err e, c') \<Rightarrow> (Ok [], c') | r \<Rightarrow> r)"

definition parse_status :: "(consumer, payload) sr" where
  "parse_status =
     sbind consume_u32 (\<lambda>code.
     case status_try_from code of
       None \<Rightarrow> sfail (SftpError (UnexpectedStatus code))
     | Some status \<Rightarrow>
         sbind consume_one_or_empty (\<lambda>err. sbind (slift (from_utf8 err)) (\<lambda>err.
         sbind consume_one_or_empty (\<lambda>language. sbind (slift (from_utf8 language)) (\<lambda>language.
         sreturn (PStatus status err language))))))"

definition sftp_payload_parse :: "u8 \<Rightarrow> (consumer, payload) sr" where
  "sftp_payload_parse type =
     (if type = SSH_FXP_STATUS then parse_status
      else if type = SSH_FXP_HANDLE then sbind consume_one (\<lambda>h. sreturn (PHandle h))
      else if type = SSH_FXP_DATA then sbind consume_one (\<lambda>d. sreturn (PData d))
      else if type = SSH_FXP_NAME then
        sbind consume_u32 (\<lambda>count. sbind (sget peek) (\<lambda>rest.
        sbind (slift (parse_more rest (unat count))) (\<lambda>infos. sreturn (PName infos))))
      else if type = SSH_FXP_ATTRS then sbind attributes_parse (\<lambda>a. sreturn (PAttributes a))
      else if type = SSH_FXP_EXTENDED_REPLY then sbind (sget peek) (\<lambda>rest. sreturn (PExtendReply rest))
      else sfail (SftpError (SftpUnexpectedMessage type)))"

definition sftp_message_parse :: "bytes \<Rightarrow> sftp_message res" where
  "sftp_message_parse data = fst (
     sbind consume_u8 (\<lambda>type. sbind consume_u32 (\<lambda>i. sbind (sftp_payload_parse type) (\<lambda>p.
     sreturn \<lparr>msg_id = i, msg_payload = p\<rparr>))) (consumer_new data))"

section \<open>Files and directories\<close>

record sftp_file =
  file_handle :: bytes
  file_pos :: u64

definition file_new :: "bytes \<Rightarrow> sftp_file" where
  "file_new h = \<lparr>file_handle = h, file_pos = 0\<rparr>"

text \<open>With overflow checks, leaving the range of \<open>u64\<close> is a panic.\<close>

definition forward_pos :: "nat \<Rightarrow> sftp_file \<Rightarrow> sftp_file res" where
  "forward_pos n f =
     (if unat (file_pos f) + n < 2 ^ 64 then Ok (f\<lparr>file_pos := file_pos f + word_of_nat n\<rparr>) else Panic)"

definition backward_pos :: "u64 \<Rightarrow> sftp_file \<Rightarrow> sftp_file res" where
  "backward_pos n f = (if n \<le> file_pos f then Ok (f\<lparr>file_pos := file_pos f - n\<rparr>) else Panic)"

record directory =
  dir_handle :: bytes

definition directory_new :: "bytes \<Rightarrow> directory" where
  "directory_new h = \<lparr>dir_handle = h\<rparr>"

end
