(* ===== verification/Sftp.thy ===== *)
theory Sftp
  imports Channels SftpTypes
begin

text \<open>
  The SFTP client \<open>Handle\<close> of \<open>src/session/sftp/mod.rs\<close>: the version exchange, one request and
  its reply at a time, and every request. \<open>File\<close> arguments that a request moves are returned
  moved. A \<open>debug_assert!\<close> is a panic, as in a debug build.
\<close>

section \<open>The handle\<close>

record sftp_handle =
  sftp_channel :: buffer_channel
  extensions :: "(bytes \<times> bytes) list"
  request_id :: u32

abbreviation on_buffer :: "(buffer_channel, 'a) sr \<Rightarrow> (sftp_handle, 'a) sr" where
  "on_buffer \<equiv> zoom sftp_channel (\<lambda>b h. h\<lparr>sftp_channel := b\<rparr>)"

definition MAX_PACKET_SIZE :: nat where
  "MAX_PACKET_SIZE = 1024 * 1024 * 1024"

definition consume_sftp_extension :: "(consumer, bytes \<times> bytes) sr" where
  "consume_sftp_extension =
     sbind consume_str (\<lambda>k. sbind consume_one (\<lambda>v. sreturn (k, v)))"

definition version_parse :: "bytes \<Rightarrow> (bytes \<times> bytes) list res" where
  "version_parse data = fst (
     sbind consume_u8 (\<lambda>code.
     if code \<noteq> SSH_FXP_VERSION then sfail (SftpError (SftpUnexpectedMessage code))
     else sbind consume_u32 (\<lambda>version.
       sbind (until_empty (Suc (length data)) consume_sftp_extension) (\<lambda>kvs.
       sreturn (collect kvs)))) (consumer_new data))"

text \<open>
  A record of the protocol: its length, then that many bytes. It stays in the read buffer until
  the caller drops it.
\<close>

definition read_record :: "(buffer_channel, bytes) sr" where
  "read_record =
     sbind (fill_exact 4) (\<lambda>h.
     if unat (from_be h :: u32) > MAX_PACKET_SIZE then sfail (SftpError UnexpectedResponse)
     else sbind (fill_exact (unat (from_be h :: u32) + 4)) (\<lambda>d. sreturn (drop 4 d)))"

definition sftp_handshake :: "channel \<Rightarrow> sftp_handle res \<times> buffer_channel" where
  "sftp_handshake c =
     sbind (buf_send (make_buffer [FU8 SSH_FXP_INIT, FU32 VERSION])) (\<lambda>_.
     sbind buf_flush (\<lambda>_.
     sbind read_record (\<lambda>data.
     sbind (slift (version_parse data)) (\<lambda>ext.
     sbind (consumer_read_buffer (4 + length data)) (\<lambda>_.
     sget (\<lambda>b. \<lparr>sftp_channel = b, extensions = ext, request_id = 0\<rparr>)))))) (buffer_new c)"

definition sftp_close :: "(sftp_handle, unit) sr" where
  "sftp_close = on_buffer buf_close"

definition next_request_id :: "(sftp_handle, u32) sr" where
  "next_request_id h = (Ok (request_id h + 1), h\<lparr>request_id := request_id h + 1\<rparr>)"

definition receive_msg :: "u32 \<Rightarrow> (sftp_handle, sftp_message) sr" where
  "receive_msg rid =
     sbind (on_buffer read_record) (\<lambda>data.
     sbind (slift (sftp_message_parse data)) (\<lambda>msg.
     sbind (on_buffer (consumer_read_buffer (length data + 4))) (\<lambda>_.
     if msg_id msg \<noteq> rid then sfail (SftpError (MismatchResponse rid (msg_id msg)))
     else sreturn msg)))"

text \<open>\<open>Handle::handle\<close>; the requests that do not call it repeat these steps.\<close>

definition sftp_call :: "(u32 \<Rightarrow> field list) \<Rightarrow> (payload \<Rightarrow> 'a res) \<Rightarrow> (sftp_handle, 'a) sr" where
  "sftp_call p m =
     sbind next_request_id (\<lambda>rid.
     sbind (on_buffer (buf_send (make_buffer (p rid)))) (\<lambda>_.
     sbind (on_buffer buf_flush) (\<lambda>_.
     sbind (receive_msg rid) (\<lambda>response. slift (m (msg_payload response))))))"

section \<open>What a reply must be\<close>

definition unexpected :: "'a res" where
  "unexpected = Err (SftpError UnexpectedResponse)"

fun expect_ok :: "payload \<Rightarrow> unit res" where
  "expect_ok (PStatus st msg _) = status_to_result st msg"
| "expect_ok _ = unexpected"

fun expect_handle :: "payload \<Rightarrow> bytes res" where
  "expect_handle (PStatus st msg _) = Err (status_to_error st msg)"
| "expect_handle (PHandle h) = Ok h"
| "expect_handle _ = unexpected"

fun expect_attributes :: "payload \<Rightarrow> attributes res" where
  "expect_attributes (PStatus st msg _) = Err (status_to_error st msg)"
| "expect_attributes (PAttributes a) = Ok a"
| "expect_attributes _ = unexpected"

fun expect_name :: "payload \<Rightarrow> file_info res" where
  "expect_name (PStatus st msg _) = Err (status_to_error st msg)"
| "expect_name (PName (i # _)) = Ok i"
| "expect_name _ = unexpected"

fun expect_names :: "payload \<Rightarrow> file_info list res" where
  "expect_names (PStatus st msg _) = res_map (\<lambda>_. []) (status_to_result st msg)"
| "expect_names (PName infos) = Ok infos"
| "expect_names _ = unexpected"

fun expect_data :: "payload \<Rightarrow> bytes option res" where
  "expect_data (PStatus st msg _) = res_map (\<lambda>_. None) (status_to_result st msg)"
| "expect_data (PData d) = Ok (Some d)"
| "expect_data _ = unexpected"

fun expect_extended :: "(bytes \<Rightarrow> 'a res) \<Rightarrow> payload \<Rightarrow> 'a res" where
  "expect_extended f (PStatus st msg _) = Err (status_to_error st msg)"
| "expect_extended f (PExtendReply d) = f d"
| "expect_extended f _ = unexpected"

fun expect_limits :: "payload \<Rightarrow> limits res" where
  "expect_limits (PExtendReply d) = limits_parse d"
| "expect_limits _ = unexpected"

section \<open>Requests of the protocol\<close>

definition symlink :: "bytes \<Rightarrow> bytes \<Rightarrow> (sftp_handle, unit) sr" where
  "symlink target linkpath =
     sftp_call (\<lambda>i. [FU8 SSH_FXP_SYMLINK, FU32 i, FOne target, FOne linkpath]) expect_ok"

definition readlink :: "bytes \<Rightarrow> (sftp_handle, file_info) sr" where
  "readlink path = sftp_call (\<lambda>i. [FU8 SSH_FXP_READLINK, FU32 i, FOne path]) expect_name"

definition sftp_rename :: "bytes \<Rightarrow> bytes \<Rightarrow> (sftp_handle, unit) sr" where
  "sftp_rename old_path new_path =
     sftp_call (\<lambda>i. [FU8 SSH_FXP_RENAME, FU32 i, FOne old_path, FOne new_path]) expect_ok"

definition realpath :: "bytes \<Rightarrow> (sftp_handle, file_info) sr" where
  "realpath path = sftp_call (\<lambda>i. [FU8 SSH_FXP_REALPATH, FU32 i, FOne path]) expect_name"

definition rmdir :: "bytes \<Rightarrow> (sftp_handle, unit) sr" where
  "rmdir path = sftp_call (\<lambda>i. [FU8 SSH_FXP_RMDIR, FU32 i, FOne path]) expect_ok"

definition mkdir :: "bytes \<Rightarrow> attributes \<Rightarrow> (sftp_handle, unit) sr" where
  "mkdir path attrs =
     sftp_call (\<lambda>i. [FU8 SSH_FXP_MKDIR, FU32 i, FOne path, FBytes (to_bytes attrs)]) expect_ok"

definition remove_file :: "bytes \<Rightarrow> (sftp_handle, unit) sr" where
  "remove_file path = sftp_call (\<lambda>i. [FU8 SSH_FXP_REMOVE, FU32 i, FOne path]) expect_ok"

definition close_file :: "sftp_file \<Rightarrow> (sftp_handle, unit) sr" where
  "close_file f = sftp_call (\<lambda>i. [FU8 SSH_FXP_CLOSE, FU32 i, FOne (file_handle f)]) expect_ok"

definition open_file :: "bytes \<Rightarrow> open_flags \<Rightarrow> permissions option \<Rightarrow> (sftp_handle, sftp_file) sr" where
  "open_file path flags permission =
     sftp_call (\<lambda>i. [FU8 SSH_FXP_OPEN, FU32 i, FOne path, FU32 flags] @
         (case permission of
            Some p \<Rightarrow> [FU32 SSH_FILEXFER_ATTR_PERMISSIONS, FU32 p] | None \<Rightarrow> [FU32 0]))
       (\<lambda>p. res_map file_new (expect_handle p))"

text \<open>The cursor moves by the bytes read, or written.\<close>

definition read_file :: "sftp_file \<Rightarrow> u64 \<Rightarrow> u32 \<Rightarrow> (sftp_handle, bytes \<times> sftp_file) sr" where
  "read_file f offset len =
     sbind (sftp_call (\<lambda>i. [FU8 SSH_FXP_READ, FU32 i, FOne (file_handle f), FU64 offset, FU32 len])
       expect_data) (\<lambda>d.
     case d of
       None \<Rightarrow> sreturn ([], f)
     | Some data \<Rightarrow> slift (res_map (\<lambda>f'. (data, f')) (forward_pos (length data) f)))"

definition write_file :: "sftp_file \<Rightarrow> u64 \<Rightarrow> bytes \<Rightarrow> (sftp_handle, sftp_file) sr" where
  "write_file f offset data =
     sbind (sftp_call (\<lambda>i. [FU8 SSH_FXP_WRITE, FU32 i, FOne (file_handle f), FU64 offset, FOne data])
       expect_ok) (\<lambda>_. slift (forward_pos (length data) f))"

definition open_directory :: "bytes \<Rightarrow> (sftp_handle, directory) sr" where
  "open_directory path =
     sftp_call (\<lambda>i. [FU8 SSH_FXP_OPENDIR, FU32 i, FOne path])
       (\<lambda>p. res_map directory_new (expect_handle p))"

definition read_directory :: "directory \<Rightarrow> (sftp_handle, file_info list) sr" where
  "read_directory d = sftp_call (\<lambda>i. [FU8 SSH_FXP_READDIR, FU32 i, FOne (dir_handle d)]) expect_names"

definition set_status :: "bytes \<Rightarrow> u8 \<Rightarrow> attributes \<Rightarrow> (sftp_handle, unit) sr" where
  "set_status target code attrs =
     sftp_call (\<lambda>i. [FU8 code, FU32 i, FOne target, FBytes (to_bytes attrs)]) expect_ok"

definition set_stat :: "bytes \<Rightarrow> attributes \<Rightarrow> (sftp_handle, unit) sr" where
  "set_stat path attrs = set_status path SSH_FXP_SETSTAT attrs"

definition set_fstat :: "sftp_file \<Rightarrow> attributes \<Rightarrow> (sftp_handle, unit) sr" where
  "set_fstat f attrs = set_status (file_handle f) SSH_FXP_FSETSTAT attrs"

definition get_status :: "bytes \<Rightarrow> u8 \<Rightarrow> (sftp_handle, attributes) sr" where
  "get_status target code = sftp_call (\<lambda>i. [FU8 code, FU32 i, FOne target]) expect_attributes"

definition stat :: "bytes \<Rightarrow> (sftp_handle, attributes) sr" where
  "stat path = get_status path SSH_FXP_STAT"

definition lstat :: "bytes \<Rightarrow> (sftp_handle, attributes) sr" where
  "lstat path = get_status path SSH_FXP_LSTAT"

definition fstat :: "sftp_file \<Rightarrow> (sftp_handle, attributes) sr" where
  "fstat f = get_status (file_handle f) SSH_FXP_FSTAT"

section \<open>Extensions\<close>

text \<open>An extension is its name and version, as the server advertises them.\<close>

type_synonym sftp_extension = "bytes \<times> bytes"

definition EXT_POSIX_RENAME :: sftp_extension where
  "EXT_POSIX_RENAME = (str ''posix-rename@openssh.com'', str ''1'')"
definition EXT_STATVFS :: sftp_extension where
  "EXT_STATVFS = (str ''statvfs@openssh.com'', str ''2'')"
definition EXT_FSTATVFS :: sftp_extension where
  "EXT_FSTATVFS = (str ''fstatvfs@openssh.com'', str ''2'')"
definition EXT_HARDLINK :: sftp_extension where
  "EXT_HARDLINK = (str ''hardlink@openssh.com'', str ''1'')"
definition EXT_FSYNC :: sftp_extension where
  "EXT_FSYNC = (str ''fsync@openssh.com'', str ''1'')"
definition EXT_LSETSTAT :: sftp_extension where
  "EXT_LSETSTAT = (str ''lsetstat@openssh.com'', str ''1'')"
definition EXT_LIMITS :: sftp_extension where
  "EXT_LIMITS = (str ''limits@openssh.com'', str ''1'')"
definition EXT_EXPAND_PATH :: sftp_extension where
  "EXT_EXPAND_PATH = (str ''expand-path@openssh.com'', str ''1'')"
definition EXT_COPY_DATA :: sftp_extension where
  "EXT_COPY_DATA = (str ''copy-data'', str ''1'')"
definition EXT_HOME_DIRECTORY :: sftp_extension where
  "EXT_HOME_DIRECTORY = (str ''home-directory'', str ''1'')"
definition EXT_USERS_GROUPS_BY_ID :: sftp_extension where
  "EXT_USERS_GROUPS_BY_ID = (str ''users-groups-by-id@openssh.com'', str ''1'')"

definition supported :: "sftp_extension \<Rightarrow> sftp_handle \<Rightarrow> bool" where
  "supported e h = (map_of (extensions h) (fst e) = Some (snd e))"

text \<open>Every extension request asserts that the server advertised it.\<close>

definition extended ::
    "sftp_extension \<Rightarrow> field list \<Rightarrow> (payload \<Rightarrow> 'a res) \<Rightarrow> (sftp_handle, 'a) sr" where
  "extended e fs m = sbind (sget (supported e)) (\<lambda>ok.
     if \<not> ok then spanic
     else sftp_call (\<lambda>i. [FU8 SSH_FXP_EXTENDED, FU32 i, FOne (fst e)] @ fs) m)"

definition posix_rename :: "bytes \<Rightarrow> bytes \<Rightarrow> (sftp_handle, unit) sr" where
  "posix_rename oldpath newpath = extended EXT_POSIX_RENAME [FOne oldpath, FOne newpath] expect_ok"

definition statvfs :: "bytes \<Rightarrow> (sftp_handle, statvfs_data) sr" where
  "statvfs path = extended EXT_STATVFS [FOne path] (expect_extended statvfs_parse)"

definition fstatvfs :: "sftp_file \<Rightarrow> (sftp_handle, statvfs_data) sr" where
  "fstatvfs f = extended EXT_FSTATVFS [FOne (file_handle f)] (expect_extended statvfs_parse)"

definition hardlink :: "bytes \<Rightarrow> bytes \<Rightarrow> (sftp_handle, unit) sr" where
  "hardlink oldpath newpath = extended EXT_HARDLINK [FOne oldpath, FOne newpath] expect_ok"

definition fsync :: "sftp_file \<Rightarrow> (sftp_handle, unit) sr" where
  "fsync f = extended EXT_FSYNC [FOne (file_handle f)] expect_ok"

definition lsetstat :: "bytes \<Rightarrow> attributes \<Rightarrow> (sftp_handle, unit) sr" where
  "lsetstat path attrs = extended EXT_LSETSTAT [FOne path, FBytes (to_bytes attrs)] expect_ok"

definition get_limits :: "(sftp_handle, limits) sr" where
  "get_limits = extended EXT_LIMITS [] expect_limits"

definition expand_path :: "bytes \<Rightarrow> (sftp_handle, bytes) sr" where
  "expand_path path = extended EXT_EXPAND_PATH [FOne path] (\<lambda>p. res_map file_name (expect_name p))"

definition copy_data :: "sftp_file \<Rightarrow> u64 \<Rightarrow> sftp_file \<Rightarrow> (sftp_handle, unit) sr" where
  "copy_data from len to =
     extended EXT_COPY_DATA
       [FOne (file_handle from), FU64 (file_pos from), FU64 len, FOne (file_handle to), FU64 (file_pos to)]
       expect_ok"

definition home_directory :: "bytes \<Rightarrow> (sftp_handle, bytes) sr" where
  "home_directory username =
     extended EXT_HOME_DIRECTORY [FOne username] (\<lambda>p. res_map file_name (expect_name p))"

definition names_parse :: "bytes \<Rightarrow> bytes list res" where
  "names_parse d = fst (until_empty (Suc (length d)) consume_str (consumer_new d))"

definition users_groups_parse :: "bytes \<Rightarrow> (bytes list \<times> bytes list) res" where
  "users_groups_parse d = fst (
     sbind consume_one (\<lambda>us. sbind (slift (names_parse us)) (\<lambda>users.
     sbind consume_one (\<lambda>gs. sbind (slift (names_parse gs)) (\<lambda>groups.
     sreturn (users, groups))))) (consumer_new d))"

definition users_groups_by_id :: "u32 list \<Rightarrow> u32 list \<Rightarrow> (sftp_handle, bytes list \<times> bytes list) sr" where
  "users_groups_by_id users groups =
     extended EXT_USERS_GROUPS_BY_ID [FOneListU32 users, FOneListU32 groups]
       (expect_extended users_groups_parse)"

end
