(* ===== verification/ChannelFacts.thy ===== *)
theory ChannelFacts
  imports Channels
begin

text \<open>
  What \<open>BufferChannel\<close> does to the two byte streams of a channel. \<open>incoming\<close> is everything
  the application has not read yet, \<open>outgoing\<close> everything it handed over and \<open>sent\<close> what the
  session accepted of it. The locale \<open>byte_channel\<close> states what the file transfer clients rely
  on; its interpretation proves it of \<open>BufferChannel\<close>.
\<close>

section \<open>The two streams\<close>

fun stdout_of :: "channel_message \<Rightarrow> bytes" where
  "stdout_of (Stdout d) = d"
| "stdout_of _ = []"

primrec pending :: "channel_message option list \<Rightarrow> bytes" where
  "pending [] = []"
| "pending (m # ms) = (case m of None \<Rightarrow> [] | Some m \<Rightarrow> stdout_of m) @ pending ms"

text \<open>The data before the peer's end of file or close: what a reader can still get.\<close>

primrec readable :: "channel_message option list \<Rightarrow> bytes" where
  "readable [] = []"
| "readable (m # ms) =
     (case m of None \<Rightarrow> readable ms | Some Close \<Rightarrow> [] | Some Eof \<Rightarrow> []
      | Some m \<Rightarrow> stdout_of m @ readable ms)"

abbreviation arrivals :: "buffer_channel \<Rightarrow> channel_message option list" where
  "arrivals b \<equiv> inbox (bc_channel b)"

definition incoming :: "buffer_channel \<Rightarrow> bytes" where
  "incoming b = in_buf b @ pending (arrivals b)"

definition available :: "buffer_channel \<Rightarrow> bytes" where
  "available b = in_buf b @ readable (arrivals b)"

fun accepted_in :: "event \<times> outcome \<Rightarrow> bytes" where
  "accepted_in (ChannelSendData i d, Answered (ReplySize (Ok n))) = take n d"
| "accepted_in _ = []"

definition accepted :: "port \<Rightarrow> bytes" where
  "accepted p = concat (map accepted_in (asked p))"

definition sent :: "buffer_channel \<Rightarrow> bytes" where
  "sent b = accepted (chan_port (bc_channel b))"

definition outgoing :: "buffer_channel \<Rightarrow> bytes" where
  "outgoing b = sent b @ out_buf b"

text \<open>What the reading operations leave alone, and what the writing ones do.\<close>

definition write_side :: "buffer_channel \<Rightarrow> bytes \<times> port \<times> identity_pair \<times> bool" where
  "write_side b = (out_buf b, chan_port (bc_channel b), chan_id (bc_channel b), chan_closed (bc_channel b))"

section \<open>Receiving\<close>

lemma next_arrival_cases:
  "next_arrival ms = Some (m, r) \<Longrightarrow>
     pending ms = stdout_of m @ pending r \<and> length r < length ms \<and>
     readable ms = readable (Some m # r)"
  by (induction ms rule: next_arrival.induct) auto

lemma next_arrival_None: "next_arrival ms = None \<Longrightarrow> pending ms = [] \<and> readable ms = []"
  by (induction ms rule: next_arrival.induct) auto

lemma on_channel_receive:
  "on_channel chan_receive b =
     (case next_arrival (arrivals b) of
        None \<Rightarrow> (Err shutdown, b\<lparr>bc_channel := (bc_channel b)\<lparr>inbox := []\<rparr>\<rparr>)
      | Some (m, ms) \<Rightarrow> (Ok m, b\<lparr>bc_channel := (bc_channel b)\<lparr>inbox := ms\<rparr>\<rparr>))"
  by (auto simp: zoom_def chan_receive_def split: option.splits)

lemma receive_keeps_write_side: "keeps write_side (on_channel chan_receive)"
  by (auto simp: keeps_def on_channel_receive write_side_def split: option.splits)

lemma store_keeps_write_side: "keeps write_side (store_input d)"
  by (auto simp: keeps_def store_input_def smodify_def write_side_def)

lemma await_window_spec:
  "length (arrivals b) < n \<Longrightarrow> await_window n b = (r, b') \<Longrightarrow>
     r \<noteq> Panic \<and> write_side b' = write_side b \<and> incoming b' = incoming b \<and>
     length (arrivals b') \<le> length (arrivals b)"
proof (induction n arbitrary: b r b')
  case (Suc n)
  show ?case
  proof (cases "next_arrival (arrivals b)")
    case None
    with Suc.prems show ?thesis
      by (auto simp: on_channel_receive sbind_def write_side_def incoming_def next_arrival_None)
  next
    case (Some p)
    obtain m ms where p: "p = (m, ms)" by (cases p)
    let ?c = "b\<lparr>bc_channel := (bc_channel b)\<lparr>inbox := ms\<rparr>\<rparr>"
    have run: "on_channel chan_receive b = (Ok m, ?c)" using Some p by (simp add: on_channel_receive)
    from next_arrival_cases [of "arrivals b" m ms] Some p
    have *: "pending (arrivals b) = stdout_of m @ pending ms" "length ms < length (arrivals b)"
      by simp_all
    have IH: "r \<noteq> Panic \<and> write_side b' = write_side c \<and> incoming b' = incoming c \<and>
        length (arrivals b') \<le> length ms"
      if "await_window n c = (r, b')" "arrivals c = ms" for c
      using Suc.IH [of c r b'] that * Suc.prems(1) by simp
    have g: "write_side ?c = write_side b" by (simp add: write_side_def)
    show ?thesis
    proof (cases m)
      case (Stdout d)
      let ?d = "?c\<lparr>in_buf := in_buf b @ d\<rparr>"
      have "await_window n ?d = (r, b')"
        using Suc.prems(2) Stdout run by (simp add: store_input_def)
      from IH [OF this] have "r \<noteq> Panic \<and> write_side b' = write_side ?d \<and> incoming b' = incoming ?d \<and>
          length (arrivals b') \<le> length ms" by simp
      with * Stdout show ?thesis by (auto simp: incoming_def write_side_def)
    qed (use Suc.prems(2) run g * IH [of ?c] in \<open>auto simp: incoming_def sr_defs\<close>)
  qed
qed simp

lemma fill_loop_spec:
  "length (arrivals b) < n \<Longrightarrow> fill_loop n b = (r, b') \<Longrightarrow>
     r \<noteq> Panic \<and> write_side b' = write_side b \<and> incoming b' = incoming b \<and>
     (r = Ok () \<longrightarrow> length (arrivals b') < length (arrivals b) \<and>
        in_buf b' @ readable (arrivals b') = in_buf b @ readable (arrivals b)) \<and>
     ((\<exists>e. r = Err e) \<longrightarrow> readable (arrivals b) = [])"
proof (induction n arbitrary: b r b')
  case (Suc n)
  show ?case
  proof (cases "next_arrival (arrivals b)")
    case None
    with Suc.prems show ?thesis
      by (auto simp: on_channel_receive sbind_def write_side_def incoming_def next_arrival_None)
  next
    case (Some p)
    obtain m ms where p: "p = (m, ms)" by (cases p)
    let ?c = "b\<lparr>bc_channel := (bc_channel b)\<lparr>inbox := ms\<rparr>\<rparr>"
    have run: "on_channel chan_receive b = (Ok m, ?c)" using Some p by (simp add: on_channel_receive)
    from next_arrival_cases [of "arrivals b" m ms] Some p
    have *: "pending (arrivals b) = stdout_of m @ pending ms" "length ms < length (arrivals b)"
        "readable (arrivals b) = readable (Some m # ms)"
      by simp_all
    have IH: "fill_loop n ?c = (r, b') \<Longrightarrow> r \<noteq> Panic \<and> write_side b' = write_side ?c \<and>
        incoming b' = incoming ?c \<and>
        (r = Ok () \<longrightarrow> length (arrivals b') < length (arrivals ?c) \<and>
           in_buf b' @ readable (arrivals b') = in_buf ?c @ readable (arrivals ?c)) \<and>
        ((\<exists>e. r = Err e) \<longrightarrow> readable (arrivals ?c) = [])"
      using Suc.IH [of ?c r b'] * Suc.prems(1) by simp
    have g: "write_side ?c = write_side b" by (simp add: write_side_def)
    show ?thesis
      using Suc.prems(2) run g * IH
      by (cases m) (auto simp: incoming_def sr_defs store_input_def write_side_def)
  qed
qed simp

lemma fill_once_spec:
  assumes "fill_once b = (r, b')"
  shows "r \<noteq> Panic" "write_side b' = write_side b" "incoming b' = incoming b"
    "r = Ok () \<Longrightarrow> length (arrivals b') < length (arrivals b)"
    "r = Ok () \<Longrightarrow> in_buf b' @ readable (arrivals b') = in_buf b @ readable (arrivals b)"
    "r = Err e \<Longrightarrow> readable (arrivals b) = []"
  using fill_loop_spec [of b "Suc (length (arrivals b))" r b'] assms by (auto simp: fill_once_def)

lemma fill_loop_grows: "fill_loop n b = (r, b') \<Longrightarrow> \<exists>d. in_buf b' = in_buf b @ d"
proof (induction n arbitrary: b)
  case (Suc n)
  have IH: "\<exists>d. in_buf b' = in_buf b @ d" if "fill_loop n c = (r, b')" "in_buf c = in_buf b" for c
    using Suc.IH [OF that(1)] that(2) by simp
  show ?case
    using Suc.prems IH
    by (force simp: sbind_def on_channel_receive store_input_def sr_defs
        split: option.splits channel_message.splits)
qed (simp add: sr_defs)

lemma fill_once_grows: "fill_once b = (r, b') \<Longrightarrow> \<exists>d. in_buf b' = in_buf b @ d"
  unfolding fill_once_def by (rule fill_loop_grows)

section \<open>Reading a given number of bytes\<close>

lemma fill_upto_spec:
  "length (arrivals b) < n \<Longrightarrow> fill_upto n len b = (r, b') \<Longrightarrow>
     r \<noteq> Panic \<and> write_side b' = write_side b \<and> incoming b' = incoming b \<and>
     (r = Ok () \<longleftrightarrow> len \<le> length (in_buf b @ readable (arrivals b))) \<and>
     (r = Ok () \<longrightarrow> len \<le> length (in_buf b') \<and>
        in_buf b' @ readable (arrivals b') = in_buf b @ readable (arrivals b))"
proof (induction n arbitrary: b)
  case (Suc n)
  show ?case
  proof (cases "len \<le> length (in_buf b)")
    case True
    with Suc.prems show ?thesis by (auto simp: sr_defs)
  next
    case False
    obtain q c where f: "fill_once b = (q, c)" by (cases "fill_once b")
    note F = fill_once_spec [OF f]
    show ?thesis
    proof (cases q)
      case (Ok u)
      have "fill_upto n len c = (r, b')" using Suc.prems(2) False f Ok by simp
      moreover have "length (arrivals c) < n" using F(4) Ok Suc.prems(1) by simp
      ultimately have "r \<noteq> Panic \<and> write_side b' = write_side c \<and> incoming b' = incoming c \<and>
          (r = Ok () \<longleftrightarrow> len \<le> length (in_buf c @ readable (arrivals c))) \<and>
          (r = Ok () \<longrightarrow> len \<le> length (in_buf b') \<and>
             in_buf b' @ readable (arrivals b') = in_buf c @ readable (arrivals c))"
        by (rule Suc.IH [rotated])
      with F(2,3,5) Ok show ?thesis by simp
    next
      case (Err e)
      with Suc.prems(2) False f F show ?thesis by auto
    next
      case Panic
      with F show ?thesis by simp
    qed
  qed
qed simp

lemma take_readable:
  "len \<le> length (in_buf b) \<Longrightarrow> in_buf b @ readable (arrivals b) = xs \<Longrightarrow> take len (in_buf b) = take len xs"
  by (metis diff_is_0_eq append_Nil2 take0 take_append)

text \<open>\<open>fill_exact\<close> answers exactly when enough bytes arrive before the end.\<close>

lemma fill_exact_spec:
  assumes "fill_exact len b = (r, b')"
  shows "r \<noteq> Panic" "write_side b' = write_side b" "incoming b' = incoming b"
    "(\<exists>d. r = Ok d) \<longleftrightarrow> len \<le> length (in_buf b @ readable (arrivals b))"
    "r = Ok d \<Longrightarrow> d = take len (in_buf b @ readable (arrivals b))"
    "r = Ok d \<Longrightarrow> d = take len (in_buf b') \<and> len \<le> length (in_buf b')"
    "r = Ok d \<Longrightarrow> available b' = available b"
proof -
  obtain q c where f: "fill_upto (Suc (length (arrivals b))) len b = (q, c)"
    by (cases "fill_upto (Suc (length (arrivals b))) len b")
  note F = fill_upto_spec [OF _ f, simplified]
  have r: "b' = c \<and> r = (case q of Ok _ \<Rightarrow> Ok (take len (in_buf c)) | Err e \<Rightarrow> Err e | Panic \<Rightarrow> Panic)"
    using assms f by (cases q) (auto simp: fill_exact_def sbind_def sget_def)
  show "r \<noteq> Panic" "write_side b' = write_side b" "incoming b' = incoming b"
    "(\<exists>d. r = Ok d) \<longleftrightarrow> len \<le> length (in_buf b @ readable (arrivals b))"
    "r = Ok d \<Longrightarrow> d = take len (in_buf b') \<and> len \<le> length (in_buf b')"
    "r = Ok d \<Longrightarrow> available b' = available b"
    unfolding available_def using F r by (cases q; auto)+
  show "d = take len (in_buf b @ readable (arrivals b))" if "r = Ok d"
  proof -
    from that r obtain u where q: "q = Ok u" by (cases q) auto
    with F have "len \<le> length (in_buf c)" "in_buf c @ readable (arrivals c) = in_buf b @ readable (arrivals b)"
      by simp_all
    from take_readable [OF this] that q r show ?thesis by simp
  qed
qed

lemma buf_fill_spec:
  assumes "buf_fill b = (r, b')"
  shows "r \<noteq> Panic \<and> write_side b' = write_side b \<and> incoming b' = incoming b \<and>
    (r = Ok d \<longrightarrow> d = in_buf b' \<and> d \<noteq> [])"
proof -
  obtain q c where f: "fill_upto (Suc (length (arrivals b))) 1 b = (q, c)"
    by (cases "fill_upto (Suc (length (arrivals b))) 1 b")
  note F = fill_upto_spec [OF _ f, simplified]
  from F assms f show ?thesis by (cases q) (auto simp: buf_fill_def sbind_def sget_def)
qed

lemma consumer_read_buffer_run:
  "n \<le> length (in_buf b) \<Longrightarrow>
   consumer_read_buffer n b = (Ok (), b\<lparr>in_buf := drop n (in_buf b)\<rparr>)"
  by (auto simp: consumer_read_buffer_def sr_defs)

lemma fill_exact_available:
  assumes "len \<le> length (available b)"
  obtains b' where "fill_exact len b = (Ok (take len (available b)), b')" "available b' = available b"
    "write_side b' = write_side b" "len \<le> length (in_buf b')"
proof -
  obtain r b' where f: "fill_exact len b = (r, b')" by (cases "fill_exact len b")
  from fill_exact_spec(4) [OF f] assms obtain d where r: "r = Ok d" by (auto simp: available_def)
  from fill_exact_spec(5) [OF f r] r f have "fill_exact len b = (Ok (take len (available b)), b')"
    by (simp add: available_def)
  then show thesis
    using that fill_exact_spec(2) [OF f] fill_exact_spec(6,7) [OF f r] by blast
qed

lemma skip_available:
  assumes "n \<le> length (in_buf b)"
  obtains b' where "consumer_read_buffer n b = (Ok (), b')" "available b' = drop n (available b)"
    "write_side b' = write_side b"
  using consumer_read_buffer_run [OF assms] assms that by (simp add: available_def write_side_def)

section \<open>Reading a line\<close>

lemma find_lf_Some: "find_lf i bs = Some j \<Longrightarrow>
   \<exists>l rest. bs = l @ 10 # rest \<and> 10 \<notin> set l \<and> j = i + length l"
proof (induction bs arbitrary: i)
  case (Cons b bs)
  show ?case
  proof (cases "b = 10")
    case True
    with Cons.prems show ?thesis by (auto intro!: exI [of _ "[]"])
  next
    case False
    with Cons.prems Cons.IH [of "Suc i"] obtain l rest where
      "bs = l @ 10 # rest" "10 \<notin> set l" "j = Suc i + length l" by auto
    with False show ?thesis by (intro exI [of _ "b # l"] exI [of _ rest]) auto
  qed
qed simp

lemma find_lf_None: "find_lf i bs = None \<longleftrightarrow> 10 \<notin> set bs"
  by (induction bs arbitrary: i) auto

lemma read_line_from_spec:
  "length (arrivals b) < n \<Longrightarrow> p \<le> length (in_buf b) \<Longrightarrow> 10 \<notin> set (take p (in_buf b)) \<Longrightarrow>
   read_line_from n p b = (r, b') \<Longrightarrow>
     r \<noteq> Panic \<and> write_side b' = write_side b \<and> incoming b' = incoming b \<and>
     (\<forall>d. r = Ok d \<longrightarrow> (\<exists>l rest. d = l @ [10] \<and> 10 \<notin> set l \<and> in_buf b' = d @ rest))"
proof (induction n arbitrary: b p)
  case (Suc n)
  show ?case
  proof (cases "find_lf p (drop p (in_buf b))")
    case (Some j)
    from find_lf_Some [OF Some] obtain l rest where
      l: "drop p (in_buf b) = l @ 10 # rest" "10 \<notin> set l" "j = p + length l" by blast
    have e: "in_buf b = take p (in_buf b) @ l @ 10 # rest"
      by (metis l(1) append_take_drop_id)
    have t: "take (Suc j) (in_buf b) = (take p (in_buf b) @ l) @ [10]"
      by (subst e) (use Suc.prems(2) l(3) in simp)
    then have "in_buf b = take (Suc j) (in_buf b) @ rest" using e by simp
    with t Suc.prems(3,4) l(2) Some show ?thesis by (auto simp: sr_defs)
  next
    case None
    then have nl: "10 \<notin> set (in_buf b)"
      using Suc.prems(3) by (metis find_lf_None Un_iff append_take_drop_id set_append)
    obtain q c where f: "fill_once b = (q, c)" by (cases "fill_once b")
    note F = fill_once_spec [OF f]
    show ?thesis
    proof (cases q)
      case (Ok u)
      from F(5) Ok have c5: "in_buf c @ readable (arrivals c) = in_buf b @ readable (arrivals b)" by simp
      have grow: "\<exists>d. in_buf c = in_buf b @ d"
        by (rule fill_once_grows [OF f])
      then have "length (in_buf b) \<le> length (in_buf c)" "take (length (in_buf b)) (in_buf c) = in_buf b"
        by auto
      moreover have "length (arrivals c) < n" using F(4) Ok Suc.prems(1) by simp
      moreover have "read_line_from n (length (in_buf b)) c = (r, b')"
        using Suc.prems(4) None f Ok by simp
      ultimately have "r \<noteq> Panic \<and> write_side b' = write_side c \<and> incoming b' = incoming c \<and>
          (\<forall>d. r = Ok d \<longrightarrow> (\<exists>l rest. d = l @ [10] \<and> 10 \<notin> set l \<and> in_buf b' = d @ rest))"
        using nl by (intro Suc.IH) simp_all
      with F(2,3) show ?thesis by simp
    next
      case (Err e)
      with Suc.prems(4) None f F show ?thesis by auto
    next
      case Panic
      with F show ?thesis by simp
    qed
  qed
qed simp

lemma read_line_spec:
  assumes "read_line_lf b = (r, b')"
  shows "r \<noteq> Panic" "write_side b' = write_side b" "incoming b' = incoming b"
    "r = Ok d \<Longrightarrow> \<exists>l rest. d = l @ [10] \<and> 10 \<notin> set l \<and> in_buf b' = d @ rest"
  using read_line_from_spec [of b "Suc (length (arrivals b))" 0 r b'] assms
  by (auto simp: read_line_lf_def)

section \<open>Writing\<close>

lemma accepted_append: "accepted (p\<lparr>asked := asked p @ [x]\<rparr>) = accepted p @ accepted_in x"
  by (simp add: accepted_def)

lemma ask_size_accepted:
  assumes "ask_size (ChannelSendData i d) p = (r, p')"
  shows "accepted p' = accepted p @ (case r of Ok n \<Rightarrow> take n d | _ \<Rightarrow> [])"
proof -
  have none: "accepted_in (ChannelSendData i d, Answered w) =
      (case size_reply w of Ok n \<Rightarrow> take n d | _ \<Rightarrow> [])" for w
    by (cases w) (auto split: res.splits)
  show ?thesis
  proof (cases "dropWhile is_full (script p)")
    case Nil
    with assms show ?thesis
      by (auto simp: ask_size_def ask_def sbind_def slift_def accepted_def)
  next
    case (Cons out rest)
    with assms none show ?thesis
      by (cases out)
        (auto simp: ask_size_def ask_def sbind_def slift_def accepted_def split: res.splits)
  qed
qed

lemma ask_size_script:
  assumes "ask_size e p = (Ok n, p')"
  shows "length (script p') < length (script p)"
proof -
  have "length (dropWhile is_full (script p)) \<le> length (script p)"
    by (rule length_dropWhile_le)
  with assms show ?thesis
    by (cases "dropWhile is_full (script p)")
      (auto simp: ask_size_def ask_def sbind_def slift_def split: outcome.splits)
qed

text \<open>Sending touches nothing but the port.\<close>

definition read_side :: "buffer_channel \<Rightarrow> bytes \<times> channel_message option list" where
  "read_side b = (in_buf b, arrivals b)"

lemma read_side_incoming: "read_side b' = read_side b \<Longrightarrow> incoming b' = incoming b"
  by (simp add: read_side_def incoming_def)

lemma chan_send_spec:
  assumes "on_channel (chan_send d) b = (r, b')"
  shows "sent b' = sent b @ (case r of Ok n \<Rightarrow> take n d | _ \<Rightarrow> [])"
    "out_buf b' = out_buf b" "read_side b' = read_side b"
    "d \<noteq> [] \<Longrightarrow> r = Ok n \<Longrightarrow>
       length (script (chan_port (bc_channel b'))) < length (script (chan_port (bc_channel b)))"
proof -
  let ?p = "chan_port (bc_channel b)"
  obtain q p' where a: "ask_size (ChannelSendData (chan_id (bc_channel b)) d) ?p = (q, p')"
    by (cases "ask_size (ChannelSendData (chan_id (bc_channel b)) d) ?p")
  show "sent b' = sent b @ (case r of Ok n \<Rightarrow> take n d | _ \<Rightarrow> [])"
    "out_buf b' = out_buf b" "read_side b' = read_side b"
    "d \<noteq> [] \<Longrightarrow> r = Ok n \<Longrightarrow>
       length (script (chan_port (bc_channel b'))) < length (script (chan_port (bc_channel b)))"
    using assms a ask_size_accepted [OF a] ask_size_script [of _ ?p n p']
    by (auto simp: chan_send_def zoom_def sreturn_def sent_def read_side_def split: if_splits)
qed

lemma write_side_sent: "write_side b' = write_side b \<Longrightarrow> sent b' = sent b \<and> out_buf b' = out_buf b"
  by (simp add: write_side_def sent_def)

lemma flush_from_spec:
  "length (script (chan_port (bc_channel b))) < n \<Longrightarrow> p < length (out_buf b) \<Longrightarrow>
   flush_from n p b = (r, b') \<Longrightarrow>
     incoming b' = incoming b \<and>
     (r = Ok () \<longrightarrow> out_buf b' = [] \<and> sent b' = sent b @ drop p (out_buf b)) \<and>
     (r \<noteq> Ok () \<longrightarrow> out_buf b' = out_buf b \<and> (\<exists>k. sent b' = sent b @ take k (drop p (out_buf b))))"
proof (induction n arbitrary: b p)
  case (Suc n)
  obtain q c where s: "on_channel (chan_send (drop p (out_buf b))) b = (q, c)"
    by (cases "on_channel (chan_send (drop p (out_buf b))) b")
  note S = chan_send_spec [OF s]
  have inc: "incoming c = incoming b" using S(3) by (rule read_side_incoming)
  show ?case
  proof (cases q)
    case (Ok written)
    from S(1) Ok have sc: "sent c = sent b @ take written (drop p (out_buf b))" by simp
    show ?thesis
    proof (cases "p + written = length (out_buf b)")
      case True
      with Suc.prems s Ok S sc inc show ?thesis
        by (auto simp: sr_defs incoming_def sent_def)
    next
      case False
      obtain w e where aw: "await_window (Suc (length (arrivals c))) c = (w, e)"
        by (cases "await_window (Suc (length (arrivals c))) c")
      note A = await_window_spec [OF _ aw, simplified]
      from A have E: "sent e = sent c" "out_buf e = out_buf b" "incoming e = incoming b"
        using write_side_sent [of e c] S(2) inc by auto
      have run: "flush_from (Suc n) p b = (case w of Ok _ \<Rightarrow> flush_from n (p + written) e
          | Err x \<Rightarrow> (Err x, e) | Panic \<Rightarrow> (Panic, e))"
        using Suc.prems(2) s Ok False aw by (cases w) simp_all
      show ?thesis
      proof (cases w)
        case w: (Ok u)
        have rn: "flush_from n (p + written) e = (r, b')" using run w Suc.prems(3) by simp
        show ?thesis
        proof (cases "p + written < length (out_buf b)")
          case True
          have "length (script (chan_port (bc_channel e))) < n"
            using A S(4) [of written] Ok Suc.prems(1,2) by (simp add: write_side_def)
          from Suc.IH [OF this _ rn] True E have IH: "incoming b' = incoming e \<and>
            (r = Ok () \<longrightarrow> out_buf b' = [] \<and> sent b' = sent e @ drop (p + written) (out_buf b)) \<and>
            (r \<noteq> Ok () \<longrightarrow> out_buf b' = out_buf b \<and>
              (\<exists>k. sent b' = sent e @ take k (drop (p + written) (out_buf b))))"
            by simp
          have split: "take written (drop p (out_buf b)) @ drop (p + written) (out_buf b) = drop p (out_buf b)"
            by (metis append_take_drop_id drop_drop add.commute)
          have split': "take written (drop p (out_buf b)) @ take k (drop (p + written) (out_buf b)) =
              take (written + k) (drop p (out_buf b))" for k
            by (metis take_add drop_drop add.commute)
          from IH E sc split split' show ?thesis by (metis append.assoc)
        next
          case False': False
          then have "r = Panic" "b' = e"
            using rn False E A by (cases n; auto simp: sr_defs)+
          with E sc show ?thesis by auto
        qed
      next
        case (Err x)
        with run Suc.prems(3) E sc show ?thesis by auto
      next
        case Panic
        with A show ?thesis by simp
      qed
    qed
  next
    case (Err x)
    with Suc.prems s S inc show ?thesis by (auto intro: exI [of _ 0])
  next
    case Panic
    with Suc.prems s S inc show ?thesis by (auto intro: exI [of _ 0])
  qed
qed simp

text \<open>A successful flush has sent the whole write buffer; a failed one leaves all of it there.\<close>

lemma buf_flush_spec:
  assumes "buf_flush b = (r, b')"
  shows "incoming b' = incoming b"
    "r = Ok () \<Longrightarrow> out_buf b' = [] \<and> sent b' = outgoing b"
    "r \<noteq> Ok () \<Longrightarrow> out_buf b' = out_buf b \<and> (\<exists>k. sent b' = sent b @ take k (out_buf b))"
proof -
  have "incoming b' = incoming b \<and> (r = Ok () \<longrightarrow> out_buf b' = [] \<and> sent b' = outgoing b) \<and>
    (r \<noteq> Ok () \<longrightarrow> out_buf b' = out_buf b \<and> (\<exists>k. sent b' = sent b @ take k (out_buf b)))"
  proof (cases "out_buf b = []")
    case True
    with assms show ?thesis by (auto simp: buf_flush_def sr_defs outgoing_def)
  next
    case False
    with assms flush_from_spec [of b "Suc (length (script (chan_port (bc_channel b))))" 0 r b']
    show ?thesis by (simp add: buf_flush_def outgoing_def)
  qed
  then show "incoming b' = incoming b"
    "r = Ok () \<Longrightarrow> out_buf b' = [] \<and> sent b' = outgoing b"
    "r \<noteq> Ok () \<Longrightarrow> out_buf b' = out_buf b \<and> (\<exists>k. sent b' = sent b @ take k (out_buf b))"
    by blast+
qed

lemma buf_send_spec:
  assumes "buf_send d b = (r, b')"
  shows "read_side b' = read_side b" "r = Ok () \<Longrightarrow> outgoing b' = outgoing b @ d"
proof -
  have "read_side b' = read_side b \<and> (r = Ok () \<longrightarrow> outgoing b' = outgoing b @ d)"
  proof (cases "out_buf b = []")
    case True
    obtain q c where s: "on_channel (chan_send d) b = (q, c)" by (cases "on_channel (chan_send d) b")
    note S = chan_send_spec [OF s]
    show ?thesis using assms True s S
      by (cases q) (auto simp: buf_send_def sr_defs outgoing_def sent_def read_side_def split: if_splits)
  next
    case False
    let ?b = "b\<lparr>out_buf := out_buf b @ d\<rparr>"
    obtain q c where s: "on_channel (chan_send (out_buf b @ d)) ?b = (q, c)"
      by (cases "on_channel (chan_send (out_buf b @ d)) ?b")
    note S = chan_send_spec [OF s]
    have *: "read_side ?b = read_side b" "sent ?b = sent b" by (simp_all add: read_side_def sent_def)
    show ?thesis
    proof (cases q)
      case (Ok n)
      have "buf_send d b = (if n > length (out_buf b @ d) then (Panic, c)
          else (Ok (), c\<lparr>out_buf := drop n (out_buf c)\<rparr>))"
        using False s Ok by (simp add: buf_send_def sr_defs)
      moreover from S(1,2) Ok * have "sent c = sent b @ take n (out_buf b @ d)" "out_buf c = out_buf b @ d"
        by simp_all
      then have "sent c @ drop n (out_buf c) = sent b @ out_buf b @ d"
        by (simp del: take_append drop_append)
      ultimately show ?thesis using assms S(3) * 
        by (auto simp: outgoing_def sent_def read_side_def split: if_splits)
    qed (use assms False s S * in \<open>auto simp: buf_send_def\<close>)
  qed
  then show "read_side b' = read_side b" "r = Ok () \<Longrightarrow> outgoing b' = outgoing b @ d" by blast+
qed

text \<open>Writing never takes anything out of the read buffer.\<close>

lemma await_window_grows: "await_window n b = (r, b') \<Longrightarrow> \<exists>d. in_buf b' = in_buf b @ d"
proof (induction n arbitrary: b)
  case (Suc n)
  have IH: "\<exists>d. in_buf b' = in_buf b @ d" if "await_window n c = (r, b')" "\<exists>d. in_buf c = in_buf b @ d" for c
    using Suc.IH [OF that(1)] that(2) by auto
  show ?case
    using Suc.prems IH
    by (force simp: sbind_def on_channel_receive store_input_def sr_defs
        split: option.splits channel_message.splits)
qed (simp add: sr_defs)

lemma flush_from_grows: "flush_from n p b = (r, b') \<Longrightarrow> \<exists>d. in_buf b' = in_buf b @ d"
proof (induction n arbitrary: b p)
  case (Suc n)
  obtain q c where s: "on_channel (chan_send (drop p (out_buf b))) b = (q, c)"
    by (cases "on_channel (chan_send (drop p (out_buf b))) b")
  have c: "in_buf c = in_buf b" using chan_send_spec(3) [OF s] by (simp add: read_side_def)
  obtain w e where aw: "await_window (Suc (length (arrivals c))) c = (w, e)"
    by (cases "await_window (Suc (length (arrivals c))) c")
  from await_window_grows [OF aw] c obtain x where x: "in_buf e = in_buf b @ x" by auto
  show ?case
    using Suc.prems s c aw x Suc.IH [of "p + _" e]
    by (cases q; cases w) (auto simp: sr_defs split: if_splits)
qed (simp add: sr_defs)

lemma post_grows:
  assumes "sbind (buf_send d) (\<lambda>_. buf_flush) b = (r, b')"
  shows "\<exists>x. in_buf b' = in_buf b @ x"
proof -
  obtain q c where s: "buf_send d b = (q, c)" by (cases "buf_send d b")
  have c: "in_buf c = in_buf b" using buf_send_spec(1) [OF s] by (simp add: read_side_def)
  have "\<exists>x. in_buf c' = in_buf c @ x" if "buf_flush c = (r', c')" for r' c'
  proof (cases "out_buf c = []")
    case True
    with that show ?thesis by (simp add: buf_flush_def sr_defs)
  next
    case False
    with that have "flush_from (Suc (length (script (chan_port (bc_channel c))))) 0 c = (r', c')"
      by (simp add: buf_flush_def del: flush_from.simps)
    then show ?thesis by (rule flush_from_grows)
  qed
  with assms s c show ?thesis by (cases q) auto
qed

section \<open>The contract of a byte channel\<close>

text \<open>
  \<open>handed\<close> is what the peer's side has taken, \<open>held\<close> what waits to be flushed, \<open>input\<close> what is
  still to be read. Reading a number of bytes leaves them in front of the input; skipping drops them.
\<close>

locale byte_channel =
  fixes send :: "bytes \<Rightarrow> ('s, unit) sr"
    and flush :: "('s, unit) sr"
    and exact :: "nat \<Rightarrow> ('s, bytes) sr"
    and skip :: "nat \<Rightarrow> ('s, unit) sr"
    and handed :: "'s \<Rightarrow> bytes"
    and held :: "'s \<Rightarrow> bytes"
    and input :: "'s \<Rightarrow> bytes"
  assumes send_out: "send d s = (Ok u, s') \<Longrightarrow> handed s' @ held s' = handed s @ held s @ d"
    and flush_out: "flush s = (Ok u, s') \<Longrightarrow> held s' = [] \<and> handed s' = handed s @ held s"
    and send_in: "send d s = (r, s') \<Longrightarrow> input s' = input s"
    and flush_in: "flush s = (r, s') \<Longrightarrow> input s' = input s"
    and exact_keeps: "exact n s = (x, s') \<Longrightarrow>
      input s' = input s \<and> handed s' = handed s \<and> held s' = held s"
    and exact_ok: "exact n s = (Ok d, s') \<Longrightarrow> length d = n \<and> (\<exists>rest. input s = d @ rest)"
    and skip_ok: "exact n s = (Ok d, s') \<Longrightarrow> m \<le> n \<Longrightarrow>
      \<exists>t. skip m s' = (Ok (), t) \<and> input s' = take m d @ input t \<and> handed t = handed s' \<and> held t = held s'"
begin

lemma post:
  assumes "sbind (send d) (\<lambda>_. flush) s = (Ok u, s')"
  shows "handed s' = handed s @ held s @ d \<and> held s' = [] \<and> input s' = input s"
proof -
  from assms obtain v t where "send d s = (Ok v, t)" "flush t = (Ok u, s')"
    by (auto simp: sbind_Ok_iff)
  with send_out send_in flush_out flush_in show ?thesis by metis
qed

lemma whole_record:
  assumes "exact k s = (Ok h, t)" "exact (n + k) t = (Ok d, s')"
  shows "take k d = h \<and> length d = n + k \<and> input s' = input s \<and> handed s' = handed s \<and> held s' = held s"
    "\<exists>s''. skip (n + k) s' = (Ok (), s'') \<and> input s = d @ input s'' \<and> handed s'' = handed s \<and> held s'' = held s"
proof -
  note 1 = exact_keeps [OF assms(1)] exact_ok [OF assms(1)]
  note 2 = exact_keeps [OF assms(2)] exact_ok [OF assms(2)]
  from 1 2 obtain r r' where r: "input s = h @ r" "input s = d @ r'" by auto
  with 2(2) have "take k d = take k (input s)" by (metis le_add2 take_append diff_is_0_eq take0 append_Nil2)
  moreover have "take k (input s) = h" using r(1) 1(2) by simp
  ultimately have "take k d = h" by simp
  with 1 2 show "take k d = h \<and> length d = n + k \<and> input s' = input s \<and> handed s' = handed s \<and> held s' = held s"
    by simp
  from skip_ok [OF assms(2) order_refl] 1 2
  show "\<exists>s''. skip (n + k) s' = (Ok (), s'') \<and> input s = d @ input s'' \<and> handed s'' = handed s \<and> held s'' = held s"
    by auto
qed

end

interpretation bc: byte_channel buf_send buf_flush fill_exact consumer_read_buffer sent out_buf incoming
proof
  fix d n m u r s s' x
  show "buf_send d s = (Ok u, s') \<Longrightarrow> sent s' @ out_buf s' = sent s @ out_buf s @ d"
    using buf_send_spec(2) [of d s "Ok u" s'] by (simp add: outgoing_def)
  show "buf_flush s = (Ok u, s') \<Longrightarrow> out_buf s' = [] \<and> sent s' = sent s @ out_buf s"
    using buf_flush_spec(2) [of s "Ok u" s'] by (simp add: outgoing_def)
  show "buf_send d s = (r, s') \<Longrightarrow> incoming s' = incoming s"
    by (intro read_side_incoming buf_send_spec(1))
  show "buf_flush s = (r, s') \<Longrightarrow> incoming s' = incoming s"
    by (rule buf_flush_spec(1))
  show "fill_exact n s = (x, s') \<Longrightarrow> incoming s' = incoming s \<and> sent s' = sent s \<and> out_buf s' = out_buf s"
    using fill_exact_spec(2) [of n s x s'] fill_exact_spec(3) [of n s x s'] write_side_sent [of s' s] by simp
  show "fill_exact n s = (Ok d, s') \<Longrightarrow> length d = n \<and> (\<exists>rest. incoming s = d @ rest)"
    using fill_exact_spec(3) [of n s "Ok d" s'] fill_exact_spec(6) [of n s "Ok d" s' d]
    by (auto simp: incoming_def) (metis append.assoc append_take_drop_id)
  show "fill_exact n s = (Ok d, s') \<Longrightarrow> m \<le> n \<Longrightarrow>
      \<exists>t. consumer_read_buffer m s' = (Ok (), t) \<and> incoming s' = take m d @ incoming t \<and>
        sent t = sent s' \<and> out_buf t = out_buf s'"
  proof -
    assume f: "fill_exact n s = (Ok d, s')" and m: "m \<le> n"
    from fill_exact_spec(6) [OF f] have d: "d = take n (in_buf s')" "n \<le> length (in_buf s')" by simp_all
    with m have t: "take m d = take m (in_buf s')" by simp
    from d m have "consumer_read_buffer m s' = (Ok (), s'\<lparr>in_buf := drop m (in_buf s')\<rparr>)"
      by (intro consumer_read_buffer_run) simp
    then show ?thesis unfolding t by (auto simp: incoming_def sent_def)
  qed
qed

end
