(* ===== verification/SftpFacts.thy ===== *)
theory SftpFacts
  imports Sftp ChannelFacts
begin

text \<open>
  The wire forms of the SFTP types against their parsers, with a reference encoder for the
  server's replies, and what a request and its reply do to the channel.
\<close>

section \<open>Modes\<close>

definition wire_bits :: u32 where
  "wire_bits = type_mask OR all_permissions"

lemma masks: "type_mask = 0xF000" "all_permissions = 0x1FF" "wire_bits = 0xF1FF"
  by (simp_all add: type_mask_def all_permissions_def class_bits_def wire_bits_def)

lemma file_type_from_Some: "file_type_from v = Some t \<longleftrightarrow> v = file_type_code t"
  by (cases t) (auto simp: file_type_from_def file_types_def)

lemma file_type_in_mask: "file_type_code t AND type_mask = file_type_code t"
  by (cases t) (simp_all add: masks)

lemma file_type_no_permission: "file_type_code t AND all_permissions = 0"
  by (cases t) (simp_all add: masks)

definition wf_mode :: "mode \<Rightarrow> bool" where
  "wf_mode m \<longleftrightarrow> m_permissions m AND NOT all_permissions = 0"

lemma and_not_0: "(a :: u32) AND NOT b = 0 \<longleftrightarrow> a AND b = a"
  by (auto simp: bit_eq_iff bit_simps)

lemma mode_parts:
  assumes "wf_mode m"
  shows "mode_bits m AND type_mask = file_type_code (m_file_type m)"
    "mode_bits m AND NOT type_mask AND all_permissions = m_permissions m"
proof -
  have p: "m_permissions m AND all_permissions = m_permissions m"
    using assms by (simp add: wf_mode_def and_not_0)
  have z: "all_permissions AND type_mask = 0" by (simp add: masks)
  have "m_permissions m AND type_mask = m_permissions m AND (all_permissions AND type_mask)"
    using p by (metis and.assoc)
  then have "m_permissions m AND type_mask = 0" by (simp add: z)
  then show "mode_bits m AND type_mask = file_type_code (m_file_type m)"
    by (simp add: mode_bits_def bit.conj_disj_distrib2 file_type_in_mask)
  have "NOT type_mask AND all_permissions = all_permissions" by (simp add: masks)
  then show "mode_bits m AND NOT type_mask AND all_permissions = m_permissions m"
    by (simp add: mode_bits_def bit.conj_disj_distrib2 file_type_no_permission p)
qed

lemma mode_roundtrip: "wf_mode m \<Longrightarrow> mode_try_from (mode_bits m) = Ok m"
  by (cases m) (auto simp: mode_try_from_def mode_parts file_type_from_Some [THEN iffD2])

lemma mode_try_from_bits:
  assumes "mode_try_from v = Ok m"
  shows "mode_bits m = v AND wire_bits \<and> wf_mode m"
proof -
  from assms obtain t where t: "v AND type_mask = file_type_code t"
    and m: "m = \<lparr>m_permissions = v AND NOT type_mask AND all_permissions, m_file_type = t\<rparr>"
    by (auto simp: mode_try_from_def file_type_from_Some split: option.splits)
  have "NOT type_mask AND all_permissions = all_permissions" by (simp add: masks)
  then have "v AND NOT type_mask AND all_permissions = v AND all_permissions" by simp
  moreover have "v AND wire_bits = v AND type_mask OR v AND all_permissions"
    by (simp add: wire_bits_def bit.conj_disj_distrib)
  moreover have "(v AND all_permissions) AND NOT all_permissions = 0"
    by (simp add: and.assoc)
  ultimately show ?thesis
    by (simp add: mode_bits_def wf_mode_def m t or.commute)
qed

section \<open>Attribute blocks\<close>

definition opt_bytes :: "('a \<Rightarrow> bytes) \<Rightarrow> 'a option \<Rightarrow> bytes" where
  "opt_bytes f x = (case x of None \<Rightarrow> [] | Some a \<Rightarrow> f a)"

definition pair_bytes :: "u32 \<times> u32 \<Rightarrow> bytes" where
  "pair_bytes ab = u32_to_be (fst ab) @ u32_to_be (snd ab)"

definition attribute_bytes :: "bytes \<times> bytes \<Rightarrow> bytes" where
  "attribute_bytes kv = one (fst kv) @ one (snd kv)"

definition extend_bytes :: "(bytes \<times> bytes) list \<Rightarrow> bytes" where
  "extend_bytes kvs = u32_to_be (as_u32 (length kvs)) @ concat (map attribute_bytes kvs)"

lemma put_one_eq: "put_one d p = p @ one d"
  by (simp add: put_one_def put_bytes_def put_u32_def one_def)

lemma put_option_eq: "(\<And>a p. f a p = p @ g a) \<Longrightarrow> put_option f x p = p @ opt_bytes g x"
  by (simp add: put_option_def opt_bytes_def split: option.split)

lemma put_extend_eq: "put_extend kvs p = p @ extend_bytes kvs"
proof -
  have "fold (\<lambda>(k, v) p. put_one v (put_one k p)) kvs q = q @ concat (map attribute_bytes kvs)" for q
    by (induction kvs arbitrary: q) (auto simp: put_one_eq attribute_bytes_def)
  then show ?thesis by (simp add: put_extend_def put_u32_def extend_bytes_def)
qed

lemma to_bytes_eq:
  "to_bytes a = u32_to_be (attributes_flags a) @ opt_bytes u64_to_be (a_size a) @
     opt_bytes pair_bytes (a_user a) @ opt_bytes (\<lambda>m. u32_to_be (mode_bits m)) (a_property a) @
     opt_bytes pair_bytes (a_time a) @ opt_bytes extend_bytes (a_extend a)"
proof -
  have p: "put_pair ab q = q @ pair_bytes ab" for ab q
    by (simp add: put_pair_def put_u32_def pair_bytes_def)
  have "drop 4 (u32_to_be 0 @ xs) = xs" for xs by simp
  then show ?thesis
    by (simp add: to_bytes_def put_option_eq [OF p] put_option_eq [OF put_extend_eq]
        put_option_eq [of "\<lambda>m. put_u32 (mode_bits m)" "\<lambda>m. u32_to_be (mode_bits m)"] put_u32_def
        put_option_eq [of put_u64 u64_to_be] put_u64_def Let_def)
qed

lemma flags_of:
  "attributes_flags a AND SSH_FILEXFER_ATTR_SIZE \<noteq> 0 \<longleftrightarrow> a_size a \<noteq> None"
  "attributes_flags a AND SSH_FILEXFER_ATTR_UIDGID \<noteq> 0 \<longleftrightarrow> a_user a \<noteq> None"
  "attributes_flags a AND SSH_FILEXFER_ATTR_PERMISSIONS \<noteq> 0 \<longleftrightarrow> a_property a \<noteq> None"
  "attributes_flags a AND SSH_FILEXFER_ATTR_ACMODTIME \<noteq> 0 \<longleftrightarrow> a_time a \<noteq> None"
  "attributes_flags a AND SSH_FILEXFER_ATTR_EXTENDED \<noteq> 0 \<longleftrightarrow> a_extend a \<noteq> None"
  by (auto simp: attributes_flags_def flag_if_def attr_flags)

lemma decodes_when:
  assumes "flags AND f \<noteq> 0 \<longleftrightarrow> x \<noteq> None" "\<And>y. x = Some y \<Longrightarrow> decodes m (g y) (enc y)"
  shows "decodes (when_flag flags f m) (map_option g x) (opt_bytes enc x)"
  using assms
  by (cases x) (auto simp: when_flag_def opt_bytes_def intro: decodes_return decodes_map)

lemma decodes_pair: "decodes consume_pair ab (pair_bytes ab)"
  unfolding consume_pair_def pair_bytes_def
  by (cases ab) (auto intro!: decodes_u32_bind decodes_return)

lemma decodes_mode: "wf_mode m \<Longrightarrow> decodes consume_mode (Some m) (u32_to_be (mode_bits m))"
  unfolding consume_mode_def by (rule decodes_u32_bind) (simp add: mode_roundtrip decodes_return)

text \<open>The names are strings, and no name occurs twice in a hash map.\<close>

definition wf_extend :: "(bytes \<times> bytes) list \<Rightarrow> bool" where
  "wf_extend kvs \<longleftrightarrow> distinct (map fst kvs) \<and> length kvs < 2 ^ 32 \<and>
     (\<forall>(k, v) \<in> set kvs. wf_str k \<and> fits v)"

lemma AList_update_new: "k \<notin> fst ` set kvs \<Longrightarrow> AList.update k v kvs = kvs @ [(k, v)]"
  by (induction kvs) auto

lemma collect_append:
  "distinct (map fst (ys @ kvs)) \<Longrightarrow> fold (\<lambda>(k, v). AList.update k v) kvs ys = ys @ kvs"
proof (induction kvs arbitrary: ys)
  case (Cons kv kvs)
  obtain k v where kv: "kv = (k, v)" by (cases kv)
  with Cons.prems have "k \<notin> fst ` set ys" by auto
  with Cons.IH [of "ys @ [kv]"] Cons.prems kv show ?case by (simp add: AList_update_new)
qed simp

lemma collect_distinct: "distinct (map fst kvs) \<Longrightarrow> collect kvs = kvs"
  using collect_append [of "[]" kvs] by (simp add: collect_def)

lemma decodes_attribute:
  assumes "wf_str k" "fits v"
  shows "decodes consume_attribute (k, v) (attribute_bytes (k, v))"
proof -
  from assms(1) have "fits k" "from_utf8 k = Ok k" by (simp_all add: wf_str_def from_utf8_def)
  with assms(2) show ?thesis
    unfolding consume_attribute_def attribute_bytes_def
    by (auto intro!: decodes_one_bind decodes_slift_bind decodes_return)
qed

lemma decodes_extend: "wf_extend kvs \<Longrightarrow> decodes consume_extend kvs (extend_bytes kvs)"
  unfolding consume_extend_def extend_bytes_def
proof (rule decodes_u32_bind)
  assume w: "wf_extend kvs"
  then have n: "unat (as_u32 (length kvs)) = length kvs" and c: "collect kvs = kvs"
    by (simp_all add: wf_extend_def collect_distinct)
  have "decodes (times (length kvs) consume_attribute) kvs (concat (map attribute_bytes kvs))"
    using w by (intro decodes_times) (auto simp: wf_extend_def intro!: decodes_attribute)
  from decodes_map [OF this, of collect]
  show "decodes (sbind (times (unat (as_u32 (length kvs))) consume_attribute) (\<lambda>kvs. sreturn (collect kvs)))
      kvs (concat (map attribute_bytes kvs))"
    by (simp only: n c)
qed

definition wf_attributes :: "attributes \<Rightarrow> bool" where
  "wf_attributes a \<longleftrightarrow> (\<forall>m. a_property a = Some m \<longrightarrow> wf_mode m) \<and>
     (\<forall>kvs. a_extend a = Some kvs \<longrightarrow> wf_extend kvs)"

lemma decodes_last: "decodes m x b \<Longrightarrow> decodes (f x) y [] \<Longrightarrow> decodes (sbind m f) y b"
  using decodes_bind [of m x b f y "[]"] by simp

lemma decodes_attributes:
  assumes "wf_attributes a"
  shows "decodes attributes_parse a (to_bytes a)"
proof -
  note x = option.map_ident
  note w = decodes_when [where g = id, unfolded id_apply]
  have fin: "decodes (sreturn \<lparr>a_size = a_size a, a_user = a_user a,
      a_property = Option.bind (map_option Some (a_property a)) id, a_time = a_time a, a_extend = a_extend a\<rparr>) a []"
    by (cases "a_property a") (auto simp: decodes_def sr_defs)
  have f1: "decodes (when_flag (attributes_flags a) SSH_FILEXFER_ATTR_SIZE consume_u64) (a_size a)
      (opt_bytes u64_to_be (a_size a))"
    using w [OF flags_of(1), of a consume_u64 u64_to_be] by (simp add: x decodes_u64)
  have f2: "decodes (when_flag (attributes_flags a) SSH_FILEXFER_ATTR_UIDGID consume_pair) (a_user a)
      (opt_bytes pair_bytes (a_user a))"
    using w [OF flags_of(2), of a consume_pair pair_bytes] by (simp add: x decodes_pair)
  have f3: "decodes (when_flag (attributes_flags a) SSH_FILEXFER_ATTR_PERMISSIONS consume_mode)
      (map_option Some (a_property a)) (opt_bytes (\<lambda>m. u32_to_be (mode_bits m)) (a_property a))"
    by (rule decodes_when [OF flags_of(3)]) (use assms in \<open>auto simp: wf_attributes_def intro: decodes_mode\<close>)
  have f4: "decodes (when_flag (attributes_flags a) SSH_FILEXFER_ATTR_ACMODTIME consume_pair) (a_time a)
      (opt_bytes pair_bytes (a_time a))"
    using w [OF flags_of(4), of a consume_pair pair_bytes] by (simp add: x decodes_pair)
  have f5: "decodes (when_flag (attributes_flags a) SSH_FILEXFER_ATTR_EXTENDED consume_extend) (a_extend a)
      (opt_bytes extend_bytes (a_extend a))"
    using w [OF flags_of(5), of a consume_extend extend_bytes] assms
    by (simp add: x decodes_extend wf_attributes_def)
  show ?thesis
    unfolding attributes_parse_def to_bytes_eq
    by (rule decodes_u32_bind, rule decodes_bind [OF f1], rule decodes_bind [OF f2],
        rule decodes_bind [OF f3], rule decodes_bind [OF f4], rule decodes_last [OF f5], rule fin)
qed

section \<open>Replies of the server\<close>

text \<open>The wire form of a reply; the client has no encoder for it.\<close>

definition status_code :: "status \<Rightarrow> u32" where
  "status_code st =
     (case st of StatusOK \<Rightarrow> 0 | StatusEof \<Rightarrow> 1 | StatusNoSuchFile \<Rightarrow> 2 | StatusPermissionDenied \<Rightarrow> 3
      | StatusFailure \<Rightarrow> 4 | StatusBadMessage \<Rightarrow> 5 | StatusNoConnection \<Rightarrow> 6
      | StatusConnectionLost \<Rightarrow> 7 | StatusOpUnsupported \<Rightarrow> 8)"

definition file_info_bytes :: "file_info \<Rightarrow> bytes" where
  "file_info_bytes i = one (file_name i) @ one (long_name i) @ to_bytes (fi_attributes i)"

fun payload_code :: "payload \<Rightarrow> u8" where
  "payload_code (PStatus _ _ _) = SSH_FXP_STATUS"
| "payload_code (PHandle _) = SSH_FXP_HANDLE"
| "payload_code (PData _) = SSH_FXP_DATA"
| "payload_code (PName _) = SSH_FXP_NAME"
| "payload_code (PAttributes _) = SSH_FXP_ATTRS"
| "payload_code (PExtendReply _) = SSH_FXP_EXTENDED_REPLY"

fun payload_bytes :: "payload \<Rightarrow> bytes" where
  "payload_bytes (PStatus st e l) = u32_to_be (status_code st) @ one e @ one l"
| "payload_bytes (PHandle h) = one h"
| "payload_bytes (PData d) = one d"
| "payload_bytes (PName infos) = u32_to_be (as_u32 (length infos)) @ concat (map file_info_bytes infos)"
| "payload_bytes (PAttributes a) = to_bytes a"
| "payload_bytes (PExtendReply d) = d"

definition encode_reply :: "u32 \<Rightarrow> payload \<Rightarrow> bytes" where
  "encode_reply i p = payload_code p # u32_to_be i @ payload_bytes p"

fun wf_payload :: "payload \<Rightarrow> bool" where
  "wf_payload (PStatus st e l) = (wf_str e \<and> wf_str l)"
| "wf_payload (PHandle h) = fits h"
| "wf_payload (PData d) = fits d"
| "wf_payload (PName infos) =
     (length infos < 2 ^ 32 \<and>
      (\<forall>i \<in> set infos. wf_str (file_name i) \<and> wf_str (long_name i) \<and> wf_attributes (fi_attributes i)))"
| "wf_payload (PAttributes a) = wf_attributes a"
| "wf_payload (PExtendReply d) = True"

lemma status_roundtrip: "status_try_from (status_code st) = Some st"
  by (cases st) (simp_all add: status_try_from_def status_code_def statuses_def)

lemma decodes_one_or_empty: "fits d \<Longrightarrow> decodes consume_one_or_empty d (one d)"
  using decodes_one [of d] by (simp add: decodes_def consume_one_or_empty_def)

lemma decodes_status:
  assumes "wf_str e" "wf_str l"
  shows "decodes parse_status (PStatus st e l) (payload_bytes (PStatus st e l))"
proof -
  from assms have *: "fits e" "fits l" "from_utf8 e = Ok e" "from_utf8 l = Ok l"
    by (simp_all add: wf_str_def from_utf8_def)
  show ?thesis
    unfolding parse_status_def payload_bytes.simps
    by (rule decodes_u32_bind)
      (use * in \<open>auto simp: status_roundtrip intro!: decodes_bind [OF decodes_one_or_empty]
        decodes_last [OF decodes_one_or_empty] decodes_slift_bind decodes_return\<close>)
qed

lemma decodes_file_info:
  "wf_str (file_name i) \<Longrightarrow> wf_str (long_name i) \<Longrightarrow> wf_attributes (fi_attributes i) \<Longrightarrow>
   decodes consume_file_info i (file_info_bytes i)"
  unfolding consume_file_info_def file_info_bytes_def
  by (intro decodes_str_bind decodes_last [OF decodes_attributes]) (auto simp: decodes_def sr_defs)

lemma parse_more_encoded:
  assumes "wf_payload (PName infos)"
  shows "parse_more (concat (map file_info_bytes infos)) (length infos) = Ok infos"
proof -
  have "decodes (times (length infos) consume_file_info) infos (concat (map file_info_bytes infos))"
    using assms by (intro decodes_times decodes_file_info) auto
  from decodes_new [OF this, of "[]"] show ?thesis by (simp add: parse_more_def)
qed

lemma decodes_fst: "decodes m x (peek c) \<Longrightarrow> consumer_ok c \<Longrightarrow> fst (m c) = Ok x"
  using decodesD [of m x "peek c" c "[]"] by simp

lemma payload_parse_encoded:
  assumes "wf_payload p" "consumer_ok c" "peek c = payload_bytes p"
  shows "fst (sftp_payload_parse (payload_code p) c) = Ok p"
proof (cases p)
  case (PName infos)
  let ?n = "as_u32 (length infos)"
  have n: "unat ?n = length infos" using assms(1) PName by simp
  have "consume_u32 c = (Ok ?n, c\<lparr>pos := pos c + 4\<rparr>)"
    using decodesD [OF decodes_u32 assms(2), of ?n "concat (map file_info_bytes infos)"] assms(3) PName by simp
  moreover have "peek (c\<lparr>pos := pos c + 4\<rparr>) = concat (map file_info_bytes infos)"
    using assms(3) PName by (simp add: peek_advance)
  ultimately show ?thesis
    using PName parse_more_encoded [of infos] assms(1) n
    by (simp add: sftp_payload_parse_def sr_defs sbind_def)
next
  case (PExtendReply d)
  with assms show ?thesis by (simp add: sftp_payload_parse_def sr_defs)
next
  case (PStatus st e l)
  with assms decodes_fst [of parse_status p c] decodes_status [of e l st] show ?thesis
    by (simp add: sftp_payload_parse_def)
next
  case (PHandle h)
  with assms decodes_fst [of "sbind consume_one (\<lambda>h. sreturn (PHandle h))" p c]
    decodes_map [OF decodes_one, of h PHandle] show ?thesis by (simp add: sftp_payload_parse_def)
next
  case (PData d)
  with assms decodes_fst [of "sbind consume_one (\<lambda>d. sreturn (PData d))" p c]
    decodes_map [OF decodes_one, of d PData] show ?thesis by (simp add: sftp_payload_parse_def)
next
  case (PAttributes a)
  with assms decodes_fst [of "sbind attributes_parse (\<lambda>a. sreturn (PAttributes a))" p c]
    decodes_map [OF decodes_attributes, of a PAttributes] show ?thesis by (simp add: sftp_payload_parse_def)
qed

lemma sftp_message_parse_encoded:
  assumes "wf_payload p"
  shows "sftp_message_parse (encode_reply i p) = Ok \<lparr>msg_id = i, msg_payload = p\<rparr>"
proof -
  let ?d = "encode_reply i p" and ?c = "\<lparr>cdata = encode_reply i p, pos = 1\<rparr>"
    and ?e = "\<lparr>cdata = encode_reply i p, pos = 5\<rparr>"
  have 1: "consume_u8 (consumer_new ?d) = (Ok (payload_code p), ?c)"
    using decodes_new [OF decodes_u8, of "payload_code p" "u32_to_be i @ payload_bytes p"]
    by (simp add: encode_reply_def)
  have 2: "consume_u32 ?c = (Ok i, ?e)"
    using decodesD [OF decodes_u32, of ?c i "payload_bytes p"]
    by (simp add: encode_reply_def peek_def consumer_ok_def)
  have "fst (sftp_payload_parse (payload_code p) ?e) = Ok p"
    by (rule payload_parse_encoded [OF assms])
      (simp_all add: encode_reply_def peek_def consumer_ok_def u32_to_be_def)
  then obtain f where "sftp_payload_parse (payload_code p) ?e = (Ok p, f)"
    by (metis prod.collapse)
  with 1 2 show ?thesis by (simp add: sftp_message_parse_def sr_defs)
qed

subsection \<open>No reply makes the parser panic\<close>

lemma safe_one_or_empty: "safe consumer_ok consume_one_or_empty"
  by (rule safeI)
    (use safe_consume_one in \<open>auto simp: consume_one_or_empty_def safe_def split: prod.splits res.splits\<close>)

lemma safe_attributes: "safe consumer_ok attributes_parse"
  unfolding attributes_parse_def when_flag_def consume_pair_def consume_mode_def consume_extend_def
    consume_attribute_def
  by (intro safe_rules from_utf8_not_Panic)

lemma parse_more_not_Panic: "parse_more d n \<noteq> Panic"
  unfolding parse_more_def consume_file_info_def
  by (rule safe_no_panic [where P = consumer_ok]) (intro safe_rules safe_consume_str safe_attributes, simp)

lemma sftp_message_parse_not_Panic: "sftp_message_parse d \<noteq> Panic"
  unfolding sftp_message_parse_def sftp_payload_parse_def parse_status_def
  by (rule safe_no_panic [where P = consumer_ok])
    (intro safe_rules safe_one_or_empty safe_attributes parse_more_not_Panic from_utf8_not_Panic, simp)

section \<open>A request and its reply\<close>

lemma from_be_header: "length d < 2 ^ 32 \<Longrightarrow> unat (from_be (take 4 (one d)) :: u32) = length d"
  by (simp add: one_def)

text \<open>What a successful read of a record has established.\<close>

lemma read_record_Ok:
  assumes "read_record b = (Ok d, b')"
  obtains h b'' where "incoming b = h @ d @ incoming b''" "length h = 4" "unat (from_be h :: u32) = length d"
    "consumer_read_buffer (length d + 4) b' = (Ok (), b'')" "sent b'' = sent b" "out_buf b'' = out_buf b"
    "incoming b' = incoming b" "sent b' = sent b" "out_buf b' = out_buf b"
proof -
  from assms obtain h b1 e where 1: "fill_exact 4 b = (Ok h, b1)"
    and 2: "fill_exact (unat (from_be h :: u32) + 4) b1 = (Ok e, b')" and d: "d = drop 4 e"
    by (auto simp: read_record_def sbind_Ok_iff sr_defs split: if_splits)
  let ?n = "unat (from_be h :: u32)"
  from bc.whole_record(1) [OF 1 2] have w: "take 4 e = h" "length e = ?n + 4"
    "incoming b' = incoming b" "sent b' = sent b" "out_buf b' = out_buf b" by simp_all
  from bc.whole_record(2) [OF 1 2] obtain b'' where s: "consumer_read_buffer (?n + 4) b' = (Ok (), b'')"
    "incoming b = e @ incoming b''" "sent b'' = sent b" "out_buf b'' = out_buf b" by blast
  have e: "e = h @ d" using w(1) d by (metis append_take_drop_id)
  have "length h = 4" using bc.exact_ok [OF 1] by simp
  moreover from this e w(2) have "?n = length d" by simp
  ultimately show thesis using that s w(3-) e by simp
qed

text \<open>A request that succeeds has sent exactly its message, with the next number, and taken
  exactly one record off the input, whose number is the request's.\<close>

lemma sftp_call_Ok:
  assumes "sftp_call p m h = (Ok a, h')"
  obtains hd d msg where
    "request_id h' = request_id h + 1" "extensions h' = extensions h"
    "sent (sftp_channel h') = outgoing (sftp_channel h) @ make_buffer (p (request_id h'))"
    "out_buf (sftp_channel h') = []"
    "incoming (sftp_channel h) = hd @ d @ incoming (sftp_channel h')"
    "length hd = 4" "unat (from_be hd :: u32) = length d"
    "sftp_message_parse d = Ok msg" "msg_id msg = request_id h'" "m (msg_payload msg) = Ok a"
proof -
  let ?rid = "request_id h + 1" and ?b = "sftp_channel h"
  from assms obtain v b1 u b2 d b3 msg b4 w where
    1: "buf_send (make_buffer (p ?rid)) ?b = (Ok v, b1)" and 2: "buf_flush b1 = (Ok u, b2)"
    and 3: "read_record b2 = (Ok d, b3)" and 4: "sftp_message_parse d = Ok msg"
    and 5: "consumer_read_buffer (length d + 4) b3 = (Ok w, b4)" and 6: "msg_id msg = ?rid"
    and 7: "m (msg_payload msg) = Ok a"
    and h': "h' = h\<lparr>request_id := ?rid, sftp_channel := b4\<rparr>"
    by (auto simp: sftp_call_def receive_msg_def next_request_id_def sbind_Ok_iff zoom_Ok_iff sr_defs
        split: if_splits)
  have "sbind (buf_send (make_buffer (p ?rid))) (\<lambda>_. buf_flush) ?b = (Ok u, b2)" using 1 2 by simp
  from bc.post [OF this] have P: "sent b2 = outgoing ?b @ make_buffer (p ?rid)" "out_buf b2 = []"
    "incoming b2 = incoming ?b" by (simp_all add: outgoing_def)
  from read_record_Ok [OF 3] obtain hd b'' where R: "incoming b2 = hd @ d @ incoming b''" "length hd = 4"
    "unat (from_be hd :: u32) = length d" "consumer_read_buffer (length d + 4) b3 = (Ok (), b'')"
    "sent b'' = sent b2" "out_buf b'' = out_buf b2" by blast
  with 5 have b: "b'' = b4" by simp
  have sym: "incoming (sftp_channel h) = hd @ d @ incoming b4" using R(1) P(3) b by simp
  show thesis
    by (rule that [of hd d msg]) (use P R(2,3,5,6) 4 6 7 h' b sym in simp_all)
qed

text \<open>And the other way round: a reply that arrives is read.\<close>

lemma read_record_available:
  assumes "available b = one d @ rest" "length d \<le> MAX_PACKET_SIZE"
  obtains b' where "read_record b = (Ok d, b')" "available b' = available b" "write_side b' = write_side b"
    "length d + 4 \<le> length (in_buf b')"
proof -
  have f: "length d < 2 ^ 32" using assms(2) by (simp add: MAX_PACKET_SIZE_def)
  then have be: "unat (from_be (take 4 (available b)) :: u32) = length d"
    using from_be_header [of d] assms(1) by simp
  obtain b1 where 1: "fill_exact 4 b = (Ok (take 4 (available b)), b1)" "available b1 = available b"
    "write_side b1 = write_side b"
    by (rule fill_exact_available [of 4 b]) (use assms(1) in simp_all)
  obtain b2 where 2: "fill_exact (length d + 4) b1 = (Ok (take (length d + 4) (available b1)), b2)"
    "available b2 = available b1" "write_side b2 = write_side b1" "length d + 4 \<le> length (in_buf b2)"
    by (rule fill_exact_available [of "length d + 4" b1]) (use assms(1) 1(2) in simp_all)
  have "drop 4 (take (length d + 4) (available b)) = d"
    using assms(1) by (simp add: one_def)
  with 1 2 be assms(2) have "read_record b = (Ok d, b2)"
    by (simp add: read_record_def sr_defs)
  with that 1 2 show thesis by simp
qed

lemma sftp_call_answered:
  assumes post: "sbind (buf_send (make_buffer (p (request_id h + 1)))) (\<lambda>_. buf_flush) (sftp_channel h) = (Ok u, b)"
    and reply: "available b = one (encode_reply (request_id h + 1) reply) @ rest"
    and wf: "wf_payload reply" "length (encode_reply (request_id h + 1) reply) \<le> MAX_PACKET_SIZE"
  obtains h' where "sftp_call p m h = (m reply, h')" "request_id h' = request_id h + 1"
    "extensions h' = extensions h" "available (sftp_channel h') = rest"
    "sent (sftp_channel h') = sent b" "out_buf (sftp_channel h') = out_buf b"
proof -
  let ?rid = "request_id h + 1" and ?d = "encode_reply (request_id h + 1) reply"
  obtain b1 where 1: "read_record b = (Ok ?d, b1)" "available b1 = available b"
    "write_side b1 = write_side b" "length ?d + 4 \<le> length (in_buf b1)"
    by (rule read_record_available [OF reply wf(2)])
  obtain b2 where 2: "consumer_read_buffer (length ?d + 4) b1 = (Ok (), b2)"
    "available b2 = drop (length ?d + 4) (available b1)" "write_side b2 = write_side b1"
    by (rule skip_available [OF 1(4)])
  have rest: "available b2 = rest" using 2(2) 1(2) reply by (simp add: add.commute)
  have sent: "sent b2 = sent b \<and> out_buf b2 = out_buf b"
    using write_side_sent [of b2 b] 1(3) 2(3) by simp
  from post obtain v c where c: "buf_send (make_buffer (p ?rid)) (sftp_channel h) = (Ok v, c)"
    "buf_flush c = (Ok u, b)" by (auto simp: sbind_Ok_iff)
  have "sftp_call p m h = (m reply, h\<lparr>request_id := ?rid, sftp_channel := b2\<rparr>)"
    using c 1(1) 2(1) sftp_message_parse_encoded [OF wf(1), of ?rid]
    by (simp add: sftp_call_def receive_msg_def next_request_id_def sr_defs zoom_def)
  with that rest sent show thesis by simp
qed

section \<open>A reply that cannot be parsed\<close>

text \<open>The reply stays in the read buffer, in front of every later one.\<close>

definition poisoned :: "bytes \<Rightarrow> sftp_handle \<Rightarrow> bool" where
  "poisoned d h \<longleftrightarrow> fits d \<and> (\<exists>e. sftp_message_parse d = Err e) \<and>
     (\<exists>rest. in_buf (sftp_channel h) = one d @ rest)"

lemma fill_exact_buffered:
  "len \<le> length (in_buf b) \<Longrightarrow> fill_exact len b = (Ok (take len (in_buf b)), b)"
  by (simp add: fill_exact_def sr_defs)

lemma read_record_buffered:
  assumes "fits d" "in_buf b = one d @ rest"
  shows "read_record b = (if length d > MAX_PACKET_SIZE then Err (SftpError UnexpectedResponse) else Ok d, b)"
proof -
  have be: "unat (from_be (take 4 (in_buf b)) :: u32) = length d"
    using from_be_header [of d] assms by (simp add: fits_def)
  have "fill_exact 4 b = (Ok (take 4 (in_buf b)), b)"
    "fill_exact (length d + 4) b = (Ok (take (length d + 4) (in_buf b)), b)"
    using assms(2) by (intro fill_exact_buffered; simp)+
  moreover have "drop 4 (take (length d + 4) (in_buf b)) = d"
    using assms(2) by (simp add: one_def)
  ultimately show ?thesis using be by (simp add: read_record_def sr_defs)
qed

lemma poisoned_call:
  assumes "poisoned d h" "sftp_call p m h = (r, h')"
  shows "(\<forall>a. r \<noteq> Ok a) \<and> poisoned d h'"
proof -
  let ?b = "sftp_channel h" and ?msg = "make_buffer (p (request_id h + 1))"
  from assms(1) obtain e rest where d: "fits d" "sftp_message_parse d = Err e" "in_buf ?b = one d @ rest"
    by (auto simp: poisoned_def)
  obtain q b1 where s: "buf_send ?msg ?b = (q, b1)" by (cases "buf_send ?msg ?b")
  obtain w b2 where f: "buf_flush b1 = (w, b2)" by (cases "buf_flush b1")
  show ?thesis
  proof (cases "\<exists>u. q = Ok u")
    case False
    have "in_buf b1 = in_buf ?b" using buf_send_spec(1) [OF s] by (simp add: read_side_def)
    with False s assms(2) d show ?thesis
      by (cases q) (auto simp: sftp_call_def next_request_id_def sr_defs poisoned_def)
  next
    case True
    with s f have "sbind (buf_send ?msg) (\<lambda>_. buf_flush) ?b = (w, b2)" by auto
    from post_grows [OF this] d(3) obtain x where x: "in_buf b2 = one d @ x" by auto
    show ?thesis
      using True s f assms(2) d x read_record_buffered [OF d(1) x]
      by (cases w) (auto simp: sftp_call_def next_request_id_def receive_msg_def sr_defs poisoned_def
          zoom_def sbind_def split: if_splits)
  qed
qed

end
