(* ===== verification/Scp.thy ===== *)
theory Scp
  imports ChannelFacts Text
begin

text \<open>
  The scp client of \<open>src/session/scp.rs\<close>: one \<open>scp\<close> process on the other side, driven by records
  and single-byte acknowledgements over a \<open>BufferChannel\<close>. Quoting for the shell (crate
  \<open>shlex\<close>) and the regular expression of the file record (crate \<open>regex\<close>) are parameters.
\<close>

section \<open>The client\<close>

record scp_env =
  try_quote :: "bytes \<Rightarrow> bytes option"
  captures :: "bytes \<Rightarrow> (bytes \<times> bytes \<times> bytes) option"

definition quoted :: "scp_env \<Rightarrow> bytes \<Rightarrow> bytes res" where
  "quoted env s =
     (case try_quote env s of None \<Rightarrow> Err (ScpError InvalidTargetName) | Some q \<Rightarrow> Ok q)"

definition scp_unexpected :: "bytes \<Rightarrow> error" where
  "scp_unexpected detail = ScpError (ScpUnexpectedResponse detail)"

text \<open>\<open>std::str::from_utf8(&line[..line.len() - 1]).context(UnexpectedErrorMessageSnafu)\<close>\<close>

definition line_text :: "bytes \<Rightarrow> bytes res" where
  "line_text line =
     (if utf8_valid (butlast line) then Ok (butlast line) else Err (ScpError UnexpectedErrorMessage))"

definition scp_receive :: "(buffer_channel, bytes) sr" where
  "scp_receive = sbind buf_fill (\<lambda>data. sbind (consumer_read_buffer (length data)) (\<lambda>_. sreturn data))"

definition scp_error_line :: "(bytes \<Rightarrow> scp_error) \<Rightarrow> (buffer_channel, unit) sr" where
  "scp_error_line mk =
     sbind read_line_lf (\<lambda>line. sbind (slift (line_text line)) (\<lambda>msg.
     sbind (consumer_read_buffer (length line)) (\<lambda>_. sfail (ScpError (mk msg)))))"

definition wait_for_response :: "(buffer_channel, unit) sr" where
  "wait_for_response =
     sbind (fill_exact 1) (\<lambda>r. sbind (consumer_read_buffer 1) (\<lambda>_.
     if hd r = 0 then sreturn ()
     else if hd r = 1 then scp_error_line ScpFailure
     else if hd r = 2 then scp_error_line ScpCritical
     else sfail (scp_unexpected (str ''Unexpected response code '' @ decimal (unat (hd r))))))"

section \<open>Fetching a file\<close>

record file_receiver =
  fr_stream :: buffer_channel
  fr_mode :: u16
  fr_size :: u64
  fr_name :: bytes
  received :: u64

abbreviation on_stream :: "(buffer_channel, 'a) sr \<Rightarrow> (file_receiver, 'a) sr" where
  "on_stream \<equiv> zoom fr_stream (\<lambda>b f. f\<lparr>fr_stream := b\<rparr>)"

definition receiver_new :: "buffer_channel \<Rightarrow> u16 \<Rightarrow> u64 \<Rightarrow> bytes \<Rightarrow> file_receiver" where
  "receiver_new b m n name =
     \<lparr>fr_stream = b, fr_mode = m, fr_size = n, fr_name = name, received = 0\<rparr>"

text \<open>\<open>self.size + 1\<close>: the addition overflows for the largest size, a panic in a debug build.\<close>

definition whole_size :: "file_receiver \<Rightarrow> nat res" where
  "whole_size f = (if fr_size f = - 1 then Panic else Ok (unat (fr_size f) + 1))"

definition is_finished :: "(file_receiver, bool) sr" where
  "is_finished f =
     (case whole_size f of
        Ok n \<Rightarrow> if n < unat (received f) then (Panic, f) else (Ok (unat (received f) = n), f)
      | _ \<Rightarrow> (Panic, f))"

definition parse_file_record :: "scp_env \<Rightarrow> bytes \<Rightarrow> (u16 \<times> u64 \<times> bytes) res" where
  "parse_file_record env line =
     (case captures env line of
        None \<Rightarrow> Err (scp_unexpected (str ''Unexpected response line: '' @ line))
      | Some (m, n, name) \<Rightarrow>
          (case from_str_radix 8 (2 ^ 16) m of
             None \<Rightarrow> Err (scp_unexpected (str ''Unexpected response file mode: '' @ m))
           | Some mode \<Rightarrow>
               (case from_str_radix 10 (2 ^ 64) n of
                  None \<Rightarrow> Err (scp_unexpected (str ''Unexpected response size: '' @ n))
                | Some sz \<Rightarrow> Ok (word_of_nat mode, word_of_nat sz, name))))"

text \<open>The first acknowledgement is sent without a flush.\<close>

definition start_receiving :: "scp_env \<Rightarrow> bytes \<Rightarrow> (buffer_channel, file_receiver) sr" where
  "start_receiving env target =
     sbind (slift (quoted env target)) (\<lambda>target.
     sbind (on_channel (request_exec True (str ''scp -f '' @ target))) (\<lambda>_.
     sbind (buf_send [0]) (\<lambda>_.
     sbind read_line_lf (\<lambda>line.
     sbind (slift (line_text line)) (\<lambda>text.
     sbind (slift (parse_file_record env text)) (\<lambda>(mode, sz, name).
     sbind (buf_send [0]) (\<lambda>_.
     sbind buf_flush (\<lambda>_.
     sbind (consumer_read_buffer (length line)) (\<lambda>_.
     sget (\<lambda>b. receiver_new b mode sz name))))))))))"

definition receive_chunk :: "(file_receiver, bytes) sr" where
  "receive_chunk =
     sbind (on_stream scp_receive) (\<lambda>data.
     sbind (sget received) (\<lambda>n.
     if 2 ^ 64 \<le> unat n + length data then spanic
     else sbind (smodify (\<lambda>f. f\<lparr>received := n + word_of_nat (length data)\<rparr>)) (\<lambda>_.
     sbind (sget (\<lambda>f. (unat (received f), whole_size f))) (\<lambda>(got, whole).
     sbind (slift whole) (\<lambda>whole.
     if got = whole then
       if last data \<noteq> 0 then sfail (scp_unexpected (str ''Unexpected file data ending''))
       else sbind (on_stream (buf_send [0])) (\<lambda>_. sbind (on_stream buf_flush) (\<lambda>_.
         sreturn (butlast data)))
     else if whole < got then
       sfail (scp_unexpected (str ''Unexpected file data: received='' @ decimal got @
         str '', size='' @ decimal (whole - 1)))
     else sreturn data)))))"

section \<open>Sending files\<close>

definition scp_record :: "bytes \<Rightarrow> (buffer_channel, unit) sr" where
  "scp_record line =
     sbind (buf_send line) (\<lambda>_. sbind buf_flush (\<lambda>_. wait_for_response))"

definition start_sending :: "scp_env \<Rightarrow> bytes \<Rightarrow> bool \<Rightarrow> (buffer_channel, unit) sr" where
  "start_sending env target recursive =
     sbind (slift (quoted env target)) (\<lambda>target.
     sbind (on_channel (request_exec True
       ((if recursive then str ''scp -t -r '' else str ''scp -t '') @ target))) (\<lambda>_.
     wait_for_response))"

definition set_timestamp :: "u64 \<Rightarrow> u64 \<Rightarrow> u64 \<Rightarrow> u64 \<Rightarrow> (buffer_channel, unit) sr" where
  "set_timestamp mtime_sec mtime_usec atime_sec atime_usec =
     scp_record (str ''T'' @ decimal (unat mtime_sec) @ str '' '' @ decimal (unat mtime_usec) @ str '' '' @
       decimal (unat atime_sec) @ str '' '' @ decimal (unat atime_usec) @ [10])"

definition file_record :: "u16 \<Rightarrow> u64 \<Rightarrow> bytes \<Rightarrow> bytes" where
  "file_record permission sz name =
     str ''C'' @ octal4 (unat permission) @ str '' '' @ decimal (unat sz) @ str '' '' @ name @ [10]"

definition start_sending_file :: "scp_env \<Rightarrow> u16 \<Rightarrow> u64 \<Rightarrow> bytes \<Rightarrow> (buffer_channel, unit) sr" where
  "start_sending_file env permission sz name =
     sbind (slift (quoted env name)) (\<lambda>name. scp_record (file_record permission sz name))"

definition enter :: "scp_env \<Rightarrow> u16 \<Rightarrow> bytes \<Rightarrow> (buffer_channel, unit) sr" where
  "enter env permission target =
     sbind (slift (quoted env target)) (\<lambda>target.
     scp_record (str ''D'' @ octal4 (unat permission) @ str '' 0 '' @ target @ [10]))"

definition scp_exit :: "(buffer_channel, unit) sr" where
  "scp_exit = scp_record (str ''E'' @ [10])"

text \<open>\<open>FileSender\<close> only borrows the client.\<close>

definition send_chunk :: "bytes \<Rightarrow> (buffer_channel, unit) sr" where
  "send_chunk data = buf_send data"

definition finish :: "(buffer_channel, unit) sr" where
  "finish = scp_record [0]"

definition scp_close :: "(buffer_channel, unit) sr" where
  "scp_close = buf_close"

section \<open>The bytes of a fetched file\<close>

lemma scp_receive_Ok:
  assumes "scp_receive b = (Ok d, b')"
  shows "incoming b = d @ incoming b' \<and> d \<noteq> [] \<and> write_side b' = write_side b"
proof -
  from assms obtain c u where 1: "buf_fill b = (Ok d, c)" and 2: "consumer_read_buffer (length d) c = (Ok u, b')"
    by (auto simp: scp_receive_def sbind_Ok_iff sr_defs)
  note F = buf_fill_spec [OF 1, of d]
  with 2 consumer_read_buffer_run [of "length d" c] show ?thesis
    by (auto simp: incoming_def write_side_def)
qed

lemma receive_chunk_Ok:
  assumes "receive_chunk f = (Ok d, f')"
  shows "\<exists>e. incoming (fr_stream f) = d @ e @ incoming (fr_stream f') \<and>
    unat (received f') = unat (received f) + length (d @ e) \<and> fr_size f' = fr_size f \<and> d @ e \<noteq> [] \<and>
    (if unat (received f') = unat (fr_size f) + 1 then e = [0] else e = [] \<and> unat (received f') \<le> unat (fr_size f))"
proof -
  from assms obtain data b1 where 1: "scp_receive (fr_stream f) = (Ok data, b1)"
    and n: "unat (received f) + length data < 2 ^ 64"
    and rest: "sbind (slift (whole_size f)) (\<lambda>whole.
       if unat (received f + word_of_nat (length data)) = whole then
         if last data \<noteq> 0 then sfail (scp_unexpected (str ''Unexpected file data ending''))
         else sbind (on_stream (buf_send [0])) (\<lambda>_. sbind (on_stream buf_flush) (\<lambda>_. sreturn (butlast data)))
       else if whole < unat (received f + word_of_nat (length data)) then
         sfail (scp_unexpected (str ''Unexpected file data: received='' @
           decimal (unat (received f + word_of_nat (length data))) @ str '', size='' @ decimal (whole - 1)))
       else sreturn data) (f\<lparr>fr_stream := b1, received := received f + word_of_nat (length data)\<rparr>) = (Ok d, f')"
    by (auto simp: receive_chunk_def sbind_Ok_iff [of "on_stream scp_receive"] zoom_Ok_iff sr_defs
        whole_size_def split: if_splits)
  have got: "unat (received f + word_of_nat (length data)) = unat (received f) + length data"
    using n by (simp add: unat_word_ariths unat_of_nat take_bit_nat_eq_self)
  from scp_receive_Ok [OF 1] have in1: "incoming (fr_stream f) = data @ incoming b1" "data \<noteq> []" by simp_all
  from rest got show ?thesis
  proof (cases "unat (received f) + length data = unat (fr_size f) + 1")
    case True
    with rest got obtain u c v e where *: "last data = 0" "buf_send [0] b1 = (Ok u, c)" "buf_flush c = (Ok v, e)"
      "d = butlast data" "f' = f\<lparr>fr_stream := e, received := received f + word_of_nat (length data)\<rparr>"
      by (auto simp: sbind_Ok_iff zoom_Ok_iff sr_defs whole_size_def split: if_splits)
    have "incoming e = incoming b1" using bc.send_in [OF *(2)] bc.flush_in [OF *(3)] by simp
    moreover have "data = d @ [0]" using * in1(2) by (metis append_butlast_last_id)
    ultimately show ?thesis using in1 * got True by (intro exI [of _ "[0]"]) simp
  next
    case False
    with rest got have "d = data" "unat (received f) + length data \<le> unat (fr_size f)"
      "f' = f\<lparr>fr_stream := b1, received := received f + word_of_nat (length data)\<rparr>"
      by (auto simp: sbind_def sr_defs whole_size_def split: if_splits)
    with in1 got False show ?thesis by (intro exI [of _ "[]"]) simp
  qed
qed

lemma receive_chunks_Ok:
  "times n receive_chunk f = (Ok ds, f') \<Longrightarrow> unat (received f) \<le> unat (fr_size f) \<Longrightarrow>
   \<exists>e. incoming (fr_stream f) = concat ds @ e @ incoming (fr_stream f') \<and>
     unat (received f') = unat (received f) + length (concat ds @ e) \<and> fr_size f' = fr_size f \<and>
     (if unat (received f') = unat (fr_size f) + 1 then e = [0] else e = [] \<and> unat (received f') \<le> unat (fr_size f))"
proof (induction n arbitrary: f ds)
  case (Suc n)
  from Suc.prems(1) obtain d g ds' where 1: "receive_chunk f = (Ok d, g)"
    and 2: "times n receive_chunk g = (Ok ds', f')" and ds: "ds = d # ds'"
    by (auto simp: sbind_Ok_iff sr_defs)
  from receive_chunk_Ok [OF 1] obtain e where e: "incoming (fr_stream f) = d @ e @ incoming (fr_stream g)"
    "unat (received g) = unat (received f) + length (d @ e)" "fr_size g = fr_size f"
    "if unat (received g) = unat (fr_size f) + 1 then e = [0] else e = [] \<and> unat (received g) \<le> unat (fr_size f)"
    by blast
  show ?case
  proof (cases "unat (received g) = unat (fr_size f) + 1")
    case False
    then have "e = []" "unat (received g) \<le> unat (fr_size g)" using e(3,4) by simp_all
    from Suc.IH [OF 2 this(2)] obtain e' where a: "incoming (fr_stream g) = concat ds' @ e' @ incoming (fr_stream f')"
      "unat (received f') = unat (received g) + length (concat ds' @ e')" "fr_size f' = fr_size g"
      "if unat (received f') = unat (fr_size g) + 1 then e' = [0]
       else e' = [] \<and> unat (received f') \<le> unat (fr_size g)"
      by blast
    from e(1) a(1) \<open>e = []\<close> have "incoming (fr_stream f) = concat ds @ e' @ incoming (fr_stream f')"
      unfolding ds by simp
    moreover from e(2) a(2) \<open>e = []\<close> have "unat (received f') = unat (received f) + length (concat ds @ e')"
      unfolding ds by simp
    moreover note a(3,4) [unfolded e(3)]
    ultimately show ?thesis by blast
  next
    case True
    have "n = 0"
    proof (rule ccontr)
      assume "n \<noteq> 0"
      then obtain k where "n = Suc k" by (cases n) auto
      with 2 obtain d' g' where "receive_chunk g = (Ok d', g')" by (auto simp: sbind_Ok_iff)
      from receive_chunk_Ok [OF this] True e(3) show False by (auto split: if_splits)
    qed
    with 2 have "ds' = []" "f' = g" by (simp_all add: sr_defs)
    then have "concat ds = d" unfolding ds by simp
    moreover have "e = [0]" using e(4) True by simp
    ultimately show ?thesis using e(1-3) True \<open>f' = g\<close> by auto
  qed
qed (simp add: sr_defs)

section \<open>The bytes of a sent file\<close>

lemma wait_for_response_Ok:
  assumes "wait_for_response b = (Ok u, b')"
  shows "incoming b = 0 # incoming b' \<and> sent b' = sent b \<and> out_buf b' = out_buf b"
proof -
  have no: "scp_error_line mk c \<noteq> (Ok u, b')" for mk c
    by (auto simp: scp_error_line_def sbind_def sr_defs split: prod.splits res.splits)
  from assms no obtain r c v where 1: "fill_exact 1 b = (Ok r, c)" "consumer_read_buffer 1 c = (Ok v, b')" "hd r = 0"
    by (auto simp: wait_for_response_def sbind_Ok_iff sr_defs split: if_splits)
  from bc.skip_ok [OF 1(1), of 1] 1(2) have "incoming c = take 1 r @ incoming b'" "sent b' = sent c" "out_buf b' = out_buf c"
    by auto
  moreover have "length r = 1" using bc.exact_ok [OF 1(1)] by simp
  ultimately show ?thesis using bc.exact_keeps [OF 1(1)] 1(3) by (cases r) auto
qed

lemma scp_record_Ok:
  assumes "scp_record line b = (Ok u, b')"
  shows "sent b' = outgoing b @ line \<and> out_buf b' = [] \<and> incoming b = 0 # incoming b'"
proof -
  from assms obtain v c where 1: "sbind (buf_send line) (\<lambda>_. buf_flush) b = (Ok v, c)"
    and 2: "wait_for_response c = (Ok u, b')"
    by (auto simp: scp_record_def sbind_Ok_iff)
  from bc.post [OF 1] wait_for_response_Ok [OF 2] show ?thesis by (simp add: outgoing_def)
qed

lemma send_chunk_eq: "send_chunk = buf_send"
  by (simp add: send_chunk_def fun_eq_iff)

lemma send_chunks_Ok:
  "for_each send_chunk cs b = (Ok u, b') \<Longrightarrow> outgoing b' = outgoing b @ concat cs \<and> incoming b' = incoming b"
proof (induction cs arbitrary: b)
  case (Cons c cs)
  then obtain v e where 1: "buf_send c b = (Ok v, e)" and 2: "for_each send_chunk cs e = (Ok u, b')"
    by (auto simp: sbind_Ok_iff send_chunk_eq)
  from Cons.IH [OF 2] bc.send_out [OF 1] bc.send_in [OF 1] show ?case by (simp add: outgoing_def)
qed (simp add: sr_defs)

definition send_file :: "scp_env \<Rightarrow> u16 \<Rightarrow> u64 \<Rightarrow> bytes \<Rightarrow> bytes list \<Rightarrow> (buffer_channel, unit) sr" where
  "send_file env permission sz name chunks =
     sbind (start_sending_file env permission sz name) (\<lambda>_. sbind (for_each send_chunk chunks) (\<lambda>_. finish))"

lemma send_file_Ok:
  assumes "send_file env p n name cs b = (Ok u, b')"
  obtains q where "try_quote env name = Some q"
    "sent b' = outgoing b @ file_record p n q @ concat cs @ [0]" "out_buf b' = []"
    "incoming b = 0 # 0 # incoming b'"
proof -
  from assms obtain q v c w d where q: "quoted env name = Ok q" and 1: "scp_record (file_record p n q) b = (Ok v, c)"
    and 2: "for_each send_chunk cs c = (Ok w, d)" and 3: "scp_record [0] d = (Ok u, b')"
    by (auto simp: send_file_def start_sending_file_def finish_def sbind_Ok_iff sr_defs)
  from scp_record_Ok [OF 1] scp_record_Ok [OF 3] send_chunks_Ok [OF 2] q that show thesis
    by (auto simp: quoted_def outgoing_def split: option.splits)
qed

section \<open>The file record\<close>

text \<open>
  What the documentation of the regular expression \<open>^C(\d{4})\s+(\d+)\s+(.+)$\<close> says of a line in
  the usual form: greedy blanks, a name without a line break that does not start with a blank.
\<close>

definition plain_name :: "bytes \<Rightarrow> bool" where
  "plain_name name \<longleftrightarrow> name \<noteq> [] \<and> hd name \<notin> {9, 10, 11, 12, 13, 32} \<and> hd name < 0x80 \<and> 10 \<notin> set name"

definition captures_ok :: "scp_env \<Rightarrow> bool" where
  "captures_ok env \<longleftrightarrow> (\<forall>m n name. length m = 4 \<and> list_all is_digit m \<and> n \<noteq> [] \<and> list_all is_digit n \<and> plain_name name \<longrightarrow>
     captures env (str ''C'' @ m @ str '' '' @ n @ str '' '' @ name) = Some (m, n, name))"

lemma length_octal: "n < 8 ^ k \<Longrightarrow> 0 < k \<Longrightarrow> length (octal n) \<le> k"
proof (induction k arbitrary: n)
  case (Suc k)
  show ?case
  proof (cases "n < 8")
    case True
    then show ?thesis by (subst octal.simps) simp
  next
    case False
    with Suc.prems have "n div 8 < 8 ^ k" "0 < k" by (cases k; simp add: div_less_iff_less_mult)+
    from Suc.IH [OF this] False show ?thesis by (subst octal.simps) simp
  qed
qed simp

lemma parse_sent_record:
  assumes "captures_ok env" "plain_name name" "unat m < 8 ^ 4"
  shows "parse_file_record env (butlast (file_record m n name)) = Ok (m, n, name)"
proof -
  have l: "length (octal4 (unat m)) = 4" using length_octal [of "unat m" 4] assms(3) by (simp add: octal4_def)
  have "list_all is_digit (octal4 (unat m))"
    by (auto simp: list_all_iff octal4_def is_digit_def dest: octal_digits)
  moreover have "list_all is_digit (decimal (unat n))" using decimal_digits by (simp add: list_all_iff)
  ultimately have "captures env (butlast (file_record m n name)) = Some (octal4 (unat m), decimal (unat n), name)"
    using assms(1,2) l by (simp add: captures_ok_def file_record_def butlast_append del: str_simps)
  moreover have "from_str_radix 8 (2 ^ 16) (octal4 (unat m)) = Some (unat m)"
    using unsigned_less [of m] by (intro from_str_radix_octal4) simp
  moreover have "from_str_radix 10 (2 ^ 64) (decimal (unat n)) = Some (unat n)"
    using unsigned_less [of n] by (intro from_str_radix_decimal) simp
  ultimately show ?thesis by (simp add: parse_file_record_def)
qed

end
