(* ===== verification/ClientProperties.thy ===== *)
theory ClientProperties
  imports SftpFacts Scp
begin

text \<open>
  The properties of the application's side of a channel and of the file transfer clients on top
  of it, each with a run in which its hypotheses hold.
\<close>

text \<open>A channel with these messages to come, and a session that answers so.\<close>

definition demo_buffer :: "channel_message list \<Rightarrow> outcome list \<Rightarrow> buffer_channel" where
  "demo_buffer ms rs =
     buffer_new (channel_new (IdentityPair 1 2) (map Some ms) \<lparr>script = rs, asked = []\<rparr>)"

definition took :: "nat \<Rightarrow> outcome" where
  "took n = Answered (ReplySize (Ok n))"

lemmas demo_channel_defs =
  demo_buffer_def buffer_new_def channel_new_def took_def zoom_def sbind_def sr_defs ask_def ask_size_def
  ask_unit_def is_full_def chan_send_def chan_receive_def store_input_def
  sent_def accepted_def outgoing_def incoming_def available_def

section \<open>Channels\<close>

text \<open>C23: What the application sends through a buffered channel reaches the session in order and
  exactly once as long as no call fails: a successful send appends its data to the stream of
  accepted and buffered bytes, and a successful flush leaves nothing in the buffer. Neither takes
  anything out of the incoming data.\<close>

theorem channel_output_intact:
  "(buf_send d b = (Ok u, b') \<longrightarrow> outgoing b' = outgoing b @ d \<and> incoming b' = incoming b) \<and>
   (buf_flush b = (Ok u, b') \<longrightarrow> sent b' = outgoing b \<and> out_buf b' = [] \<and> incoming b' = incoming b)"
  using bc.send_out [of d b u b'] bc.send_in [of d b "Ok u" b'] bc.flush_out [of b u b'] bc.flush_in [of b "Ok u" b']
  by (auto simp: outgoing_def)

theorem channel_output_intact_witness:
  "\<exists>b b'. buf_send [1, 2, 3] (demo_buffer [WindowChange 9, Eof] [took 2, took 1]) = (Ok (), b) \<and>
     buf_flush b = (Ok (), b') \<and> sent b' = [1, 2, 3]"
proof -
  obtain b b' where 1: "buf_send [1, 2, 3] (demo_buffer [WindowChange 9, Eof] [took 2, took 1]) = (Ok (), b)"
    and 2: "buf_flush b = (Ok (), b')"
    by (simp add: buf_send_def buf_flush_def demo_channel_defs)
  have "outgoing (demo_buffer [WindowChange 9, Eof] [took 2, took 1]) = []"
    by (simp add: demo_channel_defs)
  with channel_output_intact [of "[1, 2, 3]" "demo_buffer [WindowChange 9, Eof] [took 2, took 1]" "()" b]
    channel_output_intact [of "[]" b "()" b'] 1 2
  show ?thesis by auto
qed

text \<open>A flush that fails after part of the buffer was accepted keeps all of the buffer, so the
  next successful flush sends that part again.\<close>

theorem failed_flush_resends:
  assumes "buf_flush b = (Err e, b1)" "buf_flush b1 = (Ok u, b2)"
  shows "\<exists>k. sent b1 = sent b @ take k (out_buf b) \<and> sent b2 = sent b @ take k (out_buf b) @ out_buf b"
proof -
  from buf_flush_spec(3) [OF assms(1)] obtain k where
    "out_buf b1 = out_buf b" "sent b1 = sent b @ take k (out_buf b)" by auto
  with buf_flush_spec(2) [OF assms(2)] show ?thesis by (auto simp: outgoing_def)
qed

theorem failed_flush_resends_witness:
  "\<exists>b1 b2. buf_flush (demo_buffer [] [took 1, took 3]\<lparr>out_buf := [1, 2, 3]\<rparr>) = (Err shutdown, b1) \<and>
     buf_flush b1 = (Ok (), b2) \<and> sent b2 = [1, 1, 2, 3]"
proof -
  let ?b = "demo_buffer [] [took 1, took 3]\<lparr>out_buf := [1, 2, 3]\<rparr>"
  obtain b1 b2 where r: "buf_flush ?b = (Err shutdown, b1)" "buf_flush b1 = (Ok (), b2)" and s: "sent b1 = [1]"
    by (simp add: buf_flush_def demo_channel_defs)
  from failed_flush_resends [OF r] s have "sent b2 = [1, 1, 2, 3]"
    by (auto simp: demo_buffer_def buffer_new_def channel_new_def sent_def accepted_def)
  with r show ?thesis by blast
qed

text \<open>Reading a number of bytes succeeds exactly if that many bytes of standard output arrive
  before the peer's end of file or close, whatever the sizes of the messages they come in; it
  returns the first of them and loses none. It always ends, without a panic.\<close>

theorem reading_is_exact:
  assumes "fill_exact n b = (r, b')"
  shows "r \<noteq> Panic \<and> incoming b' = incoming b \<and>
    (case r of Ok d \<Rightarrow> n \<le> length (available b) \<and> d = take n (available b)
     | _ \<Rightarrow> length (available b) < n)"
  using fill_exact_spec(1,3,4) [OF assms] fill_exact_spec(5) [OF assms]
  by (cases r) (auto simp: available_def)

theorem reading_is_exact_witness:
  "\<exists>b'. fill_exact 3 (demo_buffer [Stdout [1, 2], Stderr [9], Stdout [3, 4], Eof] []) = (Ok [1, 2, 3], b') \<and>
     incoming b' = [1, 2, 3, 4]"
proof -
  let ?b = "demo_buffer [Stdout [1, 2], Stderr [9], Stdout [3, 4], Eof] []"
  have a: "available ?b = [1, 2, 3, 4]" "incoming ?b = [1, 2, 3, 4]" by (simp_all add: demo_channel_defs)
  obtain r b' where f: "fill_exact 3 ?b = (r, b')" by (cases "fill_exact 3 ?b")
  from reading_is_exact [OF f] a have "r = Ok [1, 2, 3] \<and> incoming b' = [1, 2, 3, 4]"
    by (cases r) (simp_all add: numeral_3_eq_3)
  with f show ?thesis by auto
qed

section \<open>SFTP\<close>

text \<open>Attribute blocks are read back as they were written, whatever follows them, if the
  permissions have no bits beyond the nine modelled ones.\<close>

theorem attributes_roundtrip:
  assumes "wf_attributes a"
  shows "attributes_parse (consumer_new (to_bytes a @ rest)) =
    (Ok a, \<lparr>cdata = to_bytes a @ rest, pos = length (to_bytes a)\<rparr>)"
  by (rule decodes_new [OF decodes_attributes [OF assms]])

definition demo_attributes :: attributes where
  "demo_attributes = \<lparr>a_size = Some 4096, a_user = None,
     a_property = Some \<lparr>m_permissions = p0755, m_file_type = Directory\<rparr>, a_time = Some (1, 2),
     a_extend = Some [(str ''k'', [7])]\<rparr>"

lemma demo_attributes_wf: "wf_attributes demo_attributes"
  by (simp add: wf_attributes_def demo_attributes_def wf_mode_def masks p0755_def wf_extend_def
      wf_str_def fits_def)

theorem attributes_roundtrip_witness:
  "fst (attributes_parse (consumer_new (to_bytes demo_attributes))) = Ok demo_attributes"
  using attributes_roundtrip [OF demo_attributes_wf, of "[]"] by simp

text \<open>A mode read from the wire keeps the file type and the nine permission bits and drops
  the rest (set-user-id, set-group-id, sticky and the upper half), and is refused exactly if
  its file type is unknown.\<close>

theorem mode_keeps_permissions:
  "case mode_try_from v of
     Ok m \<Rightarrow> mode_bits m = v AND 0xF1FF
   | Err e \<Rightarrow> e = SftpError (UnknownFileType (v AND 0xF000)) \<and> (\<forall>t. file_type_code t \<noteq> v AND 0xF000)
   | Panic \<Rightarrow> False"
proof (cases "file_type_from (v AND type_mask)")
  case None
  then have "\<forall>t. file_type_code t \<noteq> v AND type_mask"
    by (metis file_type_from_Some option.distinct(1))
  with None show ?thesis by (simp add: mode_try_from_def masks)
next
  case (Some t)
  then obtain m where "mode_try_from v = Ok m" by (simp add: mode_try_from_def)
  with mode_try_from_bits [OF this] show ?thesis by (simp add: masks)
qed

text \<open>Every well-formed reply of a server is parsed as what it says.\<close>

theorem reply_roundtrip:
  assumes "wf_payload p"
  shows "sftp_message_parse (encode_reply i p) = Ok \<lparr>msg_id = i, msg_payload = p\<rparr>"
  by (rule sftp_message_parse_encoded [OF assms])

theorem reply_roundtrip_witness:
  "sftp_message_parse (encode_reply 7 (PName [\<lparr>file_name = str ''a'', long_name = str ''b'',
     fi_attributes = demo_attributes\<rparr>])) = Ok \<lparr>msg_id = 7, msg_payload = PName [\<lparr>file_name = str ''a'',
     long_name = str ''b'', fi_attributes = demo_attributes\<rparr>]\<rparr>"
  using reply_roundtrip [of "PName [\<lparr>file_name = str ''a'', long_name = str ''b'',
      fi_attributes = demo_attributes\<rparr>]" 7] demo_attributes_wf
  by (simp add: wf_str_def fits_def)

text \<open>C25: A request that succeeds has sent exactly its own message with the next request number,
  and has taken exactly one record off the channel: the reply that carries this number, of
  which the result is made.\<close>

theorem request_matches_reply:
  assumes "sftp_call p m h = (Ok a, h')"
  shows "\<exists>hd d msg.
    request_id h' = request_id h + 1 \<and>
    sent (sftp_channel h') = outgoing (sftp_channel h) @ make_buffer (p (request_id h')) \<and>
    incoming (sftp_channel h) = hd @ d @ incoming (sftp_channel h') \<and>
    length hd = 4 \<and> unat (from_be hd :: u32) = length d \<and>
    sftp_message_parse d = Ok msg \<and> msg_id msg = request_id h' \<and> m (msg_payload msg) = Ok a"
  by (rule sftp_call_Ok [OF assms]) blast

text \<open>C26: When the request is sent and a well-formed reply with its number arrives, whatever the
  chunks it comes in, the request returns what it makes of this reply, and the next
  request finds what follows the reply.\<close>

theorem reply_is_delivered:
  assumes "sbind (buf_send (make_buffer (p (request_id h + 1)))) (\<lambda>_. buf_flush) (sftp_channel h) = (Ok u, b)"
    and "available b = one (encode_reply (request_id h + 1) reply) @ rest"
    and "wf_payload reply" "length (encode_reply (request_id h + 1) reply) \<le> MAX_PACKET_SIZE"
  shows "\<exists>h'. sftp_call p m h = (m reply, h') \<and> request_id h' = request_id h + 1 \<and>
    available (sftp_channel h') = rest"
proof -
  obtain h' where "sftp_call p m h = (m reply, h')" "request_id h' = request_id h + 1"
    "available (sftp_channel h') = rest"
    by (rule sftp_call_answered [where p = p and m = m, OF assms])
  then show ?thesis by blast
qed

text \<open>The reply to a read request, in two messages.\<close>

definition demo_handle :: "sftp_handle" where
  "demo_handle = \<lparr>sftp_channel = demo_buffer
     [Stdout [0, 0, 0, 11, 103, 0, 0], Stdout [0, 1, 0, 0, 0, 2, 5, 6]] [took 30], extensions = [], request_id = 0\<rparr>"

lemma demo_reply:
  obtains b where
    "sbind (buf_send (make_buffer [FU8 SSH_FXP_READ, FU32 (request_id demo_handle + 1), FOne [9], FU64 0, FU32 2]))
       (\<lambda>_. buf_flush) (sftp_channel demo_handle) = (Ok (), b)"
    "available b = one (encode_reply (request_id demo_handle + 1) (PData [5, 6])) @ []"
    "wf_payload (PData [5, 6])"
    "length (encode_reply (request_id demo_handle + 1) (PData [5, 6])) \<le> MAX_PACKET_SIZE"
proof -
  let ?d = "make_buffer [FU8 SSH_FXP_READ, FU32 1, FOne [9], FU64 0, FU32 2]"
  have l: "length ?d = 26" "?d \<noteq> []" by (simp_all add: make_buffer_eq one_def)
  obtain b where b: "sbind (buf_send ?d) (\<lambda>_. buf_flush) (sftp_channel demo_handle) = (Ok (), b)"
    "available b = [0, 0, 0, 11, 103, 0, 0, 0, 1, 0, 0, 0, 2, 5, 6]"
    using l by (simp add: demo_handle_def buf_send_def buf_flush_def demo_channel_defs)
  have q: "request_id demo_handle = 0" by (simp add: demo_handle_def)
  have e: "encode_reply 1 (PData [5, 6]) = [103, 0, 0, 0, 1, 0, 0, 0, 2, 5, 6]"
    by (simp add: encode_reply_def one_def u32_to_be_def as_u32_def)
  show thesis
    by (rule that [of b]) (use b in \<open>simp_all add: q e one_def u32_to_be_def as_u32_def fits_def MAX_PACKET_SIZE_def\<close>)
qed

theorem reply_is_delivered_witness:
  "\<exists>h'. sftp_call (\<lambda>i. [FU8 SSH_FXP_READ, FU32 i, FOne [9], FU64 0, FU32 2]) expect_data demo_handle =
     (Ok (Some [5, 6]), h') \<and> request_id h' = 1 \<and> available (sftp_channel h') = []"
proof -
  obtain b where "sbind (buf_send (make_buffer [FU8 SSH_FXP_READ, FU32 (request_id demo_handle + 1), FOne [9], FU64 0, FU32 2]))
       (\<lambda>_. buf_flush) (sftp_channel demo_handle) = (Ok (), b)"
    "available b = one (encode_reply (request_id demo_handle + 1) (PData [5, 6])) @ []"
    "wf_payload (PData [5, 6])"
    "length (encode_reply (request_id demo_handle + 1) (PData [5, 6])) \<le> MAX_PACKET_SIZE"
    by (rule demo_reply)
  from reply_is_delivered [where p = "\<lambda>i. [FU8 SSH_FXP_READ, FU32 i, FOne [9], FU64 0, FU32 2]"
      and m = expect_data, OF this]
  show ?thesis by (auto simp: demo_handle_def)
qed

lemma demo_read:
  obtains h' where "sftp_call (\<lambda>i. [FU8 SSH_FXP_READ, FU32 i, FOne [9], FU64 0, FU32 2]) expect_data demo_handle =
     (Ok (Some [5, 6]), h')"
proof -
  obtain b where b: "sbind (buf_send (make_buffer [FU8 SSH_FXP_READ, FU32 (request_id demo_handle + 1), FOne [9], FU64 0, FU32 2]))
       (\<lambda>_. buf_flush) (sftp_channel demo_handle) = (Ok (), b)"
    "available b = one (encode_reply (request_id demo_handle + 1) (PData [5, 6])) @ []"
    "wf_payload (PData [5, 6])"
    "length (encode_reply (request_id demo_handle + 1) (PData [5, 6])) \<le> MAX_PACKET_SIZE"
    by (rule demo_reply)
  show thesis
    by (rule sftp_call_answered [where p = "\<lambda>i. [FU8 SSH_FXP_READ, FU32 i, FOne [9], FU64 0, FU32 2]"
      and m = expect_data, OF b]) (rule that, simp)
qed

theorem request_matches_reply_witness:
  "\<exists>h' d msg. sftp_call (\<lambda>i. [FU8 SSH_FXP_READ, FU32 i, FOne [9], FU64 0, FU32 2]) expect_data demo_handle =
     (Ok (Some [5, 6]), h') \<and> sftp_message_parse d = Ok msg \<and> msg_id msg = 1"
proof -
  obtain h' where h: "sftp_call (\<lambda>i. [FU8 SSH_FXP_READ, FU32 i, FOne [9], FU64 0, FU32 2]) expect_data demo_handle =
     (Ok (Some [5, 6]), h')" by (rule demo_read)
  have "request_id demo_handle = 0" by (simp add: demo_handle_def)
  with request_matches_reply [OF h] obtain d msg where "sftp_message_parse d = Ok msg" "msg_id msg = 1"
    by auto
  with h show ?thesis by blast
qed

text \<open>A reply that the client cannot parse stays in front of the read buffer: from then on every
  request on this handle fails, although the server answers it.\<close>

theorem unparsed_reply_blocks:
  assumes "poisoned d h" "sftp_call p m h = (r, h')"
  shows "(\<forall>a. r \<noteq> Ok a) \<and> poisoned d h'"
  by (rule poisoned_call [OF assms])

text \<open>A status code that is not in version 3, then the proper reply to the next request.\<close>

definition blocked_handle :: sftp_handle where
  "blocked_handle = \<lparr>sftp_channel = (demo_buffer [Stdout (one (encode_reply 2 (PStatus StatusOK [] [])))] [took 30])
     \<lparr>in_buf := one [101, 0, 0, 0, 1, 0, 0, 0, 99]\<rparr>, extensions = [], request_id = 1\<rparr>"

lemma blocked: "poisoned [101, 0, 0, 0, 1, 0, 0, 0, 99] blocked_handle"
proof -
  have "sftp_message_parse [101, 0, 0, 0, 1, 0, 0, 0, 99] = Err (SftpError (UnexpectedStatus 99))"
    by (simp add: sftp_message_parse_def sbind_def consume_u8_def consume_u32_def consume_def sr_defs peek_def
        consumer_new_def Let_def from_be_def shift_in_def sftp_payload_parse_def parse_status_def
        status_try_from_def statuses_def)
  then show ?thesis by (simp add: poisoned_def blocked_handle_def fits_def)
qed

theorem unparsed_reply_blocks_witness:
  "\<exists>r h'. remove_file [7] blocked_handle = (r, h') \<and> r \<noteq> Ok () \<and> poisoned [101, 0, 0, 0, 1, 0, 0, 0, 99] h'"
proof -
  obtain r h' where "remove_file [7] blocked_handle = (r, h')" by (cases "remove_file [7] blocked_handle")
  moreover from this have "sftp_call (\<lambda>i. [FU8 SSH_FXP_REMOVE, FU32 i, FOne [7]]) expect_ok blocked_handle = (r, h')"
    by (simp only: remove_file_def)
  note unparsed_reply_blocks [OF blocked this]
  ultimately show ?thesis by blast
qed

section \<open>SCP\<close>

text \<open>A fetched file is complete: when the receiver is finished, the chunks it returned are
  together exactly as long as announced, are the first bytes of the stream after the file
  record, and the terminating zero byte was taken as well and nothing beyond it.\<close>

theorem fetched_file_complete:
  assumes "received f = 0" "times n receive_chunk f = (Ok ds, f')" "is_finished f' = (Ok True, f')"
  shows "length (concat ds) = unat (fr_size f) \<and> incoming (fr_stream f) = concat ds @ 0 # incoming (fr_stream f')"
proof -
  have z: "unat (received f) \<le> unat (fr_size f)" using assms(1) by simp
  from receive_chunks_Ok [OF assms(2) z] obtain e where e:
    "incoming (fr_stream f) = concat ds @ e @ incoming (fr_stream f')"
    "unat (received f') = unat (received f) + length (concat ds @ e)" "fr_size f' = fr_size f"
    "if unat (received f') = unat (fr_size f) + 1 then e = [0] else e = [] \<and> unat (received f') \<le> unat (fr_size f)"
    by blast
  from assms(3) e(3) have "unat (received f') = unat (fr_size f) + 1"
    by (auto simp: is_finished_def whole_size_def split: if_splits)
  note all = this
  then have "e = [0]" using e(4) by simp
  moreover from e(2) assms(1) \<open>e = [0]\<close> have "unat (received f') = length (concat ds) + 1" by simp
  with all have "length (concat ds) = unat (fr_size f)" by simp
  ultimately show ?thesis using e(1) by simp
qed

definition demo_receiver :: file_receiver where
  "demo_receiver = receiver_new (demo_buffer [Stdout [1, 2], Stdout [3, 0]] [took 1]) 0x1A4 3 (str ''f'')"

theorem fetched_file_complete_witness:
  "\<exists>ds f'. times (Suc (Suc 0)) receive_chunk demo_receiver = (Ok ds, f') \<and> concat ds = [1, 2, 3] \<and>
     length (concat ds) = unat (fr_size demo_receiver)"
proof -
  let ?f = "demo_receiver\<lparr>fr_stream := demo_buffer [Stdout [3, 0]] [took 1], received := 2\<rparr>"
  note run = demo_receiver_def receiver_new_def receive_chunk_def scp_receive_def buf_fill_def
    fill_once_def consumer_read_buffer_def whole_size_def buf_send_def buf_flush_def demo_channel_defs
  have 1: "receive_chunk demo_receiver = (Ok [1, 2], ?f)" by (simp add: run)
  have "\<exists>f'. receive_chunk ?f = (Ok [3], f') \<and> fr_size f' = 3 \<and> received f' = 4" by (simp add: run)
  then obtain f' where 2: "receive_chunk ?f = (Ok [3], f')" and f': "fr_size f' = 3" "received f' = 4" by blast
  have r: "times (Suc (Suc 0)) receive_chunk demo_receiver = (Ok [[1, 2], [3]], f')"
    using 1 2 by (simp add: sr_defs)
  have fin: "is_finished f' = (Ok True, f')" using f' by (simp add: is_finished_def whole_size_def)
  have z: "received demo_receiver = 0" by (simp add: demo_receiver_def receiver_new_def)
  from fetched_file_complete [OF z r fin] r show ?thesis by fastforce
qed

text \<open>C27: Sending a file puts exactly its record, its chunks in order and a zero byte on the
  channel, and waits for two positive acknowledgements; the record reads back as the mode, the
  size and the quoted name, which is what the other side will call the file.\<close>

theorem sent_file_complete:
  assumes "send_file env p n name cs b = (Ok u, b')"
  shows "\<exists>q. try_quote env name = Some q \<and>
    sent b' = outgoing b @ file_record p n q @ concat cs @ [0] \<and> out_buf b' = [] \<and>
    incoming b = 0 # 0 # incoming b' \<and>
    (captures_ok env \<and> plain_name q \<and> unat p < 8 ^ 4 \<longrightarrow>
       parse_file_record env (butlast (file_record p n q)) = Ok (p, n, q))"
  by (rule send_file_Ok [OF assms]) (use parse_sent_record in blast)

text \<open>A shell quoting that puts every name in quotes, and the captures of a plain record.\<close>

definition demo_scp :: scp_env where
  "demo_scp = \<lparr>try_quote = (\<lambda>s. Some ([39] @ s @ [39])),
     captures = (\<lambda>l. Some (take 4 (drop 1 l), takeWhile is_digit (drop 6 l), drop 1 (dropWhile is_digit (drop 6 l))))\<rparr>"

lemma demo_scp_ok: "captures_ok demo_scp"
  by (auto simp: captures_ok_def demo_scp_def list_all_iff takeWhile_append dropWhile_append is_digit_def)

theorem sent_file_complete_witness:
  "\<exists>b'. send_file demo_scp 0x1A4 3 [102] [[1, 2], [3]]
      (demo_buffer [Stdout [0], Stdout [0]] [took 12, took 2, took 1, took 1]) = (Ok (), b') \<and>
    sent b' = file_record 0x1A4 3 [39, 102, 39] @ [1, 2, 3, 0] \<and>
    parse_file_record demo_scp (butlast (file_record 0x1A4 3 [39, 102, 39])) = Ok (0x1A4, 3, [39, 102, 39])"
proof -
  let ?b = "demo_buffer [Stdout [0], Stdout [0]] [took 12, took 2, took 1, took 1]"
  have f: "file_record 0x1A4 3 [39, 102, 39] = [67, 48, 54, 52, 52, 32, 51, 32, 39, 102, 39, 10]"
    by (simp add: file_record_def octal4_def octal.simps decimal.simps)
  have "\<exists>b'. send_file demo_scp 0x1A4 3 [102] [[1, 2], [3]] ?b = (Ok (), b')"
    by (simp add: send_file_def start_sending_file_def quoted_def finish_def scp_record_def send_chunk_def
        wait_for_response_def fill_exact_def fill_once_def consumer_read_buffer_def buf_send_def buf_flush_def
        f demo_scp_def demo_channel_defs)
  then obtain b' where r: "send_file demo_scp 0x1A4 3 [102] [[1, 2], [3]] ?b = (Ok (), b')" by blast
  have q: "try_quote demo_scp [102] = Some [39, 102, 39]" by (simp add: demo_scp_def)
  have o: "outgoing ?b = []" by (simp add: demo_channel_defs)
  have n: "plain_name [39, 102, 39]" by (simp add: plain_name_def)
  from sent_file_complete [OF r] q o n demo_scp_ok r show ?thesis by auto
qed

end
