(* ===== verification/AeadStreams.thy ===== *)
theory AeadStreams
  imports CipherStreams
begin

text \<open>
  The third framing of \<open>CipherStream\<close> (\<open>src/ssh/stream.rs\<close>): ciphers that authenticate
  themselves. The contract of such a cipher on both sides, and packets sent under it.
\<close>

text \<open>
  One packet: the sequence number goes to the cipher first, then the length field, the packet and
  the tag. The receiver gets back what the sender put in.
\<close>

definition aead_packet ::
    "('e, 'd, 'c, 'z, 'm) crypto \<Rightarrow> ('e \<Rightarrow> 'd \<Rightarrow> bool) \<Rightarrow> 'e \<Rightarrow> 'd \<Rightarrow> u32 \<Rightarrow> bytes \<Rightarrow> bytes \<Rightarrow> bool" where
  "aead_packet k R e d n hdr p \<longleftrightarrow>
     (\<exists>e1 hdr' e2 c1 e3 c2 e4 tag e5 d1 d2 p1 d3 d4 p2 d5.
        e_update_seq k n e = (Ok (), e1) \<and> e_aad k hdr e1 = (Ok hdr', e2) \<and>
        e_update k p e2 = (Ok c1, e3) \<and> e_finalize k e3 = (Ok c2, e4) \<and>
        e_tag k (e_tag_len k e4) e4 = (Ok tag, e5) \<and>
        length hdr' = 4 \<and> length (c1 @ c2) = length p \<and>
        d_update_seq k n d = (Ok (), d1) \<and> d_gcm k d1 \<and> length tag = d_tag_len k d1 \<and>
        d_tag_len k d1 \<le> 64 \<and>
        d_aad k hdr' d1 = (Ok hdr, d2) \<and> d_update k (c1 @ c2) d2 = (Ok p1, d3) \<and>
        d_set_tag k tag d3 = (Ok (), d4) \<and> d_finalize k d4 = (Ok p2, d5) \<and>
        p1 @ p2 = p \<and> R e5 d5)"

lemma aead_packetI:
  assumes "e_update_seq k n e = (Ok (), e1)" "e_aad k hdr e1 = (Ok hdr', e2)"
    "e_update k p e2 = (Ok c1, e3)" "e_finalize k e3 = (Ok c2, e4)"
    "e_tag k (e_tag_len k e4) e4 = (Ok tag, e5)" "length hdr' = 4" "length (c1 @ c2) = length p"
    and "d_update_seq k n d = (Ok (), d1)" "d_gcm k d1" "length tag = d_tag_len k d1"
    "d_tag_len k d1 \<le> 64" "d_aad k hdr' d1 = (Ok hdr, d2)"
    "d_update k (c1 @ c2) d2 = (Ok p1, d3)" "d_set_tag k tag d3 = (Ok (), d4)"
    "d_finalize k d4 = (Ok p2, d5)" "p1 @ p2 = p" "R e5 d5"
  shows "aead_packet k R e d n hdr p"
  unfolding aead_packet_def using assms by (intro exI conjI)

definition aead_link :: "('e, 'd, 'c, 'z, 'm) crypto \<Rightarrow> ('e \<Rightarrow> 'd \<Rightarrow> bool) \<Rightarrow> bool" where
  "aead_link k R \<longleftrightarrow> (\<forall>e d. R e d \<longrightarrow>
     e_gcm k e \<and> 0 < e_block_size k e \<and> e_block_size k e \<le> 64 \<and>
     (\<forall>n hdr p. length hdr = 4 \<longrightarrow> length p mod e_block_size k e = 0 \<longrightarrow>
        aead_packet k R e d n hdr p))"

lemma aead_linkD:
  assumes "aead_link k R" "R e d"
  shows "e_gcm k e" "0 < e_block_size k e" "e_block_size k e \<le> 64"
    "length hdr = 4 \<Longrightarrow> length p mod e_block_size k e = 0 \<Longrightarrow> aead_packet k R e d n hdr p"
  using assms unfolding aead_link_def by simp_all

lemma aead_send_run:
  assumes e: "e_update_seq k (cipher_seq s) (encrypt s) = (Ok (), e1)"
      "e_aad k (take 4 f) e1 = (Ok hdr, e2)" "e_update k (drop 4 f) e2 = (Ok c1, e3)"
      "e_finalize k e3 = (Ok c2, e4)" "e_tag k (e_tag_len k e4) e4 = (Ok tag, e5)"
    and f: "f = cipher_frame rnd x (padding_for (e_block_size k (encrypt s)) (1 + length x))"
      "0 < e_block_size k (encrypt s)"
    and nb: "\<not> broken (csock s)" "w_buf (csock s) = []"
  shows "\<exists>q. send_gcm k rnd x s = (Ok (), s\<lparr>encrypt := e5, csock :=
    (csock s)\<lparr>outbound := outbound (csock s) @ hdr @ c1 @ c2 @ tag, quotas := q\<rparr>\<rparr>)"
proof -
  let ?b = "bs_put_bytes (hdr @ c1 @ c2 @ tag) (csock s)"
  have "\<not> broken ?b" using nb by (simp add: bs_put_bytes_def)
  from flush_result [OF this] nb obtain q where q: "flush ?b = (Ok (),
      (csock s)\<lparr>outbound := outbound (csock s) @ hdr @ c1 @ c2 @ tag, w_buf := [], quotas := q\<rparr>)"
    by (auto simp: bs_put_bytes_def)
  have w: "(csock s)\<lparr>outbound := o', w_buf := [], quotas := q'\<rparr> =
    (csock s)\<lparr>outbound := o', quotas := q'\<rparr>" for o' q'
    using nb(2) by (cases "csock s") simp
  show ?thesis
    using e f nb q
    by (intro exI [of _ q])
      (simp add: send_gcm_def Let_def put_socket_def w del: One_nat_def)
qed

lemma aead_recv_run:
  assumes n: "len = as_u32 (1 + length x + length pad)" "x \<noteq> []" "length pad < 256"
      "1 + length x + length pad + 4 + d_tag_len k (decrypt r) \<le> MAX_PACKET_LENGTH"
    and u: "unread (csock r) = hdr @ ct @ tag @ rest" "[] \<notin> set (inbound (csock r))"
    and l: "length hdr = 4" "length ct = 1 + length x + length pad" "length tag = d_tag_len k (decrypt r)"
    and d: "d_aad k hdr (decrypt r) = (Ok (u32_to_be len), d2)" "d_update k ct d2 = (Ok p1, d3)"
      "d_set_tag k tag d3 = (Ok (), d4)" "d_finalize k d4 = (Ok p2, d5)"
      "p1 @ p2 = as_u8 (length pad) # x @ pad"
    and z: "\<And>t. decode t = decode r \<Longrightarrow> authenticated t = authenticated r \<Longrightarrow>
       decompress_payload k x t = (Ok data, t\<lparr>decode := z\<rparr>)"
  shows "\<exists>t. read_gcm k None [] [] r = (Ok \<lparr>payload = data, padding = pad\<rparr>,
      r\<lparr>csock := t, decrypt := d5, decode := z, rstate := SReady (Some len) [] []\<rparr>) \<and>
    unread t = rest \<and> [] \<notin> set (inbound t)"
proof -
  have len: "unat len = 1 + length x + length pad" using n by simp
  let ?T = "d_tag_len k (decrypt r)" let ?n = "4 + unat len + ?T"
  obtain t1 where t1: "fill 4 (csock r) = (Ok (take 4 (unread (csock r))), t1)"
      "unread t1 = unread (csock r)" "[] \<notin> set (inbound t1)"
    using fill_there [OF u(2), of 4] u(1) l(1) by auto
  obtain t2 where t2: "fill ?n t1 = (Ok (take ?n (unread t1)), t2)"
      "unread t2 = unread t1" "[] \<notin> set (inbound t2)" "?n \<le> length (r_buf t2)"
    using fill_there [OF t1(3), of ?n] t1(2) u(1) l len by auto
  have h: "take 4 (unread (csock r)) = hdr" using u(1) l(1) by simp
  have p: "take ?n (unread t1) = hdr @ ct @ tag" using t1(2) u(1) l len by simp
  have s: "split_body len (p1 @ p2) = Ok (x, pad)"
    using split_body_frame [of pad x] n d(5) by simp
  let ?t = "consume_read_buffer ?n t2"
  have "unread ?t = rest"
    using unread_consume [OF t2(4)] t2(2) t1(2) u(1) l len by simp
  moreover have "[] \<notin> set (inbound ?t)" using t2(3) by (simp add: consume_read_buffer_def)
  moreover
  have f4: "fill 4 (csock r) = (Ok hdr, t1)" using t1(1) h by simp
  have fn: "fill ?n t1 = (Ok (hdr @ ct @ tag), t2)" using t2(1) p by simp
  have ct: "take (unat len) (ct @ tag) = ct" "drop (unat len + 4) (hdr @ ct @ tag) = tag"
    using l(1,2) len by simp_all
  have short: "\<not> MAX_PACKET_LENGTH < unat len + 4 + ?T" using n(4) len by simp
  have "read_gcm k None [] [] r = (Ok \<lparr>payload = data, padding = pad\<rparr>,
      r\<lparr>csock := ?t, decrypt := d5, decode := z, rstate := SReady (Some len) [] []\<rparr>)"
    using f4 fn ct short d(1-4) l(1) s z
    by (simp add: read_gcm_def set_rstate_def drop_read_def sr_defs Let_def
        del: take_append drop_append)
  ultimately show ?thesis by blast
qed

text \<open>One payload through two linked streams; the MACs play no part.\<close>

abbreviation aead_linked ::
    "('e \<Rightarrow> 'd \<Rightarrow> bool) \<Rightarrow> ('c \<Rightarrow> 'z \<Rightarrow> bool) \<Rightarrow>
     ('e, 'd, 'c, 'z, 'm) cipher_stream \<Rightarrow> ('e, 'd, 'c, 'z, 'm) cipher_stream \<Rightarrow> bool" where
  "aead_linked R Z \<equiv> linked R (\<lambda>_ _. True) Z"

lemma aead_transfer:
  assumes links: "aead_link k R" "zip_link k Z" and L: "aead_linked R Z s r"
    and data: "data \<noteq> []" "length data \<le> MAX_PACKET_PAYLOAD_LENGTH"
  obtains s' wire where "cipher_send_payload k rnd data s = (Ok (), s')"
    "outbound (csock s') = outbound (csock s) @ wire"
    "\<And>rest. [] \<notin> set (inbound (csock r)) \<Longrightarrow> unread (csock r) = wire @ rest \<Longrightarrow>
       \<exists>r' pad. read_packet k r = (Ok \<lparr>payload = data, padding = pad\<rparr>, r') \<and>
         unread (csock r') = rest \<and> [] \<notin> set (inbound (csock r')) \<and> aead_linked R Z s' r'"
proof -
  let ?seq = "cipher_seq s" and ?reset = "hd data = SSH_MSG_NEWKEYS \<and> strict s"
  from L have R: "R (encrypt s) (decrypt r)"
    and Z: "Z (encode s) (decode r)" and au: "authenticated s = authenticated r"
    and sq: "sequence_number (server r) = ?seq" and st: "strict r = strict s"
    and rs: "rstate r = SNone" and wb: "w_buf (csock s) = []" "\<not> broken (csock s)"
    by (simp_all add: linked_def)
  obtain x c z where x: "compress_payload k data s = (Ok x, s\<lparr>encode := c\<rparr>)"
    "x \<noteq> []" "length x \<le> length data + 4096" "Z c z"
    "\<And>t. decode t = decode r \<Longrightarrow> authenticated t = authenticated r \<Longrightarrow>
       decompress_payload k x t = (Ok data, t\<lparr>decode := z\<rparr>)"
    using compress_pair [OF links(2) Z au data(1)] by blast
  note al = aead_linkD [OF links(1) R]
  let ?b = "e_block_size k (encrypt s)"
  define n where "n = padding_for ?b (1 + length x)"
  have n: "n < 68" "(1 + length x + n) mod ?b = 0"
    using padding_for_bounds(1) [OF al(2), of "1 + length x"] padding_for_aligned [OF al(2), of "1 + length x"]
      al(3) by (simp_all add: n_def)
  have small: "length x + n < 2 ^ 31" using x(3) n(1) data(2) by simp
  let ?f = "cipher_frame rnd x n" and ?len = "as_u32 (1 + length x + n)"
  note f = cipher_frame_parts [OF small, of rnd]
  have f4: "length (take 4 ?f) = 4" using f(1) by simp
  have fm: "length (drop 4 ?f) mod ?b = 0" using f(3) n(2) by simp
  obtain e1 hdr e2 c1 e3 c2 e4 tag e5 d1 d2 p1 d3 d4 p2 d5 where e:
      "e_update_seq k ?seq (encrypt s) = (Ok (), e1)" "e_aad k (take 4 ?f) e1 = (Ok hdr, e2)"
      "e_update k (drop 4 ?f) e2 = (Ok c1, e3)" "e_finalize k e3 = (Ok c2, e4)"
      "e_tag k (e_tag_len k e4) e4 = (Ok tag, e5)"
      "length hdr = 4" "length (c1 @ c2) = length (drop 4 ?f)"
    and d: "d_update_seq k ?seq (decrypt r) = (Ok (), d1)" "d_gcm k d1"
      "length tag = d_tag_len k d1" "d_tag_len k d1 \<le> 64"
      "d_aad k hdr d1 = (Ok (take 4 ?f), d2)" "d_update k (c1 @ c2) d2 = (Ok p1, d3)"
      "d_set_tag k tag d3 = (Ok (), d4)" "d_finalize k d4 = (Ok p2, d5)"
      "p1 @ p2 = drop 4 ?f" "R e5 d5"
    using al(4) [OF f4 fm, of ?seq] unfolding aead_packet_def by blast
  let ?wire = "hdr @ c1 @ c2 @ tag"
  obtain q where q: "send_gcm k rnd x (s\<lparr>encode := c\<rparr>) = (Ok (), s\<lparr>encode := c, encrypt := e5,
      csock := (csock s)\<lparr>outbound := outbound (csock s) @ ?wire, quotas := q\<rparr>\<rparr>)"
    using aead_send_run [of k "s\<lparr>encode := c\<rparr>" e1 ?f hdr e2 c1 e3 c2 e4 tag e5 rnd x] e al(2) wb
    by (auto simp: n_def)
  let ?s = "bump_client ?reset (s\<lparr>encode := c, encrypt := e5,
      csock := (csock s)\<lparr>outbound := outbound (csock s) @ ?wire, quotas := q\<rparr>\<rparr>)"
  show thesis
  proof (rule that [of ?s ?wire])
    show "cipher_send_payload k rnd data s = (Ok (), ?s)"
      using x(1) q data al(1) by (simp add: cipher_send_payload_def smodify_def)
    show "outbound (csock ?s) = outbound (csock s) @ ?wire" by (simp add: bump_client_def)
  next
    fix rest
    assume in0: "[] \<notin> set (inbound (csock r))" and un: "unread (csock r) = ?wire @ rest"
    let ?r0 = "r\<lparr>decrypt := d1, rstate := SReady None [] []\<rparr>" and ?pad = "random_bytes rnd n"
    obtain t where t: "read_gcm k None [] [] ?r0 = (Ok \<lparr>payload = data, padding = ?pad\<rparr>,
        ?r0\<lparr>csock := t, decrypt := d5, decode := z, rstate := SReady (Some ?len) [] []\<rparr>)"
      "unread t = rest" "[] \<notin> set (inbound t)"
      using aead_recv_run [of ?len x ?pad k ?r0 hdr "c1 @ c2" tag rest d2 p1 d3 d4 p2 d5 data z]
        x n(1) un in0 e(6,7) d f data(2) by auto
    let ?r = "bump_server ?reset (?r0\<lparr>csock := t, decrypt := d5, decode := z, rstate := SNone\<rparr>)"
    have "read_packet k r = (Ok \<lparr>payload = data, padding = ?pad\<rparr>, ?r)"
      using t(1) rs d(1,2) data(1) st sq
      by (simp add: read_packet_def read_ready_def finish_packet_def set_rstate_def sr_defs
          sbind_def strict_def bump_server_def zoom_def)
    moreover have "aead_linked R Z ?s ?r"
      using L d(10) x(4) sq st
      by (simp add: linked_def strict_def bump_server_def bump_client_def)
    ultimately show "\<exists>r' pad. read_packet k r = (Ok \<lparr>payload = data, padding = pad\<rparr>, r') \<and>
        unread (csock r') = rest \<and> [] \<notin> set (inbound (csock r')) \<and> aead_linked R Z ?s r'"
      using t(2,3) by (intro exI [of _ ?r] exI [of _ ?pad]) (simp add: bump_server_def)
  qed
qed

interpretation aead: packet_link k "\<lambda>s r. aead_link k R \<and> zip_link k Z \<and> aead_linked R Z s r" for k R Z
proof unfold_locales
  fix s r :: "('a, 'b, 'c, 'd, 'e) cipher_stream" and d :: bytes and rnd
  assume L: "aead_link k R \<and> zip_link k Z \<and> aead_linked R Z s r"
    and d: "d \<noteq> []" "length d \<le> MAX_PACKET_PAYLOAD_LENGTH"
  then have l: "aead_link k R" "zip_link k Z" "aead_linked R Z s r" by simp_all
  show "\<exists>s' wire. cipher_send_payload k rnd d s = (Ok (), s') \<and>
      outbound (csock s') = outbound (csock s) @ wire \<and>
      (\<forall>rest. [] \<notin> set (inbound (csock r)) \<longrightarrow> unread (csock r) = wire @ rest \<longrightarrow>
        (\<exists>r' pad. read_packet k r = (Ok \<lparr>payload = d, padding = pad\<rparr>, r') \<and>
          unread (csock r') = rest \<and> [] \<notin> set (inbound (csock r')) \<and>
          aead_link k R \<and> zip_link k Z \<and> aead_linked R Z s' r'))"
    by (rule aead_transfer [OF l d, of rnd]) (use l(1,2) in blast)
qed (simp add: linked_def strict_def)

end
