(* ===== verification/Ciphers.thy ===== *)
theory Ciphers
  imports CipherStreams
begin

text \<open>
  The symmetric algorithms of \<open>src/cipher\<close>: the ciphers of \<open>crypt.rs\<close>, the HMACs of \<open>mac.rs\<close> and
  the compressors of \<open>compress.rs\<close>. OpenSSL and zlib are parameters: records of operations on
  opaque contexts. The crate is built without the \<open>umac\<close> feature, as it is by default.
\<close>

section \<open>OpenSSL\<close>

datatype evp =
  ChaCha20 | Aes128Gcm | Aes256Gcm | Aes128Ctr | Aes192Ctr | Aes256Ctr | Aes128Cbc | Aes192Cbc
| Aes256Cbc | DesEde3Cbc

datatype digest = Md5 | Sha1 | Sha256 | Sha384 | Sha512

datatype direction = Encrypting | Decrypting

text \<open>
  \<open>'x\<close> is a \<open>CipherCtx\<close>, \<open>'h\<close> an \<open>MdCtx\<close>, \<open>'g\<close> a \<open>Crypter\<close>. A cipher is made with its key and
  perhaps its IV; \<open>cipher_reinit\<close> is an \<open>encrypt_init\<close> or \<open>decrypt_init\<close> with a new IV only. An
  operation that writes its output returns it; \<open>sign_final n\<close> and \<open>crypter_get_tag n\<close> fill a
  buffer of \<open>n\<close> bytes.
\<close>

record ('x, 'h, 'g) openssl =
  cipher_init :: "direction \<Rightarrow> evp \<Rightarrow> bytes \<Rightarrow> bytes option \<Rightarrow> 'x res"
  cipher_reinit :: "direction \<Rightarrow> bytes \<Rightarrow> ('x, unit) sr"
  cipher_no_padding :: "'x \<Rightarrow> 'x"
  cipher_update :: "bytes \<Rightarrow> ('x, bytes) sr"
  cipher_final :: "('x, bytes) sr"
  cipher_set_tag :: "bytes \<Rightarrow> ('x, unit) sr"
  poly1305_init :: "bytes \<Rightarrow> 'h res"
  hmac_init :: "digest \<Rightarrow> bytes \<Rightarrow> 'h res"
  md_new :: 'h
  sign_update :: "bytes \<Rightarrow> ('h, unit) sr"
  sign_size :: "('h, nat) sr"
  sign_final :: "nat \<Rightarrow> ('h, bytes) sr"
  sign_final_vec :: "('h, bytes) sr"
  crypter_new :: "direction \<Rightarrow> evp \<Rightarrow> bytes \<Rightarrow> bytes \<Rightarrow> 'g res"
  crypter_no_padding :: "'g \<Rightarrow> 'g"
  crypter_aad :: "bytes \<Rightarrow> ('g, unit) sr"
  crypter_update :: "bytes \<Rightarrow> ('g, bytes) sr"
  crypter_finalize :: "('g, bytes) sr"
  crypter_get_tag :: "nat \<Rightarrow> ('g, bytes) sr"
  crypter_set_tag :: "bytes \<Rightarrow> ('g, unit) sr"

text \<open>A context that is not there yet.\<close>

definition on_some ::
    "string \<Rightarrow> ('s \<Rightarrow> 't option) \<Rightarrow> ('t option \<Rightarrow> 's \<Rightarrow> 's) \<Rightarrow> ('t, 'a) sr \<Rightarrow> ('s, 'a) sr" where
  "on_some detail get put m s =
     (case get s of
        None \<Rightarrow> (Err (InvalidOperation detail), s)
      | Some t \<Rightarrow> (case m t of (r, t') \<Rightarrow> (r, put (Some t') s)))"

text \<open>Writing over the front of a buffer.\<close>

definition overwrite :: "bytes \<Rightarrow> bytes \<Rightarrow> bytes" where
  "overwrite new old = new @ drop (length new) old"

section \<open>ChaCha20 and Poly1305\<close>

text \<open>\<open>Chacha20Poly1205\<close>; \<open>expected\<close> is the field \<open>mac\<close>.\<close>

record ('x, 'h) chacha =
  main_ctx :: "'x option"
  header_ctx :: "'x option"
  mac_ctx :: "'h option"
  expected :: "bytes option"

definition chacha_new :: "('x, 'h) chacha" where
  "chacha_new = \<lparr>main_ctx = None, header_ctx = None, mac_ctx = None, expected = None\<rparr>"

abbreviation on_main :: "('x, 'a) sr \<Rightarrow> (('x, 'h) chacha, 'a) sr" where
  "on_main \<equiv> on_some ''Uninitialized'' main_ctx (\<lambda>x c. c\<lparr>main_ctx := x\<rparr>)"
abbreviation on_header :: "('x, 'a) sr \<Rightarrow> (('x, 'h) chacha, 'a) sr" where
  "on_header \<equiv> on_some ''Uninitialized'' header_ctx (\<lambda>x c. c\<lparr>header_ctx := x\<rparr>)"
abbreviation on_mac :: "('h, 'a) sr \<Rightarrow> (('x, 'h) chacha, 'a) sr" where
  "on_mac \<equiv> on_some ''Uninitialized'' mac_ctx (\<lambda>x c. c\<lparr>mac_ctx := x\<rparr>)"

text \<open>The first 32 bytes of the key are for the packet, the others for its length field.\<close>

definition chacha_initialize ::
    "('x, 'h, 'g) openssl \<Rightarrow> direction \<Rightarrow> bytes \<Rightarrow> (('x, 'h) chacha, unit) sr" where
  "chacha_initialize ssl dir key =
     (if length key < 32 then spanic
      else
        sbind (slift (cipher_init ssl dir ChaCha20 (take 32 key) None)) (\<lambda>main.
        sbind (smodify (\<lambda>c. c\<lparr>main_ctx := Some main\<rparr>)) (\<lambda>_.
        sbind (slift (cipher_init ssl dir ChaCha20 (drop 32 key) None)) (\<lambda>header.
        smodify (\<lambda>c. c\<lparr>header_ctx := Some header\<rparr>)))))"

definition chacha_iv :: "u32 \<Rightarrow> bytes" where
  "chacha_iv number = replicate 8 0 @ u64_to_be (ucast number)"

definition chacha_update_seq ::
    "('x, 'h, 'g) openssl \<Rightarrow> direction \<Rightarrow> u32 \<Rightarrow> (('x, 'h) chacha, unit) sr" where
  "chacha_update_seq ssl dir number =
     (let iv = chacha_iv number in
      sbind (on_header (cipher_reinit ssl dir iv)) (\<lambda>_.
      sbind (on_main (cipher_reinit ssl dir iv)) (\<lambda>_.
      sbind (on_main (cipher_update ssl (replicate 64 0))) (\<lambda>poly_key.
      sbind (slift (poly1305_init ssl (take 32 (overwrite poly_key (replicate 64 0))))) (\<lambda>mac.
      smodify (\<lambda>c. c\<lparr>mac_ctx := Some mac\<rparr>))))))"

definition chacha_seal_header :: "('x, 'h, 'g) openssl \<Rightarrow> bytes \<Rightarrow> (('x, 'h) chacha, bytes) sr" where
  "chacha_seal_header ssl aad =
     sbind (on_header (cipher_update ssl aad)) (\<lambda>out.
     sbind (on_header (cipher_final ssl)) (\<lambda>rest.
     let aad = overwrite rest (overwrite out aad) in
     sbind (on_mac (sign_update ssl aad)) (\<lambda>_. sreturn aad)))"

definition chacha_open_header :: "('x, 'h, 'g) openssl \<Rightarrow> bytes \<Rightarrow> (('x, 'h) chacha, bytes) sr" where
  "chacha_open_header ssl aad =
     sbind (on_mac (sign_update ssl aad)) (\<lambda>_.
     sbind (on_header (cipher_update ssl aad)) (\<lambda>out.
     sbind (on_header (cipher_final ssl)) (\<lambda>rest.
     sreturn (overwrite rest (overwrite out aad)))))"

definition chacha_seal :: "('x, 'h, 'g) openssl \<Rightarrow> bytes \<Rightarrow> (('x, 'h) chacha, bytes) sr" where
  "chacha_seal ssl data =
     sbind (on_main (cipher_update ssl data)) (\<lambda>out.
     sbind (on_mac (sign_update ssl out)) (\<lambda>_. sreturn out))"

definition chacha_open :: "('x, 'h, 'g) openssl \<Rightarrow> bytes \<Rightarrow> (('x, 'h) chacha, bytes) sr" where
  "chacha_open ssl data =
     sbind (on_mac (sign_update ssl data)) (\<lambda>_. on_main (cipher_update ssl data))"

definition chacha_seal_final :: "('x, 'h, 'g) openssl \<Rightarrow> (('x, 'h) chacha, bytes) sr" where
  "chacha_seal_final ssl = on_main (cipher_final ssl)"

definition chacha_open_final :: "('x, 'h, 'g) openssl \<Rightarrow> (('x, 'h) chacha, bytes) sr" where
  "chacha_open_final ssl =
     sbind (on_main (cipher_final ssl)) (\<lambda>out.
     sbind (on_mac (sign_final_vec ssl)) (\<lambda>tag.
     sbind (sget expected) (\<lambda>mac.
     if mac \<noteq> Some tag then sfail (CipherError ''MacVerificationFailed'')
     else sbind (smodify (\<lambda>c. c\<lparr>expected := None\<rparr>)) (\<lambda>_. sreturn out))))"

definition chacha_get_tag :: "('x, 'h, 'g) openssl \<Rightarrow> nat \<Rightarrow> (('x, 'h) chacha, bytes) sr" where
  "chacha_get_tag ssl n = on_mac (sign_final ssl n)"

definition chacha_set_tag :: "bytes \<Rightarrow> (('x, 'h) chacha, unit) sr" where
  "chacha_set_tag data = smodify (\<lambda>c. c\<lparr>expected := Some data\<rparr>)"

section \<open>AES-GCM\<close>

record 'g gcm =
  gcm_name :: bytes
  gcm_cipher :: evp
  gcm_block :: nat
  gcm_key_len :: nat
  gcm_iv_len :: nat
  gcm_tag_len :: nat
  gcm_iv :: "bytes option"
  gcm_key :: "bytes option"
  gcm_ctx :: "'g option"

definition gcm_new :: "string \<Rightarrow> evp \<Rightarrow> nat \<Rightarrow> nat \<Rightarrow> nat \<Rightarrow> nat \<Rightarrow> 'g gcm" where
  "gcm_new name cipher block_size key iv tag =
     \<lparr>gcm_name = str name, gcm_cipher = cipher, gcm_block = block_size, gcm_key_len = key,
      gcm_iv_len = iv, gcm_tag_len = tag, gcm_iv = None, gcm_key = None, gcm_ctx = None\<rparr>"

definition aes128_gcm_openssh :: "'g gcm" where
  "aes128_gcm_openssh = gcm_new ''aes128-gcm@openssh.com'' Aes128Gcm 16 16 12 16"
definition aes256_gcm_openssh :: "'g gcm" where
  "aes256_gcm_openssh = gcm_new ''aes256-gcm@openssh.com'' Aes256Gcm 16 32 12 16"

abbreviation on_crypter :: "('g, 'a) sr \<Rightarrow> ('g gcm, 'a) sr" where
  "on_crypter \<equiv> on_some ''Uninitiailzed'' gcm_ctx (\<lambda>x c. c\<lparr>gcm_ctx := x\<rparr>)"

text \<open>The loop over \<open>iv[4..12]\<close> from the end: add one, go on while the byte wraps to zero.\<close>

fun carry :: "bytes \<Rightarrow> bytes" where
  "carry [] = []"
| "carry (b # bs) = (if b + 1 \<noteq> 0 then (b + 1) # bs else (b + 1) # carry bs)"

definition next_iv :: "bytes \<Rightarrow> bytes" where
  "next_iv iv = take 4 iv @ rev (carry (rev (drop 4 iv)))"

definition gcm_reset :: "('x, 'h, 'g) openssl \<Rightarrow> direction \<Rightarrow> ('g gcm, unit) sr" where
  "gcm_reset ssl dir = sbind (sget (\<lambda>c. (gcm_key c, gcm_iv c))) (\<lambda>ki.
     case ki of
       (Some key, Some iv) \<Rightarrow>
         if length iv \<noteq> 12 then spanic
         else
           sbind (smodify (\<lambda>c. c\<lparr>gcm_iv := Some (next_iv iv)\<rparr>)) (\<lambda>_.
           sbind (sget gcm_cipher) (\<lambda>cipher.
           sbind (slift (crypter_new ssl dir cipher key (next_iv iv))) (\<lambda>ctx.
           smodify (\<lambda>c. c\<lparr>gcm_ctx := Some ctx\<rparr>))))
     | _ \<Rightarrow> sfail (InvalidOperation ''Uninitialized''))"

definition gcm_initialize ::
    "('x, 'h, 'g) openssl \<Rightarrow> direction \<Rightarrow> bytes \<Rightarrow> bytes \<Rightarrow> ('g gcm, unit) sr" where
  "gcm_initialize ssl dir iv key =
     sbind (sget gcm_cipher) (\<lambda>cipher.
     sbind (slift (crypter_new ssl dir cipher key iv)) (\<lambda>ctx.
     smodify (\<lambda>c. c\<lparr>gcm_ctx := Some (crypter_no_padding ssl ctx), gcm_iv := Some iv, gcm_key := Some key\<rparr>)))"

definition gcm_update :: "('x, 'h, 'g) openssl \<Rightarrow> bytes \<Rightarrow> ('g gcm, bytes) sr" where
  "gcm_update ssl data = on_crypter (crypter_update ssl data)"

definition gcm_aad :: "('x, 'h, 'g) openssl \<Rightarrow> bytes \<Rightarrow> ('g gcm, bytes) sr" where
  "gcm_aad ssl aad = sbind (on_crypter (crypter_aad ssl aad)) (\<lambda>_. sreturn aad)"

definition gcm_seal_final :: "('x, 'h, 'g) openssl \<Rightarrow> ('g gcm, bytes) sr" where
  "gcm_seal_final ssl = on_crypter (crypter_finalize ssl)"

definition gcm_open_final :: "('x, 'h, 'g) openssl \<Rightarrow> ('g gcm, bytes) sr" where
  "gcm_open_final ssl =
     sbind (on_crypter (crypter_finalize ssl)) (\<lambda>out.
     sbind (gcm_reset ssl Decrypting) (\<lambda>_. sreturn out))"

definition gcm_get_tag :: "('x, 'h, 'g) openssl \<Rightarrow> nat \<Rightarrow> ('g gcm, bytes) sr" where
  "gcm_get_tag ssl n =
     sbind (on_crypter (crypter_get_tag ssl n)) (\<lambda>tag.
     sbind (gcm_reset ssl Encrypting) (\<lambda>_. sreturn tag))"

definition gcm_set_tag :: "('x, 'h, 'g) openssl \<Rightarrow> bytes \<Rightarrow> ('g gcm, unit) sr" where
  "gcm_set_tag ssl data = on_crypter (crypter_set_tag ssl data)"

section \<open>Counter mode and cipher block chaining\<close>

record 'x plain_cipher =
  pc_name :: bytes
  pc_ctx :: "'x option"
  pc_cipher :: evp
  pc_block :: nat
  pc_key_len :: nat
  pc_iv_len :: nat

definition plain_cipher_new :: "string \<Rightarrow> evp \<Rightarrow> nat \<Rightarrow> nat \<Rightarrow> nat \<Rightarrow> 'x plain_cipher" where
  "plain_cipher_new name cipher block_size key iv =
     \<lparr>pc_name = str name, pc_ctx = None, pc_cipher = cipher, pc_block = block_size,
      pc_key_len = key, pc_iv_len = iv\<rparr>"

definition aes256_ctr :: "'x plain_cipher" where
  "aes256_ctr = plain_cipher_new ''aes256-ctr'' Aes256Ctr 16 32 16"
definition aes192_ctr :: "'x plain_cipher" where
  "aes192_ctr = plain_cipher_new ''aes192-ctr'' Aes192Ctr 16 24 16"
definition aes128_ctr :: "'x plain_cipher" where
  "aes128_ctr = plain_cipher_new ''aes128-ctr'' Aes128Ctr 16 16 16"
definition aes256_cbc :: "'x plain_cipher" where
  "aes256_cbc = plain_cipher_new ''aes256-cbc'' Aes256Cbc 16 32 16"
definition aes192_cbc :: "'x plain_cipher" where
  "aes192_cbc = plain_cipher_new ''aes192-cbc'' Aes192Cbc 16 24 16"
definition aes128_cbc :: "'x plain_cipher" where
  "aes128_cbc = plain_cipher_new ''aes128-cbc'' Aes128Cbc 16 16 16"
definition des_ede3_cbc :: "'x plain_cipher" where
  "des_ede3_cbc = plain_cipher_new ''3des-cbc'' DesEde3Cbc 8 24 8"

abbreviation on_pc :: "('x, 'a) sr \<Rightarrow> ('x plain_cipher, 'a) sr" where
  "on_pc \<equiv> on_some ''Uninitialized context'' pc_ctx (\<lambda>x c. c\<lparr>pc_ctx := x\<rparr>)"

definition plain_initialize ::
    "('x, 'h, 'g) openssl \<Rightarrow> direction \<Rightarrow> bytes \<Rightarrow> bytes \<Rightarrow> ('x plain_cipher, unit) sr" where
  "plain_initialize ssl dir iv key =
     sbind (sget pc_cipher) (\<lambda>cipher.
     sbind (slift (cipher_init ssl dir cipher key (Some iv))) (\<lambda>ctx.
     smodify (\<lambda>c. c\<lparr>pc_ctx := Some (cipher_no_padding ssl ctx)\<rparr>)))"

definition plain_update :: "('x, 'h, 'g) openssl \<Rightarrow> bytes \<Rightarrow> ('x plain_cipher, bytes) sr" where
  "plain_update ssl data = on_pc (cipher_update ssl data)"

definition plain_final :: "('x, 'h, 'g) openssl \<Rightarrow> ('x plain_cipher, bytes) sr" where
  "plain_final ssl = on_pc (cipher_final ssl)"

definition plain_set_tag :: "('x, 'h, 'g) openssl \<Rightarrow> bytes \<Rightarrow> ('x plain_cipher, unit) sr" where
  "plain_set_tag ssl tag = on_pc (cipher_set_tag ssl tag)"

end
