(* ===== verification/Suites.thy ===== *)
theory Suites
  imports Ciphers Negotiation
begin

text \<open>
  The trait objects a connection holds: the ciphers of Ciphers behind \<open>Encrypt\<close> and \<open>Decrypt\<close>
  (\<open>src/cipher/crypt.rs\<close>), the HMACs behind \<open>Mac\<close> (\<open>mac.rs\<close>), the compressors behind \<open>Encode\<close>
  and \<open>Decode\<close> (\<open>compress.rs\<close>), the registries of their names, and the packet stream's
  operations on them.
\<close>

section \<open>Ciphers\<close>

datatype ('x, 'h, 'g) cipher_object =
  CChacha "('x, 'h) chacha" | CGcm "'g gcm" | CPlain "'x plain_cipher"

definition via :: "('a \<Rightarrow> 'b) \<Rightarrow> ('a, 'r) sr \<Rightarrow> 'a \<Rightarrow> 'r res \<times> 'b" where
  "via C m a = (case m a of (r, a') \<Rightarrow> (r, C a'))"

fun cipher_name :: "('x, 'h, 'g) cipher_object \<Rightarrow> bytes" where
  "cipher_name (CChacha c) = str ''chacha20-poly1305@openssh.com''"
| "cipher_name (CGcm c) = gcm_name c"
| "cipher_name (CPlain c) = pc_name c"

fun is_galois_counter_mode :: "('x, 'h, 'g) cipher_object \<Rightarrow> bool" where
  "is_galois_counter_mode (CPlain c) = False"
| "is_galois_counter_mode _ = True"

fun block_size_of :: "('x, 'h, 'g) cipher_object \<Rightarrow> nat" where
  "block_size_of (CChacha c) = 8"
| "block_size_of (CGcm c) = gcm_block c"
| "block_size_of (CPlain c) = pc_block c"

fun iv_len_of :: "('x, 'h, 'g) cipher_object \<Rightarrow> nat" where
  "iv_len_of (CChacha c) = 0"
| "iv_len_of (CGcm c) = gcm_iv_len c"
| "iv_len_of (CPlain c) = pc_iv_len c"

fun key_len_of :: "('x, 'h, 'g) cipher_object \<Rightarrow> nat" where
  "key_len_of (CChacha c) = 64"
| "key_len_of (CGcm c) = gcm_key_len c"
| "key_len_of (CPlain c) = pc_key_len c"

fun tag_len_of :: "('x, 'h, 'g) cipher_object \<Rightarrow> nat" where
  "tag_len_of (CChacha c) = 16"
| "tag_len_of (CGcm c) = gcm_tag_len c"
| "tag_len_of (CPlain c) = 0"

fun object_initialize ::
    "('x, 'h, 'g) openssl \<Rightarrow> direction \<Rightarrow> bytes \<Rightarrow> bytes \<Rightarrow> (('x, 'h, 'g) cipher_object, unit) sr" where
  "object_initialize ssl dir iv key (CChacha c) = via CChacha (chacha_initialize ssl dir key) c"
| "object_initialize ssl dir iv key (CGcm c) = via CGcm (gcm_initialize ssl dir iv key) c"
| "object_initialize ssl dir iv key (CPlain c) = via CPlain (plain_initialize ssl dir iv key) c"

fun object_update_seq ::
    "('x, 'h, 'g) openssl \<Rightarrow> direction \<Rightarrow> u32 \<Rightarrow> (('x, 'h, 'g) cipher_object, unit) sr" where
  "object_update_seq ssl dir n (CChacha c) = via CChacha (chacha_update_seq ssl dir n) c"
| "object_update_seq ssl dir n (CGcm c) = (Ok (), CGcm c)"
| "object_update_seq ssl dir n (CPlain c) = (Ok (), CPlain c)"

fun seal_aad :: "('x, 'h, 'g) openssl \<Rightarrow> bytes \<Rightarrow> (('x, 'h, 'g) cipher_object, bytes) sr" where
  "seal_aad ssl aad (CChacha c) = via CChacha (chacha_seal_header ssl aad) c"
| "seal_aad ssl aad (CGcm c) = via CGcm (gcm_aad ssl aad) c"
| "seal_aad ssl aad (CPlain c) = (Ok aad, CPlain c)"

fun open_aad :: "('x, 'h, 'g) openssl \<Rightarrow> bytes \<Rightarrow> (('x, 'h, 'g) cipher_object, bytes) sr" where
  "open_aad ssl aad (CChacha c) = via CChacha (chacha_open_header ssl aad) c"
| "open_aad ssl aad (CGcm c) = via CGcm (gcm_aad ssl aad) c"
| "open_aad ssl aad (CPlain c) = (Ok aad, CPlain c)"

fun seal_update :: "('x, 'h, 'g) openssl \<Rightarrow> bytes \<Rightarrow> (('x, 'h, 'g) cipher_object, bytes) sr" where
  "seal_update ssl d (CChacha c) = via CChacha (chacha_seal ssl d) c"
| "seal_update ssl d (CGcm c) = via CGcm (gcm_update ssl d) c"
| "seal_update ssl d (CPlain c) = via CPlain (plain_update ssl d) c"

fun open_update :: "('x, 'h, 'g) openssl \<Rightarrow> bytes \<Rightarrow> (('x, 'h, 'g) cipher_object, bytes) sr" where
  "open_update ssl d (CChacha c) = via CChacha (chacha_open ssl d) c"
| "open_update ssl d (CGcm c) = via CGcm (gcm_update ssl d) c"
| "open_update ssl d (CPlain c) = via CPlain (plain_update ssl d) c"

fun seal_final :: "('x, 'h, 'g) openssl \<Rightarrow> (('x, 'h, 'g) cipher_object, bytes) sr" where
  "seal_final ssl (CChacha c) = via CChacha (chacha_seal_final ssl) c"
| "seal_final ssl (CGcm c) = via CGcm (gcm_seal_final ssl) c"
| "seal_final ssl (CPlain c) = via CPlain (plain_final ssl) c"

fun open_final :: "('x, 'h, 'g) openssl \<Rightarrow> (('x, 'h, 'g) cipher_object, bytes) sr" where
  "open_final ssl (CChacha c) = via CChacha (chacha_open_final ssl) c"
| "open_final ssl (CGcm c) = via CGcm (gcm_open_final ssl) c"
| "open_final ssl (CPlain c) = via CPlain (plain_final ssl) c"

text \<open>The tag buffer is \<open>n\<close> zero bytes; a cipher without tag leaves it alone.\<close>

fun seal_tag :: "('x, 'h, 'g) openssl \<Rightarrow> nat \<Rightarrow> (('x, 'h, 'g) cipher_object, bytes) sr" where
  "seal_tag ssl n (CChacha c) = via CChacha (chacha_get_tag ssl n) c"
| "seal_tag ssl n (CGcm c) = via CGcm (gcm_get_tag ssl n) c"
| "seal_tag ssl n (CPlain c) = (Ok (replicate n 0), CPlain c)"

fun open_tag :: "('x, 'h, 'g) openssl \<Rightarrow> bytes \<Rightarrow> (('x, 'h, 'g) cipher_object, unit) sr" where
  "open_tag ssl d (CChacha c) = via CChacha (chacha_set_tag d) c"
| "open_tag ssl d (CGcm c) = via CGcm (gcm_set_tag ssl d) c"
| "open_tag ssl d (CPlain c) = via CPlain (plain_set_tag ssl d) c"

text \<open>\<open>algo_list!\<close> for the ciphers; both directions have the same list.\<close>

definition cipher_registry :: "(bytes \<times> ('x, 'h, 'g) cipher_object) list" where
  "cipher_registry =
     [(str ''chacha20-poly1305@openssh.com'', CChacha chacha_new),
      (str ''aes256-gcm@openssh.com'', CGcm aes256_gcm_openssh),
      (str ''aes128-gcm@openssh.com'', CGcm aes128_gcm_openssh),
      (str ''aes256-ctr'', CPlain aes256_ctr),
      (str ''aes128-cbc'', CPlain aes128_cbc),
      (str ''aes192-cbc'', CPlain aes192_cbc),
      (str ''aes256-cbc'', CPlain aes256_cbc),
      (str ''aes128-ctr'', CPlain aes128_ctr),
      (str ''aes192-ctr'', CPlain aes192_ctr),
      (str ''rijndael-cbc@lysator.liu.se'', CPlain aes256_cbc),
      (str ''3des-cbc'', CPlain des_ede3_cbc)]"

fun object_of :: "unit res \<times> 'a \<Rightarrow> 'a res" where
  "object_of (Ok _, a) = Ok a"
| "object_of (Err e, _) = Err e"
| "object_of (Panic, _) = Panic"

definition cipher_factory_of ::
    "('x, 'h, 'g) openssl \<Rightarrow> direction \<Rightarrow> ('x, 'h, 'g) cipher_object \<Rightarrow>
     ('x, 'h, 'g) cipher_object cipher_factory" where
  "cipher_factory_of ssl dir obj =
     \<lparr>iv_len = iv_len_of obj, key_len = key_len_of obj, cipher_block_size = block_size_of obj,
      cipher_initialize = (\<lambda>iv key. object_of (object_initialize ssl dir iv key obj))\<rparr>"

definition cipher_factories ::
    "('x, 'h, 'g) openssl \<Rightarrow> direction \<Rightarrow> (bytes \<times> ('x, 'h, 'g) cipher_object cipher_factory) list" where
  "cipher_factories ssl dir = map (\<lambda>(n, c). (n, cipher_factory_of ssl dir c)) cipher_registry"

section \<open>HMAC\<close>

record 'h hmac =
  hmac_name :: bytes
  hmac_mac_len :: nat
  hmac_key_len :: nat
  hmac_ctx :: "'h option"
  hmac_key :: "bytes option"
  hmac_etm :: bool
  hmac_digest :: digest

definition hmac_new :: "string \<Rightarrow> nat \<Rightarrow> nat \<Rightarrow> bool \<Rightarrow> digest \<Rightarrow> 'h hmac" where
  "hmac_new name mac_len key etm dig =
     \<lparr>hmac_name = str name, hmac_mac_len = mac_len, hmac_key_len = key, hmac_ctx = None,
      hmac_key = None, hmac_etm = etm, hmac_digest = dig\<rparr>"

abbreviation on_hmac :: "('h, 'a) sr \<Rightarrow> ('h hmac, 'a) sr" where
  "on_hmac \<equiv> on_some ''Uninitialized'' hmac_ctx (\<lambda>x c. c\<lparr>hmac_ctx := x\<rparr>)"

definition hmac_initialize :: "('x, 'h, 'g) openssl \<Rightarrow> bytes \<Rightarrow> ('h hmac, unit) sr" where
  "hmac_initialize ssl key = sbind (sget hmac_digest) (\<lambda>dig.
     sbind (slift (hmac_init ssl dig key)) (\<lambda>ctx.
     smodify (\<lambda>c. c\<lparr>hmac_ctx := Some ctx, hmac_key := Some key\<rparr>)))"

definition hmac_update :: "('x, 'h, 'g) openssl \<Rightarrow> bytes \<Rightarrow> ('h hmac, unit) sr" where
  "hmac_update ssl data = on_hmac (sign_update ssl data)"

definition hmac_finalize :: "('x, 'h, 'g) openssl \<Rightarrow> ('h hmac, bytes) sr" where
  "hmac_finalize ssl =
     sbind (on_hmac (sign_size ssl)) (\<lambda>n.
     sbind (on_hmac (sign_final ssl n)) (\<lambda>buf.
     sbind (sget (\<lambda>c. (take (hmac_mac_len c) buf, hmac_key c, hmac_digest c))) (\<lambda>(tag, key, dig).
     sbind (case key of
         None \<Rightarrow> sreturn (md_new ssl)
       | Some pkey \<Rightarrow> slift (hmac_init ssl dig pkey)) (\<lambda>ctx.
     sbind (smodify (\<lambda>c. c\<lparr>hmac_ctx := Some ctx\<rparr>)) (\<lambda>_. sreturn tag)))))"

definition mac_registry :: "(bytes \<times> 'h hmac) list" where
  "mac_registry = map (\<lambda>(name, mac_len, key, etm, dig). (str name, hmac_new name mac_len key etm dig))
     [(''hmac-sha2-512-etm@openssh.com'', 64, 64, True, Sha512),
      (''hmac-sha2-256-etm@openssh.com'', 32, 32, True, Sha256),
      (''hmac-sha1-etm@openssh.com'', 20, 20, True, Sha1),
      (''hmac-sha1'', 20, 20, False, Sha1),
      (''hmac-sha1-96'', 12, 20, False, Sha1),
      (''hmac-sha1-96-etm@openssh.com'', 12, 20, True, Sha1),
      (''hmac-md5'', 16, 16, False, Md5),
      (''hmac-md5-etm@openssh.com'', 16, 16, True, Md5),
      (''hmac-md5-96'', 12, 16, False, Md5),
      (''hmac-md5-96-etm@openssh.com'', 12, 16, True, Md5),
      (''hmac-sha2-512'', 64, 64, False, Sha512),
      (''hmac-sha2-256'', 32, 32, False, Sha256)]"

definition mac_factories :: "('x, 'h, 'g) openssl \<Rightarrow> (bytes \<times> 'h hmac mac_factory) list" where
  "mac_factories ssl = map (\<lambda>(n, m). (n,
     \<lparr>mac_key_len = hmac_key_len m,
      mac_initialize = (\<lambda>key. object_of (hmac_initialize ssl key m))\<rparr>)) mac_registry"

section \<open>Compression\<close>

text \<open>
  zlib: one call gets the space for its output and the input, and tells how much input it took
  and what it wrote, or nothing when it fails.
\<close>

datatype zstatus = ZOk | ZBufError | ZStreamEnd

record ('w, 'v) zlib =
  z_new_compress :: 'w
  z_compress :: "nat \<Rightarrow> bytes \<Rightarrow> 'w \<Rightarrow> (zstatus \<times> nat \<times> bytes) option \<times> 'w"
  z_new_decompress :: 'v
  z_decompress :: "nat \<Rightarrow> bytes \<Rightarrow> 'v \<Rightarrow> (zstatus \<times> nat \<times> bytes) option \<times> 'v"

record 'w zcoder =
  zc_name :: bytes
  zc_in_auth :: bool
  zc_stream :: 'w
  zc_buf :: bytes

definition zcoder_new :: "string \<Rightarrow> bool \<Rightarrow> 'w \<Rightarrow> 'w zcoder" where
  "zcoder_new name auth w = \<lparr>zc_name = str name, zc_in_auth = auth, zc_stream = w, zc_buf = []\<rparr>"

definition compress_failed :: error where
  "compress_failed = CipherError ''CompressError''"

text \<open>The loops of \<open>ZEncoder::update\<close> and \<open>ZDecoder::update\<close>; \<open>None\<close> is a loop that never ends.\<close>

definition zenc_cap :: "bytes \<Rightarrow> nat \<Rightarrow> nat" where
  "zenc_cap data i = ((length data - i) div 1024 + 1) * 1024"

partial_function (option) zenc_loop ::
    "('w, 'v) zlib \<Rightarrow> bytes \<Rightarrow> nat \<Rightarrow> 'w zcoder \<Rightarrow> (unit res \<times> 'w zcoder) option" where
  "zenc_loop z data i c =
     (case z_compress z (zenc_cap data i) (drop i data) (zc_stream c) of
        (Some (ZOk, n, out), w) \<Rightarrow>
          if i + n < length data \<or> length out = zenc_cap data i
          then zenc_loop z data (i + n) (c\<lparr>zc_stream := w, zc_buf := zc_buf c @ out\<rparr>)
          else Some (Ok (), c\<lparr>zc_stream := w, zc_buf := zc_buf c @ out\<rparr>)
      | (_, w) \<Rightarrow> Some (Err compress_failed, c\<lparr>zc_stream := w\<rparr>))"

definition zdec_cap :: nat where
  "zdec_cap = 1024 * 4"

partial_function (option) zdec_loop ::
    "('w, 'v) zlib \<Rightarrow> bytes \<Rightarrow> nat \<Rightarrow> 'v zcoder \<Rightarrow> (unit res \<times> 'v zcoder) option" where
  "zdec_loop z data i c =
     (case z_decompress z zdec_cap (drop i data) (zc_stream c) of
        (Some (st, n, out), w) \<Rightarrow>
          if st = ZOk \<or> i + n < length data
          then zdec_loop z data (i + n) (c\<lparr>zc_stream := w, zc_buf := zc_buf c @ out\<rparr>)
          else Some (Ok (), c\<lparr>zc_stream := w, zc_buf := zc_buf c @ out\<rparr>)
      | (_, w) \<Rightarrow> Some (Err compress_failed, c\<lparr>zc_stream := w\<rparr>))"

text \<open>\<open>Never\<close> holds only its buffer.\<close>

datatype 'w coder = Never bytes | Zlib "'w zcoder"

fun coder_name :: "'w coder \<Rightarrow> bytes" where
  "coder_name (Never _) = str ''none''"
| "coder_name (Zlib c) = zc_name c"

fun compress_in_authentication :: "'w coder \<Rightarrow> bool" where
  "compress_in_authentication (Never _) = False"
| "compress_in_authentication (Zlib c) = zc_in_auth c"

text \<open>
  The packet stream calls \<open>update\<close> and gets a result back. A call that never returns is put as a
  panic there: in both nothing more happens on the stream.
\<close>

fun returned :: "(unit res \<times> 'a) option \<Rightarrow> 'b \<Rightarrow> ('a \<Rightarrow> 'b) \<Rightarrow> unit res \<times> 'b" where
  "returned None b f = (Panic, b)"
| "returned (Some (r, a)) b f = (r, f a)"

fun encode_update :: "('w, 'v) zlib \<Rightarrow> bytes \<Rightarrow> ('w coder, unit) sr" where
  "encode_update z d (Never buf) = (Ok (), Never (buf @ d))"
| "encode_update z d (Zlib c) = returned (zenc_loop z d 0 c) (Zlib c) Zlib"

fun decode_update :: "('w, 'v) zlib \<Rightarrow> bytes \<Rightarrow> ('v coder, unit) sr" where
  "decode_update z d (Never buf) = (Ok (), Never (buf @ d))"
| "decode_update z d (Zlib c) = returned (zdec_loop z d 0 c) (Zlib c) Zlib"

fun coder_finalize :: "('w coder, bytes) sr" where
  "coder_finalize (Never buf) = (Ok buf, Never [])"
| "coder_finalize (Zlib c) = (Ok (zc_buf c), Zlib (c\<lparr>zc_buf := []\<rparr>))"

definition encode_registry :: "('w, 'v) zlib \<Rightarrow> (bytes \<times> 'w coder) list" where
  "encode_registry z =
     [(str ''zlib'', Zlib (zcoder_new ''zlib'' True (z_new_compress z))),
      (str ''zlib@openssh.com'', Zlib (zcoder_new ''zlib@openssh.com'' False (z_new_compress z))),
      (str ''none'', Never [])]"

definition decode_registry :: "('w, 'v) zlib \<Rightarrow> (bytes \<times> 'v coder) list" where
  "decode_registry z =
     [(str ''zlib'', Zlib (zcoder_new ''zlib'' True (z_new_decompress z))),
      (str ''zlib@openssh.com'', Zlib (zcoder_new ''zlib@openssh.com'' False (z_new_decompress z))),
      (str ''none'', Never [])]"

section \<open>The operations of the packet stream\<close>

definition suite ::
    "('x, 'h, 'g) openssl \<Rightarrow> ('w, 'v) zlib \<Rightarrow>
     (('x, 'h, 'g) cipher_object, ('x, 'h, 'g) cipher_object, 'w coder, 'v coder, 'h hmac) crypto" where
  "suite ssl z =
     \<lparr>e_block_size = block_size_of, e_gcm = is_galois_counter_mode, e_tag_len = tag_len_of,
      e_update_seq = object_update_seq ssl Encrypting, e_aad = seal_aad ssl,
      e_update = seal_update ssl, e_finalize = seal_final ssl, e_tag = seal_tag ssl,
      d_block_size = block_size_of, d_gcm = is_galois_counter_mode, d_tag_len = tag_len_of,
      d_update_seq = object_update_seq ssl Decrypting, d_aad = open_aad ssl,
      d_update = open_update ssl, d_finalize = open_final ssl, d_set_tag = open_tag ssl,
      c_in_auth = compress_in_authentication, c_update = encode_update z, c_finalize = coder_finalize,
      z_in_auth = compress_in_authentication, z_update = decode_update z, z_finalize = coder_finalize,
      m_etm = hmac_etm, m_len = hmac_mac_len, m_update = hmac_update ssl, m_finalize = hmac_finalize ssl\<rparr>"

end
