(* ===== verification/CipherFacts.thy ===== *)
theory CipherFacts
  imports AeadStreams Suites
begin

text \<open>
  What OpenSSL's documentation says of the operations the ciphers and MACs use, as predicates of
  the parameter, and what follows for the objects of Suites: two that were made with the same
  keys belong together in the sense of CipherStreams and AeadStreams, and packets go out under the
  nonces that OpenSSH's specification and RFC 5647 prescribe.
\<close>

lemma on_some_run [simp]:
  "get s = Some t \<Longrightarrow> m t = (r, t') \<Longrightarrow> on_some detail get put m s = (r, put (Some t') s)"
  "get s = None \<Longrightarrow> on_some detail get put m s = (Err (InvalidOperation detail), s)"
  by (simp_all add: on_some_def)

lemma via_run [simp]: "m a = (r, a') \<Longrightarrow> via C m a = (r, C a')"
  by (simp add: via_def)

lemma via_iff: "via C m a = (r, b) \<longleftrightarrow> (\<exists>a'. m a = (r, a') \<and> b = C a')"
  by (auto simp: via_def split: prod.splits)

lemma overwrite_length [simp]: "length new = length old \<Longrightarrow> overwrite new old = new"
  by (simp add: overwrite_def)

lemma overwrite_Nil [simp]: "overwrite [] old = old"
  by (simp add: overwrite_def)

section \<open>Key streams\<close>

primrec xor_from :: "(nat \<Rightarrow> u8) \<Rightarrow> nat \<Rightarrow> bytes \<Rightarrow> bytes" where
  "xor_from ks n [] = []"
| "xor_from ks n (b # bs) = (b XOR ks n) # xor_from ks (Suc n) bs"

lemma length_xor_from [simp]: "length (xor_from ks n d) = length d"
  by (induction d arbitrary: n) simp_all

lemma xor_from_twice [simp]: "xor_from ks n (xor_from ks n d) = d"
  by (induction d arbitrary: n) (simp_all add: xor.assoc)

lemma xor_from_append: "xor_from ks n (a @ b) = xor_from ks n a @ xor_from ks (n + length a) b"
  by (induction a arbitrary: n) simp_all

text \<open>
  Stream ciphers: the view of a context is its cipher, its key, its IV and its place in the key
  stream. Finishing writes nothing.
\<close>

definition stream_laws ::
    "('x, 'h, 'g) openssl \<Rightarrow> ('x \<Rightarrow> (evp \<times> bytes \<times> bytes \<times> nat) option) \<Rightarrow>
     (evp \<Rightarrow> bytes \<Rightarrow> bytes \<Rightarrow> nat \<Rightarrow> u8) \<Rightarrow> bool" where
  "stream_laws ssl v ks \<longleftrightarrow>
     (\<forall>dir key. length key = 32 \<longrightarrow>
        (\<exists>x iv n. cipher_init ssl dir ChaCha20 key None = Ok x \<and> v x = Some (ChaCha20, key, iv, n))) \<and>
     (\<forall>dir c key iv. (c, length key) \<in> {(Aes128Ctr, 16), (Aes192Ctr, 24), (Aes256Ctr, 32)} \<longrightarrow>
        length iv = 16 \<longrightarrow>
        (\<exists>x. cipher_init ssl dir c key (Some iv) = Ok x \<and> v x = Some (c, key, iv, 0))) \<and>
     (\<forall>x. v (cipher_no_padding ssl x) = v x) \<and>
     (\<forall>dir x c key iv' n iv. v x = Some (c, key, iv', n) \<longrightarrow> length iv = 16 \<longrightarrow>
        (\<exists>x'. cipher_reinit ssl dir iv x = (Ok (), x') \<and> v x' = Some (c, key, iv, 0))) \<and>
     (\<forall>x c key iv n d. v x = Some (c, key, iv, n) \<longrightarrow>
        (\<exists>x'. cipher_update ssl d x = (Ok (xor_from (ks c key iv) n d), x') \<and>
           v x' = Some (c, key, iv, n + length d))) \<and>
     (\<forall>x c key iv n. v x = Some (c, key, iv, n) \<longrightarrow>
        (\<exists>x'. cipher_final ssl x = (Ok [], x') \<and> v x' = v x))"

lemma stream_lawsD:
  assumes "stream_laws ssl v ks"
  shows "length key = 32 \<Longrightarrow>
      \<exists>x iv n. cipher_init ssl dir ChaCha20 key None = Ok x \<and> v x = Some (ChaCha20, key, iv, n)"
    "(c, length key) \<in> {(Aes128Ctr, 16), (Aes192Ctr, 24), (Aes256Ctr, 32)} \<Longrightarrow> length iv = 16 \<Longrightarrow>
      \<exists>x. cipher_init ssl dir c key (Some iv) = Ok x \<and> v x = Some (c, key, iv, 0)"
    "v (cipher_no_padding ssl x) = v x"
    "v x = Some (c, key, iv', n) \<Longrightarrow> length iv = 16 \<Longrightarrow>
      \<exists>x'. cipher_reinit ssl dir iv x = (Ok (), x') \<and> v x' = Some (c, key, iv, 0)"
    "v x = Some (c, key, iv, n) \<Longrightarrow>
      \<exists>x'. cipher_update ssl d x = (Ok (xor_from (ks c key iv) n d), x') \<and>
        v x' = Some (c, key, iv, n + length d)"
    "v x = Some (c, key, iv, n) \<Longrightarrow> \<exists>x'. cipher_final ssl x = (Ok [], x') \<and> v x' = v x"
  using assms unfolding stream_laws_def by (blast | metis)+

text \<open>Poly1305: the view is the key and the message so far; a tag is 16 bytes.\<close>

definition poly_laws ::
    "('x, 'h, 'g) openssl \<Rightarrow> ('h \<Rightarrow> (bytes \<times> bytes) option) \<Rightarrow> (bytes \<Rightarrow> bytes \<Rightarrow> bytes) \<Rightarrow> bool" where
  "poly_laws ssl p poly \<longleftrightarrow>
     (\<forall>key. length key = 32 \<longrightarrow> (\<exists>h. poly1305_init ssl key = Ok h \<and> p h = Some (key, []))) \<and>
     (\<forall>h key m d. p h = Some (key, m) \<longrightarrow>
        (\<exists>h'. sign_update ssl d h = (Ok (), h') \<and> p h' = Some (key, m @ d))) \<and>
     (\<forall>h key m. p h = Some (key, m) \<longrightarrow>
        (\<exists>h'. sign_final ssl 16 h = (Ok (poly key m), h')) \<and>
        (\<exists>h'. sign_final_vec ssl h = (Ok (poly key m), h'))) \<and>
     (\<forall>key m. length (poly key m) = 16)"

lemma poly_lawsD:
  assumes "poly_laws ssl p poly"
  shows "length key = 32 \<Longrightarrow> \<exists>h. poly1305_init ssl key = Ok h \<and> p h = Some (key, [])"
    "p h = Some (key, m) \<Longrightarrow> \<exists>h'. sign_update ssl d h = (Ok (), h') \<and> p h' = Some (key, m @ d)"
    "p h = Some (key, m) \<Longrightarrow> \<exists>h'. sign_final ssl 16 h = (Ok (poly key m), h')"
    "p h = Some (key, m) \<Longrightarrow> \<exists>h'. sign_final_vec ssl h = (Ok (poly key m), h')"
    "length (poly key m) = 16"
  using assms unfolding poly_laws_def by blast+

section \<open>ChaCha20-Poly1305\<close>

text \<open>
  What OpenSSL takes as the IV of a packet in OpenSSH's specification: a block counter of zero in
  eight bytes, then the sequence number of the packet as a number of eight bytes, most significant first.
\<close>

definition openssh_nonce :: "u32 \<Rightarrow> bytes" where
  "openssh_nonce n = replicate 12 0 @ u32_to_be n"

lemma length_openssh_nonce [simp]: "length (openssh_nonce n) = 16"
  by (simp add: openssh_nonce_def)

lemma nonce_fresh: "openssh_nonce m = openssh_nonce n \<longleftrightarrow> m = n"
  unfolding openssh_nonce_def by (metis append_eq_append_conv from_be_u32)

lemma chacha_iv_nonce: "chacha_iv n = openssh_nonce n"
proof -
  have "ucast (drop_bit k (ucast n :: u64)) = (0 :: u8)" if "32 \<le> k" for k
    using that by (intro bit_word_eqI) (auto simp: bit_simps dest: bit_imp_le_length)
  moreover have "ucast (drop_bit k (ucast n :: u64)) = (ucast (drop_bit k n) :: u8)" if "k < 32" for k
    using that by (intro bit_word_eqI) (auto simp: bit_simps dest: bit_imp_le_length)
  moreover have "ucast (ucast n :: u64) = (ucast n :: u8)"
    by (intro bit_word_eqI) (auto simp: bit_simps dest: bit_imp_le_length)
  ultimately show ?thesis
    by (simp add: chacha_iv_def openssh_nonce_def u64_to_be_def u32_to_be_def numeral_eq_Suc)
qed

text \<open>The packet of OpenSSH's specification: length field, ciphertext and tag.\<close>

definition chacha_poly_key :: "(evp \<Rightarrow> bytes \<Rightarrow> bytes \<Rightarrow> nat \<Rightarrow> u8) \<Rightarrow> bytes \<Rightarrow> u32 \<Rightarrow> bytes" where
  "chacha_poly_key ks main n = map (ks ChaCha20 main (openssh_nonce n)) [0..<32]"

definition chacha_packet ::
    "(evp \<Rightarrow> bytes \<Rightarrow> bytes \<Rightarrow> nat \<Rightarrow> u8) \<Rightarrow> (bytes \<Rightarrow> bytes \<Rightarrow> bytes) \<Rightarrow> bytes \<Rightarrow> bytes \<Rightarrow> u32 \<Rightarrow>
     bytes \<Rightarrow> bytes \<Rightarrow> bytes \<times> bytes \<times> bytes" where
  "chacha_packet ks poly main header n hdr data =
     (let hdr' = xor_from (ks ChaCha20 header (openssh_nonce n)) 0 hdr;
          ct = xor_from (ks ChaCha20 main (openssh_nonce n)) 64 data
      in (hdr', ct, poly (chacha_poly_key ks main n) (hdr' @ ct)))"

definition keyed ::
    "('x \<Rightarrow> (evp \<times> bytes \<times> bytes \<times> nat) option) \<Rightarrow> ('x, 'h) chacha \<Rightarrow> bytes \<Rightarrow> bytes \<Rightarrow> bool" where
  "keyed v c main header \<longleftrightarrow> (\<exists>x y iv n iv' n'. main_ctx c = Some x \<and> header_ctx c = Some y \<and>
     v x = Some (ChaCha20, main, iv, n) \<and> v y = Some (ChaCha20, header, iv', n'))"

text \<open>Ready for a packet: both streams at its IV, the first block of the main one used up.\<close>

definition chacha_ready where
  "chacha_ready v p ks c main header n \<longleftrightarrow>
     (\<exists>x y h. main_ctx c = Some x \<and> header_ctx c = Some y \<and> mac_ctx c = Some h \<and>
        v x = Some (ChaCha20, main, openssh_nonce n, 64) \<and> v y = Some (ChaCha20, header, openssh_nonce n, 0) \<and>
        p h = Some (chacha_poly_key ks main n, []))"

lemma xor_from_zeros: "xor_from ks n (replicate m 0) = map ks [n..<n + m]"
proof (induction m arbitrary: n)
  case (Suc m)
  then show ?case using Suc.IH [of "Suc n"] by (simp add: upt_rec)
qed simp

lemma poly_key_taken: "take 32 (xor_from ks 0 (replicate 64 0)) = map ks [0..<32]"
  by (simp add: xor_from_zeros take_map)

lemma chacha_update_seq_run:
  assumes s: "stream_laws ssl v ks" and p: "poly_laws ssl p poly" and c: "keyed v c main header"
  obtains c' where "chacha_update_seq ssl dir n c = (Ok (), c')" "chacha_ready v p ks c' main header n"
proof -
  from c obtain x y iv m iv' m' where x: "main_ctx c = Some x" "v x = Some (ChaCha20, main, iv, m)"
    and y: "header_ctx c = Some y" "v y = Some (ChaCha20, header, iv', m')"
    by (auto simp: keyed_def)
  obtain y1 where y1: "cipher_reinit ssl dir (openssh_nonce n) y = (Ok (), y1)"
    "v y1 = Some (ChaCha20, header, openssh_nonce n, 0)"
    using stream_lawsD(4) [OF s y(2) length_openssh_nonce] by blast
  obtain x1 where x1: "cipher_reinit ssl dir (openssh_nonce n) x = (Ok (), x1)"
    "v x1 = Some (ChaCha20, main, openssh_nonce n, 0)"
    using stream_lawsD(4) [OF s x(2) length_openssh_nonce] by blast
  let ?out = "xor_from (ks ChaCha20 main (openssh_nonce n)) 0 (replicate 64 0)"
  obtain x2 where x2: "cipher_update ssl (replicate 64 0) x1 = (Ok ?out, x2)"
    "v x2 = Some (ChaCha20, main, openssh_nonce n, 64)"
    using stream_lawsD(5) [OF s x1(2), of "replicate 64 0"] by auto
  have k: "take 32 ?out = chacha_poly_key ks main n"
    by (simp only: poly_key_taken chacha_poly_key_def)
  have "length (chacha_poly_key ks main n) = 32" by (simp add: chacha_poly_key_def)
  from poly_lawsD(1) [OF p this] obtain h where h: "poly1305_init ssl (chacha_poly_key ks main n) = Ok h"
    "p h = Some (chacha_poly_key ks main n, [])" by blast
  let ?c = "c\<lparr>header_ctx := Some y1, main_ctx := Some x2, mac_ctx := Some h\<rparr>"
  have ow: "overwrite ?out (replicate 64 0) = ?out" by (rule overwrite_length) simp
  have "chacha_update_seq ssl dir n c = (Ok (), ?c)"
    using x(1) y(1) y1(1) x1(1) x2(1) h(1)
    by (simp add: chacha_update_seq_def chacha_iv_nonce Let_def ow k sr_defs)
  moreover have "chacha_ready v p ks ?c main header n"
    using y1(2) x2(2) h(2) by (simp add: chacha_ready_def)
  ultimately show thesis by (rule that)
qed

lemma chacha_seal_run:
  assumes s: "stream_laws ssl v ks" and p: "poly_laws ssl p poly"
    and c: "chacha_ready v p ks c main header n"
    and pk: "chacha_packet ks poly main header n hdr data = (hdr', ct, tag)"
  obtains c2 c3 c4 c5 where "chacha_seal_header ssl hdr c = (Ok hdr', c2)"
    "chacha_seal ssl data c2 = (Ok ct, c3)" "chacha_seal_final ssl c3 = (Ok [], c4)"
    "chacha_get_tag ssl 16 c4 = (Ok tag, c5)" "keyed v c5 main header"
proof -
  from c obtain x y h where x: "main_ctx c = Some x" "v x = Some (ChaCha20, main, openssh_nonce n, 64)"
    and y: "header_ctx c = Some y" "v y = Some (ChaCha20, header, openssh_nonce n, 0)"
    and h: "mac_ctx c = Some h" "p h = Some (chacha_poly_key ks main n, [])"
    by (auto simp: chacha_ready_def)
  from pk have e: "hdr' = xor_from (ks ChaCha20 header (openssh_nonce n)) 0 hdr"
    "ct = xor_from (ks ChaCha20 main (openssh_nonce n)) 64 data"
    "tag = poly (chacha_poly_key ks main n) (hdr' @ ct)"
    by (auto simp: chacha_packet_def Let_def)
  obtain y1 where y1: "cipher_update ssl hdr y = (Ok hdr', y1)"
    "v y1 = Some (ChaCha20, header, openssh_nonce n, 0 + length hdr)"
    using stream_lawsD(5) [OF s y(2), of hdr] e(1) by auto
  obtain y2 where y2: "cipher_final ssl y1 = (Ok [], y2)" "v y2 = v y1"
    using stream_lawsD(6) [OF s y1(2)] by blast
  obtain h1 where h1: "sign_update ssl hdr' h = (Ok (), h1)" "p h1 = Some (chacha_poly_key ks main n, [] @ hdr')"
    using poly_lawsD(2) [OF p h(2)] by blast
  obtain x1 where x1: "cipher_update ssl data x = (Ok ct, x1)"
    "v x1 = Some (ChaCha20, main, openssh_nonce n, 64 + length data)"
    using stream_lawsD(5) [OF s x(2), of data] e(2) by auto
  obtain h2 where h2: "sign_update ssl ct h1 = (Ok (), h2)"
    "p h2 = Some (chacha_poly_key ks main n, ([] @ hdr') @ ct)"
    using poly_lawsD(2) [OF p h1(2)] by blast
  obtain x2 where x2: "cipher_final ssl x1 = (Ok [], x2)" "v x2 = v x1"
    using stream_lawsD(6) [OF s x1(2)] by blast
  obtain h3 where h3: "sign_final ssl 16 h2 = (Ok tag, h3)"
    using poly_lawsD(3) [OF p h2(2)] e(3) by auto
  let ?c2 = "c\<lparr>header_ctx := Some y2, mac_ctx := Some h1\<rparr>"
  let ?c3 = "?c2\<lparr>main_ctx := Some x1, mac_ctx := Some h2\<rparr>"
  let ?c4 = "?c3\<lparr>main_ctx := Some x2\<rparr>"
  let ?c5 = "?c4\<lparr>mac_ctx := Some h3\<rparr>"
  have "chacha_seal_header ssl hdr c = (Ok hdr', ?c2)"
    using y(1) h(1) y1(1) y2(1) h1(1) e(1) by (simp add: chacha_seal_header_def Let_def sr_defs)
  moreover have "chacha_seal ssl data ?c2 = (Ok ct, ?c3)"
    using x(1) x1(1) h2(1) by (simp add: chacha_seal_def sr_defs)
  moreover have "chacha_seal_final ssl ?c3 = (Ok [], ?c4)"
    using x2(1) by (simp add: chacha_seal_final_def)
  moreover have "chacha_get_tag ssl 16 ?c4 = (Ok tag, ?c5)"
    using h3 by (simp add: chacha_get_tag_def)
  moreover have "keyed v ?c5 main header"
    using x2(2) x1(2) y2(2) y1(2) by (simp add: keyed_def)
  ultimately show thesis by (rule that)
qed

text \<open>The receiver gets some length field, ciphertext and tag.\<close>

lemma chacha_open_run:
  assumes s: "stream_laws ssl v ks" and p: "poly_laws ssl p poly"
    and c: "chacha_ready v p ks c main header n"
  obtains c2 c3 c4 where
    "chacha_open_header ssl hdr c = (Ok (xor_from (ks ChaCha20 header (openssh_nonce n)) 0 hdr), c2)"
    "chacha_open ssl ct c2 = (Ok (xor_from (ks ChaCha20 main (openssh_nonce n)) 64 ct), c3)"
    "chacha_set_tag tag c3 = (Ok (), c4)"
    "tag = poly (chacha_poly_key ks main n) (hdr @ ct) \<Longrightarrow>
       \<exists>c5. chacha_open_final ssl c4 = (Ok [], c5) \<and> keyed v c5 main header"
    "tag \<noteq> poly (chacha_poly_key ks main n) (hdr @ ct) \<Longrightarrow>
       fst (chacha_open_final ssl c4) = Err (CipherError ''MacVerificationFailed'')"
proof -
  from c obtain x y h where x: "main_ctx c = Some x" "v x = Some (ChaCha20, main, openssh_nonce n, 64)"
    and y: "header_ctx c = Some y" "v y = Some (ChaCha20, header, openssh_nonce n, 0)"
    and h: "mac_ctx c = Some h" "p h = Some (chacha_poly_key ks main n, [])"
    by (auto simp: chacha_ready_def)
  let ?hdr = "xor_from (ks ChaCha20 header (openssh_nonce n)) 0 hdr"
  let ?p = "xor_from (ks ChaCha20 main (openssh_nonce n)) 64 ct"
  obtain h1 where h1: "sign_update ssl hdr h = (Ok (), h1)" "p h1 = Some (chacha_poly_key ks main n, [] @ hdr)"
    using poly_lawsD(2) [OF p h(2)] by blast
  obtain y1 where y1: "cipher_update ssl hdr y = (Ok ?hdr, y1)"
    "v y1 = Some (ChaCha20, header, openssh_nonce n, 0 + length hdr)"
    using stream_lawsD(5) [OF s y(2)] by blast
  obtain y2 where y2: "cipher_final ssl y1 = (Ok [], y2)" "v y2 = v y1"
    using stream_lawsD(6) [OF s y1(2)] by blast
  obtain h2 where h2: "sign_update ssl ct h1 = (Ok (), h2)"
    "p h2 = Some (chacha_poly_key ks main n, ([] @ hdr) @ ct)"
    using poly_lawsD(2) [OF p h1(2)] by blast
  obtain x1 where x1: "cipher_update ssl ct x = (Ok ?p, x1)"
    "v x1 = Some (ChaCha20, main, openssh_nonce n, 64 + length ct)"
    using stream_lawsD(5) [OF s x(2)] by blast
  obtain x2 where x2: "cipher_final ssl x1 = (Ok [], x2)" "v x2 = v x1"
    using stream_lawsD(6) [OF s x1(2)] by blast
  obtain h3 where h3: "sign_final_vec ssl h2 = (Ok (poly (chacha_poly_key ks main n) (hdr @ ct)), h3)"
    using poly_lawsD(4) [OF p h2(2)] by auto
  let ?c2 = "c\<lparr>mac_ctx := Some h1, header_ctx := Some y2\<rparr>"
  let ?c3 = "?c2\<lparr>mac_ctx := Some h2, main_ctx := Some x1\<rparr>"
  let ?c4 = "?c3\<lparr>expected := Some tag\<rparr>"
  have 1: "chacha_open_header ssl hdr c = (Ok ?hdr, ?c2)"
    using y(1) h(1) y1(1) y2(1) h1(1) by (simp add: chacha_open_header_def sr_defs)
  have 2: "chacha_open ssl ct ?c2 = (Ok ?p, ?c3)"
    using x(1) x1(1) h2(1) by (simp add: chacha_open_def)
  have 3: "chacha_set_tag tag ?c3 = (Ok (), ?c4)"
    by (simp add: chacha_set_tag_def sr_defs)
  have 4: "\<exists>c5. chacha_open_final ssl ?c4 = (Ok [], c5) \<and> keyed v c5 main header"
    if "tag = poly (chacha_poly_key ks main n) (hdr @ ct)"
    using that x2 h3 x1(2) y2(2) y1(2) by (simp add: chacha_open_final_def keyed_def sr_defs)
  have 5: "fst (chacha_open_final ssl ?c4) = Err (CipherError ''MacVerificationFailed'')"
    if "tag \<noteq> poly (chacha_poly_key ks main n) (hdr @ ct)"
    using that x2 h3 by (simp add: chacha_open_final_def sr_defs)
  from 1 2 3 4 5 show thesis by (rule that)
qed

lemma chacha_open_Ok:
  assumes s: "stream_laws ssl v ks" and p: "poly_laws ssl p poly"
    and c: "chacha_ready v p ks c main header n"
    and o': "chacha_open_header ssl hdr c = (Ok h, c2)" "chacha_open ssl ct c2 = (Ok q, c3)"
      "chacha_set_tag tag c3 = (Ok (), c4)" "chacha_open_final ssl c4 = (Ok rest, c5)"
  shows "h = xor_from (ks ChaCha20 header (openssh_nonce n)) 0 hdr \<and>
    tag = poly (chacha_poly_key ks main n) (hdr @ ct)"
proof (rule chacha_open_run [OF s p c, of hdr ct tag])
  fix e2 e3 e4
  assume e: "chacha_open_header ssl hdr c = (Ok (xor_from (ks ChaCha20 header (openssh_nonce n)) 0 hdr), e2)"
      "chacha_open ssl ct e2 = (Ok (xor_from (ks ChaCha20 main (openssh_nonce n)) 64 ct), e3)"
      "chacha_set_tag tag e3 = (Ok (), e4)"
    and bad: "tag \<noteq> poly (chacha_poly_key ks main n) (hdr @ ct) \<Longrightarrow>
      fst (chacha_open_final ssl e4) = Err (CipherError ''MacVerificationFailed'')"
  from e o' have "e4 = c4" "h = xor_from (ks ChaCha20 header (openssh_nonce n)) 0 hdr" by simp_all
  with bad o'(4) show ?thesis by auto
qed

lemma chacha_open_sealed:
  assumes s: "stream_laws ssl v ks" and p: "poly_laws ssl p poly"
    and c: "chacha_ready v p ks c main header n"
    and pk: "chacha_packet ks poly main header n hdr data = (hdr', ct, tag)"
  obtains c2 c3 c4 c5 where "chacha_open_header ssl hdr' c = (Ok hdr, c2)"
    "chacha_open ssl ct c2 = (Ok data, c3)" "chacha_set_tag tag c3 = (Ok (), c4)"
    "chacha_open_final ssl c4 = (Ok [], c5)" "keyed v c5 main header"
proof -
  from pk have t: "tag = poly (chacha_poly_key ks main n) (hdr' @ ct)"
    and h: "xor_from (ks ChaCha20 header (openssh_nonce n)) 0 hdr' = hdr"
    and q: "xor_from (ks ChaCha20 main (openssh_nonce n)) 64 ct = data"
    by (auto simp: chacha_packet_def Let_def)
  show thesis
  proof (rule chacha_open_run [OF s p c, of hdr' ct tag, unfolded h q])
    fix c2 c3 c4
    assume 1: "chacha_open_header ssl hdr' c = (Ok hdr, c2)" "chacha_open ssl ct c2 = (Ok data, c3)"
        "chacha_set_tag tag c3 = (Ok (), c4)"
      and ok: "tag = poly (chacha_poly_key ks main n) (hdr' @ ct) \<Longrightarrow>
        \<exists>c5. chacha_open_final ssl c4 = (Ok [], c5) \<and> keyed v c5 main header"
    from ok [OF t] obtain c5 where "chacha_open_final ssl c4 = (Ok [], c5)" "keyed v c5 main header"
      by blast
    with 1 show thesis by (rule that)
  qed
qed

text \<open>Two objects with the same keys.\<close>

definition chacha_pair ::
    "('x \<Rightarrow> (evp \<times> bytes \<times> bytes \<times> nat) option) \<Rightarrow> ('x, 'h, 'g) cipher_object \<Rightarrow>
     ('x, 'h, 'g) cipher_object \<Rightarrow> bool" where
  "chacha_pair v e d \<longleftrightarrow> (\<exists>c c' main header. e = CChacha c \<and> d = CChacha c' \<and>
     keyed v c main header \<and> keyed v c' main header)"

lemma suite_simps [simp]:
  "e_block_size (suite ssl z) = block_size_of" "e_gcm (suite ssl z) = is_galois_counter_mode"
  "e_tag_len (suite ssl z) = tag_len_of" "e_update_seq (suite ssl z) = object_update_seq ssl Encrypting"
  "e_aad (suite ssl z) = seal_aad ssl" "e_update (suite ssl z) = seal_update ssl"
  "e_finalize (suite ssl z) = seal_final ssl" "e_tag (suite ssl z) = seal_tag ssl"
  "d_block_size (suite ssl z) = block_size_of" "d_gcm (suite ssl z) = is_galois_counter_mode"
  "d_tag_len (suite ssl z) = tag_len_of" "d_update_seq (suite ssl z) = object_update_seq ssl Decrypting"
  "d_aad (suite ssl z) = open_aad ssl" "d_update (suite ssl z) = open_update ssl"
  "d_finalize (suite ssl z) = open_final ssl" "d_set_tag (suite ssl z) = open_tag ssl"
  "c_in_auth (suite ssl z) = compress_in_authentication" "c_update (suite ssl z) = encode_update z"
  "c_finalize (suite ssl z) = coder_finalize" "z_in_auth (suite ssl z) = compress_in_authentication"
  "z_update (suite ssl z) = decode_update z" "z_finalize (suite ssl z) = coder_finalize"
  "m_etm (suite ssl z) = hmac_etm" "m_len (suite ssl z) = hmac_mac_len"
  "m_update (suite ssl z) = hmac_update ssl" "m_finalize (suite ssl z) = hmac_finalize ssl"
  by (simp_all add: suite_def)

lemma chacha_link:
  assumes s: "stream_laws ssl v ks" and p: "poly_laws ssl p poly"
  shows "aead_link (suite ssl z) (chacha_pair v)"
  unfolding aead_link_def
proof (intro allI impI)
  fix e d :: "('a, 'b, 'c) cipher_object"
  assume "chacha_pair v e d"
  then obtain c c' main header where e: "e = CChacha c" and d: "d = CChacha c'"
    and k: "keyed v c main header" "keyed v c' main header" by (auto simp: chacha_pair_def)
  have "aead_packet (suite ssl z) (chacha_pair v) e d n hdr q"
    if "length hdr = 4" for n hdr q
  proof -
    obtain c1 where c1: "chacha_update_seq ssl Encrypting n c = (Ok (), c1)" "chacha_ready v p ks c1 main header n"
      using chacha_update_seq_run [OF s p k(1)] by blast
    obtain d1 where d1: "chacha_update_seq ssl Decrypting n c' = (Ok (), d1)" "chacha_ready v p ks d1 main header n"
      using chacha_update_seq_run [OF s p k(2)] by blast
    obtain hdr' ct tag where pk: "chacha_packet ks poly main header n hdr q = (hdr', ct, tag)"
      by (cases "chacha_packet ks poly main header n hdr q")
    then have t: "tag = poly (chacha_poly_key ks main n) (hdr' @ ct)"
      and h: "hdr' = xor_from (ks ChaCha20 header (openssh_nonce n)) 0 hdr"
      and q: "ct = xor_from (ks ChaCha20 main (openssh_nonce n)) 64 q"
      by (auto simp: chacha_packet_def Let_def)
    have "length tag = 16" using poly_lawsD(5) [OF p] t by simp
    obtain c2 c3 c4 c5 where c2: "chacha_seal_header ssl hdr c1 = (Ok hdr', c2)"
      "chacha_seal ssl q c2 = (Ok ct, c3)" "chacha_seal_final ssl c3 = (Ok [], c4)"
      "chacha_get_tag ssl 16 c4 = (Ok tag, c5)" "keyed v c5 main header"
      by (rule chacha_seal_run [OF s p c1(2) pk])
    obtain d2 d3 d4 d5 where d2: "chacha_open_header ssl hdr' d1 = (Ok hdr, d2)"
      "chacha_open ssl ct d2 = (Ok q, d3)" "chacha_set_tag tag d3 = (Ok (), d4)"
      "chacha_open_final ssl d4 = (Ok [], d5)" "keyed v d5 main header"
      by (rule chacha_open_sealed [OF s p d1(2) pk])
    have l: "length hdr' = 4" "length ct = length q" using h q that by simp_all
    have pair: "chacha_pair v (CChacha c5) (CChacha d5)"
      using c2(5) d2(5) by (auto simp: chacha_pair_def)
    show ?thesis
      using c1(1) c2(1-4) d1(1) d2(1-4) \<open>length tag = 16\<close> l pair
      by (intro aead_packetI [of _ _ _ "CChacha c1" _ hdr' "CChacha c2" q ct "CChacha c3" "[]" "CChacha c4"
            tag "CChacha c5" _ "CChacha d1" "CChacha d2" q "CChacha d3" "CChacha d4" "[]" "CChacha d5"])
        (simp_all add: e d)
  qed
  then show "e_gcm (suite ssl z) e \<and> 0 < e_block_size (suite ssl z) e \<and> e_block_size (suite ssl z) e \<le> 64 \<and>
      (\<forall>n hdr p. length hdr = 4 \<longrightarrow> length p mod e_block_size (suite ssl z) e = 0 \<longrightarrow>
        aead_packet (suite ssl z) (chacha_pair v) e d n hdr p)"
    by (simp add: e)
qed

section \<open>AES-GCM\<close>

subsection \<open>The invocation counter\<close>

text \<open>The counter field read as a number, least significant byte first.\<close>

primrec le_nat :: "bytes \<Rightarrow> nat" where
  "le_nat [] = 0"
| "le_nat (b # bs) = unat b + 256 * le_nat bs"

lemma le_nat_bound: "le_nat bs < 256 ^ length bs"
proof (induction bs)
  case (Cons b bs)
  have "unat b < 256" using unsigned_less [of b] by simp
  with Cons show ?case by simp
qed simp

lemma length_carry [simp]: "length (carry bs) = length bs"
  by (induction bs) simp_all

lemma unat_succ_u8: "unat (b + 1 :: u8) = (unat b + 1) mod 256"
  by (simp add: unat_word_ariths)

lemma u8_wraps: "b + 1 = (0 :: u8) \<longleftrightarrow> unat b = 255"
proof -
  have "unat b < 256" using unsigned_less [of b] by simp
  then have "(unat b + 1) mod 256 = 0 \<longleftrightarrow> unat b = 255" by presburger
  then show ?thesis using unat_succ_u8 [of b] by (metis unsigned_0 unsigned_eq_0_iff)
qed

lemma le_nat_carry: "le_nat (carry bs) = (le_nat bs + 1) mod 256 ^ length bs"
proof (induction bs)
  case (Cons b bs)
  show ?case
  proof (cases "b + 1 = 0")
    case True
    have "(le_nat (b # bs) + 1) mod 256 ^ length (b # bs) = (256 * (le_nat bs + 1)) mod (256 * 256 ^ length bs)"
      using True u8_wraps by simp
    also have "\<dots> = 256 * ((le_nat bs + 1) mod 256 ^ length bs)"
      by (rule mult_mod_right [symmetric])
    finally show ?thesis using True Cons by simp
  next
    case False
    then have "unat b \<noteq> 255" by (simp add: u8_wraps)
    moreover have "unat b < 256" using unsigned_less [of b] by simp
    ultimately have "unat (b + 1) = unat b + 1" "unat b + 1 < 256"
      using unat_succ_u8 [of b] by simp_all
    then show ?thesis
      using False le_nat_bound [of bs] by simp
  qed
qed simp

lemma length_next_iv [simp]: "length (next_iv iv) = length iv"
  by (simp add: next_iv_def)

lemma take_next_iv: "take 4 (next_iv iv) = take 4 iv"
  by (cases "length iv < 4") (simp_all add: next_iv_def)

lemma drop_next_iv: "drop 4 (next_iv iv) = rev (carry (rev (drop 4 iv)))"
  by (cases "length iv < 4") (simp_all add: next_iv_def)

lemma length_iterated_iv [simp]: "length ((next_iv ^^ n) iv) = length iv"
  by (induction n) simp_all

lemma le_nat_inject: "length a = length b \<Longrightarrow> le_nat a = le_nat b \<Longrightarrow> a = b"
proof (induction a b rule: list_induct2)
  case (Cons x xs y ys)
  have l: "unat x < 256" "unat y < 256" using unsigned_less [of x] unsigned_less [of y] by simp_all
  from Cons.prems have e: "unat x + 256 * le_nat xs = unat y + 256 * le_nat ys" by simp
  from arg_cong [OF e, of "\<lambda>n. n mod 256"] l have "unat x = unat y" by simp
  then have "x = y" by (rule word_unat_eq_iff [THEN iffD2])
  with e Cons.IH show ?case by simp
qed simp

lemma le_nat_digits: "le_nat (map (\<lambda>i. word_of_nat (n div 256 ^ i)) [0..<k]) = n mod 256 ^ k"
proof (induction k arbitrary: n)
  case (Suc k)
  have "map (\<lambda>i. word_of_nat (n div 256 ^ i)) [0..<Suc k] =
      word_of_nat n # map (\<lambda>i. word_of_nat (n div 256 div 256 ^ i) :: u8) [0..<k]"
    by (simp add: upt_conv_Cons div_mult2_eq map_Suc_upt [symmetric] del: upt_Suc)
  then have "le_nat (map (\<lambda>i. word_of_nat (n div 256 ^ i)) [0..<Suc k]) =
      n mod 256 + 256 * (n div 256 mod 256 ^ k)"
    using Suc [of "n div 256"] by (simp add: unat_of_nat)
  also have "\<dots> = n mod 256 ^ Suc k" by (simp add: mod_mult2_eq)
  finally show ?case .
qed simp

lemma le_nat_u64: "le_nat (rev (u64_to_be w)) = unat w"
proof -
  have d: "(ucast (drop_bit (8 * i) w) :: u8) = word_of_nat (unat w div 256 ^ i)" for i
  proof (rule word_unat_eq_iff [THEN iffD2])
    have "take_bit 64 (unat w) = unat w" using unsigned_less [of w] by (simp add: take_bit_nat_eq_self_iff)
    then have "unat (drop_bit (8 * i) w) = unat w div 2 ^ (8 * i)"
      by (simp add: unsigned_drop_bit_eq drop_bit_eq_div [of _ "unat w"])
    then show "unat (ucast (drop_bit (8 * i) w) :: u8) = unat (word_of_nat (unat w div 256 ^ i) :: u8)"
      by (simp add: unsigned_ucast_eq unat_of_nat take_bit_eq_mod power_mult)
  qed
  have "rev (u64_to_be w) = map (\<lambda>i. ucast (drop_bit (8 * i) w)) [0..<8]"
    by (simp add: u64_to_be_def upt_rec)
  then have "le_nat (rev (u64_to_be w)) = unat w mod 256 ^ 8" by (simp only: d le_nat_digits)
  also have "unat w < 2 ^ 64" using unsigned_less [of w, where 'a = nat] by simp
  then have "unat w mod 256 ^ 8 = unat w" by simp
  finally show ?thesis .
qed

lemma u64_to_be_from_be: "length bs = 8 \<Longrightarrow> u64_to_be (from_be bs) = bs"
  by (auto simp: numeral_eq_Suc length_Suc_conv from_be_def u64_to_be_def bit_shift_in bit_simps intro!: bit_word_eqI
      dest: bit_imp_le_length)

text \<open>
  RFC 5647: the nonce of the packet with number \<open>i\<close> has the fixed field of the first nonce and the
  invocation counter, a number of 64 bits, \<open>i\<close> higher.
\<close>

definition rfc5647_nonce :: "bytes \<Rightarrow> nat \<Rightarrow> bytes" where
  "rfc5647_nonce iv i = take 4 iv @ u64_to_be (from_be (drop 4 iv) + word_of_nat i)"

lemma iterated_iv:
  assumes "length iv = 12"
  shows "(next_iv ^^ n) iv = rfc5647_nonce iv n"
proof (induction n)
  case 0
  show ?case using assms by (simp add: rfc5647_nonce_def u64_to_be_from_be)
next
  case (Suc n)
  have step: "rev (carry (rev (u64_to_be w))) = u64_to_be (w + 1)" for w
  proof -
    have "le_nat (carry (rev (u64_to_be w))) = (unat w + 1) mod 2 ^ 64"
      using le_nat_carry [of "rev (u64_to_be w)"] by (simp add: le_nat_u64)
    also have "\<dots> = le_nat (rev (u64_to_be (w + 1)))" by (simp add: le_nat_u64 unat_word_ariths)
    finally have "carry (rev (u64_to_be w)) = rev (u64_to_be (w + 1))" by (intro le_nat_inject) simp_all
    then show ?thesis by simp
  qed
  have "(next_iv ^^ Suc n) iv = next_iv (rfc5647_nonce iv n)" using Suc by simp
  also have "\<dots> = rfc5647_nonce iv (Suc n)"
    using assms by (simp add: next_iv_def rfc5647_nonce_def step add.assoc add.commute)
  finally show ?case .
qed

lemma rfc5647_nonce_inject:
  assumes "i < 2 ^ 64" "j < 2 ^ 64" "length iv = 12"
  shows "rfc5647_nonce iv i = rfc5647_nonce iv j \<longleftrightarrow> i = j"
proof
  assume "rfc5647_nonce iv i = rfc5647_nonce iv j"
  then have "from_be (u64_to_be (from_be (drop 4 iv) + word_of_nat i)) =
      (from_be (u64_to_be (from_be (drop 4 iv) + word_of_nat j)) :: u64)"
    by (simp add: rfc5647_nonce_def)
  then have "(word_of_nat i :: u64) = word_of_nat j" by simp
  then have "unat (word_of_nat i :: u64) = unat (word_of_nat j :: u64)" by simp
  with assms(1,2) show "i = j" by (simp add: unat_of_nat)
qed simp

subsection \<open>Packets\<close>

text \<open>
  The view of a \<open>Crypter\<close>: direction, cipher, key, IV, associated data, ciphertext so far, and the
  tag to be checked.
\<close>

type_synonym gcm_view = "direction \<times> evp \<times> bytes \<times> bytes \<times> bytes \<times> bytes \<times> bytes option"

definition gcm_laws ::
    "('x, 'h, 'g) openssl \<Rightarrow> ('g \<Rightarrow> gcm_view option) \<Rightarrow> (evp \<Rightarrow> bytes \<Rightarrow> bytes \<Rightarrow> nat \<Rightarrow> u8) \<Rightarrow>
     (evp \<Rightarrow> bytes \<Rightarrow> bytes \<Rightarrow> bytes \<Rightarrow> bytes \<Rightarrow> bytes) \<Rightarrow> bool" where
  "gcm_laws ssl g ks tag \<longleftrightarrow>
     (\<forall>dir c key iv. (c, length key) \<in> {(Aes128Gcm, 16), (Aes256Gcm, 32)} \<longrightarrow> length iv = 12 \<longrightarrow>
        (\<exists>x. crypter_new ssl dir c key iv = Ok x \<and> g x = Some (dir, c, key, iv, [], [], None))) \<and>
     (\<forall>x. g (crypter_no_padding ssl x) = g x) \<and>
     (\<forall>x dir c key iv a t d. g x = Some (dir, c, key, iv, a, [], t) \<longrightarrow>
        (\<exists>x'. crypter_aad ssl d x = (Ok (), x') \<and> g x' = Some (dir, c, key, iv, a @ d, [], t))) \<and>
     (\<forall>x c key iv a ct t d. g x = Some (Encrypting, c, key, iv, a, ct, t) \<longrightarrow>
        (\<exists>x'. crypter_update ssl d x = (Ok (xor_from (ks c key iv) (length ct) d), x') \<and>
           g x' = Some (Encrypting, c, key, iv, a, ct @ xor_from (ks c key iv) (length ct) d, t))) \<and>
     (\<forall>x c key iv a ct t d. g x = Some (Decrypting, c, key, iv, a, ct, t) \<longrightarrow>
        (\<exists>x'. crypter_update ssl d x = (Ok (xor_from (ks c key iv) (length ct) d), x') \<and>
           g x' = Some (Decrypting, c, key, iv, a, ct @ d, t))) \<and>
     (\<forall>x c key iv a ct t. g x = Some (Encrypting, c, key, iv, a, ct, t) \<longrightarrow>
        (\<exists>x'. crypter_finalize ssl x = (Ok [], x') \<and> g x' = g x)) \<and>
     (\<forall>x c key iv a ct t. g x = Some (Encrypting, c, key, iv, a, ct, t) \<longrightarrow>
        (\<exists>x'. crypter_get_tag ssl 16 x = (Ok (tag c key iv a ct), x'))) \<and>
     (\<forall>x c key iv a ct t d. g x = Some (Decrypting, c, key, iv, a, ct, t) \<longrightarrow>
        (\<exists>x'. crypter_set_tag ssl d x = (Ok (), x') \<and> g x' = Some (Decrypting, c, key, iv, a, ct, Some d))) \<and>
     (\<forall>x c key iv a ct t. g x = Some (Decrypting, c, key, iv, a, ct, Some t) \<longrightarrow>
        (\<exists>x'. crypter_finalize ssl x = (if t = tag c key iv a ct then Ok [] else Err OpenSSLError, x'))) \<and>
     (\<forall>c key iv a ct. length (tag c key iv a ct) = 16)"

lemma gcm_lawsD:
  assumes "gcm_laws ssl g ks tag"
  shows "(c, length key) \<in> {(Aes128Gcm, 16), (Aes256Gcm, 32)} \<Longrightarrow> length iv = 12 \<Longrightarrow>
      \<exists>x. crypter_new ssl dir c key iv = Ok x \<and> g x = Some (dir, c, key, iv, [], [], None)"
    "g (crypter_no_padding ssl x) = g x"
    "g x = Some (dir, c, key, iv, a, [], t) \<Longrightarrow>
      \<exists>x'. crypter_aad ssl d x = (Ok (), x') \<and> g x' = Some (dir, c, key, iv, a @ d, [], t)"
    "g x = Some (Encrypting, c, key, iv, a, ct, t) \<Longrightarrow>
      \<exists>x'. crypter_update ssl d x = (Ok (xor_from (ks c key iv) (length ct) d), x') \<and>
        g x' = Some (Encrypting, c, key, iv, a, ct @ xor_from (ks c key iv) (length ct) d, t)"
    "g x = Some (Decrypting, c, key, iv, a, ct, t) \<Longrightarrow>
      \<exists>x'. crypter_update ssl d x = (Ok (xor_from (ks c key iv) (length ct) d), x') \<and>
        g x' = Some (Decrypting, c, key, iv, a, ct @ d, t)"
    "g x = Some (Encrypting, c, key, iv, a, ct, t) \<Longrightarrow>
      \<exists>x'. crypter_finalize ssl x = (Ok [], x') \<and> g x' = g x"
    "g x = Some (Encrypting, c, key, iv, a, ct, t) \<Longrightarrow>
      \<exists>x'. crypter_get_tag ssl 16 x = (Ok (tag c key iv a ct), x')"
    "g x = Some (Decrypting, c, key, iv, a, ct, t) \<Longrightarrow>
      \<exists>x'. crypter_set_tag ssl d x = (Ok (), x') \<and> g x' = Some (Decrypting, c, key, iv, a, ct, Some d)"
    "g x = Some (Decrypting, c, key, iv, a, ct, Some t') \<Longrightarrow>
      \<exists>x'. crypter_finalize ssl x = (if t' = tag c key iv a ct then Ok [] else Err OpenSSLError, x')"
    "length (tag c key iv a ct) = 16"
proof -
  note L = assms [unfolded gcm_laws_def]
  show "(c, length key) \<in> {(Aes128Gcm, 16), (Aes256Gcm, 32)} \<Longrightarrow> length iv = 12 \<Longrightarrow>
      \<exists>x. crypter_new ssl dir c key iv = Ok x \<and> g x = Some (dir, c, key, iv, [], [], None)"
    by (rule L [THEN conjunct1, rule_format])
  show "g (crypter_no_padding ssl x) = g x"
    by (rule L [THEN conjunct2, THEN conjunct1, rule_format])
  show "g x = Some (dir, c, key, iv, a, [], t) \<Longrightarrow>
      \<exists>x'. crypter_aad ssl d x = (Ok (), x') \<and> g x' = Some (dir, c, key, iv, a @ d, [], t)"
    by (rule L [THEN conjunct2, THEN conjunct2, THEN conjunct1, rule_format])
  show "g x = Some (Encrypting, c, key, iv, a, ct, t) \<Longrightarrow>
      \<exists>x'. crypter_update ssl d x = (Ok (xor_from (ks c key iv) (length ct) d), x') \<and> g x' = Some (Encrypting, c, key, iv, a, ct @ xor_from (ks c key iv) (length ct) d, t)"
    by (rule L [THEN conjunct2, THEN conjunct2, THEN conjunct2, THEN conjunct1, rule_format])
  show "g x = Some (Decrypting, c, key, iv, a, ct, t) \<Longrightarrow>
      \<exists>x'. crypter_update ssl d x = (Ok (xor_from (ks c key iv) (length ct) d), x') \<and> g x' = Some (Decrypting, c, key, iv, a, ct @ d, t)"
    by (rule L [THEN conjunct2, THEN conjunct2, THEN conjunct2, THEN conjunct2, THEN conjunct1, rule_format])
  show "g x = Some (Encrypting, c, key, iv, a, ct, t) \<Longrightarrow>
      \<exists>x'. crypter_finalize ssl x = (Ok [], x') \<and> g x' = g x"
    by (rule L [THEN conjunct2, THEN conjunct2, THEN conjunct2, THEN conjunct2, THEN conjunct2, THEN conjunct1, rule_format])
  show "g x = Some (Encrypting, c, key, iv, a, ct, t) \<Longrightarrow>
      \<exists>x'. crypter_get_tag ssl 16 x = (Ok (tag c key iv a ct), x')"
    by (rule L [THEN conjunct2, THEN conjunct2, THEN conjunct2, THEN conjunct2, THEN conjunct2, THEN conjunct2, THEN conjunct1, rule_format])
  show "g x = Some (Decrypting, c, key, iv, a, ct, t) \<Longrightarrow>
      \<exists>x'. crypter_set_tag ssl d x = (Ok (), x') \<and> g x' = Some (Decrypting, c, key, iv, a, ct, Some d)"
    by (rule L [THEN conjunct2, THEN conjunct2, THEN conjunct2, THEN conjunct2, THEN conjunct2, THEN conjunct2, THEN conjunct2, THEN conjunct1, rule_format])
  show "g x = Some (Decrypting, c, key, iv, a, ct, Some t') \<Longrightarrow>
      \<exists>x'. crypter_finalize ssl x = (if t' = tag c key iv a ct then Ok [] else Err OpenSSLError, x')"
    by (rule L [THEN conjunct2, THEN conjunct2, THEN conjunct2, THEN conjunct2, THEN conjunct2, THEN conjunct2, THEN conjunct2, THEN conjunct2, THEN conjunct1, rule_format])
  show "length (tag c key iv a ct) = 16"
    by (rule L [THEN conjunct2, THEN conjunct2, THEN conjunct2, THEN conjunct2, THEN conjunct2, THEN conjunct2, THEN conjunct2, THEN conjunct2, THEN conjunct2, rule_format])
qed

definition gcm_ready :: "('g \<Rightarrow> gcm_view option) \<Rightarrow> direction \<Rightarrow> evp \<Rightarrow> bytes \<Rightarrow> bytes \<Rightarrow> 'g gcm \<Rightarrow> bool" where
  "gcm_ready g dir c key iv o' \<longleftrightarrow> gcm_cipher o' = c \<and> gcm_key o' = Some key \<and> gcm_iv o' = Some iv \<and>
     gcm_block o' = 16 \<and> gcm_tag_len o' = 16 \<and>
     (\<exists>x. gcm_ctx o' = Some x \<and> g x = Some (dir, c, key, iv, [], [], None))"

definition gcm_pair ::
    "('g \<Rightarrow> gcm_view option) \<Rightarrow> ('x, 'h, 'g) cipher_object \<Rightarrow> ('x, 'h, 'g) cipher_object \<Rightarrow> bool" where
  "gcm_pair g e d \<longleftrightarrow> (\<exists>a b c key iv. e = CGcm a \<and> d = CGcm b \<and>
     (c, length key) \<in> {(Aes128Gcm, 16), (Aes256Gcm, 32)} \<and> length iv = 12 \<and>
     gcm_ready g Encrypting c key iv a \<and> gcm_ready g Decrypting c key iv b)"

lemma gcm_reset_run:
  assumes l: "gcm_laws ssl g ks tag"
    and k: "(c, length key) \<in> {(Aes128Gcm, 16), (Aes256Gcm, 32)}" "length iv = 12"
    and a: "gcm_cipher a = c" "gcm_key a = Some key" "gcm_iv a = Some iv" "gcm_block a = 16" "gcm_tag_len a = 16"
  obtains a' where "gcm_reset ssl dir a = (Ok (), a')" "gcm_ready g dir c key (next_iv iv) a'"
proof -
  from k(2) have "length (next_iv iv) = 12" by simp
  from gcm_lawsD(1) [OF l k(1) this] obtain x where x: "crypter_new ssl dir c key (next_iv iv) = Ok x"
    "g x = Some (dir, c, key, next_iv iv, [], [], None)" by blast
  let ?a = "a\<lparr>gcm_iv := Some (next_iv iv), gcm_ctx := Some x\<rparr>"
  have "gcm_reset ssl dir a = (Ok (), ?a)"
    using a x(1) k(2) by (simp add: gcm_reset_def sr_defs)
  moreover have "gcm_ready g dir c key (next_iv iv) ?a"
    using a x(2) by (simp add: gcm_ready_def)
  ultimately show thesis by (rule that)
qed

lemma gcm_seal_run:
  assumes l: "gcm_laws ssl g ks tag"
    and k: "(c, length key) \<in> {(Aes128Gcm, 16), (Aes256Gcm, 32)}" "length iv = 12"
    and a: "gcm_ready g Encrypting c key iv a" and ct: "ct = xor_from (ks c key iv) 0 data"
  obtains a1 a2 a3 a4 where "gcm_aad ssl hdr a = (Ok hdr, a1)" "gcm_update ssl data a1 = (Ok ct, a2)"
    "gcm_seal_final ssl a2 = (Ok [], a3)" "gcm_tag_len a3 = 16"
    "gcm_get_tag ssl 16 a3 = (Ok (tag c key iv hdr ct), a4)"
    "gcm_ready g Encrypting c key (next_iv iv) a4"
proof -
  from a obtain x where x: "gcm_ctx a = Some x" "g x = Some (Encrypting, c, key, iv, [], [], None)"
    by (auto simp: gcm_ready_def)
  obtain x1 where x1: "crypter_aad ssl hdr x = (Ok (), x1)"
    "g x1 = Some (Encrypting, c, key, iv, [] @ hdr, [], None)"
    using gcm_lawsD(3) [OF l x(2)] by blast
  obtain x2 where x2: "crypter_update ssl data x1 = (Ok ct, x2)"
    "g x2 = Some (Encrypting, c, key, iv, hdr, ct, None)"
    using gcm_lawsD(4) [OF l x1(2), of data] ct by auto
  obtain x3 where x3: "crypter_finalize ssl x2 = (Ok [], x3)" "g x3 = g x2"
    using gcm_lawsD(6) [OF l x2(2)] by blast
  from x3(2) x2(2) have g3: "g x3 = Some (Encrypting, c, key, iv, hdr, ct, None)" by simp
  obtain x4 where x4: "crypter_get_tag ssl 16 x3 = (Ok (tag c key iv hdr ct), x4)"
    using gcm_lawsD(7) [OF l g3] by blast
  let ?a3 = "a\<lparr>gcm_ctx := Some x3\<rparr>" and ?a4 = "a\<lparr>gcm_ctx := Some x4\<rparr>"
  obtain a' where a': "gcm_reset ssl Encrypting ?a4 = (Ok (), a')" "gcm_ready g Encrypting c key (next_iv iv) a'"
    by (rule gcm_reset_run [OF l k, of ?a4]) (use a in \<open>simp_all add: gcm_ready_def\<close>)
  show thesis
  proof (rule that)
    show "gcm_aad ssl hdr a = (Ok hdr, a\<lparr>gcm_ctx := Some x1\<rparr>)"
      using x(1) x1(1) by (simp add: gcm_aad_def sr_defs)
    show "gcm_update ssl data (a\<lparr>gcm_ctx := Some x1\<rparr>) = (Ok ct, a\<lparr>gcm_ctx := Some x2\<rparr>)"
      using x2(1) by (simp add: gcm_update_def)
    show "gcm_seal_final ssl (a\<lparr>gcm_ctx := Some x2\<rparr>) = (Ok [], ?a3)"
      using x3(1) by (simp add: gcm_seal_final_def)
    show "gcm_tag_len ?a3 = 16" using a by (simp add: gcm_ready_def)
    show "gcm_get_tag ssl 16 ?a3 = (Ok (tag c key iv hdr ct), a')"
      using x4 a'(1) by (simp add: gcm_get_tag_def sr_defs)
    show "gcm_ready g Encrypting c key (next_iv iv) a'" by (rule a'(2))
  qed
qed

lemma gcm_open_run:
  assumes l: "gcm_laws ssl g ks tag"
    and k: "(c, length key) \<in> {(Aes128Gcm, 16), (Aes256Gcm, 32)}" "length iv = 12"
    and b: "gcm_ready g Decrypting c key iv b"
  obtains b1 b2 b3 b4 where "gcm_aad ssl hdr b = (Ok hdr, b1)"
    "gcm_update ssl ct b1 = (Ok (xor_from (ks c key iv) 0 ct), b2)"
    "gcm_set_tag ssl (tag c key iv hdr ct) b2 = (Ok (), b3)" "gcm_open_final ssl b3 = (Ok [], b4)"
    "gcm_ready g Decrypting c key (next_iv iv) b4"
proof -
  from b obtain x where x: "gcm_ctx b = Some x" "g x = Some (Decrypting, c, key, iv, [], [], None)"
    by (auto simp: gcm_ready_def)
  let ?t = "tag c key iv hdr ct"
  obtain x1 where x1: "crypter_aad ssl hdr x = (Ok (), x1)"
    "g x1 = Some (Decrypting, c, key, iv, [] @ hdr, [], None)"
    using gcm_lawsD(3) [OF l x(2)] by blast
  obtain x2 where x2: "crypter_update ssl ct x1 = (Ok (xor_from (ks c key iv) 0 ct), x2)"
    "g x2 = Some (Decrypting, c, key, iv, hdr, ct, None)"
    using gcm_lawsD(5) [OF l x1(2), of ct] by auto
  obtain x3 where x3: "crypter_set_tag ssl ?t x2 = (Ok (), x3)"
    "g x3 = Some (Decrypting, c, key, iv, hdr, ct, Some ?t)"
    using gcm_lawsD(8) [OF l x2(2)] by blast
  obtain x4 where x4: "crypter_finalize ssl x3 = (Ok [], x4)"
    using gcm_lawsD(9) [OF l x3(2)] by auto
  let ?b4 = "b\<lparr>gcm_ctx := Some x4\<rparr>"
  obtain b' where b': "gcm_reset ssl Decrypting ?b4 = (Ok (), b')" "gcm_ready g Decrypting c key (next_iv iv) b'"
    by (rule gcm_reset_run [OF l k, of ?b4]) (use b in \<open>simp_all add: gcm_ready_def\<close>)
  show thesis
  proof (rule that)
    show "gcm_aad ssl hdr b = (Ok hdr, b\<lparr>gcm_ctx := Some x1\<rparr>)"
      using x(1) x1(1) by (simp add: gcm_aad_def sr_defs)
    show "gcm_update ssl ct (b\<lparr>gcm_ctx := Some x1\<rparr>) = (Ok (xor_from (ks c key iv) 0 ct), b\<lparr>gcm_ctx := Some x2\<rparr>)"
      using x2(1) by (simp add: gcm_update_def)
    show "gcm_set_tag ssl ?t (b\<lparr>gcm_ctx := Some x2\<rparr>) = (Ok (), b\<lparr>gcm_ctx := Some x3\<rparr>)"
      using x3(1) by (simp add: gcm_set_tag_def)
    show "gcm_open_final ssl (b\<lparr>gcm_ctx := Some x3\<rparr>) = (Ok [], b')"
      using x4 b'(1) by (simp add: gcm_open_final_def sr_defs)
    show "gcm_ready g Decrypting c key (next_iv iv) b'" by (rule b'(2))
  qed
qed

lemma gcm_link:
  assumes l: "gcm_laws ssl g ks tag"
  shows "aead_link (suite ssl z) (gcm_pair g)"
  unfolding aead_link_def
proof (intro allI impI)
  fix e d :: "('a, 'b, 'c) cipher_object"
  assume "gcm_pair g e d"
  then obtain a b c key iv where e: "e = CGcm a" and d: "d = CGcm b"
    and k: "(c, length key) \<in> {(Aes128Gcm, 16), (Aes256Gcm, 32)}" "length iv = 12"
    and r: "gcm_ready g Encrypting c key iv a" "gcm_ready g Decrypting c key iv b"
    unfolding gcm_pair_def by blast
  from r have block: "gcm_block a = 16" "gcm_tag_len b = 16" by (simp_all add: gcm_ready_def)
  have "aead_packet (suite ssl z) (gcm_pair g) e d n hdr q" if "length hdr = 4" for n hdr q
  proof -
    define ct where "ct = xor_from (ks c key iv) 0 q"
    have q: "xor_from (ks c key iv) 0 ct = q" by (simp add: ct_def)
    obtain a1 a2 a3 a4 where a: "gcm_aad ssl hdr a = (Ok hdr, a1)" "gcm_update ssl q a1 = (Ok ct, a2)"
      "gcm_seal_final ssl a2 = (Ok [], a3)" "gcm_tag_len a3 = 16"
      "gcm_get_tag ssl 16 a3 = (Ok (tag c key iv hdr ct), a4)"
      "gcm_ready g Encrypting c key (next_iv iv) a4"
      by (rule gcm_seal_run [OF l k r(1) ct_def])
    obtain b1 b2 b3 b4 where b: "gcm_aad ssl hdr b = (Ok hdr, b1)" "gcm_update ssl ct b1 = (Ok q, b2)"
      "gcm_set_tag ssl (tag c key iv hdr ct) b2 = (Ok (), b3)" "gcm_open_final ssl b3 = (Ok [], b4)"
      "gcm_ready g Decrypting c key (next_iv iv) b4"
      by (rule gcm_open_run [OF l k r(2), of hdr ct, unfolded q])
    have "gcm_pair g (CGcm a4) (CGcm b4 :: ('a, 'b, 'c) cipher_object)"
      unfolding gcm_pair_def using a(6) b(5) k by (intro exI [of _ "next_iv iv"] exI conjI) auto
    moreover have "length ct = length q" by (simp add: ct_def)
    ultimately show ?thesis
      using a(1-5) b(1-4) that block gcm_lawsD(10) [OF l]
      by (intro aead_packetI [of _ _ _ "CGcm a" _ hdr "CGcm a1" q ct "CGcm a2" "[]" "CGcm a3"
            "tag c key iv hdr ct" "CGcm a4" _ "CGcm b" "CGcm b1" q "CGcm b2" "CGcm b3" "[]" "CGcm b4"])
        (simp_all add: e d)
  qed
  then show "e_gcm (suite ssl z) e \<and> 0 < e_block_size (suite ssl z) e \<and> e_block_size (suite ssl z) e \<le> 64 \<and>
      (\<forall>n hdr p. length hdr = 4 \<longrightarrow> length p mod e_block_size (suite ssl z) e = 0 \<longrightarrow>
        aead_packet (suite ssl z) (gcm_pair g) e d n hdr p)"
    by (simp add: e block)
qed

end
