(* ===== verification/SuiteFacts.thy ===== *)
theory SuiteFacts
  imports CipherFacts
begin

text \<open>
  The other half of a connection's algorithms: counter mode with an HMAC over the ciphertext, the
  pass-through compressor, and the zlib loops of \<open>src/cipher/compress.rs\<close>. At the end: objects made
  from one set of keys belong together.
\<close>

section \<open>Counter mode\<close>

definition ctr_ciphers :: "(evp \<times> nat) set" where
  "ctr_ciphers = {(Aes128Ctr, 16), (Aes192Ctr, 24), (Aes256Ctr, 32)}"

definition ctr_pair ::
    "('x \<Rightarrow> (evp \<times> bytes \<times> bytes \<times> nat) option) \<Rightarrow> ('x, 'h, 'g) cipher_object \<Rightarrow>
     ('x, 'h, 'g) cipher_object \<Rightarrow> bool" where
  "ctr_pair v e d \<longleftrightarrow> (\<exists>a b x y w. e = CPlain a \<and> d = CPlain b \<and> pc_block a = 16 \<and>
     pc_ctx a = Some x \<and> pc_ctx b = Some y \<and> v x = Some w \<and> v y = Some w)"

lemma ctr_link:
  assumes s: "stream_laws ssl v ks"
  shows "cipher_link (suite ssl z) (ctr_pair v)"
  unfolding cipher_link_def
proof (intro allI impI)
  fix e d :: "('a, 'b, 'c) cipher_object"
  assume "ctr_pair v e d"
  then obtain a b x y c key iv n where e: "e = CPlain a" and d: "d = CPlain b" and bl: "pc_block a = 16"
    and x: "pc_ctx a = Some x" "v x = Some (c, key, iv, n)"
    and y: "pc_ctx b = Some y" "v y = Some (c, key, iv, n)"
    by (auto simp: ctr_pair_def)
  have "\<exists>c1 e1 c2 e2 p1 d1 p2 d2. seal_update ssl p e = (Ok c1, e1) \<and> seal_final ssl e1 = (Ok c2, e2) \<and>
      length (c1 @ c2) = length p \<and> open_update ssl (c1 @ c2) d = (Ok p1, d1) \<and>
      open_final ssl d1 = (Ok p2, d2) \<and> p1 @ p2 = p \<and> ctr_pair v e2 d2" for p
  proof -
    define ct where "ct = xor_from (ks c key iv) n p"
    have p: "xor_from (ks c key iv) n ct = p" and len: "length ct = length p" by (simp_all add: ct_def)
    obtain x1 where x1: "cipher_update ssl p x = (Ok ct, x1)" "v x1 = Some (c, key, iv, n + length p)"
      using stream_lawsD(5) [OF s x(2), of p] by (auto simp: ct_def)
    obtain x2 where x2: "cipher_final ssl x1 = (Ok [], x2)" "v x2 = v x1"
      using stream_lawsD(6) [OF s x1(2)] by blast
    obtain y1 where y1: "cipher_update ssl ct y = (Ok p, y1)" "v y1 = Some (c, key, iv, n + length p)"
      using stream_lawsD(5) [OF s y(2), of ct] p len by auto
    obtain y2 where y2: "cipher_final ssl y1 = (Ok [], y2)" "v y2 = v y1"
      using stream_lawsD(6) [OF s y1(2)] by blast
    let ?a1 = "a\<lparr>pc_ctx := Some x1\<rparr>" and ?a2 = "a\<lparr>pc_ctx := Some x2\<rparr>"
    let ?b1 = "b\<lparr>pc_ctx := Some y1\<rparr>" and ?b2 = "b\<lparr>pc_ctx := Some y2\<rparr>"
    have "seal_update ssl p e = (Ok ct, CPlain ?a1)" "seal_final ssl (CPlain ?a1) = (Ok [], CPlain ?a2)"
      "open_update ssl ct d = (Ok p, CPlain ?b1)" "open_final ssl (CPlain ?b1) = (Ok [], CPlain ?b2)"
      using x(1) x1(1) x2(1) y(1) y1(1) y2(1) by (simp_all add: e d plain_update_def plain_final_def)
    moreover have "ctr_pair v (CPlain ?a2) (CPlain ?b2 :: ('a, 'b, 'c) cipher_object)"
      using bl x2(2) x1(2) y2(2) y1(2) by (simp add: ctr_pair_def)
    ultimately show ?thesis using len by (metis append_Nil2)
  qed
  then show "\<not> e_gcm (suite ssl z) e \<and> \<not> d_gcm (suite ssl z) d \<and> 0 < e_block_size (suite ssl z) e \<and>
      e_block_size (suite ssl z) e \<le> 64 \<and> (\<forall>n. d_update_seq (suite ssl z) n d = (Ok (), d)) \<and>
      (\<forall>p. length p mod e_block_size (suite ssl z) e = 0 \<longrightarrow>
        (\<exists>c1 e1 c2 e2 p1 d1 p2 d2. e_update (suite ssl z) p e = (Ok c1, e1) \<and>
           e_finalize (suite ssl z) e1 = (Ok c2, e2) \<and> length (c1 @ c2) = length p \<and>
           d_update (suite ssl z) (c1 @ c2) d = (Ok p1, d1) \<and> d_finalize (suite ssl z) d1 = (Ok p2, d2) \<and>
           p1 @ p2 = p \<and> ctr_pair v e2 d2))"
    by (simp add: e d bl)
qed

section \<open>HMAC\<close>

text \<open>The view of an HMAC context: its digest, its key and the message so far.\<close>

definition hmac_laws ::
    "('x, 'h, 'g) openssl \<Rightarrow> ('h \<Rightarrow> (digest \<times> bytes \<times> bytes) option) \<Rightarrow> (digest \<Rightarrow> nat) \<Rightarrow>
     (digest \<Rightarrow> bytes \<Rightarrow> bytes \<Rightarrow> bytes) \<Rightarrow> bool" where
  "hmac_laws ssl w out_len mac \<longleftrightarrow>
     (\<forall>dig key. \<exists>h. hmac_init ssl dig key = Ok h \<and> w h = Some (dig, key, [])) \<and>
     (\<forall>h dig key m d. w h = Some (dig, key, m) \<longrightarrow>
        (\<exists>h'. sign_update ssl d h = (Ok (), h') \<and> w h' = Some (dig, key, m @ d))) \<and>
     (\<forall>h dig key m. w h = Some (dig, key, m) \<longrightarrow>
        (\<exists>h'. sign_size ssl h = (Ok (out_len dig), h') \<and> w h' = w h)) \<and>
     (\<forall>h dig key m. w h = Some (dig, key, m) \<longrightarrow>
        (\<exists>h'. sign_final ssl (out_len dig) h = (Ok (mac dig key m), h'))) \<and>
     (\<forall>dig key m. length (mac dig key m) = out_len dig)"

definition hmac_fresh :: "('h \<Rightarrow> (digest \<times> bytes \<times> bytes) option) \<Rightarrow> 'h hmac \<Rightarrow> bytes \<Rightarrow> bytes \<Rightarrow> bool" where
  "hmac_fresh w m key msg \<longleftrightarrow> hmac_key m = Some key \<and>
     (\<exists>h. hmac_ctx m = Some h \<and> w h = Some (hmac_digest m, key, msg))"

lemma hmac_parts_run:
  assumes l: "hmac_laws ssl w out_len mac" and m: "hmac_fresh w m key msg"
  obtains m' where "for_each (hmac_update ssl) parts m = (Ok (), m')" "hmac_fresh w m' key (msg @ concat parts)"
    "hmac_digest m' = hmac_digest m" "hmac_mac_len m' = hmac_mac_len m" "hmac_etm m' = hmac_etm m"
  using m
proof (induction parts arbitrary: m msg thesis)
  case Nil
  then show ?case by (simp add: sr_defs)
next
  case (Cons d parts)
  from Cons.prems(2) obtain h where h: "hmac_key m = Some key" "hmac_ctx m = Some h"
    "w h = Some (hmac_digest m, key, msg)" by (auto simp: hmac_fresh_def)
  with l obtain h1 where h1: "sign_update ssl d h = (Ok (), h1)" "w h1 = Some (hmac_digest m, key, msg @ d)"
    unfolding hmac_laws_def by blast
  let ?m = "m\<lparr>hmac_ctx := Some h1\<rparr>"
  have u: "hmac_update ssl d m = (Ok (), ?m)" using h(2) h1(1) by (simp add: hmac_update_def)
  have "hmac_fresh w ?m key (msg @ d)" using h(1) h1(2) by (simp add: hmac_fresh_def)
  from Cons.IH [OF _ this] obtain m' where "for_each (hmac_update ssl) parts ?m = (Ok (), m')"
    "hmac_fresh w m' key ((msg @ d) @ concat parts)" "hmac_digest m' = hmac_digest ?m"
    "hmac_mac_len m' = hmac_mac_len ?m" "hmac_etm m' = hmac_etm ?m" by metis
  with u Cons.prems(1) show ?case by simp
qed

text \<open>The tag is the front of the HMAC, and the object is ready for the next packet.\<close>

lemma hmac_finalize_run:
  assumes l: "hmac_laws ssl w out_len mac" and m: "hmac_fresh w m key msg"
  obtains m' where "hmac_finalize ssl m = (Ok (take (hmac_mac_len m) (mac (hmac_digest m) key msg)), m')"
    "hmac_fresh w m' key []" "hmac_digest m' = hmac_digest m" "hmac_mac_len m' = hmac_mac_len m"
    "hmac_etm m' = hmac_etm m"
proof -
  from m obtain h where h: "hmac_key m = Some key" "hmac_ctx m = Some h"
    "w h = Some (hmac_digest m, key, msg)" by (auto simp: hmac_fresh_def)
  with l obtain h1 where h1: "sign_size ssl h = (Ok (out_len (hmac_digest m)), h1)" "w h1 = w h"
    unfolding hmac_laws_def by blast
  from h1(2) h(3) have "w h1 = Some (hmac_digest m, key, msg)" by simp
  with l obtain h2 where h2: "sign_final ssl (out_len (hmac_digest m)) h1 = (Ok (mac (hmac_digest m) key msg), h2)"
    unfolding hmac_laws_def by blast
  from l obtain h3 where h3: "hmac_init ssl (hmac_digest m) key = Ok h3" "w h3 = Some (hmac_digest m, key, [])"
    unfolding hmac_laws_def by blast
  let ?m = "m\<lparr>hmac_ctx := Some h3\<rparr>"
  have "hmac_finalize ssl m = (Ok (take (hmac_mac_len m) (mac (hmac_digest m) key msg)), ?m)"
    using h(1,2) h1(1) h2 h3(1) by (simp add: hmac_finalize_def sr_defs)
  moreover have "hmac_fresh w ?m key []" using h(1) h3(2) by (simp add: hmac_fresh_def)
  ultimately show thesis by (rule that) simp_all
qed

definition hmac_pair ::
    "('h \<Rightarrow> (digest \<times> bytes \<times> bytes) option) \<Rightarrow> (digest \<Rightarrow> nat) \<Rightarrow> 'h hmac \<Rightarrow> 'h hmac \<Rightarrow> bool" where
  "hmac_pair w out_len a b \<longleftrightarrow> (\<exists>key. hmac_fresh w a key [] \<and> hmac_fresh w b key []) \<and>
     hmac_digest a = hmac_digest b \<and> hmac_mac_len a = hmac_mac_len b \<and> hmac_etm a \<and> hmac_etm b \<and>
     hmac_mac_len b \<le> 64 \<and> hmac_mac_len b \<le> out_len (hmac_digest b)"

lemma hmac_link:
  assumes l: "hmac_laws ssl w out_len mac"
  shows "mac_link (suite ssl z) (hmac_pair w out_len)"
  unfolding mac_link_def
proof (intro allI impI)
  fix a b
  assume "hmac_pair w out_len a b"
  then obtain key where k: "hmac_fresh w a key []" "hmac_fresh w b key []"
    and q: "hmac_digest a = hmac_digest b" "hmac_mac_len a = hmac_mac_len b" "hmac_etm a" "hmac_etm b"
      "hmac_mac_len b \<le> 64" "hmac_mac_len b \<le> out_len (hmac_digest b)"
    by (auto simp: hmac_pair_def)
  have len: "length (mac dig key m) = out_len dig" for dig key m using l unfolding hmac_laws_def by blast
  have "\<exists>m1 m2 v1 v2 tag. for_each (hmac_update ssl) parts a = (Ok (), m1) \<and> hmac_finalize ssl m1 = (Ok tag, m2) \<and>
      for_each (hmac_update ssl) parts b = (Ok (), v1) \<and> hmac_finalize ssl v1 = (Ok tag, v2) \<and>
      length tag = hmac_mac_len b \<and> hmac_pair w out_len m2 v2" for parts
  proof -
    let ?tag = "take (hmac_mac_len b) (mac (hmac_digest b) key (concat parts))"
    obtain a1 where a1: "for_each (hmac_update ssl) parts a = (Ok (), a1)"
      "hmac_fresh w a1 key ([] @ concat parts)" "hmac_digest a1 = hmac_digest a"
      "hmac_mac_len a1 = hmac_mac_len a" "hmac_etm a1 = hmac_etm a"
      by (rule hmac_parts_run [OF l k(1)])
    obtain a2 where a2: "hmac_finalize ssl a1 = (Ok (take (hmac_mac_len a1)
        (mac (hmac_digest a1) key ([] @ concat parts))), a2)" "hmac_fresh w a2 key []"
      "hmac_digest a2 = hmac_digest a1" "hmac_mac_len a2 = hmac_mac_len a1" "hmac_etm a2 = hmac_etm a1"
      by (rule hmac_finalize_run [OF l a1(2)])
    obtain b1 where b1: "for_each (hmac_update ssl) parts b = (Ok (), b1)"
      "hmac_fresh w b1 key ([] @ concat parts)" "hmac_digest b1 = hmac_digest b"
      "hmac_mac_len b1 = hmac_mac_len b" "hmac_etm b1 = hmac_etm b"
      by (rule hmac_parts_run [OF l k(2)])
    obtain b2 where b2: "hmac_finalize ssl b1 = (Ok (take (hmac_mac_len b1)
        (mac (hmac_digest b1) key ([] @ concat parts))), b2)" "hmac_fresh w b2 key []"
      "hmac_digest b2 = hmac_digest b1" "hmac_mac_len b2 = hmac_mac_len b1" "hmac_etm b2 = hmac_etm b1"
      by (rule hmac_finalize_run [OF l b1(2)])
    have "length ?tag = hmac_mac_len b" using q(6) by (simp add: len)
    moreover have "hmac_pair w out_len a2 b2"
      unfolding hmac_pair_def using a1(3-5) a2(2-5) b1(3-5) b2(2-5) q by auto
    moreover have "hmac_finalize ssl a1 = (Ok ?tag, a2)" "hmac_finalize ssl b1 = (Ok ?tag, b2)"
      using a2(1) b2(1) a1(3,4) b1(3,4) q(1,2) by simp_all
    ultimately show ?thesis using a1(1) b1(1) by blast
  qed
  then show "m_etm (suite ssl z) a \<and> m_etm (suite ssl z) b \<and> m_len (suite ssl z) b \<le> 64 \<and>
      (\<forall>seq parts. \<exists>m1 m2 v1 v2 tag.
        for_each (m_update (suite ssl z)) (u32_to_be seq # parts) a = (Ok (), m1) \<and>
        m_finalize (suite ssl z) m1 = (Ok tag, m2) \<and>
        for_each (m_update (suite ssl z)) (u32_to_be seq # parts) b = (Ok (), v1) \<and>
        m_finalize (suite ssl z) v1 = (Ok tag, v2) \<and> length tag = m_len (suite ssl z) b \<and>
        hmac_pair w out_len m2 v2)"
    using q by (simp del: for_each.simps)
qed

section \<open>Compression\<close>

definition never_pair :: "'w coder \<Rightarrow> 'v coder \<Rightarrow> bool" where
  "never_pair c z \<longleftrightarrow> c = Never [] \<and> z = Never []"

lemma never_link: "zip_link (suite ssl z) never_pair"
  by (simp add: zip_link_def never_pair_def)

text \<open>Once zlib has reached its end mark it takes no more input and says so again.\<close>

lemma zdec_loop_stuck:
  assumes stuck: "\<And>d. z_decompress z zdec_cap d w = (Some (ZStreamEnd, 0, []), w)"
    and c: "zc_stream c = w" "i < length data"
  shows "zdec_loop z data i c = None"
proof (rule ccontr)
  assume "zdec_loop z data i c \<noteq> None"
  then obtain x where ret: "zdec_loop z data i c = Some x" by blast
  have "\<not> (z = z \<and> i < length data \<and> zc_stream c = w)"
  proof (rule zdec_loop.raw_induct [where P = "\<lambda>z' d j c' r. \<not> (z' = z \<and> j < length d \<and> zc_stream c' = w)", OF _ ret])
    fix loop z' data i c x
    assume IH: "\<And>z' d j c' r. loop z' d j c' = Some r \<Longrightarrow> \<not> (z' = z \<and> j < length d \<and> zc_stream c' = w)"
      and eq: "(case z_decompress z' zdec_cap (drop i data) (zc_stream c) of
          (None, u) \<Rightarrow> Some (Err compress_failed, c\<lparr>zc_stream := u\<rparr>)
        | (Some (st, n, out), u) \<Rightarrow>
            if st = ZOk \<or> i + n < length data
            then loop z' data (i + n) (c\<lparr>zc_stream := u, zc_buf := zc_buf c @ out\<rparr>)
            else Some (Ok (), c\<lparr>zc_stream := u, zc_buf := zc_buf c @ out\<rparr>)) = Some x"
    show "\<not> (z' = z \<and> i < length data \<and> zc_stream c = w)"
    proof
      assume "z' = z \<and> i < length data \<and> zc_stream c = w"
      with eq stuck [of "drop i data"] have "loop z data i (c\<lparr>zc_stream := w, zc_buf := zc_buf c @ []\<rparr>) = Some x"
        and "i < length data" by simp_all
      with IH [of z data i] show False by fastforce
    qed
  qed
  with c show False by simp
qed

section \<open>Objects made from the same keys\<close>

lemma object_of_Ok [simp]: "object_of (r, a) = Ok b \<longleftrightarrow> r = Ok () \<and> a = b"
  by (cases r) auto

lemma chacha_initialize_run:
  assumes s: "stream_laws ssl v ks" and k: "length key = 64"
  obtains c' where "chacha_initialize ssl dir key c = (Ok (), c')" "keyed v c' (take 32 key) (drop 32 key)"
proof -
  obtain x iv n where x: "cipher_init ssl dir ChaCha20 (take 32 key) None = Ok x"
    "v x = Some (ChaCha20, take 32 key, iv, n)"
    using stream_lawsD(1) [OF s, of "take 32 key" dir] k by auto
  obtain y iv' n' where y: "cipher_init ssl dir ChaCha20 (drop 32 key) None = Ok y"
    "v y = Some (ChaCha20, drop 32 key, iv', n')"
    using stream_lawsD(1) [OF s, of "drop 32 key" dir] k by auto
  let ?c = "c\<lparr>main_ctx := Some x, header_ctx := Some y\<rparr>"
  have "chacha_initialize ssl dir key c = (Ok (), ?c)"
    using x(1) y(1) k by (simp add: chacha_initialize_def sr_defs)
  moreover have "keyed v ?c (take 32 key) (drop 32 key)" using x(2) y(2) by (simp add: keyed_def)
  ultimately show thesis by (rule that)
qed

lemma gcm_initialize_run:
  assumes l: "gcm_laws ssl g ks tag"
    and k: "(gcm_cipher a, length key) \<in> {(Aes128Gcm, 16), (Aes256Gcm, 32)}" "length iv = 12"
    and a: "gcm_block a = 16" "gcm_tag_len a = 16"
  obtains a' where "gcm_initialize ssl dir iv key a = (Ok (), a')" "gcm_ready g dir (gcm_cipher a) key iv a'"
proof -
  obtain x where x: "crypter_new ssl dir (gcm_cipher a) key iv = Ok x"
    "g x = Some (dir, gcm_cipher a, key, iv, [], [], None)"
    using gcm_lawsD(1) [OF l k] by blast
  let ?a = "a\<lparr>gcm_ctx := Some (crypter_no_padding ssl x), gcm_iv := Some iv, gcm_key := Some key\<rparr>"
  have "gcm_initialize ssl dir iv key a = (Ok (), ?a)"
    using x(1) by (simp add: gcm_initialize_def sr_defs)
  moreover have "gcm_ready g dir (gcm_cipher a) key iv ?a"
    using a x(2) gcm_lawsD(2) [OF l] by (simp add: gcm_ready_def)
  ultimately show thesis by (rule that)
qed

lemma plain_initialize_run:
  assumes s: "stream_laws ssl v ks" and k: "(pc_cipher a, length key) \<in> ctr_ciphers" "length iv = 16"
  obtains a' x where "plain_initialize ssl dir iv key a = (Ok (), a')" "pc_ctx a' = Some x"
    "v x = Some (pc_cipher a, key, iv, 0)" "pc_block a' = pc_block a"
proof -
  obtain x where x: "cipher_init ssl dir (pc_cipher a) key (Some iv) = Ok x" "v x = Some (pc_cipher a, key, iv, 0)"
    using stream_lawsD(2) [OF s _ k(2)] k(1) unfolding ctr_ciphers_def by blast
  let ?a = "a\<lparr>pc_ctx := Some (cipher_no_padding ssl x)\<rparr>"
  have "plain_initialize ssl dir iv key a = (Ok (), ?a)"
    using x(1) by (simp add: plain_initialize_def sr_defs)
  moreover have "v (cipher_no_padding ssl x) = Some (pc_cipher a, key, iv, 0)"
    using x(2) stream_lawsD(3) [OF s] by simp
  ultimately show thesis by (intro that [of ?a "cipher_no_padding ssl x"]) simp_all
qed

lemma aead_registry:
  "(name, obj) \<in> set cipher_registry \<Longrightarrow> is_galois_counter_mode obj \<Longrightarrow>
   obj \<in> {CChacha chacha_new, CGcm aes256_gcm_openssh, CGcm aes128_gcm_openssh}"
  by (auto simp: cipher_registry_def)

definition aead_pair where
  "aead_pair v g = (\<lambda>e d. chacha_pair v e d \<or> gcm_pair g e d)"

lemma aead_packet_mono:
  assumes "aead_packet k R e d n hdr p" and R: "\<And>e d. R e d \<Longrightarrow> R' e d"
  shows "aead_packet k R' e d n hdr p"
proof -
  from assms(1) obtain e1 hdr' e2 c1 e3 c2 e4 tag e5 d1 d2 p1 d3 d4 p2 d5 where a:
    "e_update_seq k n e = (Ok (), e1)" "e_aad k hdr e1 = (Ok hdr', e2)"
    "e_update k p e2 = (Ok c1, e3)" "e_finalize k e3 = (Ok c2, e4)"
    "e_tag k (e_tag_len k e4) e4 = (Ok tag, e5)" "length hdr' = 4" "length (c1 @ c2) = length p"
    "d_update_seq k n d = (Ok (), d1)" "d_gcm k d1" "length tag = d_tag_len k d1"
    "d_tag_len k d1 \<le> 64" "d_aad k hdr' d1 = (Ok hdr, d2)"
    "d_update k (c1 @ c2) d2 = (Ok p1, d3)" "d_set_tag k tag d3 = (Ok (), d4)"
    "d_finalize k d4 = (Ok p2, d5)" "p1 @ p2 = p" "R e5 d5"
    unfolding aead_packet_def by blast
  show ?thesis by (rule aead_packetI [where R = R', OF a(1-16) R [OF a(17)]])
qed

lemma aead_link_or:
  assumes "aead_link k R" "aead_link k S"
  shows "aead_link k (\<lambda>e d. R e d \<or> S e d)"
  unfolding aead_link_def
proof (intro allI impI)
  fix e d assume "R e d \<or> S e d"
  then obtain T where T: "aead_link k T" "T e d" "\<And>e d. T e d \<Longrightarrow> R e d \<or> S e d"
    using assms by blast
  note l = aead_linkD [OF T(1,2)]
  have "aead_packet k (\<lambda>e d. R e d \<or> S e d) e d n hdr p"
    if "length hdr = 4" "length p mod e_block_size k e = 0" for n hdr p
    by (rule aead_packet_mono [OF l(4) [OF that] T(3)])
  with l(1-3) show "e_gcm k e \<and> 0 < e_block_size k e \<and> e_block_size k e \<le> 64 \<and>
      (\<forall>n hdr p. length hdr = 4 \<longrightarrow> length p mod e_block_size k e = 0 \<longrightarrow>
        aead_packet k (\<lambda>e d. R e d \<or> S e d) e d n hdr p)" by simp
qed

lemma aead_registry_link:
  assumes "stream_laws ssl v ks" "poly_laws ssl p poly" "gcm_laws ssl g gks tag"
  shows "aead_link (suite ssl z) (aead_pair v g)"
  unfolding aead_pair_def
  by (rule aead_link_or [OF chacha_link [OF assms(1,2)] gcm_link [OF assms(3)]])

lemma aead_fresh:
  assumes laws: "stream_laws ssl v ks" "gcm_laws ssl g gks tag"
    and r: "(name, obj) \<in> set cipher_registry" "is_galois_counter_mode obj"
    and len: "length iv = iv_len_of obj" "length key = key_len_of obj"
    and e: "cipher_initialize (cipher_factory_of ssl Encrypting obj) iv key = Ok e"
    and d: "cipher_initialize (cipher_factory_of ssl Decrypting obj) iv key = Ok d"
  shows "aead_pair v g e d"
proof -
  consider "obj = CChacha chacha_new"
    | a where "obj = CGcm a" "a \<in> {aes256_gcm_openssh, aes128_gcm_openssh}"
    using aead_registry [OF r] by auto
  then show ?thesis
  proof cases
    case 1
    have k: "length key = 64" using len 1 by simp
    obtain c where c: "chacha_initialize ssl Encrypting key chacha_new = (Ok (), c)"
      "keyed v c (take 32 key) (drop 32 key)" by (rule chacha_initialize_run [OF laws(1) k])
    obtain c' where c': "chacha_initialize ssl Decrypting key chacha_new = (Ok (), c')"
      "keyed v c' (take 32 key) (drop 32 key)" by (rule chacha_initialize_run [OF laws(1) k])
    have "e = CChacha c" "d = CChacha c'"
      using e d c(1) c'(1) 1 by (simp_all add: cipher_factory_of_def)
    with c(2) c'(2) show ?thesis by (auto simp: aead_pair_def chacha_pair_def)
  next
    case 2
    then have k: "(gcm_cipher a, length key) \<in> {(Aes128Gcm, 16), (Aes256Gcm, 32)}" "length iv = 12"
      and a: "gcm_block a = 16" "gcm_tag_len a = 16"
      using len by (auto simp: aes256_gcm_openssh_def aes128_gcm_openssh_def gcm_new_def)
    obtain b where b: "gcm_initialize ssl Encrypting iv key a = (Ok (), b)"
      "gcm_ready g Encrypting (gcm_cipher a) key iv b" by (rule gcm_initialize_run [OF laws(2) k a])
    obtain b' where b': "gcm_initialize ssl Decrypting iv key a = (Ok (), b')"
      "gcm_ready g Decrypting (gcm_cipher a) key iv b'" by (rule gcm_initialize_run [OF laws(2) k a])
    have "e = CGcm b" "d = CGcm b'"
      using e d b(1) b'(1) 2(1) by (simp_all add: cipher_factory_of_def)
    with b(2) b'(2) k show ?thesis unfolding aead_pair_def gcm_pair_def by blast
  qed
qed

lemma ctr_fresh:
  assumes s: "stream_laws ssl v ks"
    and r: "(name, CPlain a) \<in> set cipher_registry" "pc_cipher a \<in> {Aes128Ctr, Aes192Ctr, Aes256Ctr}"
    and len: "length iv = pc_iv_len a" "length key = pc_key_len a"
    and e: "cipher_initialize (cipher_factory_of ssl Encrypting (CPlain a)) iv key = Ok e"
    and d: "cipher_initialize (cipher_factory_of ssl Decrypting (CPlain a)) iv key = Ok d"
  shows "ctr_pair v e d"
proof -
  have k: "(pc_cipher a, length key) \<in> ctr_ciphers" "length iv = 16" and bl: "pc_block a = 16"
    using r len by (auto simp: cipher_registry_def ctr_ciphers_def aes256_ctr_def aes192_ctr_def aes128_ctr_def
        aes256_cbc_def aes192_cbc_def aes128_cbc_def des_ede3_cbc_def plain_cipher_new_def)
  obtain b x where b: "plain_initialize ssl Encrypting iv key a = (Ok (), b)" "pc_ctx b = Some x"
    "v x = Some (pc_cipher a, key, iv, 0)" "pc_block b = pc_block a"
    by (rule plain_initialize_run [OF s k])
  obtain b' x' where b': "plain_initialize ssl Decrypting iv key a = (Ok (), b')" "pc_ctx b' = Some x'"
    "v x' = Some (pc_cipher a, key, iv, 0)" "pc_block b' = pc_block a"
    by (rule plain_initialize_run [OF s k])
  have "e = CPlain b" "d = CPlain b'"
    using e d b(1) b'(1) by (simp_all add: cipher_factory_of_def)
  with b b' bl show ?thesis by (simp add: ctr_pair_def)
qed

fun digest_size :: "digest \<Rightarrow> nat" where
  "digest_size Md5 = 16" | "digest_size Sha1 = 20" | "digest_size Sha256 = 32"
| "digest_size Sha384 = 48" | "digest_size Sha512 = 64"

lemma hmac_fresh_pair:
  assumes l: "hmac_laws ssl w digest_size mac" and r: "(name, m) \<in> set mac_registry" "hmac_etm m"
    and a: "hmac_initialize ssl key m = (Ok (), a)" and b: "hmac_initialize ssl key m = (Ok (), b)"
  shows "hmac_pair w digest_size a b"
proof -
  from l obtain h where h: "hmac_init ssl (hmac_digest m) key = Ok h" "w h = Some (hmac_digest m, key, [])"
    unfolding hmac_laws_def by blast
  have m: "hmac_mac_len m \<le> 64 \<and> hmac_mac_len m \<le> digest_size (hmac_digest m)"
    using r(1) by (auto simp: mac_registry_def hmac_new_def)
  have "a = m\<lparr>hmac_ctx := Some h, hmac_key := Some key\<rparr>" "b = a"
    using a b h(1) by (auto simp: hmac_initialize_def sr_defs)
  with h(2) m r(2) show ?thesis by (simp add: hmac_pair_def hmac_fresh_def)
qed

section \<open>AES-GCM packets\<close>

lemma compress_keeps:
  assumes "compress_payload k data s = (r, t)"
  shows "encrypt t = encrypt s \<and> csock t = csock s \<and> client t = client s \<and> server t = server s"
proof -
  have "keeps (\<lambda>s. (encrypt s, csock s, client s, server s)) (compress_payload k data)"
    unfolding compress_payload_def by (intro keeps_rules) simp_all
  from keepsD [OF this assms] show ?thesis by simp
qed

lemma compress_never:
  "encode s = Never [] \<Longrightarrow> compress_payload (suite ssl z) data s = (Ok data, s)"
  by (cases "authenticated s") (auto simp: compress_payload_def sr_defs)

text \<open>RFC 5647: the length field in the clear, the ciphertext, and the tag of both, under one nonce.\<close>

definition gcm_packet ::
    "(evp \<Rightarrow> bytes \<Rightarrow> bytes \<Rightarrow> nat \<Rightarrow> u8) \<Rightarrow> (evp \<Rightarrow> bytes \<Rightarrow> bytes \<Rightarrow> bytes \<Rightarrow> bytes \<Rightarrow> bytes) \<Rightarrow> evp \<Rightarrow>
     bytes \<Rightarrow> bytes \<Rightarrow> bytes \<Rightarrow> bytes" where
  "gcm_packet ks tag c key nonce f =
     (let ct = xor_from (ks c key nonce) 0 (drop 4 f) in take 4 f @ ct @ tag c key nonce (take 4 f) ct)"

text \<open>A sending stream whose AES-GCM context waits for a packet under the nonce \<open>iv\<close>.\<close>

definition gcm_sender where
  "gcm_sender g c key iv s \<longleftrightarrow> (\<exists>a. encrypt s = CGcm a \<and> gcm_ready g Encrypting c key iv a) \<and>
     w_buf (csock s) = [] \<and> \<not> broken (csock s)"

lemma gcm_send_run:
  assumes l: "gcm_laws ssl g ks tag"
    and k: "(c, length key) \<in> {(Aes128Gcm, 16), (Aes256Gcm, 32)}" "length iv = 12"
    and s: "gcm_sender g c key iv s"
    and run: "cipher_send_payload (suite ssl z) rnd d s = (Ok (), s')"
  shows "\<exists>x. (encode s = Never [] \<longrightarrow> x = d \<and> encode s' = Never []) \<and> gcm_sender g c key (next_iv iv) s' \<and>
    outbound (csock s') = outbound (csock s) @
      gcm_packet ks tag c key iv (cipher_frame rnd x (padding_for 16 (1 + length x)))"
proof -
  let ?k = "suite ssl z"
  from s obtain a where a: "encrypt s = CGcm a" "gcm_ready g Encrypting c key iv a"
    and b: "w_buf (csock s) = []" "\<not> broken (csock s)" by (auto simp: gcm_sender_def)
  from run obtain x t where x: "compress_payload ?k d s = (Ok x, t)"
    by (auto simp: cipher_send_payload_def sbind_Ok_iff sr_defs split: if_splits)
  from compress_keeps [OF x] have t: "encrypt t = encrypt s" "csock t = csock s" "client t = client s" by simp_all
  define f where "f = cipher_frame rnd x (padding_for 16 (1 + length x))"
  obtain a1 a2 a3 a4 where r: "gcm_aad ssl (take 4 f) a = (Ok (take 4 f), a1)"
    "gcm_update ssl (drop 4 f) a1 = (Ok (xor_from (ks c key iv) 0 (drop 4 f)), a2)"
    "gcm_seal_final ssl a2 = (Ok [], a3)" "gcm_tag_len a3 = 16"
    "gcm_get_tag ssl 16 a3 = (Ok (tag c key iv (take 4 f) (xor_from (ks c key iv) 0 (drop 4 f))), a4)"
    "gcm_ready g Encrypting c key (next_iv iv) a4"
    by (rule gcm_seal_run [OF l k a(2) refl])
  have block: "gcm_block a = 16" using a(2) by (simp add: gcm_ready_def)
  have "\<exists>q. send_gcm ?k rnd x t = (Ok (), t\<lparr>encrypt := CGcm a4, csock := (csock t)\<lparr>outbound := outbound (csock t) @
      take 4 f @ xor_from (ks c key iv) 0 (drop 4 f) @ [] @
      tag c key iv (take 4 f) (xor_from (ks c key iv) 0 (drop 4 f)), quotas := q\<rparr>\<rparr>)"
    using r(1-5) a(1) b t f_def block
    by (intro aead_send_run [of ?k t "CGcm a" f "take 4 f" "CGcm a1" "xor_from (ks c key iv) 0 (drop 4 f)"
          "CGcm a2" "[]" "CGcm a3" "tag c key iv (take 4 f) (xor_from (ks c key iv) 0 (drop 4 f))" "CGcm a4"])
      simp_all
  then obtain q where q: "send_gcm ?k rnd x t = (Ok (), t\<lparr>encrypt := CGcm a4, csock := (csock s)\<lparr>outbound :=
      outbound (csock s) @ gcm_packet ks tag c key iv f, quotas := q\<rparr>\<rparr>)"
    using t by (auto simp: gcm_packet_def Let_def)
  obtain reset where "s' = bump_client reset (t\<lparr>encrypt := CGcm a4, csock := (csock s)\<lparr>outbound :=
      outbound (csock s) @ gcm_packet ks tag c key iv f, quotas := q\<rparr>\<rparr>)"
    using run x q a(1) t(1) by (auto simp: cipher_send_payload_def sr_defs sbind_def split: if_splits)
  then show ?thesis
    using r(6) b compress_never [of s ssl z d] x
    by (intro exI [of _ x]) (auto simp: gcm_sender_def bump_client_def f_def)
qed

lemma gcm_send_all_run:
  assumes l: "gcm_laws ssl g ks tag"
    and k: "(c, length key) \<in> {(Aes128Gcm, 16), (Aes256Gcm, 32)}"
  shows "length iv = 12 \<Longrightarrow> gcm_sender g c key iv s \<Longrightarrow> cipher_send_all (suite ssl z) ds s = (Ok (), s') \<Longrightarrow>
    \<exists>xs. length xs = length ds \<and> (encode s = Never [] \<longrightarrow> xs = map snd ds) \<and>
      gcm_sender g c key ((next_iv ^^ length ds) iv) s' \<and>
      outbound (csock s') = outbound (csock s) @ concat (map (\<lambda>i. gcm_packet ks tag c key ((next_iv ^^ i) iv)
        (cipher_frame (fst (ds ! i)) (xs ! i) (padding_for 16 (1 + length (xs ! i))))) [0..<length ds])"
proof (induction ds arbitrary: s iv)
  case Nil
  then show ?case by (auto simp: cipher_send_all_def sreturn_def)
next
  case (Cons d ds)
  from Cons.prems(3) obtain s1 where s1: "cipher_send_payload (suite ssl z) (fst d) (snd d) s = (Ok (), s1)"
    "cipher_send_all (suite ssl z) ds s1 = (Ok (), s')"
    by (cases d) (auto simp: cipher_send_all_def sbind_Ok_iff)
  from gcm_send_run [OF l k Cons.prems(1,2) s1(1)] obtain x where x:
    "encode s = Never [] \<Longrightarrow> x = snd d \<and> encode s1 = Never []" "gcm_sender g c key (next_iv iv) s1"
    "outbound (csock s1) = outbound (csock s) @
      gcm_packet ks tag c key iv (cipher_frame (fst d) x (padding_for 16 (1 + length x)))"
    by blast
  have iv: "length (next_iv iv) = 12" using Cons.prems(1) by simp
  from Cons.IH [OF iv x(2) s1(2)] obtain xs where xs: "length xs = length ds"
    "encode s1 = Never [] \<Longrightarrow> xs = map snd ds" "gcm_sender g c key ((next_iv ^^ length ds) (next_iv iv)) s'"
    "outbound (csock s') = outbound (csock s1) @ concat (map (\<lambda>i. gcm_packet ks tag c key ((next_iv ^^ i) (next_iv iv))
        (cipher_frame (fst (ds ! i)) (xs ! i) (padding_for 16 (1 + length (xs ! i))))) [0..<length ds])"
    by blast
  show ?case
    using x xs by (intro exI [of _ "x # xs"])
      (auto simp: upt_conv_Cons map_Suc_upt [symmetric] funpow_swap1 comp_def simp del: upt_Suc)
qed

end
