(* ===== verification/SuiteProperties.thy ===== *)
theory SuiteProperties
  imports SuiteFacts
begin

text \<open>
  The properties of the symmetric algorithms, with runs on a small library that keeps OpenSSL's
  contract: its contexts are their own views, its key streams count and its tags are sums.
\<close>

section \<open>A library that keeps the contract\<close>

datatype demo_md = PolyCtx bytes bytes | HmacCtx digest bytes bytes | NoCtx

type_synonym demo_ctx = "evp \<times> bytes \<times> bytes \<times> nat"

definition demo_ks :: "evp \<Rightarrow> bytes \<Rightarrow> bytes \<Rightarrow> nat \<Rightarrow> u8" where
  "demo_ks c key iv n = sum_list key + sum_list iv + word_of_nat (7 * n)"

definition demo_poly :: "bytes \<Rightarrow> bytes \<Rightarrow> bytes" where
  "demo_poly key m = replicate 16 (sum_list (key @ m))"

definition demo_gcm_tag :: "evp \<Rightarrow> bytes \<Rightarrow> bytes \<Rightarrow> bytes \<Rightarrow> bytes \<Rightarrow> bytes" where
  "demo_gcm_tag c key iv a ct = replicate 16 (sum_list (key @ iv @ a @ ct))"

definition demo_mac :: "digest \<Rightarrow> bytes \<Rightarrow> bytes \<Rightarrow> bytes" where
  "demo_mac dig key m = replicate (digest_size dig) (sum_list (key @ m))"

fun demo_sign_update :: "bytes \<Rightarrow> (demo_md, unit) sr" where
  "demo_sign_update d (PolyCtx key m) = (Ok (), PolyCtx key (m @ d))"
| "demo_sign_update d (HmacCtx dig key m) = (Ok (), HmacCtx dig key (m @ d))"
| "demo_sign_update d NoCtx = (Err OpenSSLError, NoCtx)"

fun demo_sign :: "(demo_md, bytes) sr" where
  "demo_sign (PolyCtx key m) = (Ok (demo_poly key m), NoCtx)"
| "demo_sign (HmacCtx dig key m) = (Ok (demo_mac dig key m), NoCtx)"
| "demo_sign NoCtx = (Err OpenSSLError, NoCtx)"

fun demo_sign_size :: "(demo_md, nat) sr" where
  "demo_sign_size (HmacCtx dig key m) = (Ok (digest_size dig), HmacCtx dig key m)"
| "demo_sign_size h = (Ok 16, h)"

fun demo_crypter_update :: "bytes \<Rightarrow> (gcm_view, bytes) sr" where
  "demo_crypter_update d (dir, c, key, iv, a, ct, t) =
     (let out = xor_from (demo_ks c key iv) (length ct) d
      in (Ok out, dir, c, key, iv, a, ct @ (if dir = Encrypting then out else d), t))"

fun demo_crypter_finalize :: "(gcm_view, bytes) sr" where
  "demo_crypter_finalize (dir, c, key, iv, a, ct, t) =
     (if dir = Encrypting \<or> t = Some (demo_gcm_tag c key iv a ct) then Ok [] else Err OpenSSLError,
      dir, c, key, iv, a, ct, t)"

fun demo_crypter_get_tag :: "nat \<Rightarrow> (gcm_view, bytes) sr" where
  "demo_crypter_get_tag n (dir, c, key, iv, a, ct, t) =
     (Ok (demo_gcm_tag c key iv a ct), dir, c, key, iv, a, ct, t)"

definition demo_ssl :: "(demo_ctx, demo_md, gcm_view) openssl" where
  "demo_ssl =
     \<lparr>cipher_init = (\<lambda>dir c key iv. Ok (c, key, case iv of None \<Rightarrow> [] | Some i \<Rightarrow> i, 0)),
      cipher_reinit = (\<lambda>dir iv (c, key, _, _). (Ok (), c, key, iv, 0)),
      cipher_no_padding = id,
      cipher_update = (\<lambda>d (c, key, iv, n). (Ok (xor_from (demo_ks c key iv) n d), c, key, iv, n + length d)),
      cipher_final = (\<lambda>x. (Ok [], x)),
      cipher_set_tag = (\<lambda>d x. (Err OpenSSLError, x)),
      poly1305_init = (\<lambda>key. Ok (PolyCtx key [])),
      hmac_init = (\<lambda>dig key. Ok (HmacCtx dig key [])),
      md_new = NoCtx,
      sign_update = demo_sign_update,
      sign_size = demo_sign_size,
      sign_final = (\<lambda>n. demo_sign),
      sign_final_vec = demo_sign,
      crypter_new = (\<lambda>dir c key iv. Ok (dir, c, key, iv, [], [], None)),
      crypter_no_padding = id,
      crypter_aad = (\<lambda>d (dir, c, key, iv, a, rest). (Ok (), dir, c, key, iv, a @ d, rest)),
      crypter_update = demo_crypter_update,
      crypter_finalize = demo_crypter_finalize,
      crypter_get_tag = demo_crypter_get_tag,
      crypter_set_tag = (\<lambda>d (dir, c, key, iv, a, ct, t). (Ok (), dir, c, key, iv, a, ct, Some d))\<rparr>"

fun demo_poly_view :: "demo_md \<Rightarrow> (bytes \<times> bytes) option" where
  "demo_poly_view (PolyCtx key m) = Some (key, m)"
| "demo_poly_view _ = None"

fun demo_hmac_view :: "demo_md \<Rightarrow> (digest \<times> bytes \<times> bytes) option" where
  "demo_hmac_view (HmacCtx dig key m) = Some (dig, key, m)"
| "demo_hmac_view _ = None"

lemma demo_poly_view_Some: "demo_poly_view h = Some (key, m) \<longleftrightarrow> h = PolyCtx key m"
  by (cases h) auto

lemma demo_hmac_view_Some: "demo_hmac_view h = Some (dig, key, m) \<longleftrightarrow> h = HmacCtx dig key m"
  by (cases h) auto

lemma demo_laws:
  "stream_laws demo_ssl Some demo_ks" "poly_laws demo_ssl demo_poly_view demo_poly"
  "gcm_laws demo_ssl Some demo_ks demo_gcm_tag" "hmac_laws demo_ssl demo_hmac_view digest_size demo_mac"
proof -
  show "stream_laws demo_ssl Some demo_ks"
    unfolding stream_laws_def by (auto simp: demo_ssl_def)
  show "poly_laws demo_ssl demo_poly_view demo_poly"
    unfolding poly_laws_def by (auto simp: demo_ssl_def demo_poly_view_Some demo_poly_def)
  show "gcm_laws demo_ssl Some demo_ks demo_gcm_tag"
    unfolding gcm_laws_def by (auto simp: demo_ssl_def demo_gcm_tag_def Let_def)
  show "hmac_laws demo_ssl demo_hmac_view digest_size demo_mac"
    unfolding hmac_laws_def by (auto simp: demo_ssl_def demo_hmac_view_Some demo_mac_def)
qed

definition demo_zlib :: "(unit, bool) zlib" where
  "demo_zlib =
     \<lparr>z_new_compress = (), z_compress = (\<lambda>cap d w. (Some (ZOk, length d, d), w)),
      z_new_decompress = False,
      z_decompress = (\<lambda>cap d ended. (Some (ZStreamEnd, if ended then 0 else 1, []), True))\<rparr>"

type_synonym demo_stream =
  "((demo_ctx, demo_md, gcm_view) cipher_object, (demo_ctx, demo_md, gcm_view) cipher_object, unit coder,
    bool coder, demo_md hmac) cipher_stream"

definition demo_hmac :: "demo_md hmac" where
  "demo_hmac = hmac_new ''hmac-sha2-256-etm@openssh.com'' 32 32 True Sha256"

definition quiet_socket :: "bytes \<Rightarrow> buffer_stream" where
  "quiet_socket received =
     \<lparr>inbound = [], outbound = [], quotas = [5], broken = False, r_buf = received, w_buf = []\<rparr>"

definition demo_stream ::
    "(demo_ctx, demo_md, gcm_view) cipher_object \<Rightarrow> demo_md hmac \<Rightarrow> bytes \<Rightarrow> demo_stream" where
  "demo_stream c m received = upgrade (plain_new (quiet_socket received)) c c (Never []) (Never []) m m"

lemma demo_stream_simps [simp]:
  "encrypt (demo_stream c m b) = c" "decrypt (demo_stream c m b) = c" "verify (demo_stream c m b) = m"
  "calculator (demo_stream c m b) = m" "outbound (csock (demo_stream c m b)) = []"
  "inbound (csock (demo_stream c m b)) = []" "unread (csock (demo_stream c m b)) = b"
  "linked (\<lambda>_ _. True) (\<lambda>_ _. True) never_pair (demo_stream c m []) (demo_stream d m' b)"
  by (simp_all add: linked_def demo_stream_def upgrade_def plain_new_def quiet_socket_def never_pair_def
      strict_def endpoint_default_def unread_def)

text \<open>What such a theorem says of the two demo ends.\<close>

lemma demo_exchange:
  assumes "\<And>received. \<exists>s' wire. cipher_send_all k ds (demo_stream c m []) = (Ok (), s') \<and>
      outbound (csock s') = outbound (csock (demo_stream c m [])) @ wire \<and>
      (\<forall>rest. [] \<notin> set (inbound (csock (demo_stream d m received))) \<and>
         unread (csock (demo_stream d m received)) = wire @ rest \<longrightarrow>
         (\<exists>r' ps. times n (read_packet k) (demo_stream d m received) = (Ok ps, r') \<and>
           map payload ps = xs \<and> unread (csock r') = rest))"
  shows "\<exists>s' r' ps. cipher_send_all k ds (demo_stream c m []) = (Ok (), s') \<and>
    times n (read_packet k) (demo_stream d m (outbound (csock s'))) = (Ok ps, r') \<and> map payload ps = xs"
proof -
  obtain s' where s': "cipher_send_all k ds (demo_stream c m []) = (Ok (), s')"
    using assms [of "[]"] by blast
  with assms [of "outbound (csock s')"] show ?thesis by auto
qed

section \<open>Packets between two ends with the same keys\<close>

text \<open>C28: With any AEAD cipher of the registry, keyed alike on both sides, every sequence of payloads
  is read by the other end in order and unchanged, however the bytes are cut up on the way.\<close>

theorem aead_suite_roundtrip:
  assumes laws: "stream_laws ssl v ks" "poly_laws ssl p poly" "gcm_laws ssl g gks tag"
    and Z: "zip_link (suite ssl z) Z"
    and reg: "(name, obj) \<in> set cipher_registry" "is_galois_counter_mode obj"
    and len: "length iv = iv_len_of obj" "length key = key_len_of obj"
    and keyed: "cipher_initialize (cipher_factory_of ssl Encrypting obj) iv key = Ok (encrypt s)"
      "cipher_initialize (cipher_factory_of ssl Decrypting obj) iv key = Ok (decrypt r)"
    and L: "linked (\<lambda>_ _. True) (\<lambda>_ _. True) Z s r"
    and ds: "\<forall>(rnd, d) \<in> set ds. d \<noteq> [] \<and> length d \<le> MAX_PACKET_PAYLOAD_LENGTH"
  shows "\<exists>s' wire. cipher_send_all (suite ssl z) ds s = (Ok (), s') \<and>
    outbound (csock s') = outbound (csock s) @ wire \<and>
    (\<forall>rest. [] \<notin> set (inbound (csock r)) \<and> unread (csock r) = wire @ rest \<longrightarrow>
       (\<exists>r' ps. times (length ds) (read_packet (suite ssl z)) r = (Ok ps, r') \<and>
         map payload ps = map snd ds \<and> unread (csock r') = rest))"
proof -
  have "aead_pair v g (encrypt s) (decrypt r)"
    using aead_fresh [OF laws(1,3) reg len keyed] .
  with L have "aead_linked (aead_pair v g) Z s r" by (simp add: linked_def)
  with aead_registry_link [OF laws] Z
  have "aead_link (suite ssl z) (aead_pair v g) \<and> zip_link (suite ssl z) Z \<and> aead_linked (aead_pair v g) Z s r"
    by blast
  from aead.transfer_all [OF this ds] show ?thesis by blast
qed

definition demo_key :: bytes where
  "demo_key = map word_of_nat [0..<64]"

theorem aead_suite_roundtrip_witness:
  "\<exists>c d s' r' ps. chacha_initialize demo_ssl Encrypting demo_key chacha_new = (Ok (), c) \<and>
    chacha_initialize demo_ssl Decrypting demo_key chacha_new = (Ok (), d) \<and>
    cipher_send_all (suite demo_ssl demo_zlib) [(\<lambda>_. 1, [20, 1]), (\<lambda>_. 2, [21])]
      (demo_stream (CChacha c) demo_hmac []) = (Ok (), s') \<and>
    times (Suc (Suc 0)) (read_packet (suite demo_ssl demo_zlib)) (demo_stream (CChacha d) demo_hmac (outbound (csock s'))) = (Ok ps, r') \<and>
    map payload ps = [[20, 1], [21]]"
proof -
  let ?k = "suite demo_ssl demo_zlib" and ?ds = "[(\<lambda>_. 1, [20, 1]), (\<lambda>_. 2, [21])] :: ((nat \<Rightarrow> u8) \<times> bytes) list"
  let ?c0 = "chacha_new :: (demo_ctx, demo_md) chacha"
  obtain c where c: "chacha_initialize demo_ssl Encrypting demo_key ?c0 = (Ok (), c)"
    by (rule chacha_initialize_run [OF demo_laws(1), of demo_key]) (simp_all add: demo_key_def)
  obtain d where d: "chacha_initialize demo_ssl Decrypting demo_key ?c0 = (Ok (), d)"
    by (rule chacha_initialize_run [OF demo_laws(1), of demo_key]) (simp_all add: demo_key_def)
  have e: "cipher_initialize (cipher_factory_of demo_ssl Encrypting (CChacha ?c0)) [] demo_key = Ok (CChacha c)"
    "cipher_initialize (cipher_factory_of demo_ssl Decrypting (CChacha ?c0)) [] demo_key = Ok (CChacha d)"
    using c d by (simp_all add: cipher_factory_of_def)
  have "\<exists>s' r' ps. cipher_send_all ?k ?ds (demo_stream (CChacha c) demo_hmac []) = (Ok (), s') \<and>
      times (length ?ds) (read_packet ?k) (demo_stream (CChacha d) demo_hmac (outbound (csock s'))) = (Ok ps, r') \<and>
      map payload ps = map snd ?ds"
    using e
    by (intro demo_exchange aead_suite_roundtrip [OF demo_laws(1-3) never_link,
        of "str ''chacha20-poly1305@openssh.com''" "CChacha ?c0" "[]" demo_key])
      (simp_all add: cipher_registry_def demo_key_def)
  with c d show ?thesis by auto
qed

text \<open>The same holds for counter mode with any encrypt-then-MAC HMAC of the registries.\<close>

theorem ctr_suite_roundtrip:
  assumes laws: "stream_laws ssl v ks" "hmac_laws ssl w digest_size mac"
    and Z: "zip_link (suite ssl z) Z"
    and reg: "(name, CPlain a) \<in> set cipher_registry" "pc_cipher a \<in> {Aes128Ctr, Aes192Ctr, Aes256Ctr}"
      "(mac_name, m) \<in> set mac_registry" "hmac_etm m"
    and len: "length iv = pc_iv_len a" "length key = pc_key_len a"
    and keyed: "cipher_initialize (cipher_factory_of ssl Encrypting (CPlain a)) iv key = Ok (encrypt s)"
      "cipher_initialize (cipher_factory_of ssl Decrypting (CPlain a)) iv key = Ok (decrypt r)"
      "hmac_initialize ssl mac_key m = (Ok (), calculator s)" "hmac_initialize ssl mac_key m = (Ok (), verify r)"
    and L: "linked (\<lambda>_ _. True) (\<lambda>_ _. True) Z s r"
    and ds: "\<forall>(rnd, d) \<in> set ds. d \<noteq> [] \<and> length d \<le> MAX_PACKET_PAYLOAD_LENGTH"
  shows "\<exists>s' wire. cipher_send_all (suite ssl z) ds s = (Ok (), s') \<and>
    outbound (csock s') = outbound (csock s) @ wire \<and>
    (\<forall>rest. [] \<notin> set (inbound (csock r)) \<and> unread (csock r) = wire @ rest \<longrightarrow>
       (\<exists>r' ps. times (length ds) (read_packet (suite ssl z)) r = (Ok ps, r') \<and>
         map payload ps = map snd ds \<and> unread (csock r') = rest))"
proof -
  have "ctr_pair v (encrypt s) (decrypt r)"
    using ctr_fresh [OF laws(1) reg(1,2) len keyed(1,2)] .
  moreover have "hmac_pair w digest_size (calculator s) (verify r)"
    using hmac_fresh_pair [OF laws(2) reg(3,4) keyed(3,4)] .
  ultimately have "linked (ctr_pair v) (hmac_pair w digest_size) Z s r" using L by (simp add: linked_def)
  with ctr_link [OF laws(1)] hmac_link [OF laws(2)] Z
  have "cipher_link (suite ssl z) (ctr_pair v) \<and> mac_link (suite ssl z) (hmac_pair w digest_size) \<and>
    zip_link (suite ssl z) Z \<and> linked (ctr_pair v) (hmac_pair w digest_size) Z s r" by blast
  from etm.transfer_all [OF this ds] show ?thesis by blast
qed

theorem ctr_suite_roundtrip_witness:
  "\<exists>c d m s' r' ps. plain_initialize demo_ssl Encrypting (replicate 16 9) (replicate 32 5) aes256_ctr = (Ok (), c) \<and>
    plain_initialize demo_ssl Decrypting (replicate 16 9) (replicate 32 5) aes256_ctr = (Ok (), d) \<and>
    hmac_initialize demo_ssl (replicate 32 3) demo_hmac = (Ok (), m) \<and>
    cipher_send_all (suite demo_ssl demo_zlib) [(\<lambda>_. 1, [20, 1]), (\<lambda>_. 2, [21])]
      (demo_stream (CPlain c) m []) = (Ok (), s') \<and>
    times (Suc (Suc 0)) (read_packet (suite demo_ssl demo_zlib))
      (demo_stream (CPlain d) m (outbound (csock s'))) = (Ok ps, r') \<and>
    map payload ps = [[20, 1], [21]]"
proof -
  let ?k = "suite demo_ssl demo_zlib" and ?ds = "[(\<lambda>_. 1, [20, 1]), (\<lambda>_. 2, [21])] :: ((nat \<Rightarrow> u8) \<times> bytes) list"
  let ?iv = "replicate 16 9 :: bytes" and ?key = "replicate 32 5 :: bytes" and ?a = "aes256_ctr :: demo_ctx plain_cipher"
  have k: "(pc_cipher ?a, length ?key) \<in> ctr_ciphers" "length ?iv = 16"
    by (simp_all add: ctr_ciphers_def aes256_ctr_def plain_cipher_new_def)
  obtain c where c: "plain_initialize demo_ssl Encrypting ?iv ?key ?a = (Ok (), c)"
    by (rule plain_initialize_run [OF demo_laws(1) k])
  obtain d where d: "plain_initialize demo_ssl Decrypting ?iv ?key ?a = (Ok (), d)"
    by (rule plain_initialize_run [OF demo_laws(1) k])
  obtain m where m: "hmac_initialize demo_ssl (replicate 32 3) demo_hmac = (Ok (), m)"
    by (simp add: hmac_initialize_def sr_defs demo_ssl_def)
  have e: "cipher_initialize (cipher_factory_of demo_ssl Encrypting (CPlain ?a)) ?iv ?key = Ok (CPlain c)"
    "cipher_initialize (cipher_factory_of demo_ssl Decrypting (CPlain ?a)) ?iv ?key = Ok (CPlain d)"
    using c d by (simp_all add: cipher_factory_of_def)
  have r: "(str ''aes256-ctr'', CPlain ?a) \<in> set cipher_registry"
    "pc_cipher ?a \<in> {Aes128Ctr, Aes192Ctr, Aes256Ctr}"
    "(str ''hmac-sha2-256-etm@openssh.com'', demo_hmac) \<in> set mac_registry" "hmac_etm demo_hmac"
    "length ?iv = pc_iv_len ?a" "length ?key = pc_key_len ?a"
    by (simp_all add: cipher_registry_def mac_registry_def demo_hmac_def hmac_new_def aes256_ctr_def
        plain_cipher_new_def)
  have "\<exists>s' r' ps. cipher_send_all ?k ?ds (demo_stream (CPlain c) m []) = (Ok (), s') \<and>
      times (length ?ds) (read_packet ?k) (demo_stream (CPlain d) m (outbound (csock s'))) = (Ok ps, r') \<and>
      map payload ps = map snd ?ds"
    using e m
    by (intro demo_exchange ctr_suite_roundtrip [OF demo_laws(1,4) never_link r]) simp_all
  with c d m show ?thesis by auto
qed

text \<open>C7: Encrypt-then-MAC authenticates before it decrypts, whether a packet is read at once or an
  interrupted read is taken up again: if anything of a packet reached the decryption state, or a packet
  was delivered, then the received tag is the MAC over this very sequence number, length and
  ciphertext. However the read ends, it leaves a state that can be taken up again.\<close>

theorem etm_authentic:
  assumes "read_start k s d0" and "\<not> d_gcm k d0" "m_etm k (verify s)" and "read_packet k s = (r, s')"
  shows "resumable (rstate s') \<and> (decrypt s' \<noteq> d0 \<or> (\<exists>p. r = Ok p) \<longrightarrow>
    (\<exists>len packet. packet = take (4 + unat len + m_len k (verify s)) (unread (csock s)) \<and>
      len = from_be (take 4 packet) \<and>
      mac_over k (verify s) [u32_to_be (sequence_number (server s)), u32_to_be len,
        take (unat len) (drop 4 packet)] = Ok (drop (unat len + 4) packet)))"
  using etm_read_authentic [OF assms] by blast

lemma demo_ctr_read:
  "\<exists>c d m s' r' p. hmac_initialize demo_ssl (replicate 32 3) demo_hmac = (Ok (), m) \<and>
    cipher_send_payload (suite demo_ssl demo_zlib) (\<lambda>_. 7) [20, 1] (demo_stream (CPlain c) m []) = (Ok (), s') \<and>
    read_packet (suite demo_ssl demo_zlib) (demo_stream (CPlain d) m (outbound (csock s'))) = (Ok p, r')"
proof -
  let ?k = "suite demo_ssl demo_zlib"
  let ?iv = "replicate 16 9 :: bytes" and ?key = "replicate 32 5 :: bytes" and ?a = "aes256_ctr :: demo_ctx plain_cipher"
  have k: "(pc_cipher ?a, length ?key) \<in> ctr_ciphers" "length ?iv = 16"
    by (simp_all add: ctr_ciphers_def aes256_ctr_def plain_cipher_new_def)
  obtain c x where c: "plain_initialize demo_ssl Encrypting ?iv ?key ?a = (Ok (), c)" "pc_ctx c = Some x"
    "Some x = Some (pc_cipher ?a, ?key, ?iv, 0)" "pc_block c = pc_block ?a"
    by (rule plain_initialize_run [OF demo_laws(1) k])
  obtain m where m: "hmac_initialize demo_ssl (replicate 32 3) demo_hmac = (Ok (), m)"
    by (simp add: hmac_initialize_def sr_defs demo_ssl_def)
  have r: "(str ''hmac-sha2-256-etm@openssh.com'', demo_hmac) \<in> set mac_registry" "hmac_etm demo_hmac"
    by (simp_all add: mac_registry_def demo_hmac_def hmac_new_def)
  have pair: "ctr_pair Some (CPlain c) (CPlain c :: (demo_ctx, demo_md, gcm_view) cipher_object)"
    using c by (simp add: ctr_pair_def aes256_ctr_def plain_cipher_new_def)
  have mac: "hmac_pair demo_hmac_view digest_size m m" by (rule hmac_fresh_pair [OF demo_laws(4) r m m])
  have L: "cipher_link ?k (ctr_pair Some) \<and> mac_link ?k (hmac_pair demo_hmac_view digest_size) \<and> zip_link ?k never_pair \<and>
      linked (ctr_pair Some) (hmac_pair demo_hmac_view digest_size) never_pair
        (demo_stream (CPlain c) m []) (demo_stream (CPlain c) m b)" for b
  proof -
    have "linked (ctr_pair Some) (hmac_pair demo_hmac_view digest_size) never_pair
        (demo_stream (CPlain c) m []) (demo_stream (CPlain c) m b)"
      using demo_stream_simps(8) [of "CPlain c" m "CPlain c" m b] pair mac by (simp add: linked_def)
    with ctr_link [OF demo_laws(1)] hmac_link [OF demo_laws(4)] never_link show ?thesis by blast
  qed
  have t: "\<exists>s' wire. cipher_send_payload ?k (\<lambda>_. 7) [20, 1] (demo_stream (CPlain c) m []) = (Ok (), s') \<and>
      outbound (csock s') = wire \<and>
      (unread (csock (demo_stream (CPlain c) m b)) = wire \<longrightarrow>
        (\<exists>r' p. read_packet ?k (demo_stream (CPlain c) m b) = (Ok p, r')))" for b
    using etm.transfer [OF L [of b], of "[20, 1]" "\<lambda>_. 7"] by fastforce
  obtain s' where s': "cipher_send_payload ?k (\<lambda>_. 7) [20, 1] (demo_stream (CPlain c) m []) = (Ok (), s')"
    using t [of "[]"] by blast
  with t [of "outbound (csock s')"] m show ?thesis by fastforce
qed

theorem etm_authentic_witness:
  "\<exists>(d :: demo_ctx plain_cipher) m s' len packet. hmac_initialize demo_ssl (replicate 32 3) demo_hmac = (Ok (), m) \<and>
    (\<exists>c. cipher_send_payload (suite demo_ssl demo_zlib) (\<lambda>_. 7) [20, 1] (demo_stream (CPlain c) m []) = (Ok (), s')) \<and>
    packet = take (4 + unat (len :: u32) + 32) (outbound (csock s')) \<and>
    mac_over (suite demo_ssl demo_zlib) m [u32_to_be 0, u32_to_be len, take (unat len) (drop 4 packet)] =
      Ok (drop (unat len + 4) packet)"
proof -
  let ?k = "suite demo_ssl demo_zlib"
  obtain c d m s' r' p where m: "hmac_initialize demo_ssl (replicate 32 3) demo_hmac = (Ok (), m)"
    and s': "cipher_send_payload ?k (\<lambda>_. 7) [20, 1] (demo_stream (CPlain c) m []) = (Ok (), s')"
    and r: "read_packet ?k (demo_stream (CPlain d) m (outbound (csock s'))) = (Ok p, r')"
    using demo_ctr_read by blast
  let ?s = "demo_stream (CPlain d) m (outbound (csock s'))"
  have n: "rstate ?s = SNone" "sequence_number (server ?s) = 0"
    by (simp_all add: demo_stream_def upgrade_def plain_new_def endpoint_default_def)
  then have st: "read_start ?k ?s (CPlain d)" by (simp add: read_start_def)
  from m have e: "m_etm ?k (verify ?s)" "m_len ?k (verify ?s) = 32"
    by (auto simp: hmac_initialize_def sr_defs demo_ssl_def demo_hmac_def hmac_new_def)
  from etm_authentic [OF st _ e(1) r] n e(2) m s' show ?thesis by auto
qed

section \<open>ChaCha20-Poly1305 packets\<close>

text \<open>C29: What goes out for a payload, compressed as the stream has it, is the packet of OpenSSH's
  chacha20-poly1305 specification for the stream's sequence number, and nothing else; the number
  is then one higher, so the next packet has the next nonce under the same keys.\<close>

theorem chacha_wire_format:
  assumes laws: "stream_laws ssl v ks" "poly_laws ssl p poly"
    and s: "encrypt s = CChacha c" "keyed v c main header" "w_buf (csock s) = []" "\<not> broken (csock s)"
    and d: "data \<noteq> []" "length data \<le> MAX_PACKET_PAYLOAD_LENGTH"
    and x: "compress_payload (suite ssl z) data s = (Ok x, t)"
    and f: "f = cipher_frame rnd x (padding_for 8 (1 + length x))"
    and pk: "chacha_packet ks poly main header (cipher_seq s) (take 4 f) (drop 4 f) = (hdr, ct, tag)"
  shows "\<exists>s' c'. cipher_send_payload (suite ssl z) rnd data s = (Ok (), s') \<and>
    outbound (csock s') = outbound (csock s) @ hdr @ ct @ tag \<and>
    encrypt s' = CChacha c' \<and> keyed v c' main header \<and>
    cipher_seq s' = (if hd data = SSH_MSG_NEWKEYS \<and> strict s then 0 else cipher_seq s + 1)"
proof -
  let ?k = "suite ssl z"
  from compress_keeps [OF x] have t: "encrypt t = encrypt s" "csock t = csock s" "client t = client s" "server t = server s"
    by simp_all
  obtain c1 where c1: "chacha_update_seq ssl Encrypting (cipher_seq s) c = (Ok (), c1)"
    "chacha_ready v p ks c1 main header (cipher_seq s)"
    by (rule chacha_update_seq_run [OF laws s(2)])
  obtain c2 c3 c4 c5 where c2: "chacha_seal_header ssl (take 4 f) c1 = (Ok hdr, c2)"
    "chacha_seal ssl (drop 4 f) c2 = (Ok ct, c3)" "chacha_seal_final ssl c3 = (Ok [], c4)"
    "chacha_get_tag ssl 16 c4 = (Ok tag, c5)" "keyed v c5 main header"
    by (rule chacha_seal_run [OF laws c1(2) pk])
  have "\<exists>q. send_gcm ?k rnd x t = (Ok (), t\<lparr>encrypt := CChacha c5, csock :=
      (csock t)\<lparr>outbound := outbound (csock t) @ hdr @ ct @ [] @ tag, quotas := q\<rparr>\<rparr>)"
    using c1(1) c2 s f t
    by (intro aead_send_run [of ?k t "CChacha c1" f hdr "CChacha c2" ct "CChacha c3" "[]" "CChacha c4" tag])
      simp_all
  then obtain q where q: "send_gcm ?k rnd x t = (Ok (), t\<lparr>encrypt := CChacha c5, csock :=
      (csock s)\<lparr>outbound := outbound (csock s) @ hdr @ ct @ tag, quotas := q\<rparr>\<rparr>)" using t by auto
  have "cipher_send_payload ?k rnd data s = (Ok (), bump_client (hd data = SSH_MSG_NEWKEYS \<and> strict s)
      (t\<lparr>encrypt := CChacha c5, csock :=
        (csock s)\<lparr>outbound := outbound (csock s) @ hdr @ ct @ tag, quotas := q\<rparr>\<rparr>))"
    using q d s(1) x t by (simp add: cipher_send_payload_def smodify_def)
  then show ?thesis using c2(5) t by (simp add: bump_client_def strict_def)
qed

definition demo_chacha :: "(demo_ctx, demo_md) chacha" where
  "demo_chacha = chacha_new\<lparr>main_ctx := Some (ChaCha20, [1], [], 0), header_ctx := Some (ChaCha20, [2], [], 0)\<rparr>"

lemma demo_chacha_keyed: "keyed Some demo_chacha [1] [2]"
  by (simp add: keyed_def demo_chacha_def chacha_new_def)

theorem chacha_wire_format_witness:
  "\<exists>s' hdr ct tag. chacha_packet demo_ks demo_poly [1] [2] 0 [0, 0, 0, 8] [5, 20, 1, 7, 7, 7, 7, 7] = (hdr, ct, tag) \<and>
    cipher_send_payload (suite demo_ssl demo_zlib) (\<lambda>_. 7) [20, 1] (demo_stream (CChacha demo_chacha) demo_hmac [])
      = (Ok (), s') \<and> outbound (csock s') = hdr @ ct @ tag \<and> cipher_seq s' = 1"
proof -
  let ?s = "demo_stream (CChacha demo_chacha) demo_hmac []"
  let ?f = "cipher_frame (\<lambda>_. 7) [20, 1] (padding_for 8 (1 + length [20, 1 :: u8]))"
  have s: "encode ?s = Never []" "w_buf (csock ?s) = []" "\<not> broken (csock ?s)" "cipher_seq ?s = 0"
    by (simp_all add: demo_stream_def upgrade_def plain_new_def quiet_socket_def endpoint_default_def)
  have f: "take 4 ?f = [0, 0, 0, 8]" "drop 4 ?f = [5, 20, 1, 7, 7, 7, 7, 7]"
    by (simp_all add: cipher_frame_def padding_for_def random_bytes_def frame_eq u32_to_be_def as_u32_def as_u8_def upt_rec)
  obtain hdr ct tag where pk: "chacha_packet demo_ks demo_poly [1] [2] (cipher_seq ?s) (take 4 ?f) (drop 4 ?f) = (hdr, ct, tag)"
    by (cases "chacha_packet demo_ks demo_poly [1] [2] (cipher_seq ?s) (take 4 ?f) (drop 4 ?f)")
  have "\<exists>s' c'. cipher_send_payload (suite demo_ssl demo_zlib) (\<lambda>_. 7) [20, 1] ?s = (Ok (), s') \<and>
      outbound (csock s') = outbound (csock ?s) @ hdr @ ct @ tag \<and> encrypt s' = CChacha c' \<and> keyed Some c' [1] [2] \<and>
      cipher_seq s' = (if hd [20, 1] = SSH_MSG_NEWKEYS \<and> strict ?s then 0 else cipher_seq ?s + 1)"
    by (rule chacha_wire_format [OF demo_laws(1,2) _ demo_chacha_keyed s(2,3) _ _ compress_never [OF s(1)] refl pk])
      simp_all
  with pk f s(4) show ?thesis by auto
qed

text \<open>C30: A packet is delivered only if its last 16 bytes are the Poly1305 tag, under the one-time key
  of this sequence number, of everything before them: the encrypted length and the ciphertext.\<close>

theorem chacha_authentic:
  assumes laws: "stream_laws ssl v ks" "poly_laws ssl p poly"
    and s: "rstate s = SNone" "decrypt s = CChacha c" "keyed v c main header"
    and r: "read_packet (suite ssl z) s = (Ok pkt, s')"
  shows "\<exists>len packet. packet = take (4 + unat len + 16) (unread (csock s)) \<and>
    len = (from_be (xor_from (ks ChaCha20 header (openssh_nonce (sequence_number (server s)))) 0 (take 4 packet)) :: u32) \<and>
    drop (4 + unat len) packet = poly (chacha_poly_key ks main (sequence_number (server s))) (take (4 + unat len) packet)"
proof -
  let ?n = "sequence_number (server s)" and ?k = "suite ssl z"
  obtain c0 where c0: "chacha_update_seq ssl Decrypting ?n c = (Ok (), c0)" "chacha_ready v p ks c0 main header ?n"
    by (rule chacha_update_seq_run [OF laws s(3)])
  let ?s = "s\<lparr>decrypt := CChacha c0, rstate := SReady None [] []\<rparr>"
  have "read_packet ?k s = sbind (read_gcm ?k None [] []) finish_packet ?s"
    using s(1,2) c0(1) by (simp add: read_packet_def read_ready_def set_rstate_def)
  with r obtain q t where "read_gcm ?k None [] [] ?s = (Ok q, t)" by (auto simp: sbind_Ok_iff)
  then obtain hb t1 hdr d1 packet t2 out1 d2 d3 out2 d4 and len :: u32 where
    h: "fill 4 (csock s) = (Ok hb, t1)" "open_aad ssl hb (CChacha c0) = (Ok hdr, d1)" "len = from_be hdr"
    and f: "fill (4 + unat len + 16) t1 = (Ok packet, t2)"
    and o': "open_update ssl (take (unat len) (drop 4 packet)) d1 = (Ok out1, d2)"
      "open_tag ssl (drop (unat len) (drop 4 packet)) d2 = (Ok (), d3)" "open_final ssl d3 = (Ok out2, d4)"
    by (auto simp: read_gcm_def sr_defs sbind_Ok_iff zoom_Ok_iff Let_def set_rstate_def simp del: drop_drop
        split: if_splits)
  let ?ct = "take (unat len) (drop 4 packet)" and ?tag = "drop (unat len) (drop 4 packet)"
  from h(2) obtain e1 where e1: "chacha_open_header ssl hb c0 = (Ok hdr, e1)" "d1 = CChacha e1"
    by (auto simp: via_iff)
  from o'(1) e1(2) obtain e2 where e2: "chacha_open ssl ?ct e1 = (Ok out1, e2)" "d2 = CChacha e2"
    by (auto simp: via_iff)
  from o'(2) e2(2) obtain e3 where e3: "chacha_set_tag ?tag e2 = (Ok (), e3)" "d3 = CChacha e3"
    by (auto simp: via_iff)
  from o'(3) e3(2) obtain e4 where e4: "chacha_open_final ssl e3 = (Ok out2, e4)"
    by (auto simp: via_iff)
  from chacha_open_Ok [OF laws c0(2) e1(1) e2(1) e3(1) e4]
  have hdr: "hdr = xor_from (ks ChaCha20 header (openssh_nonce ?n)) 0 hb"
    and tag: "?tag = poly (chacha_poly_key ks main ?n) (hb @ ?ct)" by simp_all
  have "hb = take 4 packet" "packet = take (4 + unat len + 16) (unread (csock s))"
    using fill_Ok [OF h(1)] fill_Ok [OF f] by auto
  moreover have "take 4 packet @ ?ct = take (4 + unat len) packet" by (simp add: take_add)
  ultimately show ?thesis
    using tag h(3) hdr by (intro exI [of _ len] exI [of _ packet]) (simp add: add.commute)
qed

lemma demo_chacha_read:
  "\<exists>s' wire r' ps. cipher_send_payload (suite demo_ssl demo_zlib) (\<lambda>_. 7) [20, 1]
      (demo_stream (CChacha demo_chacha) demo_hmac []) = (Ok (), s') \<and> wire = outbound (csock s') \<and>
    read_packet (suite demo_ssl demo_zlib) (demo_stream (CChacha demo_chacha) demo_hmac wire) = (Ok ps, r')"
proof -
  let ?k = "suite demo_ssl demo_zlib" and ?s = "demo_stream (CChacha demo_chacha) demo_hmac"
  have pair: "chacha_pair Some (CChacha demo_chacha) (CChacha demo_chacha :: (demo_ctx, demo_md, gcm_view) cipher_object)"
    using demo_chacha_keyed by (auto simp: chacha_pair_def)
  have L: "aead_linked (chacha_pair Some) never_pair (?s []) (?s b)" for b
    using demo_stream_simps(8) [of "CChacha demo_chacha" demo_hmac "CChacha demo_chacha" demo_hmac b] pair
    by (simp add: linked_def)
  have t: "\<exists>s' wire. cipher_send_payload ?k (\<lambda>_. 7) [20, 1] (?s []) = (Ok (), s') \<and>
      outbound (csock s') = outbound (csock (?s [])) @ wire \<and>
      (\<forall>rest. [] \<notin> set (inbound (csock (?s b))) \<longrightarrow> unread (csock (?s b)) = wire @ rest \<longrightarrow>
        (\<exists>r' pad. read_packet ?k (?s b) = (Ok \<lparr>payload = [20, 1], padding = pad\<rparr>, r') \<and>
          unread (csock r') = rest \<and> [] \<notin> set (inbound (csock r')) \<and>
          aead_link ?k (chacha_pair Some) \<and> zip_link ?k never_pair \<and>
          aead_linked (chacha_pair Some) never_pair s' r'))" for b
    by (rule aead.transfer) (simp_all add: chacha_link [OF demo_laws(1,2)] never_link L)
  obtain s' where s': "cipher_send_payload ?k (\<lambda>_. 7) [20, 1] (?s []) = (Ok (), s')"
    using t [of "[]"] by blast
  with t [of "outbound (csock s')"] show ?thesis by auto
qed

theorem chacha_authentic_witness:
  "\<exists>s' len. cipher_send_payload (suite demo_ssl demo_zlib) (\<lambda>_. 7) [20, 1]
      (demo_stream (CChacha demo_chacha) demo_hmac []) = (Ok (), s') \<and>
    drop (4 + unat (len :: u32)) (take (4 + unat len + 16) (outbound (csock s'))) =
      demo_poly (chacha_poly_key demo_ks [1] 0) (take (4 + unat len) (take (4 + unat len + 16) (outbound (csock s'))))"
proof -
  obtain s' r' ps where s': "cipher_send_payload (suite demo_ssl demo_zlib) (\<lambda>_. 7) [20, 1]
      (demo_stream (CChacha demo_chacha) demo_hmac []) = (Ok (), s')"
    and r: "read_packet (suite demo_ssl demo_zlib) (demo_stream (CChacha demo_chacha) demo_hmac (outbound (csock s'))) = (Ok ps, r')"
    using demo_chacha_read by blast
  let ?s = "demo_stream (CChacha demo_chacha) demo_hmac (outbound (csock s'))"
  have i: "rstate ?s = SNone" "sequence_number (server ?s) = 0"
    by (simp_all add: demo_stream_def upgrade_def plain_new_def endpoint_default_def)
  from chacha_authentic [OF demo_laws(1,2) i(1) _ demo_chacha_keyed r] i(2) s' show ?thesis by auto
qed

section \<open>AES-GCM nonces\<close>

text \<open>C31: AES-GCM never uses a nonce twice: after keying, the packets that go out are sealed, one by one,
  under the nonces of RFC 5647, with the fixed field of the first and a counter one higher each time, all
  different for the first 2 ^ 64 packets; the context then waits with the next nonce.\<close>

theorem gcm_nonce_fresh:
  assumes laws: "gcm_laws ssl g ks tag"
    and reg: "(name, CGcm a) \<in> set cipher_registry" "length iv = 12" "length key = gcm_key_len a"
    and keyed: "cipher_initialize (cipher_factory_of ssl Encrypting (CGcm a)) iv key = Ok (encrypt s)"
    and sock: "w_buf (csock s) = []" "\<not> broken (csock s)"
    and run: "cipher_send_all (suite ssl z) ds s = (Ok (), s')" "length ds \<le> 2 ^ 64"
  shows "distinct (map (rfc5647_nonce iv) [0..<length ds]) \<and>
    gcm_sender g (gcm_cipher a) key (rfc5647_nonce iv (length ds)) s' \<and>
    (\<exists>xs. length xs = length ds \<and> (encode s = Never [] \<longrightarrow> xs = map snd ds) \<and>
       outbound (csock s') = outbound (csock s) @ concat (map (\<lambda>i.
         gcm_packet ks tag (gcm_cipher a) key (rfc5647_nonce iv i)
           (cipher_frame (fst (ds ! i)) (xs ! i) (padding_for 16 (1 + length (xs ! i))))) [0..<length ds]))"
proof -
  have k: "(gcm_cipher a, length key) \<in> {(Aes128Gcm, 16), (Aes256Gcm, 32)}" "gcm_block a = 16" "gcm_tag_len a = 16"
    using reg by (auto simp: cipher_registry_def aes256_gcm_openssh_def aes128_gcm_openssh_def gcm_new_def)
  obtain b where b: "gcm_initialize ssl Encrypting iv key a = (Ok (), b)" "gcm_ready g Encrypting (gcm_cipher a) key iv b"
    by (rule gcm_initialize_run [OF laws k(1) reg(2) k(2,3)])
  then have "encrypt s = CGcm b" using keyed by (simp add: cipher_factory_of_def)
  with b(2) sock have "gcm_sender g (gcm_cipher a) key iv s" by (simp add: gcm_sender_def)
  from gcm_send_all_run [OF laws k(1) reg(2) this run(1)] iterated_iv [OF reg(2)]
  have "gcm_sender g (gcm_cipher a) key (rfc5647_nonce iv (length ds)) s' \<and>
    (\<exists>xs. length xs = length ds \<and> (encode s = Never [] \<longrightarrow> xs = map snd ds) \<and>
       outbound (csock s') = outbound (csock s) @ concat (map (\<lambda>i.
         gcm_packet ks tag (gcm_cipher a) key (rfc5647_nonce iv i)
           (cipher_frame (fst (ds ! i)) (xs ! i) (padding_for 16 (1 + length (xs ! i))))) [0..<length ds]))"
    by auto
  moreover have "inj_on (rfc5647_nonce iv) {0..<length ds}"
    using run(2) rfc5647_nonce_inject [OF _ _ reg(2)] by (auto simp: inj_on_def)
  ultimately show ?thesis by (simp add: distinct_map)
qed

abbreviation demo_iv :: bytes where
  "demo_iv \<equiv> [1, 2, 3, 4, 0, 0, 0, 0, 0, 0, 0, 255]"

abbreviation demo_gcm_key :: bytes where
  "demo_gcm_key \<equiv> replicate 16 1"

lemma demo_gcm_run:
  "\<exists>b s'. cipher_initialize (cipher_factory_of demo_ssl Encrypting (CGcm aes128_gcm_openssh)) demo_iv demo_gcm_key = Ok b \<and>
     cipher_send_all (suite demo_ssl demo_zlib) [(\<lambda>_. 1, [20, 1]), (\<lambda>_. 2, [21])] (demo_stream b demo_hmac []) = (Ok (), s')"
proof -
  let ?a = "aes128_gcm_openssh :: gcm_view gcm" and ?k = "suite demo_ssl demo_zlib"
  have k: "(gcm_cipher ?a, length demo_gcm_key) \<in> {(Aes128Gcm, 16), (Aes256Gcm, 32)}" "length demo_iv = 12"
    "gcm_block ?a = 16" "gcm_tag_len ?a = 16"
    by (simp_all add: aes128_gcm_openssh_def gcm_new_def)
  obtain b where b: "gcm_initialize demo_ssl Encrypting demo_iv demo_gcm_key ?a = (Ok (), b)"
    "gcm_ready Some Encrypting (gcm_cipher ?a) demo_gcm_key demo_iv b" by (rule gcm_initialize_run [OF demo_laws(3) k])
  obtain b' where b': "gcm_initialize demo_ssl Decrypting demo_iv demo_gcm_key ?a = (Ok (), b')"
    "gcm_ready Some Decrypting (gcm_cipher ?a) demo_gcm_key demo_iv b'" by (rule gcm_initialize_run [OF demo_laws(3) k])
  have "gcm_pair Some (CGcm b) (CGcm b' :: (demo_ctx, demo_md, gcm_view) cipher_object)"
    unfolding gcm_pair_def using b(2) b'(2) k by blast
  then have L: "aead_linked (gcm_pair Some) never_pair (demo_stream (CGcm b) demo_hmac []) (demo_stream (CGcm b') demo_hmac [])"
    using demo_stream_simps(8) [of "CGcm b" demo_hmac "CGcm b'" demo_hmac "[]"] by (simp add: linked_def)
  with gcm_link [OF demo_laws(3)] never_link have "aead_link ?k (gcm_pair Some) \<and> zip_link ?k never_pair \<and>
    aead_linked (gcm_pair Some) never_pair (demo_stream (CGcm b) demo_hmac []) (demo_stream (CGcm b') demo_hmac [])"
    by blast
  from aead.transfer_all [OF this, of "[(\<lambda>_. 1, [20, 1]), (\<lambda>_. 2, [21])]"]
  have "\<exists>s'. cipher_send_all ?k [(\<lambda>_. 1, [20, 1]), (\<lambda>_. 2, [21])] (demo_stream (CGcm b) demo_hmac []) = (Ok (), s')"
    by auto
  with b(1) show ?thesis by (auto simp: cipher_factory_of_def)
qed

theorem gcm_nonce_fresh_witness:
  "\<exists>b s'. cipher_initialize (cipher_factory_of demo_ssl Encrypting (CGcm aes128_gcm_openssh)) demo_iv demo_gcm_key = Ok b \<and>
     cipher_send_all (suite demo_ssl demo_zlib) [(\<lambda>_. 1, [20, 1]), (\<lambda>_. 2, [21])] (demo_stream b demo_hmac []) = (Ok (), s') \<and>
     outbound (csock s') =
       gcm_packet demo_ks demo_gcm_tag Aes128Gcm demo_gcm_key demo_iv (cipher_frame (\<lambda>_. 1) [20, 1] (padding_for 16 3)) @
       gcm_packet demo_ks demo_gcm_tag Aes128Gcm demo_gcm_key [1, 2, 3, 4, 0, 0, 0, 0, 0, 0, 1, 0]
         (cipher_frame (\<lambda>_. 2) [21] (padding_for 16 2))"
proof -
  let ?ds = "[(\<lambda>_. 1, [20, 1]), (\<lambda>_. 2, [21])] :: ((nat \<Rightarrow> u8) \<times> bytes) list"
  obtain b s' where b: "cipher_initialize (cipher_factory_of demo_ssl Encrypting (CGcm aes128_gcm_openssh)) demo_iv demo_gcm_key = Ok b"
    and run: "cipher_send_all (suite demo_ssl demo_zlib) ?ds (demo_stream b demo_hmac []) = (Ok (), s')"
    using demo_gcm_run by blast
  have r: "(str ''aes128-gcm@openssh.com'', CGcm (aes128_gcm_openssh :: gcm_view gcm)) \<in> set cipher_registry"
    "length demo_iv = 12" "length demo_gcm_key = gcm_key_len (aes128_gcm_openssh :: gcm_view gcm)"
    by (simp_all add: cipher_registry_def aes128_gcm_openssh_def gcm_new_def)
  have e: "encode (demo_stream b demo_hmac []) = Never []" "w_buf (csock (demo_stream b demo_hmac [])) = []"
    "\<not> broken (csock (demo_stream b demo_hmac []))"
    by (simp_all add: demo_stream_def upgrade_def plain_new_def quiet_socket_def)
  have n: "rfc5647_nonce demo_iv 0 = demo_iv" "rfc5647_nonce demo_iv (Suc 0) = [1, 2, 3, 4, 0, 0, 0, 0, 0, 0, 1, 0]"
  proof -
    have w: "(256 :: u8) = 0" by (rule word_unat_eq_iff [THEN iffD2]) simp
    show "rfc5647_nonce demo_iv 0 = demo_iv" "rfc5647_nonce demo_iv (Suc 0) = [1, 2, 3, 4, 0, 0, 0, 0, 0, 0, 1, 0]"
      using iterated_iv [of demo_iv 0] iterated_iv [of demo_iv "Suc 0"] by (simp_all add: next_iv_def w)
  qed
  have "length ?ds \<le> 2 ^ 64" by simp
  from gcm_nonce_fresh [OF demo_laws(3) r _ e(2,3) run this] b e(1) run show ?thesis
    by (auto simp: n upt_rec aes128_gcm_openssh_def gcm_new_def numeral_2_eq_2 numeral_3_eq_3)
qed

section \<open>Compression\<close>

text \<open>C32: A server can make the client spin forever: if a compressed payload ends the zlib stream
  before its last byte, the loop of the decompressor never returns.\<close>

theorem zlib_end_hangs:
  assumes "z_decompress z zdec_cap data (zc_stream c) = (Some (ZStreamEnd, n, out), w)"
    and "n < length data"
    and "\<And>d. z_decompress z zdec_cap d w = (Some (ZStreamEnd, 0, []), w)"
  shows "zdec_loop z data 0 c = None"
  using assms by (subst zdec_loop.simps) (simp add: zdec_loop_stuck [OF assms(3)])

theorem zlib_end_hangs_witness:
  "zdec_loop demo_zlib [1, 2, 3] 0 (zcoder_new ''zlib'' True False) = None"
  by (rule zlib_end_hangs [of _ _ _ 1 "[]" True]) (simp_all add: demo_zlib_def zcoder_new_def)

end
