(* ===== verification/Signatures.thy ===== *)
theory Signatures
  imports Suites SessionState
begin

text \<open>
  Public-key signatures, \<open>src/cipher/signature.rs\<close>: Ed25519, RSA, DSA and ECDSA behind the traits
  \<open>Signature\<close> and \<open>Verify\<close>, their registries, and the signers and verifiers that authentication
  and key exchange take from them. OpenSSL's keys and contexts are a record of operations.
\<close>

section \<open>OpenSSL\<close>

datatype nid = Prime256v1 | Secp384r1 | Secp521r1

text \<open>
  \<open>'m\<close> is an \<open>MdCtx\<close> with a key, \<open>'p\<close> a \<open>PkeyCtx\<close> set up for RSA with PKCS 1 padding and a
  digest, \<open>'d\<close> a DSA \<open>PKey\<close>, \<open>'v\<close> a \<open>Verifier\<close> that has read the data, \<open>'k\<close> an EC \<open>PKey\<close> and
  \<open>'pt\<close> a point. A run of calls that only hand their results on is one operation here: it fails
  if one of them does. \<open>digest_sign n\<close> and \<open>pkey_sign n\<close> fill a buffer of \<open>n\<close> bytes.
\<close>

record ('m, 'p, 'd, 'v, 'k, 'pt) pkey_library =
  message_digest :: "digest \<Rightarrow> bytes \<Rightarrow> bytes res"
  ed25519_private :: "bytes \<Rightarrow> 'm res"
  ed25519_public :: "bytes \<Rightarrow> 'm res"
  digest_sign_len :: "bytes \<Rightarrow> ('m, nat) sr"
  digest_sign :: "bytes \<Rightarrow> nat \<Rightarrow> ('m, bytes) sr"
  digest_verify :: "bytes \<Rightarrow> bytes \<Rightarrow> ('m, bool) sr"
  rsa_public :: "nat \<Rightarrow> nat \<Rightarrow> digest \<Rightarrow> 'p res"
  rsa_private :: "nat \<Rightarrow> nat \<Rightarrow> nat \<Rightarrow> nat \<Rightarrow> nat \<Rightarrow> nat \<Rightarrow> nat \<Rightarrow> nat \<Rightarrow> digest \<Rightarrow> 'p res"
  pkey_verify :: "bytes \<Rightarrow> bytes \<Rightarrow> ('p, bool) sr"
  pkey_sign_len :: "bytes \<Rightarrow> ('p, nat) sr"
  pkey_sign :: "bytes \<Rightarrow> nat \<Rightarrow> ('p, bytes) sr"
  dsa_public :: "nat \<Rightarrow> nat \<Rightarrow> nat \<Rightarrow> nat \<Rightarrow> 'd res"
  dsa_private :: "nat \<Rightarrow> nat \<Rightarrow> nat \<Rightarrow> nat \<Rightarrow> nat \<Rightarrow> 'd res"
  dsa_to_der :: "nat \<Rightarrow> nat \<Rightarrow> bytes res"
  dsa_verifier :: "digest \<Rightarrow> 'd \<Rightarrow> bytes \<Rightarrow> 'v res"
  dsa_verify_der :: "'v \<Rightarrow> bytes \<Rightarrow> bool res"
  dsa_sign_to_vec :: "digest \<Rightarrow> 'd \<Rightarrow> bytes \<Rightarrow> bytes res"
  ec_point :: "nid \<Rightarrow> bytes \<Rightarrow> 'pt res"
  ec_public :: "nid \<Rightarrow> 'pt \<Rightarrow> 'k res"
  ec_private :: "nid \<Rightarrow> nat \<Rightarrow> 'pt \<Rightarrow> 'k res"
  ecdsa_sign_hash :: "bytes \<Rightarrow> 'k \<Rightarrow> (nat \<times> nat) res"
  ecdsa_to_der :: "nat \<Rightarrow> nat \<Rightarrow> bytes res"
  ecdsa_verify_der :: "'k \<Rightarrow> bytes \<Rightarrow> bytes \<Rightarrow> bool res"

text \<open>\<open>BigNum::to_vec\<close>: the bytes of a number from the highest non-zero one; \<open>be_nat\<close> is \<open>from_slice\<close>.\<close>

fun nat_bytes :: "nat \<Rightarrow> bytes" where
  "nat_bytes n = (if n = 0 then [] else nat_bytes (n div 256) @ [of_nat (n mod 256)])"

declare nat_bytes.simps [simp del]

definition to_integer :: "nat \<Rightarrow> bytes" where
  "to_integer n = into_integer (nat_bytes n)"

section \<open>Shared pieces\<close>

definition mismatch_key :: error where
  "mismatch_key = CipherError ''MismatchKey''"

text \<open>Running a parser on a blob; \<open>result.unwrap_or(false)\<close>.\<close>

definition parsed :: "(consumer, 'a) sr \<Rightarrow> bytes \<Rightarrow> 'a res" where
  "parsed m bs = fst (m (consumer_new bs))"

fun or_false :: "bool res \<Rightarrow> bool res" where
  "or_false (Err e) = Ok False"
| "or_false r = r"

definition unwrap_or_false :: "('s, bool) sr \<Rightarrow> ('s, bool) sr" where
  "unwrap_or_false m s = (case m s of (r, t) \<Rightarrow> (or_false r, t))"

text \<open>A blob starts with the name it is made for.\<close>

definition expect_type :: "bytes \<Rightarrow> (consumer, unit) sr" where
  "expect_type name = sbind consume_one (\<lambda>t. if t \<noteq> name then sfail mismatch_key else sreturn ())"

definition typed_signature :: "bytes \<Rightarrow> (consumer, bytes) sr" where
  "typed_signature name = sbind (expect_type name) (\<lambda>_. consume_one)"

definition consume_number :: "(consumer, nat) sr" where
  "consume_number = sbind consume_one (\<lambda>bs. sreturn (be_nat bs))"

section \<open>Ed25519\<close>

record 'm ed25519 =
  ed_ctx :: "'m option"

definition ed25519_new :: "'m ed25519" where
  "ed25519_new = \<lparr>ed_ctx = None\<rparr>"

abbreviation on_ed :: "('m, 'a) sr \<Rightarrow> ('m ed25519, 'a) sr" where
  "on_ed \<equiv> on_some ''Uninitialize'' ed_ctx (\<lambda>x c. c\<lparr>ed_ctx := x\<rparr>)"

definition ed_sign_initialize ::
    "('m, 'p, 'd, 'v, 'k, 'pt) pkey_library \<Rightarrow> bytes \<Rightarrow> ('m ed25519, unit) sr" where
  "ed_sign_initialize lib key =
     sbind (slift (parsed (typed_signature (str ''ssh-ed25519'')) key)) (\<lambda>k.
     sbind (slift (ed25519_private lib k)) (\<lambda>ctx.
     smodify (\<lambda>c. c\<lparr>ed_ctx := Some ctx\<rparr>)))"

definition ed_signature ::
    "('m, 'p, 'd, 'v, 'k, 'pt) pkey_library \<Rightarrow> bytes \<Rightarrow> ('m ed25519, bytes) sr" where
  "ed_signature lib data =
     sbind (on_ed (digest_sign_len lib data)) (\<lambda>n. on_ed (digest_sign lib data n))"

definition ed_verify_initialize ::
    "('m, 'p, 'd, 'v, 'k, 'pt) pkey_library \<Rightarrow> bytes \<Rightarrow> ('m ed25519, unit) sr" where
  "ed_verify_initialize lib key =
     sbind (slift (parsed (typed_signature (str ''ssh-ed25519'')) key)) (\<lambda>k.
     sbind (slift (ed25519_public lib k)) (\<lambda>ctx.
     smodify (\<lambda>c. c\<lparr>ed_ctx := Some ctx\<rparr>)))"

text \<open>A signature of another type is only false here, not an error.\<close>

definition ed_signature_blob :: "(consumer, bytes option) sr" where
  "ed_signature_blob = sbind consume_one (\<lambda>key_type.
     if key_type \<noteq> str ''ssh-ed25519'' then sreturn None
     else sbind consume_one (\<lambda>s. sreturn (Some s)))"

definition ed_verify ::
    "('m, 'p, 'd, 'v, 'k, 'pt) pkey_library \<Rightarrow> bytes \<Rightarrow> bytes \<Rightarrow> ('m ed25519, bool) sr" where
  "ed_verify lib signature data =
     sbind (slift (parsed ed_signature_blob signature)) (\<lambda>s.
     case s of
       None \<Rightarrow> sreturn False
     | Some s \<Rightarrow> on_ed (unwrap_or_false (digest_verify lib data s)))"

section \<open>RSA\<close>

record 'p rsa =
  rsa_name :: bytes
  rsa_hash :: digest
  rsa_ctx :: "'p option"

definition rsa_new :: "string \<Rightarrow> digest \<Rightarrow> 'p rsa" where
  "rsa_new name hash = \<lparr>rsa_name = str name, rsa_hash = hash, rsa_ctx = None\<rparr>"

definition rsa_sha2_256 :: "'p rsa" where "rsa_sha2_256 = rsa_new ''rsa-sha2-256'' Sha256"
definition rsa_sha2_512 :: "'p rsa" where "rsa_sha2_512 = rsa_new ''rsa-sha2-512'' Sha512"
definition ssh_rsa :: "'p rsa" where "ssh_rsa = rsa_new ''ssh-rsa'' Sha1"

abbreviation on_rsa :: "string \<Rightarrow> ('p, 'a) sr \<Rightarrow> ('p rsa, 'a) sr" where
  "on_rsa detail \<equiv> on_some detail rsa_ctx (\<lambda>x c. c\<lparr>rsa_ctx := x\<rparr>)"

definition rsa_calculate_hash ::
    "('m, 'p, 'd, 'v, 'k, 'pt) pkey_library \<Rightarrow> bytes \<Rightarrow> ('p rsa, bytes) sr" where
  "rsa_calculate_hash lib data =
     sbind (sget rsa_hash) (\<lambda>hash. slift (message_digest lib hash data))"

definition rsa_public_blob :: "(consumer, nat \<times> nat) sr" where
  "rsa_public_blob = sbind (expect_type (str ''ssh-rsa'')) (\<lambda>_.
     sbind consume_number (\<lambda>e. sbind consume_number (\<lambda>n. sreturn (n, e))))"

definition rsa_verify_initialize ::
    "('m, 'p, 'd, 'v, 'k, 'pt) pkey_library \<Rightarrow> bytes \<Rightarrow> ('p rsa, unit) sr" where
  "rsa_verify_initialize lib key =
     sbind (slift (parsed rsa_public_blob key)) (\<lambda>(n, e).
     sbind (sget rsa_hash) (\<lambda>hash.
     sbind (slift (rsa_public lib n e hash)) (\<lambda>ctx.
     smodify (\<lambda>c. c\<lparr>rsa_ctx := Some ctx\<rparr>))))"

definition rsa_verify ::
    "('m, 'p, 'd, 'v, 'k, 'pt) pkey_library \<Rightarrow> bytes \<Rightarrow> bytes \<Rightarrow> ('p rsa, bool) sr" where
  "rsa_verify lib signature data =
     sbind (rsa_calculate_hash lib data) (\<lambda>hash.
     sbind (sget (\<lambda>c. (rsa_ctx c, rsa_name c))) (\<lambda>(ctx, name).
     if ctx = None then sfail (InvalidOperation ''it must be initialized before verify'')
     else
       sbind (slift (parsed (typed_signature name) signature)) (\<lambda>s.
       on_rsa ''it must be initialized before verify'' (unwrap_or_false (pkey_verify lib hash s)))))"

text \<open>\<open>d mod (p - 1)\<close>, on signed numbers and with an error for a modulus of zero.\<close>

definition crt_exponent :: "nat \<Rightarrow> nat \<Rightarrow> nat res" where
  "crt_exponent d p =
     (if int p - 1 = 0 then Err OpenSSLError else Ok (nat (int d mod \<bar>int p - 1\<bar>)))"

definition rsa_private_blob :: "(consumer, nat list) sr" where
  "rsa_private_blob = sbind (expect_type (str ''ssh-rsa'')) (\<lambda>_. times 6 consume_number)"

definition rsa_sign_initialize ::
    "('m, 'p, 'd, 'v, 'k, 'pt) pkey_library \<Rightarrow> bytes \<Rightarrow> ('p rsa, unit) sr" where
  "rsa_sign_initialize lib key =
     sbind (slift (parsed rsa_private_blob key)) (\<lambda>ks.
     let n = ks ! 0; e = ks ! 1; d = ks ! 2; iqmp = ks ! 3; p = ks ! 4; q = ks ! 5 in
     sbind (slift (crt_exponent d p)) (\<lambda>dmp1.
     sbind (slift (crt_exponent d q)) (\<lambda>dmq1.
     sbind (sget rsa_hash) (\<lambda>hash.
     sbind (slift (rsa_private lib n e d dmp1 dmq1 iqmp p q hash)) (\<lambda>ctx.
     smodify (\<lambda>c. c\<lparr>rsa_ctx := Some ctx\<rparr>))))))"

definition rsa_signature ::
    "('m, 'p, 'd, 'v, 'k, 'pt) pkey_library \<Rightarrow> bytes \<Rightarrow> ('p rsa, bytes) sr" where
  "rsa_signature lib data =
     sbind (rsa_calculate_hash lib data) (\<lambda>hash.
     sbind (on_rsa ''Uninitialized'' (pkey_sign_len lib hash)) (\<lambda>n.
     on_rsa ''Uninitialized'' (pkey_sign lib hash n)))"

section \<open>DSA\<close>

record 'd dsa =
  dsa_key :: "'d option"

definition ssh_dss :: "'d dsa" where
  "ssh_dss = \<lparr>dsa_key = None\<rparr>"

definition dsa_blob :: "nat \<Rightarrow> (consumer, nat list) sr" where
  "dsa_blob count = sbind (expect_type (str ''ssh-dss'')) (\<lambda>_. times count consume_number)"

definition dsa_verify_initialize ::
    "('m, 'p, 'd, 'v, 'k, 'pt) pkey_library \<Rightarrow> bytes \<Rightarrow> ('d dsa, unit) sr" where
  "dsa_verify_initialize lib key =
     sbind (slift (parsed (dsa_blob 4) key)) (\<lambda>ks.
     sbind (slift (dsa_public lib (ks ! 0) (ks ! 1) (ks ! 2) (ks ! 3))) (\<lambda>k.
     smodify (\<lambda>c. c\<lparr>dsa_key := Some k\<rparr>)))"

text \<open>The signature is the two 20 byte numbers of RFC 4253; OpenSSL wants it in DER.\<close>

definition dsa_verify ::
    "('m, 'p, 'd, 'v, 'k, 'pt) pkey_library \<Rightarrow> bytes \<Rightarrow> bytes \<Rightarrow> ('d dsa, bool) sr" where
  "dsa_verify lib signature data =
     sbind (slift (parsed (typed_signature (str ''ssh-dss'')) signature)) (\<lambda>s.
     if length s \<noteq> 40 then sfail (CipherError ''SignatureVerificationFailed'')
     else
       sbind (slift (dsa_to_der lib (be_nat (take 20 s)) (be_nat (drop 20 s)))) (\<lambda>der.
       sbind (sget dsa_key) (\<lambda>key.
       case key of
         None \<Rightarrow> sfail (InvalidOperation ''Uninitialize'')
       | Some key \<Rightarrow>
           sbind (slift (dsa_verifier lib Sha1 key data)) (\<lambda>verifier.
           slift (or_false (dsa_verify_der lib verifier der))))))"

definition dsa_sign_initialize ::
    "('m, 'p, 'd, 'v, 'k, 'pt) pkey_library \<Rightarrow> bytes \<Rightarrow> ('d dsa, unit) sr" where
  "dsa_sign_initialize lib key =
     sbind (slift (parsed (dsa_blob 5) key)) (\<lambda>ks.
     sbind (slift (dsa_private lib (ks ! 0) (ks ! 1) (ks ! 2) (ks ! 4) (ks ! 3))) (\<lambda>k.
     smodify (\<lambda>c. c\<lparr>dsa_key := Some k\<rparr>)))"

definition dsa_signature ::
    "('m, 'p, 'd, 'v, 'k, 'pt) pkey_library \<Rightarrow> bytes \<Rightarrow> ('d dsa, bytes) sr" where
  "dsa_signature lib data = sbind (sget dsa_key) (\<lambda>key.
     case key of
       None \<Rightarrow> sfail (InvalidOperation ''Uninitialized'')
     | Some key \<Rightarrow> slift (dsa_sign_to_vec lib Sha1 key data))"

section \<open>ECDSA\<close>

record 'k ecdsa =
  ec_name :: bytes
  ec_nid :: nid
  ec_hash :: digest
  ec_key :: "'k option"

definition ecdsa_new :: "string \<Rightarrow> nid \<Rightarrow> digest \<Rightarrow> 'k ecdsa" where
  "ecdsa_new name nid hash = \<lparr>ec_name = str name, ec_nid = nid, ec_hash = hash, ec_key = None\<rparr>"

definition ecdsa_sha2_nistp256 :: "'k ecdsa" where
  "ecdsa_sha2_nistp256 = ecdsa_new ''ecdsa-sha2-nistp256'' Prime256v1 Sha256"
definition ecdsa_sha2_nistp384 :: "'k ecdsa" where
  "ecdsa_sha2_nistp384 = ecdsa_new ''ecdsa-sha2-nistp384'' Secp384r1 Sha384"
definition ecdsa_sha2_nistp521 :: "'k ecdsa" where
  "ecdsa_sha2_nistp521 = ecdsa_new ''ecdsa-sha2-nistp521'' Secp521r1 Sha512"

definition ecdsa_calculate_hash ::
    "('m, 'p, 'd, 'v, 'k, 'pt) pkey_library \<Rightarrow> bytes \<Rightarrow> ('k ecdsa, bytes) sr" where
  "ecdsa_calculate_hash lib data =
     sbind (sget ec_hash) (\<lambda>hash. slift (message_digest lib hash data))"

definition get_key :: "('k ecdsa, 'k) sr" where
  "get_key = sbind (sget ec_key) (\<lambda>key.
     case key of None \<Rightarrow> sfail (InvalidOperation ''Uninitialized'') | Some k \<Rightarrow> sreturn k)"

text \<open>The curve named in the blob has to be the end of the algorithm's name.\<close>

definition ec_curve :: "bytes \<Rightarrow> (consumer, unit) sr" where
  "ec_curve name = sbind (expect_type name) (\<lambda>_. sbind consume_one (\<lambda>nid.
     if utf8_valid nid \<and> ends_with nid name then sreturn () else sfail mismatch_key))"

definition ec_private_blob :: "bytes \<Rightarrow> (consumer, bytes \<times> nat) sr" where
  "ec_private_blob name = sbind (ec_curve name) (\<lambda>_.
     sbind consume_one (\<lambda>public. sbind consume_number (\<lambda>e. sreturn (public, e))))"

definition ec_public_blob :: "bytes \<Rightarrow> (consumer, bytes) sr" where
  "ec_public_blob name = sbind (ec_curve name) (\<lambda>_. consume_one)"

definition ecdsa_sign_initialize ::
    "('m, 'p, 'd, 'v, 'k, 'pt) pkey_library \<Rightarrow> bytes \<Rightarrow> ('k ecdsa, unit) sr" where
  "ecdsa_sign_initialize lib key =
     sbind (sget (\<lambda>c. (ec_name c, ec_nid c))) (\<lambda>(name, nid).
     sbind (slift (parsed (ec_private_blob name) key)) (\<lambda>(public, e).
     sbind (slift (ec_point lib nid public)) (\<lambda>point.
     sbind (slift (ec_private lib nid e point)) (\<lambda>k.
     smodify (\<lambda>c. c\<lparr>ec_key := Some k\<rparr>)))))"

definition ecdsa_signature ::
    "('m, 'p, 'd, 'v, 'k, 'pt) pkey_library \<Rightarrow> bytes \<Rightarrow> ('k ecdsa, bytes) sr" where
  "ecdsa_signature lib data =
     sbind (ecdsa_calculate_hash lib data) (\<lambda>hash.
     sbind get_key (\<lambda>key.
     sbind (slift (ecdsa_sign_hash lib hash key)) (\<lambda>(r, s).
     sreturn (make_buffer_without_header [FOne (to_integer r), FOne (to_integer s)]))))"

definition ecdsa_verify_initialize ::
    "('m, 'p, 'd, 'v, 'k, 'pt) pkey_library \<Rightarrow> bytes \<Rightarrow> ('k ecdsa, unit) sr" where
  "ecdsa_verify_initialize lib key =
     sbind (sget (\<lambda>c. (ec_name c, ec_nid c))) (\<lambda>(name, nid).
     sbind (slift (parsed (ec_public_blob name) key)) (\<lambda>public.
     sbind (slift (ec_point lib nid public)) (\<lambda>point.
     sbind (slift (ec_public lib nid point)) (\<lambda>k.
     smodify (\<lambda>c. c\<lparr>ec_key := Some k\<rparr>)))))"

definition ecdsa_numbers :: "(consumer, nat \<times> nat) sr" where
  "ecdsa_numbers = sbind consume_number (\<lambda>r. sbind consume_number (\<lambda>s. sreturn (r, s)))"

definition ecdsa_verify ::
    "('m, 'p, 'd, 'v, 'k, 'pt) pkey_library \<Rightarrow> bytes \<Rightarrow> bytes \<Rightarrow> ('k ecdsa, bool) sr" where
  "ecdsa_verify lib signature data =
     sbind (sget ec_name) (\<lambda>name.
     sbind (slift (parsed (typed_signature name) signature)) (\<lambda>blob.
     sbind (slift (parsed ecdsa_numbers blob)) (\<lambda>(r, s).
     sbind (slift (ecdsa_to_der lib r s)) (\<lambda>der.
     sbind (ecdsa_calculate_hash lib data) (\<lambda>hash.
     sbind get_key (\<lambda>key.
     slift (ecdsa_verify_der lib key hash der)))))))"

section \<open>Signers and verifiers\<close>

datatype ('m, 'p, 'd, 'k) sig_object =
  SEd25519 "'m ed25519" | SRsa "'p rsa" | SDsa "'d dsa" | SEcdsa "'k ecdsa"

fun sig_name :: "('m, 'p, 'd, 'k) sig_object \<Rightarrow> bytes" where
  "sig_name (SEd25519 c) = str ''ssh-ed25519''"
| "sig_name (SRsa c) = rsa_name c"
| "sig_name (SDsa c) = str ''ssh-dss''"
| "sig_name (SEcdsa c) = ec_name c"

fun sign_initialize ::
    "('m, 'p, 'd, 'v, 'k, 'pt) pkey_library \<Rightarrow> bytes \<Rightarrow> (('m, 'p, 'd, 'k) sig_object, unit) sr" where
  "sign_initialize lib key (SEd25519 c) = via SEd25519 (ed_sign_initialize lib key) c"
| "sign_initialize lib key (SRsa c) = via SRsa (rsa_sign_initialize lib key) c"
| "sign_initialize lib key (SDsa c) = via SDsa (dsa_sign_initialize lib key) c"
| "sign_initialize lib key (SEcdsa c) = via SEcdsa (ecdsa_sign_initialize lib key) c"

fun sign_data ::
    "('m, 'p, 'd, 'v, 'k, 'pt) pkey_library \<Rightarrow> bytes \<Rightarrow> (('m, 'p, 'd, 'k) sig_object, bytes) sr" where
  "sign_data lib data (SEd25519 c) = via SEd25519 (ed_signature lib data) c"
| "sign_data lib data (SRsa c) = via SRsa (rsa_signature lib data) c"
| "sign_data lib data (SDsa c) = via SDsa (dsa_signature lib data) c"
| "sign_data lib data (SEcdsa c) = via SEcdsa (ecdsa_signature lib data) c"

fun verify_initialize ::
    "('m, 'p, 'd, 'v, 'k, 'pt) pkey_library \<Rightarrow> bytes \<Rightarrow> (('m, 'p, 'd, 'k) sig_object, unit) sr" where
  "verify_initialize lib key (SEd25519 c) = via SEd25519 (ed_verify_initialize lib key) c"
| "verify_initialize lib key (SRsa c) = via SRsa (rsa_verify_initialize lib key) c"
| "verify_initialize lib key (SDsa c) = via SDsa (dsa_verify_initialize lib key) c"
| "verify_initialize lib key (SEcdsa c) = via SEcdsa (ecdsa_verify_initialize lib key) c"

fun verify_signature ::
    "('m, 'p, 'd, 'v, 'k, 'pt) pkey_library \<Rightarrow> bytes \<Rightarrow> bytes \<Rightarrow> (('m, 'p, 'd, 'k) sig_object, bool) sr" where
  "verify_signature lib sig data (SEd25519 c) = via SEd25519 (ed_verify lib sig data) c"
| "verify_signature lib sig data (SRsa c) = via SRsa (rsa_verify lib sig data) c"
| "verify_signature lib sig data (SDsa c) = via SDsa (dsa_verify lib sig data) c"
| "verify_signature lib sig data (SEcdsa c) = via SEcdsa (ecdsa_verify lib sig data) c"

text \<open>\<open>algo_list!\<close>: the lists of signing and of verifying algorithms are the same.\<close>

definition signature_registry :: "(bytes \<times> ('m, 'p, 'd, 'k) sig_object) list" where
  "signature_registry =
     [(str ''ssh-ed25519'', SEd25519 ed25519_new),
      (str ''rsa-sha2-256'', SRsa rsa_sha2_256),
      (str ''rsa-sha2-512'', SRsa rsa_sha2_512),
      (str ''ssh-rsa'', SRsa ssh_rsa),
      (str ''ssh-dss'', SDsa ssh_dss),
      (str ''ecdsa-sha2-nistp521'', SEcdsa ecdsa_sha2_nistp521),
      (str ''ecdsa-sha2-nistp256'', SEcdsa ecdsa_sha2_nistp256),
      (str ''ecdsa-sha2-nistp384'', SEcdsa ecdsa_sha2_nistp384)]"

text \<open>
  What authentication and key exchange do with a fresh instance: load a key, then sign with it
  or verify with it.
\<close>

definition signer_of ::
    "('m, 'p, 'd, 'v, 'k, 'pt) pkey_library \<Rightarrow> ('m, 'p, 'd, 'k) sig_object \<Rightarrow> signer" where
  "signer_of lib obj =
     \<lparr>signer_name = sig_name obj,
      signer_initialize = (\<lambda>key. fst (sign_initialize lib key obj)),
      signer_sign = (\<lambda>key data. fst (sbind (sign_initialize lib key) (\<lambda>_. sign_data lib data) obj))\<rparr>"

definition verifier_of ::
    "('m, 'p, 'd, 'v, 'k, 'pt) pkey_library \<Rightarrow> ('m, 'p, 'd, 'k) sig_object \<Rightarrow> verifier" where
  "verifier_of lib obj =
     \<lparr>verifier_name = sig_name obj,
      verifier_initialize = (\<lambda>key. fst (verify_initialize lib key obj)),
      verifier_verify = (\<lambda>key sig data.
        fst (sbind (verify_initialize lib key) (\<lambda>_. verify_signature lib sig data) obj))\<rparr>"

definition signer_table ::
    "('m, 'p, 'd, 'v, 'k, 'pt) pkey_library \<Rightarrow> (bytes \<times> signer) list" where
  "signer_table lib = map (\<lambda>(n, obj). (n, signer_of lib obj)) signature_registry"

definition verifier_table ::
    "('m, 'p, 'd, 'v, 'k, 'pt) pkey_library \<Rightarrow> (bytes \<times> verifier) list" where
  "verifier_table lib = map (\<lambda>(n, obj). (n, verifier_of lib obj)) signature_registry"

end
