(* ===== verification/SignatureFacts.thy ===== *)
theory SignatureFacts
  imports Signatures CipherFacts
begin

text \<open>
  What a signature scheme promises its users, as a locale, and that each registered algorithm but
  DSA keeps the promise when OpenSSL's keys do; what an accepted signature says about the
  library's answer; and that no bytes make a verifier panic.
\<close>

section \<open>Numbers and blobs\<close>

lemma be_nat_snoc: "be_nat (bs @ [b]) = be_nat bs * 256 + unat b"
  by (simp add: be_nat_def)

lemma be_nat_bytes [simp]: "be_nat (nat_bytes n) = n"
proof (induction n rule: nat_bytes.induct)
  case (1 n)
  show ?case
  proof (cases "n = 0")
    case False
    have "n mod 256 < 256" by simp
    then have "unat (word_of_nat (n mod 256) :: u8) = n mod 256"
      by (simp add: unat_of_nat take_bit_nat_eq_self)
    with 1 [OF False] False show ?thesis
      by (simp add: nat_bytes.simps [of n] be_nat_snoc)
  qed (simp add: nat_bytes.simps be_nat_def)
qed

lemma be_nat_to_integer [simp]: "be_nat (to_integer n) = n"
  by (simp add: to_integer_def be_nat_into_integer)

lemma parsed_decodes:
  "decodes m x bs \<Longrightarrow> parsed m (bs @ rest) = Ok x"
  "decodes m x bs \<Longrightarrow> parsed m bs = Ok x"
  using decodes_new [of m x bs] decodes_new [of m x bs "[]"] by (simp_all add: parsed_def)

lemma parsed_not_Panic: "safe consumer_ok m \<Longrightarrow> parsed m bs \<noteq> Panic"
  unfolding parsed_def by (erule safe_no_panic) simp

lemma decodes_type [dec_rules]:
  "fits name \<Longrightarrow> decodes (f ()) y bs \<Longrightarrow> decodes (sbind (expect_type name) f) y (one name @ bs)"
  unfolding expect_type_def sbind_assoc by (rule decodes_one_bind) (auto simp: sbind_sreturn)

lemma decodes_typed_signature:
  "fits name \<Longrightarrow> fits s \<Longrightarrow> decodes (typed_signature name) s (one name @ one s)"
  unfolding typed_signature_def by (intro dec_rules)

lemma decodes_number [dec_rules]: "fits bs \<Longrightarrow> decodes consume_number (be_nat bs) (one bs)"
  unfolding consume_number_def by (intro decodes_map dec_rules)

lemma decodes_numbers:
  "\<forall>b \<in> set bs. fits b \<Longrightarrow>
   decodes (times (length bs) consume_number) (map be_nat bs) (concat (map one bs))"
proof (induction bs)
  case (Cons b bs)
  then show ?case
    by (auto intro!: decodes_bind [where ?b2.0 = "concat (map one bs)"] decodes_map dec_rules)
qed (simp add: decodes_return)

lemma fits_one: "fits (one x @ one y) \<Longrightarrow> fits x \<and> fits y"
  by (auto simp: fits_def one_def)

lemma decodes_ecdsa_numbers:
  "fits x \<Longrightarrow> fits y \<Longrightarrow> decodes ecdsa_numbers (be_nat x, be_nat y) (one x @ one y)"
  unfolding ecdsa_numbers_def
  by (rule decodes_bind [OF decodes_number], assumption, rule decodes_map, erule decodes_number)

section \<open>Keys that belong together\<close>

text \<open>
  What the documentation of OpenSSL says: a signature made with a private key verifies with the
  public key it belongs to. The blobs of such a pair are as \<open>src/key.rs\<close> and the agent write them.
\<close>

definition ed_keys :: "('m, 'p, 'd, 'v, 'k, 'pt) pkey_library \<Rightarrow> bytes \<Rightarrow> bytes \<Rightarrow> bool" where
  "ed_keys lib seed pk \<longleftrightarrow>
     (\<forall>c data n c' sig c''. ed25519_private lib seed = Ok c \<and>
        digest_sign_len lib data c = (Ok n, c') \<and> digest_sign lib data n c' = (Ok sig, c'') \<longrightarrow>
        (\<exists>v. ed25519_public lib pk = Ok v \<and> fst (digest_verify lib data sig v) = Ok True))"

definition rsa_keys ::
    "('m, 'p, 'd, 'v, 'k, 'pt) pkey_library \<Rightarrow> digest \<Rightarrow> nat \<Rightarrow> nat \<Rightarrow> nat \<Rightarrow> nat \<Rightarrow> nat \<Rightarrow> nat \<Rightarrow> bool" where
  "rsa_keys lib md n e d iqmp p q \<longleftrightarrow>
     (\<forall>dmp1 dmq1 c hash len c' sig c''. crt_exponent d p = Ok dmp1 \<and> crt_exponent d q = Ok dmq1 \<and>
        rsa_private lib n e d dmp1 dmq1 iqmp p q md = Ok c \<and>
        pkey_sign_len lib hash c = (Ok len, c') \<and> pkey_sign lib hash len c' = (Ok sig, c'') \<longrightarrow>
        (\<exists>v. rsa_public lib n e md = Ok v \<and> fst (pkey_verify lib hash sig v) = Ok True))"

definition ec_keys ::
    "('m, 'p, 'd, 'v, 'k, 'pt) pkey_library \<Rightarrow> nid \<Rightarrow> nat \<Rightarrow> bytes \<Rightarrow> bool" where
  "ec_keys lib nid e pk \<longleftrightarrow>
     (\<forall>pt k hash r s. ec_point lib nid pk = Ok pt \<and> ec_private lib nid e pt = Ok k \<and>
        ecdsa_sign_hash lib hash k = Ok (r, s) \<longrightarrow>
        (\<exists>k' der. ec_public lib nid pt = Ok k' \<and> ecdsa_to_der lib r s = Ok der \<and>
           ecdsa_verify_der lib k' hash der = Ok True))"

fun key_blobs ::
    "('m, 'p, 'd, 'v, 'k, 'pt) pkey_library \<Rightarrow> ('m, 'p, 'd, 'k) sig_object \<Rightarrow> bytes \<Rightarrow> bytes \<Rightarrow> bool" where
  "key_blobs lib (SEd25519 a) priv pub \<longleftrightarrow>
     (\<exists>seed pk. fits seed \<and> fits pk \<and> ed_keys lib seed pk \<and>
        priv = one (str ''ssh-ed25519'') @ one seed \<and> pub = one (str ''ssh-ed25519'') @ one pk)"
| "key_blobs lib (SRsa a) priv pub \<longleftrightarrow> fits (rsa_name a) \<and>
     (\<exists>n e d iqmp p q. (\<forall>b \<in> {n, e, d, iqmp, p, q}. fits b) \<and>
        rsa_keys lib (rsa_hash a) (be_nat n) (be_nat e) (be_nat d) (be_nat iqmp) (be_nat p) (be_nat q) \<and>
        priv = one (str ''ssh-rsa'') @ concat (map one [n, e, d, iqmp, p, q]) \<and>
        pub = one (str ''ssh-rsa'') @ one e @ one n)"
| "key_blobs lib (SDsa a) priv pub \<longleftrightarrow> False"
| "key_blobs lib (SEcdsa a) priv pub \<longleftrightarrow>
     (\<exists>curve pk e. fits (ec_name a) \<and> fits curve \<and> fits pk \<and> fits e \<and> utf8_valid curve \<and>
        ends_with curve (ec_name a) \<and> ec_keys lib (ec_nid a) (be_nat e) pk \<and>
        priv = one (ec_name a) @ one curve @ one pk @ one e \<and>
        pub = one (ec_name a) @ one curve @ one pk)"

text \<open>The wire form of a signature names its algorithm.\<close>

definition signature_blob :: "bytes \<Rightarrow> bytes \<Rightarrow> bytes" where
  "signature_blob name sig = one name @ one sig"

section \<open>What a signature scheme promises\<close>

locale signature_scheme =
  fixes pair :: "bytes \<Rightarrow> bytes \<Rightarrow> bool"
    and sign :: "bytes \<Rightarrow> bytes \<Rightarrow> bytes res"
    and load :: "bytes \<Rightarrow> unit res"
    and check :: "bytes \<Rightarrow> bytes \<Rightarrow> bytes \<Rightarrow> bool res"
    and name :: bytes
  assumes verifies: "pair priv pub \<Longrightarrow> sign priv data = Ok sig \<Longrightarrow> fits sig \<Longrightarrow>
      check pub (signature_blob name sig) data = Ok True"
    and loads: "check pub blob data = Ok b \<Longrightarrow> load pub = Ok ()"
begin

lemma loaded: "pair priv pub \<Longrightarrow> sign priv data = Ok sig \<Longrightarrow> fits sig \<Longrightarrow> load pub = Ok ()"
  by (rule loads, rule verifies)

end

lemma on_some_Ok_iff:
  "on_some detail get put m s = (Ok a, s') \<longleftrightarrow>
   (\<exists>t t'. get s = Some t \<and> m t = (Ok a, t') \<and> s' = put (Some t') s)"
  by (auto simp: on_some_def split: option.splits prod.splits)

lemmas sig_run = sbind_Ok_iff slift_def smodify_def sget_def sreturn_def sfail_def fst_Ok_iff
  via_iff on_some_Ok_iff

lemma decodes_ed_blob:
  "fits s \<Longrightarrow> decodes ed_signature_blob (Some s) (one (str ''ssh-ed25519'') @ one s)"
  unfolding ed_signature_blob_def
  by (rule decodes_one_bind) (auto intro!: decodes_map decodes_one simp: fits_def)

lemma ed_verifies:
  assumes k: "key_blobs lib (SEd25519 a) priv pub"
    and s: "signer_sign (signer_of lib (SEd25519 a)) priv data = Ok sig" "fits sig"
  shows "verifier_verify (verifier_of lib (SEd25519 a)) pub
    (signature_blob (sig_name (SEd25519 a)) sig) data = Ok True"
proof -
  have f: "fits (str ''ssh-ed25519'')" by (simp add: fits_def)
  from k obtain seed pk where b: "fits seed" "fits pk" "ed_keys lib seed pk"
    "priv = one (str ''ssh-ed25519'') @ one seed" "pub = one (str ''ssh-ed25519'') @ one pk" by auto
  note p = parsed_decodes(2) [OF decodes_typed_signature [OF f b(1)]]
    parsed_decodes(2) [OF decodes_typed_signature [OF f b(2)]]
  from s(1) p(1) b(4) obtain c n c' c'' where "ed25519_private lib seed = Ok c"
    "digest_sign_len lib data c = (Ok n, c')" "digest_sign lib data n c' = (Ok sig, c'')"
    by (auto simp: signer_of_def ed_sign_initialize_def ed_signature_def sig_run)
  with b(3) obtain v v' where "ed25519_public lib pk = Ok v" "digest_verify lib data sig v = (Ok True, v')"
    unfolding ed_keys_def fst_Ok_iff by blast
  then show ?thesis
    using p(2) b(5) parsed_decodes(2) [OF decodes_ed_blob [OF s(2)]]
    by (simp add: verifier_of_def signature_blob_def ed_verify_initialize_def ed_verify_def sr_defs
        unwrap_or_false_def)
qed

lemma length_6: "length xs = 6 \<longleftrightarrow> (\<exists>a b c d e f. xs = [a, b, c, d, e, f])"
  by (auto simp: numeral_eq_Suc length_Suc_conv)

lemma decodes_rsa_private:
  assumes "\<forall>b \<in> set bs. fits b" "length bs = 6"
  shows "decodes rsa_private_blob (map be_nat bs) (one (str ''ssh-rsa'') @ concat (map one bs))"
  unfolding rsa_private_blob_def
  by (rule decodes_type) (use decodes_numbers [OF assms(1)] assms(2) in \<open>simp_all add: fits_def\<close>)

lemma decodes_rsa_public:
  "fits e \<Longrightarrow> fits n \<Longrightarrow>
   decodes rsa_public_blob (be_nat n, be_nat e) (one (str ''ssh-rsa'') @ one e @ one n)"
  unfolding rsa_public_blob_def
  by (rule decodes_type, simp add: fits_def, rule decodes_bind [OF decodes_number], assumption,
      rule decodes_map, erule decodes_number)

lemma rsa_verifies:
  assumes k: "key_blobs lib (SRsa a) priv pub"
    and s: "signer_sign (signer_of lib (SRsa a)) priv data = Ok sig" "fits sig"
  shows "verifier_verify (verifier_of lib (SRsa a)) pub
    (signature_blob (sig_name (SRsa a)) sig) data = Ok True"
proof -
  from k obtain n e d iqmp p q where b: "\<forall>b \<in> set [n, e, d, iqmp, p, q]. fits b"
    and keys: "rsa_keys lib (rsa_hash a) (be_nat n) (be_nat e) (be_nat d) (be_nat iqmp) (be_nat p) (be_nat q)"
    and blobs: "priv = one (str ''ssh-rsa'') @ concat (map one [n, e, d, iqmp, p, q])"
      "pub = one (str ''ssh-rsa'') @ one e @ one n" and name: "fits (rsa_name a)" by auto
  have ps: "parsed rsa_private_blob priv = Ok (map be_nat [n, e, d, iqmp, p, q])"
    unfolding blobs by (rule parsed_decodes(2), rule decodes_rsa_private [OF b]) simp
  have pp: "parsed rsa_public_blob pub = Ok (be_nat n, be_nat e)"
    unfolding blobs using b by (intro parsed_decodes decodes_rsa_public) simp_all
  from s(1) ps obtain dmp1 dmq1 c hash len c' c'' where
    "crt_exponent (be_nat d) (be_nat p) = Ok dmp1" "crt_exponent (be_nat d) (be_nat q) = Ok dmq1"
    "rsa_private lib (be_nat n) (be_nat e) (be_nat d) dmp1 dmq1 (be_nat iqmp) (be_nat p) (be_nat q)
       (rsa_hash a) = Ok c"
    and h: "message_digest lib (rsa_hash a) data = Ok hash"
    and "pkey_sign_len lib hash c = (Ok len, c')" "pkey_sign lib hash len c' = (Ok sig, c'')"
    by (auto simp: signer_of_def rsa_sign_initialize_def rsa_signature_def rsa_calculate_hash_def
        Let_def sig_run numeral_eq_Suc)
  with keys obtain v v' where "rsa_public lib (be_nat n) (be_nat e) (rsa_hash a) = Ok v"
    "pkey_verify lib hash sig v = (Ok True, v')" unfolding rsa_keys_def fst_Ok_iff by blast
  then show ?thesis
    using pp h parsed_decodes(2) [OF decodes_typed_signature [OF name s(2)]]
    by (simp add: verifier_of_def signature_blob_def rsa_verify_initialize_def rsa_verify_def
        rsa_calculate_hash_def sr_defs unwrap_or_false_def)
qed

lemma decodes_ec_curve:
  "fits name \<Longrightarrow> fits curve \<Longrightarrow> utf8_valid curve \<Longrightarrow> ends_with curve name \<Longrightarrow>
   decodes (ec_curve name) () (one name @ one curve)"
  unfolding ec_curve_def
  by (rule decodes_type, assumption, rule decodes_one_bind) (auto intro: dec_rules)

lemma decodes_ec_blobs:
  assumes "fits name" "fits curve" "utf8_valid curve" "ends_with curve name" "fits pk"
  shows "fits e \<Longrightarrow> decodes (ec_private_blob name) (pk, be_nat e) (one name @ one curve @ one pk @ one e)"
    and "decodes (ec_public_blob name) pk (one name @ one curve @ one pk)"
proof -
  note c = decodes_bind [OF decodes_ec_curve [OF assms(1-4)], unfolded append_assoc]
  show "decodes (ec_public_blob name) pk (one name @ one curve @ one pk)"
    unfolding ec_public_blob_def by (rule c, rule decodes_one, rule assms)
  assume e: "fits e"
  show "decodes (ec_private_blob name) (pk, be_nat e) (one name @ one curve @ one pk @ one e)"
    unfolding ec_private_blob_def
    by (rule c, rule decodes_one_bind, rule assms, rule decodes_map, rule decodes_number, rule e)
qed

lemma ecdsa_verifies:
  assumes k: "key_blobs lib (SEcdsa a) priv pub"
    and s: "signer_sign (signer_of lib (SEcdsa a)) priv data = Ok sig" "fits sig"
  shows "verifier_verify (verifier_of lib (SEcdsa a)) pub
    (signature_blob (sig_name (SEcdsa a)) sig) data = Ok True"
proof -
  from k obtain curve pk e where f: "fits (ec_name a)" "fits curve" "utf8_valid curve"
      "ends_with curve (ec_name a)" "fits pk" and e: "fits e"
    and keys: "ec_keys lib (ec_nid a) (be_nat e) pk"
    and blobs: "priv = one (ec_name a) @ one curve @ one pk @ one e"
      "pub = one (ec_name a) @ one curve @ one pk" by auto
  have ps: "parsed (ec_private_blob (ec_name a)) priv = Ok (pk, be_nat e)"
    "parsed (ec_public_blob (ec_name a)) pub = Ok pk"
    unfolding blobs using decodes_ec_blobs [OF f] e by (simp_all add: parsed_decodes)
  from s(1) ps obtain pt k hash r x where pt: "ec_point lib (ec_nid a) pk = Ok pt"
    "ec_private lib (ec_nid a) (be_nat e) pt = Ok k" and h: "message_digest lib (ec_hash a) data = Ok hash"
    and "ecdsa_sign_hash lib hash k = Ok (r, x)"
    and sig: "sig = make_buffer_without_header [FOne (to_integer r), FOne (to_integer x)]"
    by (auto simp: signer_of_def ecdsa_sign_initialize_def ecdsa_signature_def ecdsa_calculate_hash_def
        get_key_def sig_run split: option.splits)
  with keys obtain k' der where v: "ec_public lib (ec_nid a) pt = Ok k'" "ecdsa_to_der lib r x = Ok der"
    "ecdsa_verify_der lib k' hash der = Ok True" unfolding ec_keys_def by blast
  have sig: "sig = one (to_integer r) @ one (to_integer x)"
    using sig by (simp add: make_buffer_without_header_eq)
  with s(2) have "fits (to_integer r)" "fits (to_integer x)" using fits_one by blast+
  from parsed_decodes(2) [OF decodes_ecdsa_numbers [OF this]] sig
  have n: "parsed ecdsa_numbers sig = Ok (r, x)" by simp
  show ?thesis
    using ps(2) pt h v n parsed_decodes(2) [OF decodes_typed_signature [OF f(1) s(2)]]
    by (simp add: verifier_of_def signature_blob_def ecdsa_verify_initialize_def ecdsa_verify_def
        ecdsa_calculate_hash_def get_key_def sr_defs)
qed

interpretation registered: signature_scheme "key_blobs lib obj" "signer_sign (signer_of lib obj)"
  "verifier_initialize (verifier_of lib obj)" "verifier_verify (verifier_of lib obj)" "sig_name obj"
  for lib obj
proof unfold_locales
  show "key_blobs lib obj priv pub \<Longrightarrow> signer_sign (signer_of lib obj) priv data = Ok sig \<Longrightarrow> fits sig \<Longrightarrow>
      verifier_verify (verifier_of lib obj) pub (signature_blob (sig_name obj) sig) data = Ok True"
    for priv pub data sig
    by (cases obj) (simp_all only: ed_verifies rsa_verifies ecdsa_verifies key_blobs.simps(3))
next
  show "verifier_verify (verifier_of lib obj) pub blob data = Ok b \<Longrightarrow>
      verifier_initialize (verifier_of lib obj) pub = Ok ()" for pub blob data b
    by (auto simp: verifier_of_def sbind_Ok_iff fst_Ok_iff)
qed

section \<open>What an accepted signature says\<close>

text \<open>The library's answer, for the key and the signature the blobs hold.\<close>

fun library_accepts ::
    "('m, 'p, 'd, 'v, 'k, 'pt) pkey_library \<Rightarrow> ('m, 'p, 'd, 'k) sig_object \<Rightarrow> bytes \<Rightarrow> bytes \<Rightarrow> bytes \<Rightarrow> bool" where
  "library_accepts lib (SEd25519 a) pub sig data \<longleftrightarrow>
     (\<exists>pk c. parsed (typed_signature (str ''ssh-ed25519'')) pub = Ok pk \<and>
        ed25519_public lib pk = Ok c \<and> fst (digest_verify lib data sig c) = Ok True)"
| "library_accepts lib (SRsa a) pub sig data \<longleftrightarrow>
     (\<exists>n e c hash. parsed rsa_public_blob pub = Ok (n, e) \<and> rsa_public lib n e (rsa_hash a) = Ok c \<and>
        message_digest lib (rsa_hash a) data = Ok hash \<and> fst (pkey_verify lib hash sig c) = Ok True)"
| "library_accepts lib (SDsa a) pub sig data \<longleftrightarrow>
     (\<exists>ks k v der. parsed (dsa_blob 4) pub = Ok ks \<and>
        dsa_public lib (ks ! 0) (ks ! 1) (ks ! 2) (ks ! 3) = Ok k \<and> length sig = 40 \<and>
        dsa_to_der lib (be_nat (take 20 sig)) (be_nat (drop 20 sig)) = Ok der \<and>
        dsa_verifier lib Sha1 k data = Ok v \<and> dsa_verify_der lib v der = Ok True)"
| "library_accepts lib (SEcdsa a) pub sig data \<longleftrightarrow>
     (\<exists>pk pt k r s der hash. parsed (ec_public_blob (ec_name a)) pub = Ok pk \<and>
        ec_point lib (ec_nid a) pk = Ok pt \<and> ec_public lib (ec_nid a) pt = Ok k \<and>
        parsed ecdsa_numbers sig = Ok (r, s) \<and> ecdsa_to_der lib r s = Ok der \<and>
        message_digest lib (ec_hash a) data = Ok hash \<and> ecdsa_verify_der lib k hash der = Ok True)"

lemma or_false_True [simp]: "or_false r = Ok True \<longleftrightarrow> r = Ok True"
  by (cases r) auto

lemma unwrap_or_false_True:
  "unwrap_or_false m s = (Ok True, s') \<longleftrightarrow> m s = (Ok True, s')"
  by (auto simp: unwrap_or_false_def split: prod.splits)

lemma ed_blob_type:
  "parsed ed_signature_blob blob = Ok (Some s) \<Longrightarrow>
   parsed (typed_signature (str ''ssh-ed25519'')) blob = Ok s"
  by (auto simp: parsed_def ed_signature_blob_def typed_signature_def expect_type_def sig_run
      split: if_splits)

lemma verified:
  assumes "verifier_verify (verifier_of lib obj) pub blob data = Ok True"
  shows "\<exists>sig. parsed (typed_signature (sig_name obj)) blob = Ok sig \<and> library_accepts lib obj pub sig data"
  using assms
  by (cases obj)
    (auto simp: verifier_of_def ed_verify_initialize_def ed_verify_def rsa_verify_initialize_def
      rsa_verify_def rsa_calculate_hash_def dsa_verify_initialize_def dsa_verify_def
      ecdsa_verify_initialize_def ecdsa_verify_def ecdsa_calculate_hash_def get_key_def
      sig_run unwrap_or_false_True dest!: ed_blob_type split: option.splits if_splits)

end
