(* ===== verification/SignatureProperties.thy ===== *)
theory SignatureProperties
  imports SignatureFacts HandshakeProperties
begin

text \<open>
  Properties of the signature algorithms and of host keys checked with them: an honest server is
  never turned away for its signature, and a session starts only on a signature OpenSSL accepted.
  Each property has a run of a small library in which its hypotheses hold.
\<close>

section \<open>A small library\<close>

definition demo_pkey :: "(bytes, bytes, bytes, bytes, bytes, bytes) pkey_library" where
  "demo_pkey =
     \<lparr>message_digest = (\<lambda>dig d. Ok (rev d)), ed25519_private = Ok, ed25519_public = Ok,
      digest_sign_len = (\<lambda>d c. (Ok 1, c)), digest_sign = (\<lambda>d n c. (Ok [sum_list (c @ d)], c)),
      digest_verify = (\<lambda>d sig c. (Ok (sig = [sum_list (c @ d)]), c)),
      rsa_public = (\<lambda>n e dig. Ok [of_nat n]), rsa_private = (\<lambda>n e d dp dq qi p q dig. Ok [of_nat n]),
      pkey_verify = (\<lambda>h sig c. (Ok (sig = c @ h), c)), pkey_sign_len = (\<lambda>h c. (Ok (length (c @ h)), c)),
      pkey_sign = (\<lambda>h n c. (Ok (c @ h), c)), dsa_public = (\<lambda>p q g y. Ok [of_nat y]),
      dsa_private = (\<lambda>p q g x y. Ok [of_nat y]), dsa_to_der = (\<lambda>r s. Ok [of_nat r, of_nat s]),
      dsa_verifier = (\<lambda>dig k d. Ok (k @ d)), dsa_verify_der = (\<lambda>v der. Ok (der = v)),
      dsa_sign_to_vec = (\<lambda>dig k d. Ok (48 # k @ d)), ec_point = (\<lambda>nid b. Ok b), ec_public = (\<lambda>nid b. Ok b),
      ec_private = (\<lambda>nid e pt. Ok pt), ecdsa_sign_hash = (\<lambda>h k. Ok (be_nat h, be_nat k)),
      ecdsa_to_der = (\<lambda>r s. Ok [of_nat r, of_nat s]), ecdsa_verify_der = (\<lambda>k h der. Ok (der = [of_nat (be_nat h), of_nat (be_nat k)]))\<rparr>"

definition demo_ed :: "(bytes, bytes, bytes, bytes) sig_object" where
  "demo_ed = SEd25519 ed25519_new"

definition demo_ed_blob :: bytes where
  "demo_ed_blob = one (str ''ssh-ed25519'') @ one [9]"

lemma demo_ed_keys: "key_blobs demo_pkey demo_ed demo_ed_blob demo_ed_blob"
  unfolding demo_ed_def key_blobs.simps
  by (rule exI [of _ "[9]"], rule exI [of _ "[9]"])
    (simp add: demo_ed_blob_def fits_def ed_keys_def demo_pkey_def)

section \<open>Signing and verifying\<close>

text \<open>C33: What a registered signer makes of a message, sent under its name, the verifier registered
  under the same name accepts, for all algorithms whose keys can be a pair (all but DSA).\<close>

theorem signature_verifies:
  assumes "map_of (signer_table lib) name = Some signer" "map_of (verifier_table lib) name = Some verifier"
    and "map_of signature_registry name = Some obj" "key_blobs lib obj priv pub"
    and "signer_sign signer priv data = Ok sig" "fits sig"
  shows "verifier_verify verifier pub (signature_blob name sig) data = Ok True"
proof -
  have "(name, obj) \<in> set signature_registry" using assms(3) by (rule map_of_SomeD)
  then have n: "sig_name obj = name"
    by (auto simp: signature_registry_def rsa_sha2_256_def rsa_sha2_512_def ssh_rsa_def rsa_new_def
        ecdsa_sha2_nistp256_def ecdsa_sha2_nistp384_def ecdsa_sha2_nistp521_def ecdsa_new_def)
  have "signer = signer_of lib obj" "verifier = verifier_of lib obj"
    using assms(1-3) by (simp_all add: signer_table_def verifier_table_def map_of_map)
  with registered.verifies [of lib obj priv pub data sig] assms(4-6) n show ?thesis by simp
qed

theorem signature_verifies_witness:
  "\<exists>signer verifier sig. map_of (signer_table demo_pkey) (str ''ssh-ed25519'') = Some signer \<and>
    map_of (verifier_table demo_pkey) (str ''ssh-ed25519'') = Some verifier \<and>
    signer_sign signer demo_ed_blob [1, 2] = Ok sig \<and>
    verifier_verify verifier demo_ed_blob (signature_blob (str ''ssh-ed25519'') sig) [1, 2] = Ok True"
proof -
  have t: "map_of (signer_table demo_pkey) (str ''ssh-ed25519'') = Some (signer_of demo_pkey demo_ed)"
    "map_of (verifier_table demo_pkey) (str ''ssh-ed25519'') = Some (verifier_of demo_pkey demo_ed)"
    "map_of signature_registry (str ''ssh-ed25519'') = Some demo_ed"
    by (simp_all add: signer_table_def verifier_table_def signature_registry_def demo_ed_def)
  have f: "fits (str ''ssh-ed25519'')" "fits [9]" by (simp_all add: fits_def)
  have s: "signer_sign (signer_of demo_pkey demo_ed) demo_ed_blob [1, 2] = Ok [12]"
    using parsed_decodes(2) [OF decodes_typed_signature [OF f]]
    by (simp add: signer_of_def demo_ed_def demo_ed_blob_def ed_sign_initialize_def ed_signature_def sr_defs
        demo_pkey_def)
  have "fits [12]" by (simp add: fits_def)
  from signature_verifies [OF t demo_ed_keys s this] t s show ?thesis by blast
qed

text \<open>A DSA signature of this client is the DER that OpenSSL makes; unless that happens to have
  40 bytes, the client's own verifier, like every peer that follows RFC 4253, refuses it.\<close>

theorem dsa_signature_refused:
  assumes "signer_sign (signer_of lib (SDsa ssh_dss)) priv data = Ok sig" "fits sig" "length sig \<noteq> 40"
    and "verifier_initialize (verifier_of lib (SDsa ssh_dss)) pub = Ok ()"
  shows "(\<exists>key. dsa_sign_to_vec lib Sha1 key data = Ok sig) \<and>
    verifier_verify (verifier_of lib (SDsa ssh_dss)) pub (signature_blob (str ''ssh-dss'') sig) data =
      Err (CipherError ''SignatureVerificationFailed'')"
proof -
  have f: "fits (str ''ssh-dss'')" by (simp add: fits_def)
  have "\<exists>key. dsa_sign_to_vec lib Sha1 key data = Ok sig"
    using assms(1) by (auto simp: signer_of_def dsa_signature_def sig_run split: option.splits)
  moreover obtain c where "dsa_verify_initialize lib pub ssh_dss = (Ok (), c)"
    using assms(4) by (auto simp: verifier_of_def fst_Ok_iff via_iff)
  ultimately show ?thesis
    using parsed_decodes(2) [OF decodes_typed_signature [OF f assms(2)]] assms(3)
    by (simp add: verifier_of_def signature_blob_def dsa_verify_def sr_defs)
qed

definition demo_dsa_blob :: "nat \<Rightarrow> bytes" where
  "demo_dsa_blob n = one (str ''ssh-dss'') @ concat (map one (replicate n [7]))"

lemma parsed_demo_dsa: "parsed (dsa_blob n) (demo_dsa_blob n) = Ok (replicate n 7)"
proof -
  have "decodes (times (length (replicate n [7 :: u8])) consume_number) (map be_nat (replicate n [7]))
      (concat (map one (replicate n [7])))"
    by (rule decodes_numbers) (auto simp: fits_def)
  then have "decodes (dsa_blob n) (replicate n 7) (demo_dsa_blob n)"
    unfolding dsa_blob_def demo_dsa_blob_def by (intro decodes_type) (simp_all add: fits_def be_nat_def)
  then show ?thesis by (rule parsed_decodes)
qed

theorem dsa_signature_refused_witness:
  "verifier_verify (verifier_of demo_pkey (SDsa ssh_dss)) (demo_dsa_blob 4)
     (signature_blob (str ''ssh-dss'') [48, 7, 1]) [1] = Err (CipherError ''SignatureVerificationFailed'')"
proof -
  have "signer_sign (signer_of demo_pkey (SDsa ssh_dss)) (demo_dsa_blob 5) [1] = Ok [48, 7, 1]"
    by (simp add: signer_of_def dsa_sign_initialize_def dsa_signature_def parsed_demo_dsa sr_defs
        demo_pkey_def ssh_dss_def)
  moreover have "verifier_initialize (verifier_of demo_pkey (SDsa ssh_dss)) (demo_dsa_blob 4) = Ok ()"
    by (simp add: verifier_of_def dsa_verify_initialize_def parsed_demo_dsa sr_defs demo_pkey_def ssh_dss_def)
  ultimately show ?thesis
    using dsa_signature_refused [of demo_pkey "demo_dsa_blob 5" "[1]" "[48, 7, 1]" "demo_dsa_blob 4"]
    by (simp add: fits_def)
qed

section \<open>Host keys\<close>

text \<open>The exchange hash the client comes to when the server's reply is read.\<close>

definition reply_hash ::
    "bytes \<Rightarrow> bytes \<Rightarrow> bytes \<Rightarrow> ('e, 'd, 'c, 'z, 'm) handshaker \<Rightarrow> bytes res" where
  "reply_hash own host_key peer s =
     fst (sbind (on_kex (compute_secret_key peer)) (\<lambda>secret.
       sbind (sget (\<lambda>s. exchange_info s host_key own peer secret)) (\<lambda>info.
       sbind (slift info) (\<lambda>info.
       sbind (on_kex (sget (compute_hash info))) slift))) s)"

text \<open>What is left of a reply once its signature is accepted: the question to the application.\<close>

lemma reply_asks:
  assumes m: "map_option m_host_key (hs_matched s) = Some v"
    and h: "reply_hash own host_key peer s = Ok hash"
    and v: "verifier_initialize v host_key = Ok ()" "verifier_verify v host_key signature hash = Ok True"
  shows "calls (hs_notifier (snd (accept_reply own (host_key, peer, signature) s))) =
    calls (hs_notifier s) @ [VerifyServerHostKey (verifier_name v) host_key]"
proof -
  from h obtain secret s1 info s2 where
    1: "on_kex (compute_secret_key peer) s = (Ok secret, s1)"
    and 2: "exchange_info s1 host_key own peer secret = Ok info"
    and c: "on_kex (sget (compute_hash info)) s1 = (Ok (Ok hash), s2)"
    by (auto simp: reply_hash_def fst_Ok_iff sbind_Ok_iff slift_def sget_def)
  from c obtain m1 where 3: "hs_matched s1 = Some m1" "compute_hash info (m_kex m1) = Ok hash"
    by (auto simp: on_matched_Ok_iff zoom_Ok_iff sget_def)
  have s1: "settled s1 = settled s" by (rule keepsD [OF settled_kex [OF origin_kept(2)] 1])
  with m 3 have m1: "m_host_key m1 = v" by (auto simp: settled_def choices_def)
  have n1: "hs_notifier s1 = hs_notifier s" using s1 by (simp add: settled_def)
  have k: "on_kex (sget f) s1 = (Ok (f (m_kex m1)), s1)" for f :: "key_exchange \<Rightarrow> 'x"
    using 3 by (simp add: on_matched_def sr_defs zoom_def)
  show ?thesis
    using 1 2 3 m1 n1 v k
    by (auto simp: accept_reply_def sbind_def on_matched_def ask_host_key_def Let_def sr_defs split: res.splits prod.splits)
qed

context signature_scheme
begin

lemma honest_reply_asks:
  assumes "map_option m_host_key (hs_matched s) = Some v"
    and "verifier_initialize v = load" "verifier_verify v = check"
    and "pair priv host_key" "reply_hash own host_key peer s = Ok hash" "sign priv hash = Ok sig" "fits sig"
  shows "calls (hs_notifier (snd (accept_reply own (host_key, peer, signature_blob name sig) s))) =
    calls (hs_notifier s) @ [VerifyServerHostKey (verifier_name v) host_key]"
  by (rule reply_asks [OF assms(1,5)])
    (simp_all add: assms(2,3) loaded [OF assms(4,6,7)] verifies [OF assms(4,6,7)])

end

text \<open>C34: A server that signs the exchange hash with the private key of its host key is never turned
  away for its signature: the client goes on to ask the application about that host key.\<close>

theorem honest_server_asked:
  assumes "map_option m_host_key (hs_matched s) = Some (verifier_of lib obj)"
    and "key_blobs lib obj priv host_key" and "reply_hash own host_key peer s = Ok hash"
    and "signer_sign (signer_of lib obj) priv hash = Ok sig" "fits sig"
  shows "calls (hs_notifier (snd (accept_reply own (host_key, peer, signature_blob (sig_name obj) sig) s))) =
    calls (hs_notifier s) @ [VerifyServerHostKey (sig_name obj) host_key]"
  using registered.honest_reply_asks [OF assms(1) refl refl assms(2-5)] by (simp add: verifier_of_def)

text \<open>C35: A session starts only if OpenSSL accepted, for the key in the host key blob of the server's
  reply, the signature in that reply: the blob is one of the negotiated algorithm, and what it holds
  is a valid signature over the RFC 4253 hash of this exchange, which becomes the session id.\<close>

theorem host_key_proved:
  assumes "key_exchange rnd s = (Ok (), s')"
    and "map_option m_host_key (hs_matched s) = Some (verifier_of lib obj)"
  shows "\<exists>host_key signature hash keys sig. vouched rnd s host_key signature hash keys \<and>
    hs_session_id s' = Some hash \<and>
    parsed (typed_signature (sig_name obj)) signature = Ok sig \<and> library_accepts lib obj host_key sig hash"
proof -
  from key_exchange_Ok [OF assms(1)] obtain host_key signature hash keys where
    v: "vouched rnd s host_key signature hash keys" and h: "hs_session_id s' = Some hash"
    by blast
  from v assms(2) have "verifier_verify (verifier_of lib obj) host_key signature hash = Ok True"
    unfolding vouched_def signed_exchange_def by (auto simp: choices_def)
  with verified v h show ?thesis by blast
qed

text \<open>A key exchange whose reply is signed with the small library's Ed25519.\<close>

definition signed_matched :: "(u8, u8, unit, unit, bytes) matched_methods" where
  "signed_matched = toy_matched\<lparr>m_host_key := verifier_of demo_pkey demo_ed\<rparr>"

definition signed_handshaker :: "bytes \<Rightarrow> (u8, u8, unit, unit, bytes) handshaker" where
  "signed_handshaker d = (toy_handshaker d)\<lparr>hs_matched := Some signed_matched\<rparr>"

definition signed_reply :: bytes where
  "signed_reply =
    [0, 0, 0, 60, 5, 31, 0, 0, 0, 20, 0, 0, 0, 11, 115, 115, 104, 45, 101, 100, 50, 53, 53, 49,
     57, 0, 0, 0, 1, 9, 0, 0, 0, 1, 8, 0, 0, 0, 20, 0, 0, 0, 11, 115, 115, 104, 45, 101, 100,
     50, 53, 53, 49, 57, 0, 0, 0, 1, 19, 0, 0, 0, 0, 0]"

lemma demo_verifier:
  "verifier_initialize (verifier_of demo_pkey demo_ed) demo_ed_blob = Ok ()"
  "verifier_verify (verifier_of demo_pkey demo_ed) demo_ed_blob
     (signature_blob (str ''ssh-ed25519'') [19]) [1, 2, 3, 4] = Ok True"
proof -
  have f: "fits (str ''ssh-ed25519'')" "fits [9]" "fits [19]" by (simp_all add: fits_def)
  show "verifier_initialize (verifier_of demo_pkey demo_ed) demo_ed_blob = Ok ()"
    "verifier_verify (verifier_of demo_pkey demo_ed) demo_ed_blob
       (signature_blob (str ''ssh-ed25519'') [19]) [1, 2, 3, 4] = Ok True"
    using parsed_decodes(2) [OF decodes_typed_signature [OF f(1,2)]]
      parsed_decodes(2) [OF decodes_ed_blob [OF f(3)]]
    by (simp_all add: verifier_of_def demo_ed_def demo_ed_blob_def signature_blob_def ed_verify_initialize_def
        ed_verify_def unwrap_or_false_def sr_defs demo_pkey_def)
qed

lemma signed_bytes:
  "demo_ed_blob = [0, 0, 0, 11, 115, 115, 104, 45, 101, 100, 50, 53, 53, 49, 57, 0, 0, 0, 1, 9]"
  "signature_blob (str ''ssh-ed25519'') [19] =
    [0, 0, 0, 11, 115, 115, 104, 45, 101, 100, 50, 53, 53, 49, 57, 0, 0, 0, 1, 19]"
  by (simp_all add: demo_ed_blob_def signature_blob_def one_def u32_to_be_def as_u32_def)

lemma signed_run: "fst (key_exchange (\<lambda>_ _. 0) (signed_handshaker (signed_reply @ toy_newkeys))) = Ok ()"
  using demo_verifier [unfolded signed_bytes]
  by (simp add: key_exchange_def group_exchange_def on_matched_def on_plain_def generate_key_def
    x25519_generate_key_def fresh_key_def kex_request_code_def kex_response_code_def signed_handshaker_def
    toy_handshaker_def handshaker_new_def signed_matched_def toy_matched_def toy_kex_def kex_new_def plain_new_def
    buffered_def endpoint_default_def run_defs strict_def padding_for_def bump_client_def random_bytes_def
    as_u8_def put_one_def put_u8_def put_u32_def put_bytes_def u32_to_be_def as_u32_def
    wait_packet_def unread_def signed_reply_def toy_newkeys_def parse_reply_def
    accept_reply_def exchange_info_def unwrap_def compute_secret_key_def x25519_compute_secret_key_def agreed_def
    compute_hash_def ecdh_compute_hash_def ask_host_key_def initialize_def compute_communicate_key_def
    toy_cipher_def toy_mac_def information.make_def compute_keys_def expand_numeral install_keys_def
    bump_server_def into_integer_def)

theorem host_key_proved_witness:
  "\<exists>s' host_key signature keys sig.
    key_exchange (\<lambda>_ _. 0) (signed_handshaker (signed_reply @ toy_newkeys)) = (Ok (), s') \<and>
    vouched (\<lambda>_ _. 0) (signed_handshaker (signed_reply @ toy_newkeys)) host_key signature [1, 2, 3, 4] keys \<and>
    hs_session_id s' = Some [1, 2, 3, 4] \<and> library_accepts demo_pkey demo_ed host_key sig [1, 2, 3, 4]"
proof -
  obtain s' where s': "key_exchange (\<lambda>_ _. 0) (signed_handshaker (signed_reply @ toy_newkeys)) = (Ok (), s')"
    using signed_run by (cases "key_exchange (\<lambda>_ _. 0) (signed_handshaker (signed_reply @ toy_newkeys))") auto
  have v: "map_option m_host_key (hs_matched (signed_handshaker (signed_reply @ toy_newkeys))) =
      Some (verifier_of demo_pkey demo_ed)" by (simp add: signed_handshaker_def signed_matched_def)
  from host_key_proved [OF s' v] obtain host_key signature hash keys sig where
    h: "vouched (\<lambda>_ _. 0) (signed_handshaker (signed_reply @ toy_newkeys)) host_key signature hash keys"
      "hs_session_id s' = Some hash" "library_accepts demo_pkey demo_ed host_key sig hash"
    by blast
  from h(1) obtain m front vals where
    "map_option choices (hs_matched (signed_handshaker (signed_reply @ toy_newkeys))) = Some (choices m)"
    "hash = rfc_exchange_hash (m_kex m) front vals"
    unfolding vouched_def signed_exchange_def by blast
  moreover from this(1) have "kex_library (m_kex m) = kex_library toy_kex"
    by (simp add: choices_def signed_handshaker_def signed_matched_def toy_matched_def)
  ultimately have "hash = [1, 2, 3, 4]" by (simp add: rfc_exchange_hash_def toy_kex_def kex_new_def)
  with s' h show ?thesis by blast
qed

definition signed_started :: "(u8, u8, unit, unit, bytes) handshaker" where
  "signed_started = snd (on_kex generate_key (signed_handshaker []))"

lemmas started_defs = signed_started_def signed_handshaker_def signed_matched_def toy_matched_def
  toy_handshaker_def toy_kex_def kex_new_def on_matched_def zoom_def sbind_def sr_defs handshaker_new_def
  generate_key_def x25519_generate_key_def fresh_key_def

theorem honest_server_asked_witness:
  "calls (hs_notifier (snd (accept_reply [5] (demo_ed_blob, [8], signature_blob (str ''ssh-ed25519'') [19])
     signed_started))) = [VerifyServerHostKey (str ''ssh-ed25519'') demo_ed_blob]"
proof -
  have m: "map_option m_host_key (hs_matched signed_started) = Some (verifier_of demo_pkey demo_ed)"
    by (simp add: started_defs)
  have h: "reply_hash [5] demo_ed_blob [8] signed_started = Ok [1, 2, 3, 4]"
    by (simp add: reply_hash_def started_defs compute_secret_key_def x25519_compute_secret_key_def agreed_def
        exchange_info_def unwrap_def compute_hash_def ecdh_compute_hash_def information.make_def)
  have f: "fits (str ''ssh-ed25519'')" "fits [9]" "fits [19]" by (simp_all add: fits_def)
  have s: "signer_sign (signer_of demo_pkey demo_ed) demo_ed_blob [1, 2, 3, 4] = Ok [19]"
    using parsed_decodes(2) [OF decodes_typed_signature [OF f(1,2)]]
    by (simp add: signer_of_def demo_ed_def demo_ed_blob_def ed_sign_initialize_def ed_signature_def sr_defs
        demo_pkey_def)
  from honest_server_asked [OF m demo_ed_keys h s f(3)] show ?thesis
    by (simp add: demo_ed_def started_defs)
qed

end
