(* ===== verification/KeyFacts.thy ===== *)
theory KeyFacts
  imports Keys SignatureFacts SuiteFacts
begin

text \<open>
  Lemmas about key files: a field that was read is the field that was written, so the two halves
  of an accepted key agree; and no file makes the parser panic.
\<close>

section \<open>Fields that were read were written\<close>

lemma consume_text_exact:
  "consumer_ok c \<Longrightarrow> consume_text c = (Ok x, c') \<Longrightarrow> peek c = one x @ peek c' \<and> fits x \<and> consumer_ok c'"
  using consume_one_exact [of c x c']
  by (auto simp: consume_text_def sbind_Ok_iff slift_def key_text_def split: if_splits)

lemma expect_field_exact:
  "consumer_ok c \<Longrightarrow> expect_field detail x c = (Ok (), c') \<Longrightarrow> peek c = one x @ peek c' \<and> consumer_ok c'"
  using consume_one_exact [of c x c']
  by (auto simp: expect_field_def sbind_Ok_iff sr_defs split: if_splits)

lemma parsed_Ok: "parsed m bs = Ok x \<longleftrightarrow> (\<exists>c. m (consumer_new bs) = (Ok x, c))"
  by (simp add: parsed_def fst_Ok_iff)

lemma expect_fields_exact:
  assumes "parsed (sbind (expect_field d x) (\<lambda>_. expect_field e y)) bs = Ok ()"
  shows "\<exists>rest. bs = one x @ one y @ rest"
proof -
  from assms obtain c1 c2 where 1: "expect_field d x (consumer_new bs) = (Ok (), c1)"
    and 2: "expect_field e y c1 = (Ok (), c2)" by (auto simp: parsed_Ok sbind_Ok_iff)
  from expect_field_exact [OF _ 1] expect_field_exact [OF _ 2] show ?thesis by auto
qed

lemma expect_three_exact:
  assumes "parsed (sbind (expect_field d x) (\<lambda>_. sbind (expect_field e y) (\<lambda>_. expect_field f z))) bs = Ok ()"
  shows "\<exists>rest. bs = one x @ one y @ one z @ rest"
proof -
  from assms obtain c1 c2 c3 where 1: "expect_field d x (consumer_new bs) = (Ok (), c1)"
    and 2: "expect_field e y c1 = (Ok (), c2)" and 3: "expect_field f z c2 = (Ok (), c3)"
    by (auto simp: parsed_Ok sbind_Ok_iff)
  from expect_field_exact [OF _ 1] expect_field_exact [OF _ 2] expect_field_exact [OF _ 3]
  show ?thesis by auto
qed

section \<open>The two halves of a key\<close>

text \<open>The fields of the private blob and of the public one, after the type.\<close>

definition halves :: "bytes \<Rightarrow> bytes list \<Rightarrow> bytes list \<Rightarrow> bool" where
  "halves type private public \<longleftrightarrow>
     (type = str ''ssh-rsa'' \<and> (\<exists>n e d iqmp p q. private = [n, e, d, iqmp, p, q] \<and> public = [e, n])) \<or>
     (type = str ''ssh-ed25519'' \<and>
        (\<exists>seed pk. private = [seed] \<and> public = [pk] \<and> length seed = 32 \<and> length pk = 32)) \<or>
     (type \<in> {str ''ecdsa-sha2-nistp256'', str ''ecdsa-sha2-nistp384'', str ''ecdsa-sha2-nistp521''} \<and>
        (\<exists>curve pk d. private = [curve, pk, d] \<and> public = [curve, pk] \<and> ends_with curve type))"

definition matching_halves :: "private_key \<Rightarrow> bool" where
  "matching_halves k \<longleftrightarrow> (\<exists>private public rest. halves (pk_type k) private public \<and>
     pk_private k = concat (map one (pk_type k # private)) \<and>
     pk_public k = concat (map one (pk_type k # public)) @ rest)"

lemma matching_halvesI:
  "halves (pk_type k) private public \<Longrightarrow> pk_private k = concat (map one (pk_type k # private)) \<Longrightarrow>
   pk_public k = concat (map one (pk_type k # public)) @ rest \<Longrightarrow> matching_halves k"
  unfolding matching_halves_def by blast

lemma rsa_section_Ok:
  assumes "rsa_section (str ''ssh-rsa'') public c = (Ok k, c')"
  shows "matching_halves k"
proof -
  from assms obtain n e d iqmp p q where
    pub: "parsed (sbind (expect_field ''Key type mismatched'' (str ''ssh-rsa'')) (\<lambda>_.
        sbind (expect_field ''Rsa e mismatched'' e) (\<lambda>_. expect_field ''Rsa n mismatched'' n))) public = Ok ()"
    and k: "pk_type k = str ''ssh-rsa''" "pk_public k = public"
      "pk_private k = make_buffer_without_header
         [FOne (str ''ssh-rsa''), FOne n, FOne e, FOne d, FOne iqmp, FOne p, FOne q]"
    by (auto simp: rsa_section_def sbind_Ok_iff slift_def sreturn_def)
  from expect_three_exact [OF pub] obtain rest where "public = one (str ''ssh-rsa'') @ one e @ one n @ rest"
    by blast
  with k show ?thesis
    by (intro matching_halvesI [of k "[n, e, d, iqmp, p, q]" "[e, n]" rest])
      (auto simp: halves_def make_buffer_without_header_eq)
qed

lemma ed25519_section_Ok:
  assumes "ed25519_section (str ''ssh-ed25519'') public c = (Ok k, c')"
  shows "matching_halves k"
proof -
  from assms obtain pk secret where
    pub: "parsed (sbind (expect_field ''Key type mismatched'' (str ''ssh-ed25519'')) (\<lambda>_.
        expect_field ''Public key mismatched'' pk)) public = Ok ()"
    and s: "length secret = 64" "pk = drop 32 secret"
    and k: "pk_type k = str ''ssh-ed25519''" "pk_public k = public"
      "pk_private k = make_buffer_without_header [FOne (str ''ssh-ed25519''), FOne (take 32 secret)]"
    by (auto simp: ed25519_section_def sbind_Ok_iff sr_defs split: if_splits)
  from expect_fields_exact [OF pub] obtain rest where "public = one (str ''ssh-ed25519'') @ one pk @ rest"
    by blast
  with k s show ?thesis
    by (intro matching_halvesI [of k "[take 32 secret]" "[pk]" rest])
      (auto simp: halves_def make_buffer_without_header_eq)
qed

lemma ecdsa_section_Ok:
  assumes "ecdsa_section type public c = (Ok k, c')"
    and t: "type \<in> {str ''ecdsa-sha2-nistp256'', str ''ecdsa-sha2-nistp384'', str ''ecdsa-sha2-nistp521''}"
  shows "matching_halves k"
proof -
  from assms(1) obtain curve pk d where
    pub: "parsed (sbind (expect_field ''Key type mismatched'' type) (\<lambda>_.
        sbind (expect_field ''Curve mismatched'' curve) (\<lambda>_.
        expect_field ''Public key dismatched'' pk))) public = Ok ()"
    and s: "ends_with curve type"
    and k: "pk_type k = type" "pk_public k = public"
      "pk_private k = make_buffer_without_header [FOne type, FOne curve, FOne pk, FOne d]"
    by (auto simp: ecdsa_section_def sbind_Ok_iff sr_defs split: if_splits)
  from expect_three_exact [OF pub] obtain rest where "public = one type @ one curve @ one pk @ rest"
    by blast
  with k s t show ?thesis
    by (intro matching_halvesI [of k "[curve, pk, d]" "[curve, pk]" rest])
      (auto simp: halves_def make_buffer_without_header_eq)
qed

lemma key_section_Ok:
  "key_section public method c = (Ok k, c') \<Longrightarrow> matching_halves k"
  using rsa_section_Ok ed25519_section_Ok ecdsa_section_Ok
  by (auto simp: key_section_def sfail_def split: if_splits)

lemma private_section_Ok: "private_section public c = (Ok k, c') \<Longrightarrow> matching_halves k"
  using key_section_Ok
  by (auto simp: private_section_def sbind_Ok_iff sr_defs split: if_splits)

lemma open_ssh_Ok:
  "parse_private_key_file_open_ssh lib contents passphrase = Ok k \<Longrightarrow> matching_halves k"
  using private_section_Ok
  by (auto simp: parse_private_key_file_open_ssh_def parsed_Ok sbind_Ok_iff slift_def sreturn_def
      sget_def sfail_def split: if_splits)

section \<open>No file makes the parser panic\<close>

definition calm :: "('s, 'a) sr \<Rightarrow> bool" where
  "calm m \<longleftrightarrow> (\<forall>s. fst (m s) \<noteq> Panic)"

text \<open>OpenSSL returns from every call, with a result or an error.\<close>

definition ssl_returns :: "('x, 'h, 'g) openssl \<Rightarrow> bool" where
  "ssl_returns ssl \<longleftrightarrow>
     (\<forall>dir c key iv. cipher_init ssl dir c key iv \<noteq> Panic) \<and> (\<forall>d. calm (cipher_update ssl d)) \<and>
     calm (cipher_final ssl) \<and> (\<forall>t. calm (cipher_set_tag ssl t)) \<and> (\<forall>d. calm (sign_update ssl d)) \<and>
     calm (sign_final_vec ssl) \<and> (\<forall>dir c key iv. crypter_new ssl dir c key iv \<noteq> Panic) \<and>
     (\<forall>d. calm (crypter_update ssl d)) \<and> calm (crypter_finalize ssl) \<and> (\<forall>t. calm (crypter_set_tag ssl t))"

lemma safe_on_some:
  "calm m \<Longrightarrow> (\<And>s t. P s \<Longrightarrow> P (put (Some t) s)) \<Longrightarrow> safe P (on_some detail get put m)"
  unfolding safe_def calm_def on_some_def by (auto split: option.split prod.split) (metis fst_conv)

text \<open>GCM objects have an IV of 12 bytes as soon as they have one.\<close>

definition iv_ok :: "'g gcm \<Rightarrow> bool" where
  "iv_ok c \<longleftrightarrow> (\<forall>iv. gcm_iv c = Some iv \<longrightarrow> length iv = 12)"

fun object_ok :: "('x, 'h, 'g) cipher_object \<Rightarrow> bool" where
  "object_ok (CGcm c) = iv_ok c"
| "object_ok _ = True"

lemma safe_via:
  assumes "safe P m" "P a" "\<And>a. P a \<Longrightarrow> Q (C a)"
  shows "fst (via C m a) \<noteq> Panic \<and> Q (snd (via C m a))"
  using assms by (auto simp: via_def safe_def split: prod.split)

lemma length_next_iv_12: "length iv = 12 \<Longrightarrow> length (next_iv iv) = 12"
  by simp

lemma safe_gcm_reset:
  "ssl_returns ssl \<Longrightarrow> safe iv_ok (gcm_reset ssl dir)"
  unfolding safe_def gcm_reset_def
  by (auto simp: sbind_def sr_defs iv_ok_def ssl_returns_def split: option.splits res.splits)

lemma object_initialize_ok:
  assumes ssl: "ssl_returns ssl" and "length key = key_len_of obj" "length iv = iv_len_of obj" "obj \<in> snd ` set parser_ciphers"
  shows "fst (object_initialize ssl dir iv key obj) \<noteq> Panic \<and>
    (\<forall>u a. object_initialize ssl dir iv key obj = (Ok u, a) \<longrightarrow> object_ok a)"
proof (cases obj)
  case (CChacha c)
  with assms ssl show ?thesis
    by (auto simp: chacha_initialize_def sbind_def sr_defs via_def ssl_returns_def split: res.splits prod.splits)
next
  case (CGcm c)
  then have "gcm_iv_len c = 12" using assms(4)
    by (auto simp: parser_ciphers_def cipher_registry_def aes128_gcm_openssh_def aes256_gcm_openssh_def gcm_new_def)
  with CGcm assms ssl show ?thesis
    by (auto simp: gcm_initialize_def sbind_def sr_defs via_def ssl_returns_def iv_ok_def
        split: res.splits prod.splits)
next
  case (CPlain c)
  with ssl show ?thesis
    by (auto simp: plain_initialize_def sbind_def sr_defs via_def ssl_returns_def split: res.splits prod.splits)
qed

lemma open_operations_ok:
  assumes ssl: "ssl_returns ssl" and ok: "object_ok obj"
  shows "fst (open_update ssl d obj) \<noteq> Panic \<and> object_ok (snd (open_update ssl d obj))"
    and "fst (open_tag ssl d obj) \<noteq> Panic \<and> object_ok (snd (open_tag ssl d obj))"
    and "fst (open_final ssl obj) \<noteq> Panic"
proof -
  note l = ssl [unfolded ssl_returns_def]
  have c: "safe (\<lambda>_. True) (chacha_open ssl d)" "safe (\<lambda>_. True) (chacha_set_tag d)"
      "safe (\<lambda>_. True) (chacha_open_final ssl)"
    unfolding chacha_open_def chacha_set_tag_def chacha_open_final_def
    by (intro safe_rules safe_on_some; use l in simp)+
  have g: "safe iv_ok (gcm_update ssl d)" "safe iv_ok (gcm_set_tag ssl d)" "safe iv_ok (gcm_open_final ssl)"
    unfolding gcm_update_def gcm_set_tag_def gcm_open_final_def
    by (intro safe_rules safe_on_some safe_gcm_reset ssl; use l in \<open>simp add: iv_ok_def\<close>)+
  have p: "safe (\<lambda>_. True) (plain_update ssl d)" "safe (\<lambda>_. True) (plain_set_tag ssl d)"
      "safe (\<lambda>_. True) (plain_final ssl)"
    unfolding plain_update_def plain_set_tag_def plain_final_def
    by (intro safe_on_some; use l in simp)+
  show "fst (open_update ssl d obj) \<noteq> Panic \<and> object_ok (snd (open_update ssl d obj))"
    "fst (open_tag ssl d obj) \<noteq> Panic \<and> object_ok (snd (open_tag ssl d obj))"
    using ok by (cases obj; simp; intro safe_via [OF c(1)] safe_via [OF g(1)] safe_via [OF p(1)]
      safe_via [OF c(2)] safe_via [OF g(2)] safe_via [OF p(2)]; simp)+
  show "fst (open_final ssl obj) \<noteq> Panic"
    using ok safe_via [OF c(3), where C = CChacha and Q = "\<lambda>_. True"] safe_via [OF g(3), where C = CGcm and Q = "\<lambda>_. True"]
      safe_via [OF p(3), where C = CPlain and Q = "\<lambda>_. True"] by (cases obj) auto
qed

text \<open>Every function of the library returns, and the key derivation fills its buffer.\<close>

fun pem_returns :: "pem_key \<Rightarrow> bool" where
  "pem_returns (PemEd25519 private public) \<longleftrightarrow> private \<noteq> Panic \<and> public \<noteq> Panic"
| "pem_returns (PemEc private curve point) \<longleftrightarrow> curve \<noteq> Some Panic \<and> point \<noteq> Panic"
| "pem_returns _ \<longleftrightarrow> True"

definition library_returns :: "('x, 'h, 'g) key_library \<Rightarrow> bool" where
  "library_returns lib \<longleftrightarrow> ssl_returns (key_ssl lib) \<and> (\<forall>s. decode_block lib s \<noteq> Panic) \<and>
     (\<forall>s p. private_key_from_pem lib s p \<noteq> Panic \<and>
        (\<forall>k. private_key_from_pem lib s p = Ok k \<longrightarrow> pem_returns k)) \<and>
     (\<forall>p s r n out. bcrypt_pbkdf lib p s r n = Some out \<longrightarrow> length out = n)"

lemma safe_step:
  assumes "fst (m a) \<noteq> Panic" and "\<And>r b. m a = (Ok r, b) \<Longrightarrow> safe P (f r b)"
  shows "safe P (sbind (slift (step m a)) (\<lambda>(r, b). f r b))"
proof (cases "m a")
  case (Pair r b)
  with assms show ?thesis by (cases r) (auto simp: safe_def sbind_def slift_def step.simps)
qed

lemma safe_open_data:
  assumes ssl: "ssl_returns ssl"
    and i: "length key = key_len_of obj" "length iv = iv_len_of obj" "obj \<in> snd ` set parser_ciphers"
  shows "safe consumer_ok (open_data ssl obj iv key data)"
proof -
  note o = open_operations_ok [OF ssl] and start = object_initialize_ok [OF ssl i, of Decrypting]
  have fin: "safe consumer_ok (sbind (slift (step (open_final ssl) a)) (\<lambda>(rest, a'). sreturn (plain @ rest)))"
    if "object_ok a" for a plain
    using o(3) [OF that] by (rule safe_step) (rule safe_sreturn)
  have tag: "safe consumer_ok (sbind (if is_galois_counter_mode a
        then sbind (consume_bytes (tag_len_of a)) (\<lambda>tag. slift (step (open_tag ssl tag) a))
        else sreturn ((), a)) (\<lambda>(_, a). sbind (slift (step (open_final ssl) a))
        (\<lambda>(rest, a'). sreturn (plain @ rest))))" if ok: "object_ok a" for a plain
  proof (cases "is_galois_counter_mode a")
    case True
    have "safe consumer_ok (sbind (slift (step (open_tag ssl tag) a)) (\<lambda>(_, a).
        sbind (slift (step (open_final ssl) a)) (\<lambda>(rest, a'). sreturn (plain @ rest))))" for tag
      using o(2) [OF ok, of tag] by (intro safe_step fin) auto
    with True show ?thesis by (auto simp: sbind_assoc intro: safe_bind safe_consume_bytes)
  qed (simp add: sbind_sreturn fin ok)
  show ?thesis unfolding open_data_def
    using start o(1) by (intro safe_step tag) (auto, metis snd_conv)
qed

lemma safe_key_text [safe_rules]: "safe P (slift (key_text bs))"
  by (intro safe_rules) (simp add: key_text_def)

lemma safe_consume_text [safe_rules]: "safe consumer_ok consume_text"
  unfolding consume_text_def by (intro safe_rules)

lemma safe_expect_field [safe_rules]: "safe consumer_ok (expect_field detail x)"
  unfolding expect_field_def by (intro safe_rules)

lemma safe_parsed [safe_rules]: "safe consumer_ok m \<Longrightarrow> safe P (slift (parsed m bs))"
  by (intro safe_slift parsed_not_Panic)

lemma safe_decrypt_data:
  assumes "library_returns lib"
  shows "safe consumer_ok (decrypt_data lib passphrase name kdf_name kdf_options data)"
  unfolding decrypt_data_def kdf_parameters_def
  using assms
  by (intro safe_rules safe_open_data) (auto simp: library_returns_def dest: map_of_SomeD intro: rev_image_eqI)

lemma safe_private_section: "safe consumer_ok (private_section public)"
  unfolding private_section_def key_section_def rsa_section_def ed25519_section_def ecdsa_section_def
  by (intro safe_rules)

lemma open_ssh_not_Panic:
  "library_returns lib \<Longrightarrow> parse_private_key_file_open_ssh lib contents passphrase \<noteq> Panic"
  unfolding parse_private_key_file_open_ssh_def
  by (intro parsed_not_Panic safe_rules safe_decrypt_data safe_private_section)

lemma res_bind_not_Panic: "r \<noteq> Panic \<Longrightarrow> (\<And>x. r = Ok x \<Longrightarrow> f x \<noteq> Panic) \<Longrightarrow> res_bind r f \<noteq> Panic"
  by (cases r) auto

lemma from_pem_not_Panic:
  "rsa_from_pem n e d iqmp p q \<noteq> Panic"
  "private \<noteq> Panic \<Longrightarrow> public \<noteq> Panic \<Longrightarrow> ed25519_from_pem private public \<noteq> Panic"
  "curve \<noteq> Some Panic \<Longrightarrow> point \<noteq> Panic \<Longrightarrow> ec_from_pem x curve point \<noteq> Panic"
proof -
  show "rsa_from_pem n e d iqmp p q \<noteq> Panic" by (simp add: rsa_from_pem_def split: option.split)
  show "private \<noteq> Panic \<Longrightarrow> public \<noteq> Panic \<Longrightarrow> ed25519_from_pem private public \<noteq> Panic"
    by (cases "private"; cases public) (simp_all add: ed25519_from_pem_def)
  show "curve \<noteq> Some Panic \<Longrightarrow> point \<noteq> Panic \<Longrightarrow> ec_from_pem x curve point \<noteq> Panic"
    by (cases curve; cases "the curve"; cases point) (simp_all add: ec_from_pem_def format_error_def Let_def)
qed

lemma parse_private_not_Panic:
  assumes "library_returns lib"
  shows "parse_private_key_file lib contents passphrase \<noteq> Panic"
proof -
  note l = assms [unfolded library_returns_def]
  have k: "(case key of PemRsa n e d iqmp p q \<Rightarrow> rsa_from_pem n e d iqmp p q
      | PemEd25519 private public \<Rightarrow> ed25519_from_pem private public
      | PemEc private curve point \<Rightarrow> ec_from_pem private curve point
      | PemOther kind \<Rightarrow> Err (KeyError (UnknownKeyType kind))) \<noteq> Panic" if "pem_returns key" for key
    using that from_pem_not_Panic by (cases key) simp_all
  have "res_bind (private_key_from_pem lib contents passphrase) (\<lambda>key. case key of
      PemRsa n e d iqmp p q \<Rightarrow> rsa_from_pem n e d iqmp p q
      | PemEd25519 private public \<Rightarrow> ed25519_from_pem private public
      | PemEc private curve point \<Rightarrow> ec_from_pem private curve point
      | PemOther kind \<Rightarrow> Err (KeyError (UnknownKeyType kind))) \<noteq> Panic"
    using l by (intro res_bind_not_Panic k) blast+
  moreover have "res_bind (decode_block lib body) (\<lambda>body. parse_private_key_file_open_ssh lib body passphrase) \<noteq> Panic"
    for body using l assms by (intro res_bind_not_Panic open_ssh_not_Panic) blast+
  ultimately show ?thesis
    by (simp add: parse_private_key_file_def Let_def key_text_def split: option.split)
qed

lemma drop_dropWhile: "drop (length xs - length (dropWhile P xs)) xs = dropWhile P xs"
proof -
  have "length xs = length (takeWhile P xs) + length (dropWhile P xs)"
    by (metis length_append takeWhile_dropWhile_id)
  then show ?thesis by (simp add: dropWhile_eq_drop)
qed

lemma safe_next_word [safe_rules]: "safe consumer_ok next_word"
proof (rule safeI)
  fix c assume c: "consumer_ok c"
  let ?data = "dropWhile is_space_or_tab (peek c)" and ?n = "length (peek c) - length (dropWhile is_space_or_tab (peek c))"
  have 1: "consumer_ok (c\<lparr>pos := pos c + ?n\<rparr>)" by (rule advance_ok [OF c]) simp
  have p: "peek (c\<lparr>pos := pos c + ?n\<rparr>) = ?data"
    by (simp only: peek_advance drop_dropWhile)
  have "length (takeWhile (\<lambda>b. \<not> is_space_or_tab b) ?data) \<le> length ?data" by (rule length_takeWhile_le)
  with advance_ok [OF 1] p have
    2: "consumer_ok (c\<lparr>pos := pos c + ?n + length (takeWhile (\<lambda>b. \<not> is_space_or_tab b) ?data)\<rparr>)" by simp
  show "consumer_ok (snd (next_word c)) \<and> fst (next_word c) \<noteq> Panic"
    using 1 2 by (simp add: next_word_def sr_defs Let_def)
qed

lemma until_empty_returns:
  assumes m: "safe consumer_ok m" and less: "\<And>c x c'. m c = (Ok x, c') \<Longrightarrow> length (peek c') < length (peek c)"
  shows "consumer_ok c \<Longrightarrow> length (peek c) < n \<Longrightarrow> fst (until_empty n m c) \<noteq> Panic"
proof (induction n arbitrary: c)
  case (Suc n)
  have pos: "pos c \<le> length (cdata c)" using Suc.prems(1) by (simp add: consumer_ok_def)
  obtain r c1 where mc: "m c = (r, c1)" by (cases "m c")
  with safe_state [OF m Suc.prems(1)] safe_no_panic [OF m Suc.prems(1)]
  have c1: "consumer_ok c1" "r \<noteq> Panic" by simp_all
  show ?case
  proof (cases r)
    case (Ok x)
    with less mc Suc.prems(2) have "length (peek c1) < n" by fastforce
    from Suc.IH [OF c1(1) this] Ok mc pos show ?thesis
      by (auto simp: is_empty_def sbind_def sr_defs split: res.splits prod.splits)
  qed (use mc c1 pos in \<open>auto simp: is_empty_def sbind_def sr_defs\<close>)
qed simp

lemma consume_text_progress: "consume_text c = (Ok x, c') \<Longrightarrow> length (peek c') < length (peek c)"
  by (auto simp: consume_text_def sbind_Ok_iff slift_def dest: consume_one_progress)

lemma parse_principals_not_Panic: "parse_principals names \<noteq> Panic"
  unfolding parse_principals_def parsed_def
  by (rule until_empty_returns [OF safe_consume_text consume_text_progress]) simp_all

lemma safe_public_key_line: "safe consumer_ok public_key_line"
  unfolding public_key_line_def method_word_def comment_word_def
  by (intro safe_rules)

lemma safe_certificate_fields: "safe consumer_ok (certificate_fields method)"
  unfolding certificate_fields_def certified_key_def consume_fields_def
  by (intro safe_rules parse_principals_not_Panic)

lemma parse_public_not_Panic:
  assumes "\<And>s. decode_block lib s \<noteq> Panic"
  shows "parse_public_key_file lib contents \<noteq> Panic"
proof -
  have b: "ssh2_public_key lib comment encoded \<noteq> Panic" for comment encoded
    unfolding ssh2_public_key_def by (intro res_bind_not_Panic assms parsed_not_Panic safe_rules) simp
  have c: "res_bind (parsed (certificate_fields type) blob)
      (\<lambda>(public, principals). Ok (Certificate type blob comment public principals)) \<noteq> Panic"
    for type blob comment
    by (rule res_bind_not_Panic [OF parsed_not_Panic [OF safe_certificate_fields]]) auto
  have d: "res_bind (decode_block lib encoded) (\<lambda>content.
      if \<not> ends_with CERT_SUFFIX type then Ok (Normal type content comment)
      else res_bind (parsed (certificate_fields type) content) (\<lambda>(public, principals).
        Ok (Certificate type content comment public principals))) \<noteq> Panic" for type encoded comment
    using c by (intro res_bind_not_Panic [OF assms]) simp
  have l: "res_bind (parsed public_key_line s) (\<lambda>(method, encoded, comment).
      res_bind (decode_block lib encoded) (\<lambda>content.
      if \<not> ends_with CERT_SUFFIX method then Ok (Normal method content comment)
      else res_bind (parsed (certificate_fields method) content) (\<lambda>(public, principals).
        Ok (Certificate method content comment public principals)))) \<noteq> Panic" for s
    using d by (intro res_bind_not_Panic [OF parsed_not_Panic [OF safe_public_key_line]]) auto
  show ?thesis
    using b l by (simp add: parse_public_key_file_def Let_def key_text_def split: option.split)
qed

end
