(* ===== verification/KeyFiles.thy ===== *)
theory KeyFiles
  imports KeyFacts
begin

text \<open>
  A reference writer of OpenSSH's key files, after the format's description: what it writes, plain
  or encrypted, \<open>src/key.rs\<close> reads back; and which words a public key line is cut into.
\<close>

section \<open>The writer\<close>

datatype key_material =
    RsaMaterial bytes bytes bytes bytes bytes bytes
  | EdMaterial bytes bytes
  | EcMaterial bytes bytes bytes bytes

fun material_type :: "key_material \<Rightarrow> bytes" where
  "material_type (RsaMaterial n e d iqmp p q) = str ''ssh-rsa''"
| "material_type (EdMaterial seed pk) = str ''ssh-ed25519''"
| "material_type (EcMaterial type curve pk d) = type"

text \<open>The fields in the file, in the blob for signing, and in the public key.\<close>

fun stored_fields :: "key_material \<Rightarrow> bytes list" where
  "stored_fields (RsaMaterial n e d iqmp p q) = [n, e, d, iqmp, p, q]"
| "stored_fields (EdMaterial seed pk) = [pk, seed @ pk]"
| "stored_fields (EcMaterial type curve pk d) = [curve, pk, d]"

fun private_fields :: "key_material \<Rightarrow> bytes list" where
  "private_fields (EdMaterial seed pk) = [seed]"
| "private_fields m = stored_fields m"

fun public_fields :: "key_material \<Rightarrow> bytes list" where
  "public_fields (RsaMaterial n e d iqmp p q) = [e, n]"
| "public_fields (EdMaterial seed pk) = [pk]"
| "public_fields (EcMaterial type curve pk d) = [curve, pk]"

fun material_ok :: "key_material \<Rightarrow> bool" where
  "material_ok (RsaMaterial n e d iqmp p q) \<longleftrightarrow> (\<forall>x \<in> set [n, e, d, iqmp, p, q]. fits x)"
| "material_ok (EdMaterial seed pk) \<longleftrightarrow> length seed = 32 \<and> length pk = 32"
| "material_ok (EcMaterial type curve pk d) \<longleftrightarrow> fits curve \<and> fits pk \<and> fits d \<and> ends_with curve type \<and>
     type \<in> {str ''ecdsa-sha2-nistp256'', str ''ecdsa-sha2-nistp384'', str ''ecdsa-sha2-nistp521''}"

definition public_blob :: "key_material \<Rightarrow> bytes" where
  "public_blob m = concat (map one (material_type m # public_fields m))"

definition private_part :: "u32 \<Rightarrow> key_material \<Rightarrow> bytes \<Rightarrow> nat \<Rightarrow> bytes" where
  "private_part check m comment pad =
     u32_to_be check @ u32_to_be check @ concat (map one (material_type m # stored_fields m @ [comment])) @
     map (\<lambda>i. as_u8 (i + 1)) [0..<pad]"

definition key_file :: "bytes \<Rightarrow> bytes \<Rightarrow> bytes \<Rightarrow> bytes \<Rightarrow> bytes \<Rightarrow> bytes \<Rightarrow> bytes" where
  "key_file cipher kdf options public data tag =
     OPEN_SSH_MAGIC @ one cipher @ one kdf @ one options @ u32_to_be 1 @ one public @ one data @ tag"

definition stored_key :: "key_material \<Rightarrow> bytes \<Rightarrow> private_key" where
  "stored_key m comment = \<lparr>pk_type = material_type m, pk_public = public_blob m,
     pk_private = concat (map one (material_type m # private_fields m)), pk_comment = comment\<rparr>"

section \<open>The private part\<close>

lemma decodes_text [dec_rules]:
  "wf_str s \<Longrightarrow> decodes (f s) y bs \<Longrightarrow> decodes (sbind consume_text f) y (one s @ bs)"
  unfolding consume_text_def sbind_assoc wf_str_def
  by (rule decodes_one_bind) (auto simp: key_text_def decodes_def sbind_def slift_def)

lemma decodes_text_last:
  "wf_str s \<Longrightarrow> decodes (sbind consume_text (\<lambda>x. sreturn (g x))) (g s) (one s)"
  using decodes_text [of s "\<lambda>x. sreturn (g x)" "g s" "[]"] by (simp add: decodes_return)

lemma decodes_expect [dec_rules]:
  "fits x \<Longrightarrow> decodes (expect_field d x) () (one x)"
  unfolding expect_field_def by (rule decodes_one_bind) (auto intro: decodes_return)

lemma decodes_slift_Ok [dec_rules]: "r = Ok x \<Longrightarrow> decodes (f x) y bs \<Longrightarrow> decodes (sbind (slift r) f) y bs"
  by (auto simp: decodes_def sbind_def slift_def)

lemma parsed_fields:
  assumes "fits x" "fits y"
  shows "parsed (sbind (expect_field d x) (\<lambda>_. expect_field e y)) (one x @ one y) = Ok ()"
    and "fits z \<Longrightarrow> parsed (sbind (expect_field d x) (\<lambda>_. sbind (expect_field e y) (\<lambda>_. expect_field f z)))
      (one x @ one y @ one z) = Ok ()"
  using assms by (intro parsed_decodes decodes_bind decodes_expect; simp)+

lemma fits_small: "length xs < 100 \<Longrightarrow> fits xs"
  by (simp add: fits_def)

lemma decodes_key_section:
  assumes m: "material_ok m" and c: "wf_str comment"
  shows "decodes (key_section (public_blob m) (material_type m)) (stored_key m comment)
    (concat (map one (stored_fields m @ [comment])))"
proof (cases m)
  case (RsaMaterial n e d iqmp p q)
  have t: "fits (str ''ssh-rsa'')" by (simp add: fits_def)
  from m RsaMaterial have f: "fits n" "fits e" "fits d" "fits iqmp" "fits p" "fits q" by auto
  have "decodes (rsa_section (str ''ssh-rsa'') (public_blob m)) (stored_key m comment)
      (one n @ one e @ one d @ one iqmp @ one p @ one q @ one comment)"
    unfolding rsa_section_def using f c parsed_fields(2) [OF t f(2,1)] RsaMaterial
    by (auto simp: public_blob_def stored_key_def make_buffer_without_header_eq
        intro!: decodes_one_bind decodes_slift_Ok decodes_text_last)
  with RsaMaterial show ?thesis by (simp add: key_section_def)
next
  case (EdMaterial seed pk)
  have t: "fits (str ''ssh-ed25519'')" by (simp add: fits_def)
  from m EdMaterial have l: "length seed = 32" "length pk = 32" by auto
  then have f: "fits pk" "fits (seed @ pk)" by (simp_all add: fits_def)
  have "decodes (ed25519_section (str ''ssh-ed25519'') (public_blob m)) (stored_key m comment)
      (one pk @ one (seed @ pk) @ one comment)"
    unfolding ed25519_section_def using f l c parsed_fields(1) [OF t f(1)] EdMaterial
    by (auto simp: public_blob_def stored_key_def make_buffer_without_header_eq
        intro!: decodes_one_bind decodes_slift_Ok decodes_text_last)
  with EdMaterial show ?thesis by (simp add: key_section_def)
next
  case (EcMaterial type curve pk d)
  from m EcMaterial have t: "fits type" "ends_with curve type" and f: "fits curve" "fits pk" "fits d"
    and n: "type \<in> {str ''ecdsa-sha2-nistp256'', str ''ecdsa-sha2-nistp384'', str ''ecdsa-sha2-nistp521''}"
    by (auto simp: fits_def)
  have "decodes (ecdsa_section type (public_blob m)) (stored_key m comment)
      (one curve @ one pk @ one d @ one comment)"
    unfolding ecdsa_section_def using f t c parsed_fields(2) [OF t(1) f(1,2)] EcMaterial
    by (auto simp: public_blob_def stored_key_def make_buffer_without_header_eq
        intro!: decodes_one_bind decodes_slift_Ok decodes_text_last)
  moreover have "type \<noteq> str ''ssh-rsa''" "type \<noteq> str ''ssh-ed25519''" using n by auto
  ultimately show ?thesis using EcMaterial n by (simp add: key_section_def)
qed

lemma padding_counts_up: "padding_counts (map (\<lambda>i. as_u8 (i + 1)) [0..<n])"
  by (simp add: padding_counts_def)

lemma wf_material_type: "material_ok m \<Longrightarrow> wf_str (material_type m)"
  by (cases m) (auto simp: wf_str_def fits_def)

lemma private_section_read:
  assumes m: "material_ok m" and c: "wf_str comment"
  shows "parsed (private_section (public_blob m)) (private_part check m comment n) = Ok (stored_key m comment)"
proof -
  let ?pad = "map (\<lambda>i. as_u8 (i + 1)) [0..<n]"
  define front where "front = sbind consume_u32 (\<lambda>check1. sbind consume_u32 (\<lambda>check2.
     if check1 \<noteq> check2 then sfail (format_error ''Checksum mismatch'')
     else sbind consume_text (key_section (public_blob m))))"
  have d: "decodes front (stored_key m comment) (u32_to_be check @ u32_to_be check @
      one (material_type m) @ concat (map one (stored_fields m @ [comment])))"
    unfolding front_def using decodes_key_section [OF m c] wf_material_type [OF m]
    by (intro decodes_u32_bind) (auto intro!: decodes_text)
  have eq: "private_section (public_blob m) = sbind front (\<lambda>result. sbind (sget peek) (\<lambda>rest.
       if \<not> padding_counts rest then sfail (format_error ''Unexpected padding in private key'')
       else sreturn result))"
    unfolding private_section_def front_def sbind_assoc
    by (intro ext) (simp add: sbind_def sfail_def split: prod.split res.split if_splits)
  show ?thesis
    using decodes_new [OF d, of ?pad] padding_counts_up [of n]
    by (simp add: eq private_part_def parsed_def sr_defs peek_def)
qed

lemma u32_bytes: "length bs = 4 \<Longrightarrow> \<exists>n. bs = u32_to_be n"
  by (auto simp: numeral_eq_Suc length_Suc_conv) (metis u32_to_be_from_be)

lemma private_section_checks:
  assumes "8 \<le> length body" "take 4 body \<noteq> take 4 (drop 4 body)"
  shows "parsed (private_section public) body = Err (format_error ''Checksum mismatch'')"
proof -
  have l: "length (take 4 body) = 4" "length (take 4 (drop 4 body)) = 4" using assms(1) by simp_all
  obtain m n :: u32 where mn: "take 4 body = u32_to_be m" "take 4 (drop 4 body) = u32_to_be n"
    using u32_bytes [OF l(1)] u32_bytes [OF l(2)] by blast
  define rest where "rest = drop 8 body"
  have "body = take 4 body @ take 4 (drop 4 body) @ drop 8 body"
    by (metis append_take_drop_id drop_drop numeral_Bit0)
  then have b: "body = u32_to_be m @ u32_to_be n @ rest" unfolding mn rest_def .
  have "decodes (sbind consume_u32 (\<lambda>x. sbind consume_u32 (\<lambda>y. sreturn (x, y)))) (m, n) (u32_to_be m @ u32_to_be n)"
    by (intro decodes_u32_bind decodes_return)
  from decodes_new [OF this, of rest] b have "sbind consume_u32 (\<lambda>x. sbind consume_u32 (\<lambda>y. sreturn (x, y)))
      (consumer_new body) = (Ok (m, n), \<lparr>cdata = body, pos = 8\<rparr>)" by simp
  then obtain c where "consume_u32 (consumer_new body) = (Ok m, c)" "consume_u32 c = (Ok n, \<lparr>cdata = body, pos = 8\<rparr>)"
    by (auto simp: sbind_Ok_iff sreturn_def)
  moreover have "m \<noteq> n" using assms(2) mn by auto
  ultimately show ?thesis by (simp add: parsed_def private_section_def sbind_def sfail_def)
qed

section \<open>The container\<close>

text \<open>The fields up to the tag are read; what is left is the encrypted part.\<close>

lemma key_file_opened:
  assumes f: "fits name" "fits kdf" "fits options" "fits public" "fits data"
  shows "parse_private_key_file_open_ssh lib (key_file name kdf options public data tag) passphrase =
    fst (sbind (if name = str ''none''
        then (if length data mod 8 \<noteq> 0 then sfail (format_error ''Invalid cipher data'') else sreturn data)
        else decrypt_data lib passphrase name kdf options data) (\<lambda>data. sbind (sget peek) (\<lambda>rest.
      if rest \<noteq> [] then sfail (format_error ''Unexpected data after cipher data'')
      else slift (parsed (private_section public) data)))
      \<lparr>cdata = key_file name kdf options public data tag, pos = length (key_file name kdf options public data [])\<rparr>)"
proof -
  define inner where "inner = (\<lambda>cipher kdf options public data. sbind
    (if cipher = str ''none''
     then (if length data mod 8 \<noteq> 0 then sfail (format_error ''Invalid cipher data'') else sreturn data)
     else decrypt_data lib passphrase cipher kdf options data) (\<lambda>data. sbind (sget peek) (\<lambda>rest.
      if rest \<noteq> [] then sfail (format_error ''Unexpected data after cipher data'')
      else slift (parsed (private_section public) data))))"
  define front where "front =
    sbind (consume_bytes (length OPEN_SSH_MAGIC)) (\<lambda>magic.
    if magic \<noteq> OPEN_SSH_MAGIC then sfail (format_error ''Invalid OpenSSH magic'')
    else sbind consume_one (\<lambda>cipher_name. sbind consume_one (\<lambda>kdf_name. sbind consume_one (\<lambda>kdf_options.
      sbind consume_u32 (\<lambda>number_of_keys.
      if number_of_keys \<noteq> 1 then sfail (KeyError (UnsupportedFeature ''Unsupported multiple keys''))
      else sbind consume_one (\<lambda>public. sbind consume_one (\<lambda>data.
        sreturn (cipher_name, kdf_name, kdf_options, public, data))))))))"
  have "decodes front (name, kdf, options, public, data) (key_file name kdf options public data [])"
    unfolding front_def key_file_def using f
    by (intro decodes_bind [OF decodes_bytes])
      (auto intro!: decodes_one_bind decodes_u32_bind decodes_return)
  from decodes_new [OF this, of tag] have "front (consumer_new (key_file name kdf options public data tag)) =
      (Ok (name, kdf, options, public, data), \<lparr>cdata = key_file name kdf options public data tag,
        pos = length (key_file name kdf options public data [])\<rparr>)" by (simp add: key_file_def)
  moreover have "parse_private_key_file_open_ssh lib contents passphrase =
      parsed (sbind front (\<lambda>(name, kdf, options, public, data). inner name kdf options public data)) contents" for contents
    unfolding parse_private_key_file_open_ssh_def front_def parsed_def
    by (simp add: sbind_def sfail_def sreturn_def inner_def parsed_def split: prod.split res.split)
  ultimately show ?thesis by (simp add: parsed_def inner_def)
qed

lemma key_file_peek:
  "peek \<lparr>cdata = key_file name kdf options public data tag,
     pos = length (key_file name kdf options public data [])\<rparr> = tag"
  by (simp add: peek_def key_file_def)

lemma key_file_read:
  assumes f: "wf_str name" "fits kdf" "fits options" "fits public" "fits data"
    and d: "decodes (if name = str ''none''
      then (if length data mod 8 \<noteq> 0 then sfail (format_error ''Invalid cipher data'') else sreturn data)
      else decrypt_data lib passphrase name kdf options data) body tag"
  shows "parse_private_key_file_open_ssh lib (key_file name kdf options public data tag) passphrase =
    parsed (private_section public) body"
proof -
  have n: "fits name" using f(1) by (simp add: wf_str_def)
  let ?c = "\<lparr>cdata = key_file name kdf options public data tag, pos = length (key_file name kdf options public data [])\<rparr>"
  have "consumer_ok ?c" by (simp add: consumer_ok_def key_file_def)
  with decodesD [OF d this, of "[]"] key_file_peek have
    "(if name = str ''none''
      then (if length data mod 8 \<noteq> 0 then sfail (format_error ''Invalid cipher data'') else sreturn data)
      else decrypt_data lib passphrase name kdf options data) ?c = (Ok body, ?c\<lparr>pos := pos ?c + length tag\<rparr>)" by simp
  moreover have "peek (?c\<lparr>pos := pos ?c + length tag\<rparr>) = []" by (simp add: peek_def key_file_def)
  ultimately show ?thesis
    unfolding key_file_opened [OF n f(2-5)] by (simp add: sbind_def slift_def sget_def)
qed

lemma plain_file_read:
  "fits kdf \<Longrightarrow> fits options \<Longrightarrow> fits public \<Longrightarrow> fits body \<Longrightarrow> length body mod 8 = 0 \<Longrightarrow>
   parse_private_key_file_open_ssh lib (key_file (str ''none'') kdf options public body []) passphrase =
     parsed (private_section public) body"
  by (rule key_file_read) (simp_all add: decodes_return wf_str_def fits_def)

section \<open>Encryption\<close>

text \<open>What the ciphers that can encrypt a key file make of its private part.\<close>

fun sealed ::
    "(evp \<Rightarrow> bytes \<Rightarrow> bytes \<Rightarrow> nat \<Rightarrow> u8) \<Rightarrow> (evp \<Rightarrow> bytes \<Rightarrow> bytes \<Rightarrow> nat \<Rightarrow> u8) \<Rightarrow>
     (evp \<Rightarrow> bytes \<Rightarrow> bytes \<Rightarrow> bytes \<Rightarrow> bytes \<Rightarrow> bytes) \<Rightarrow> ('x, 'h, 'g) cipher_object \<Rightarrow> bytes \<Rightarrow> bytes \<Rightarrow>
     bytes \<Rightarrow> (bytes \<times> bytes) option" where
  "sealed ks gks tag (CPlain a) key iv body =
     (if pc_cipher a \<in> {Aes128Ctr, Aes192Ctr, Aes256Ctr}
      then Some (xor_from (ks (pc_cipher a) key iv) 0 body, []) else None)"
| "sealed ks gks tag (CGcm a) key iv body =
     (let ct = xor_from (gks (gcm_cipher a) key iv) 0 body
      in Some (ct, tag (gcm_cipher a) key iv [] ct))"
| "sealed ks gks tag (CChacha a) key iv body = None"

lemma open_data_steps:
  assumes "object_initialize ssl Decrypting iv key obj = (Ok (), o1)" "open_update ssl data o1 = (Ok plain, o2)"
    and "open_final ssl o3 = (Ok [], o4)"
    and "\<not> is_galois_counter_mode o2 \<and> o3 = o2 \<and> tag = [] \<or>
      is_galois_counter_mode o2 \<and> open_tag ssl tag o2 = (Ok (), o3) \<and> tag_len_of o2 = length tag"
  shows "decodes (open_data ssl obj iv key data) plain tag"
proof -
  have s: "step (object_initialize ssl Decrypting iv key) obj = Ok ((), o1)"
    "step (open_update ssl data) o1 = Ok (plain, o2)" "step (open_final ssl) o3 = Ok ([], o4)"
    using assms(1-3) by (simp_all add: step.simps)
  from assms(4) have t: "decodes (if is_galois_counter_mode o2
      then sbind (consume_bytes (tag_len_of o2)) (\<lambda>tag. slift (step (open_tag ssl tag) o2))
      else sreturn ((), o2)) ((), o3) tag"
  proof
    assume "is_galois_counter_mode o2 \<and> open_tag ssl tag o2 = (Ok (), o3) \<and> tag_len_of o2 = length tag"
    then have "is_galois_counter_mode o2" "step (open_tag ssl tag) o2 = Ok ((), o3)" "tag_len_of o2 = length tag"
      by (simp_all add: step.simps)
    then show ?thesis
      using decodes_bind [OF decodes_bytes [of tag], of "\<lambda>tag. slift (step (open_tag ssl tag) o2)" "((), o3)" "[]"]
      by (simp add: decodes_def slift_def)
  qed (simp add: decodes_return)
  have "decodes (sbind (slift (step (open_final ssl) o3)) (\<lambda>(rest, obj). sreturn (plain @ rest))) plain []"
    by (rule decodes_slift_Ok [OF s(3)]) (simp add: decodes_return)
  with decodes_bind [OF t, of "\<lambda>(_, obj). sbind (slift (step (open_final ssl) obj)) (\<lambda>(rest, obj).
       sreturn (plain @ rest))" plain "[]"] s show ?thesis
    unfolding open_data_def by (auto intro!: decodes_slift_Ok)
qed

text \<open>The \<open>ChaCha20-Poly1305\<close> cipher has no MAC before a packet number is set, which a key file has not.\<close>

lemma open_data_chacha:
  assumes "stream_laws ssl v ks" "length key = 64"
  shows "fst (open_data ssl (CChacha chacha_new) iv key data c) = Err (InvalidOperation ''Uninitialized'')"
proof -
  obtain x y where "cipher_init ssl Decrypting ChaCha20 (take 32 key) None = Ok x"
    "cipher_init ssl Decrypting ChaCha20 (drop 32 key) None = Ok y"
    using stream_lawsD(1) [OF assms(1), of "take 32 key" Decrypting]
      stream_lawsD(1) [OF assms(1), of "drop 32 key" Decrypting] assms(2) by auto
  with assms(2) show ?thesis
    by (simp add: open_data_def step.simps chacha_initialize_def chacha_new_def chacha_open_def on_some_def sr_defs)
qed

lemma length_sealed:
  "sealed ks gks tag obj key iv body = Some (ct, t) \<Longrightarrow> length ct = length body"
  by (cases obj) (auto simp: Let_def split: if_splits)

lemma open_sealed:
  assumes laws: "stream_laws ssl v ks" "gcm_laws ssl g gks tag"
    and obj: "(name, obj) \<in> set parser_ciphers"
    and len: "length key = key_len_of obj" "length iv = iv_len_of obj"
    and s: "sealed ks gks tag obj key iv body = Some (ct, t)"
  shows "decodes (open_data ssl obj iv key ct) body t"
proof (cases obj)
  case (CPlain a)
  with s have c: "pc_cipher a \<in> {Aes128Ctr, Aes192Ctr, Aes256Ctr}" and ct: "ct = xor_from (ks (pc_cipher a) key iv) 0 body"
    and t: "t = []" by (auto split: if_splits)
  have k: "(pc_cipher a, length key) \<in> ctr_ciphers" "length iv = 16"
    using obj c len unfolding CPlain
    by (auto simp: parser_ciphers_def cipher_registry_def plain_cipher_new_def ctr_ciphers_def aes256_ctr_def
        aes192_ctr_def aes128_ctr_def aes128_cbc_def aes192_cbc_def aes256_cbc_def des_ede3_cbc_def)
  obtain b x where b: "plain_initialize ssl Decrypting iv key a = (Ok (), b)" "pc_ctx b = Some x"
    "v x = Some (pc_cipher a, key, iv, 0)" by (rule plain_initialize_run [OF laws(1) k])
  obtain x1 where x1: "cipher_update ssl ct x = (Ok body, x1)" "v x1 = Some (pc_cipher a, key, iv, length body)"
    using stream_lawsD(5) [OF laws(1) b(3), of ct] ct by auto
  obtain x2 where x2: "cipher_final ssl x1 = (Ok [], x2)" using stream_lawsD(6) [OF laws(1) x1(2)] by blast
  show ?thesis unfolding CPlain
    by (rule open_data_steps [of _ _ _ _ "CPlain b" _ _ "CPlain (b\<lparr>pc_ctx := Some x1\<rparr>)"
          "CPlain (b\<lparr>pc_ctx := Some x1\<rparr>)" "CPlain (b\<lparr>pc_ctx := Some x2\<rparr>)"])
      (use b x1 x2 t in \<open>simp_all add: plain_update_def plain_final_def\<close>)
next
  case (CGcm a)
  let ?c = "gcm_cipher a"
  from s CGcm have ct: "ct = xor_from (gks ?c key iv) 0 body" and t: "t = tag ?c key iv [] ct" by (auto simp: Let_def)
  have k: "(?c, length key) \<in> {(Aes128Gcm, 16), (Aes256Gcm, 32)}" "length iv = 12" and tl: "gcm_tag_len a = 16"
    using obj len unfolding CGcm
    by (auto simp: parser_ciphers_def cipher_registry_def gcm_new_def aes128_gcm_openssh_def aes256_gcm_openssh_def)
  obtain x where x: "crypter_new ssl Decrypting ?c key iv = Ok x" "g x = Some (Decrypting, ?c, key, iv, [], [], None)"
    using gcm_lawsD(1) [OF laws(2) k] by blast
  let ?x0 = "crypter_no_padding ssl x"
  let ?b = "a\<lparr>gcm_ctx := Some ?x0, gcm_iv := Some iv, gcm_key := Some key\<rparr>"
  have "g ?x0 = Some (Decrypting, ?c, key, iv, [], [], None)" using x(2) gcm_lawsD(2) [OF laws(2)] by simp
  then obtain x1 where x1: "crypter_update ssl ct ?x0 = (Ok body, x1)"
    "g x1 = Some (Decrypting, ?c, key, iv, [], ct, None)"
    using gcm_lawsD(5) [OF laws(2), of ?x0 ?c key iv "[]" "[]" None ct] ct by auto
  obtain x2 where x2: "crypter_set_tag ssl t x1 = (Ok (), x2)" "g x2 = Some (Decrypting, ?c, key, iv, [], ct, Some t)"
    using gcm_lawsD(8) [OF laws(2) x1(2)] by blast
  obtain x3 where x3: "crypter_finalize ssl x2 = (Ok [], x3)" using gcm_lawsD(9) [OF laws(2) x2(2)] t by auto
  have "length (next_iv iv) = 12" using k(2) by simp
  then obtain x4 where x4: "crypter_new ssl Decrypting ?c key (next_iv iv) = Ok x4"
    using gcm_lawsD(1) [OF laws(2) k(1)] by blast
  show ?thesis unfolding CGcm
    by (rule open_data_steps [of _ _ _ _ "CGcm ?b" _ _ "CGcm (?b\<lparr>gcm_ctx := Some x1\<rparr>)"
          "CGcm (?b\<lparr>gcm_ctx := Some x2\<rparr>)" "CGcm (?b\<lparr>gcm_ctx := Some x4, gcm_iv := Some (next_iv iv)\<rparr>)"])
      (use x x1 x2 x3 x4 k tl t gcm_lawsD(10) [OF laws(2)] in
        \<open>simp_all add: gcm_initialize_def gcm_update_def gcm_set_tag_def gcm_open_final_def gcm_reset_def sr_defs\<close>)
qed (use s in simp)

section \<open>Encryption of the container\<close>

lemma registered_name: "(name, obj) \<in> set parser_ciphers \<Longrightarrow> name \<noteq> str ''none'' \<and> wf_str name"
  by (auto simp: parser_ciphers_def cipher_registry_def wf_str_def fits_def)

lemma parser_cipher_unique:
  "(name, obj) \<in> set parser_ciphers \<Longrightarrow> map_of parser_ciphers name = Some obj"
  by (rule map_of_is_SomeI) (simp_all add: parser_ciphers_def cipher_registry_def)

lemma kdf_parameters_read:
  "fits salt \<Longrightarrow> kdf_parameters (one salt @ u32_to_be rounds) = Ok (salt, rounds)"
  unfolding kdf_parameters_def
  by (intro parsed_decodes decodes_one_bind decodes_u32_bind decodes_return)

lemma sbind_slift_Ok: "sbind (slift (Ok x)) f = f x"
  by (rule ext) (simp add: sbind_def slift_def)

text \<open>The key derivation is asked for the key and the IV in one piece.\<close>

lemma decrypt_data_bcrypt:
  fixes lib :: "('x, 'h, 'g) key_library" and obj :: "('x, 'h, 'g) cipher_object"
  assumes "(name, obj) \<in> set parser_ciphers" "passphrase \<noteq> []" "fits (one salt @ u32_to_be rounds)"
    and "bcrypt_pbkdf lib passphrase salt rounds (key_len_of obj + iv_len_of obj) = Some out"
    and "length data mod block_size_of obj = 0"
  shows "decrypt_data lib (Some passphrase) name (str ''bcrypt'') (one salt @ u32_to_be rounds) data =
    open_data (key_ssl lib) obj (drop (key_len_of obj) out) (take (key_len_of obj) out) data"
proof -
  have "fits salt" using assms(3) by (simp add: fits_def)
  with assms parser_cipher_unique [OF assms(1)] registered_name [OF assms(1)] show ?thesis
    by (simp add: decrypt_data_def kdf_parameters_read key_text_def wf_str_def sbind_slift_Ok)
qed

lemma decodes_decrypt_data:
  fixes lib :: "('x, 'h, 'g) key_library" and obj :: "('x, 'h, 'g) cipher_object"
  assumes "stream_laws (key_ssl lib) v ks" "gcm_laws (key_ssl lib) g gks tag"
    and obj: "(name, obj) \<in> set parser_ciphers"
    and "passphrase \<noteq> []" "fits (one salt @ u32_to_be rounds)"
      "bcrypt_pbkdf lib passphrase salt rounds (key_len_of obj + iv_len_of obj) = Some out"
      "length out = key_len_of obj + iv_len_of obj"
    and s: "sealed ks gks tag obj (take (key_len_of obj) out) (drop (key_len_of obj) out) body = Some (data, t)"
    and "length body mod block_size_of obj = 0"
  shows "decodes (decrypt_data lib (Some passphrase) name (str ''bcrypt'') (one salt @ u32_to_be rounds) data) body t"
  using assms length_sealed [OF s]
  by (subst decrypt_data_bcrypt [OF obj]) (auto intro!: open_sealed [OF assms(1,2) obj _ _ s])

lemma ascii_text: "\<forall>b \<in> set s. b \<le> 126 \<Longrightarrow> key_text s = Ok s"
proof -
  assume a: "\<forall>b \<in> set s. b \<le> 126"
  have "utf8_valid s"
  proof (rule utf8_valid_ascii)
    fix b assume "b \<in> set s"
    with a have "b \<le> 126" by blast
    then show "b < 0x80" by (rule le_less_trans) simp
  qed
  then show ?thesis by (simp add: key_text_def)
qed

text \<open>Base64 text between the header and the footer, cut into lines.\<close>

definition armored :: "('x, 'h, 'g) key_library \<Rightarrow> bytes \<Rightarrow> bytes \<Rightarrow> bool" where
  "armored lib file contents \<longleftrightarrow> (\<exists>body. contents = OPEN_SSH_HEADER @ body @ OPEN_SSH_FOOTER @ [10] \<and>
     (\<forall>b \<in> set body. b \<le> 126) \<and> decode_block lib (filter (\<lambda>b. b \<notin> {10, 13}) body) = Ok file)"

lemma replace_byte_append [simp]: "replace_byte b new (s @ t) = replace_byte b new s @ replace_byte b new t"
  by (simp add: replace_byte_def)

lemma replace_byte_filter: "replace_byte b [] s = filter (\<lambda>c. c \<noteq> b) s"
  by (induction s) (simp_all add: replace_byte_def)

lemma armored_read:
  assumes "armored lib file contents"
  shows "parse_private_key_file lib contents passphrase = parse_private_key_file_open_ssh lib file passphrase"
proof -
  from assms obtain body where c: "contents = OPEN_SSH_HEADER @ body @ OPEN_SSH_FOOTER @ [10]"
    and t: "\<forall>b \<in> set body. b \<le> 126" and d: "decode_block lib (filter (\<lambda>b. b \<notin> {10, 13}) body) = Ok file"
    unfolding armored_def by blast
  have h: "\<forall>b \<in> set (OPEN_SSH_HEADER @ OPEN_SSH_FOOTER @ [10]). b \<le> 126"
    "\<forall>b \<in> set (OPEN_SSH_HEADER @ OPEN_SSH_FOOTER). b \<noteq> 10 \<and> b \<noteq> 13"
    by (simp_all add: OPEN_SSH_HEADER_def OPEN_SSH_FOOTER_def)
  have "\<forall>b \<in> set contents. b \<le> 126" unfolding c using t h(1) by auto
  then have k: "key_text contents = Ok contents" by (rule ascii_text)
  have "replace_byte 10 [] (replace_byte 13 [] contents) =
      OPEN_SSH_HEADER @ filter (\<lambda>b. b \<notin> {10, 13}) body @ OPEN_SSH_FOOTER"
    unfolding c replace_byte_filter using h(2) by (auto simp: filter_id_conv conj_commute)
  with k d show ?thesis by (simp add: parse_private_key_file_def Let_def)
qed

section \<open>Public key lines\<close>

definition word :: "bytes \<Rightarrow> bool" where
  "word w \<longleftrightarrow> w \<noteq> [] \<and> (\<forall>b \<in> set w. 33 \<le> b \<and> b \<le> 126)"

definition plain_text :: "bytes \<Rightarrow> bool" where
  "plain_text s \<longleftrightarrow> s \<noteq> [] \<and> (\<forall>b \<in> set s. 32 \<le> b \<and> b \<le> 126) \<and> hd s \<noteq> 32 \<and> last s \<noteq> 32"

lemma word_not_blank: "word w \<Longrightarrow> b \<in> set w \<Longrightarrow> \<not> is_space_or_tab b"
  by (auto simp: word_def is_space_or_tab_def)

lemma next_word_run:
  assumes p: "peek c = blanks @ w @ rest" and b: "\<forall>b \<in> set blanks. is_space_or_tab b"
    and w: "w \<noteq> []" "\<forall>b \<in> set w. \<not> is_space_or_tab b" and r: "rest = [] \<or> is_space_or_tab (hd rest)"
  shows "next_word c = (Ok w, c\<lparr>pos := pos c + length blanks + length w\<rparr>)"
proof -
  from w obtain x xs where x: "w = x # xs" "\<not> is_space_or_tab x" by (cases w) auto
  have "dropWhile is_space_or_tab (peek c) = w @ rest"
    using b x by (simp add: p dropWhile_append2)
  moreover have "takeWhile (\<lambda>b. \<not> is_space_or_tab b) (w @ rest) = w"
    using w r by (cases rest) (simp_all add: takeWhile_append2)
  ultimately show ?thesis using p x by (simp add: next_word_def sr_defs Let_def)
qed

lemma public_key_line_words:
  assumes t: "word type" and e: "word encoded" and c: "plain_text comment"
  shows "parsed public_key_line (type @ 32 # encoded @ 32 # comment) =
    Ok (type, encoded, Some (takeWhile (\<lambda>b. \<not> is_space_or_tab b) comment))"
proof -
  let ?s = "type @ 32 # encoded @ 32 # comment"
  let ?c = "\<lambda>n. \<lparr>cdata = ?s, pos = n\<rparr>" and ?t = "length type" and ?e = "length encoded"
  let ?w = "takeWhile (\<lambda>b. \<not> is_space_or_tab b) comment"
  have pk: "peek (?c 0) = [] @ type @ 32 # encoded @ 32 # comment" "peek (?c ?t) = [32] @ encoded @ 32 # comment"
    "peek (?c (?t + 1 + ?e)) = [32] @ comment" by (simp_all add: peek_def)
  have b: "is_space_or_tab 32" by (simp add: is_space_or_tab_def)
  have "comment \<noteq> []" "32 \<le> hd comment" "hd comment \<noteq> 32"
    using c hd_in_set [of comment] by (auto simp: plain_text_def)
  then have hd: "\<not> is_space_or_tab (hd comment)" "comment \<noteq> []" by (auto simp: is_space_or_tab_def)
  define r where "r = dropWhile (\<lambda>b. \<not> is_space_or_tab b) comment"
  have w: "?w \<noteq> []" "\<forall>b \<in> set ?w. \<not> is_space_or_tab b"
    using hd by (cases comment) (auto dest: set_takeWhileD)
  have r: "r = [] \<or> is_space_or_tab (hd r)"
    using hd_dropWhile [of "\<lambda>b. \<not> is_space_or_tab b" comment] unfolding r_def by blast
  have p3: "peek (?c (?t + 1 + ?e)) = [32] @ ?w @ r" using pk(3) by (simp add: r_def)
  have 3: "next_word (?c (?t + 1 + ?e)) = (Ok ?w, ?c (?t + 1 + ?e + 1 + length ?w))"
    using next_word_run [OF p3 _ w r] b by simp
  have 1: "next_word (?c 0) = (Ok type, ?c ?t)"
    using next_word_run [OF pk(1)] t b word_not_blank by (auto simp: word_def)
  have 2: "next_word (?c ?t) = (Ok encoded, ?c (?t + 1 + ?e))"
    using next_word_run [OF pk(2)] e b word_not_blank by (auto simp: word_def)
  have "key_text type = Ok type" "key_text encoded = Ok encoded" "key_text ?w = Ok ?w"
    using t e c by (auto simp: word_def plain_text_def intro!: ascii_text dest!: set_takeWhileD)
  moreover have "dropWhile is_space_or_tab (peek (?c (?t + 1 + ?e))) \<noteq> []"
    unfolding pk(3) using hd by (cases comment) (simp_all add: b)
  moreover have "consumer_new ?s = ?c 0" by (simp add: consumer_new_def)
  ultimately show ?thesis
    using 1 2 3 pk(2)
    by (simp add: parsed_def public_key_line_def method_word_def comment_word_def sbind_assoc sr_defs)
qed

lemma trimmed_line:
  assumes t: "word type" and c: "plain_text comment"
  shows "trim (type @ 32 # encoded @ 32 # comment @ [10]) = type @ 32 # encoded @ 32 # comment"
proof -
  let ?s = "type @ 32 # encoded @ 32 # comment"
  have h: "hd ?s = hd type" "last ?s = last comment" using t c by (auto simp: word_def plain_text_def)
  have "33 \<le> hd type" "hd type \<le> 126" using t hd_in_set by (auto simp: word_def)
  then have 1: "hd ?s \<notin> hd ` set white_space" unfolding h by (auto simp: white_space_def)
  have "33 \<le> last comment \<and> last comment \<le> 126"
  proof -
    have "32 \<le> last comment" "last comment \<le> 126" "last comment \<noteq> 32"
      using c last_in_set [of comment] by (auto simp: plain_text_def)
    moreover from this have "32 < last comment" by (simp add: order_less_le)
    ultimately show ?thesis using inc_le [of 32 "last comment"] by simp
  qed
  then have 2: "last ?s \<notin> last ` set white_space" unfolding h by (auto simp: white_space_def)
  from trim_plain(2) [OF _ 1 2] show ?thesis by simp
qed

section \<open>Key pairs in files\<close>

text \<open>The numbers in the file are a pair for OpenSSL, under the algorithm that signs with them.\<close>

fun material_pair ::
    "('m, 'p, 'd, 'v, 'k, 'pt) pkey_library \<Rightarrow> ('m, 'p, 'd, 'k) sig_object \<Rightarrow> key_material \<Rightarrow> bool" where
  "material_pair lib (SEd25519 a) (EdMaterial seed pk) \<longleftrightarrow> ed_keys lib seed pk"
| "material_pair lib (SRsa a) (RsaMaterial n e d iqmp p q) \<longleftrightarrow>
     rsa_keys lib (rsa_hash a) (be_nat n) (be_nat e) (be_nat d) (be_nat iqmp) (be_nat p) (be_nat q)"
| "material_pair lib (SEcdsa a) (EcMaterial type curve pk d) \<longleftrightarrow>
     type = ec_name a \<and> utf8_valid curve \<and> ec_keys lib (ec_nid a) (be_nat d) pk"
| "material_pair lib _ _ \<longleftrightarrow> False"

lemma stored_key_blobs:
  assumes "(name, obj) \<in> set signature_registry" "material_ok m" "material_pair lib obj m"
  shows "key_blobs lib obj (pk_private (stored_key m comment)) (pk_public (stored_key m comment))"
proof (cases "(lib, obj, m)" rule: material_pair.cases)
  case (1 lib' a seed pk)
  have "fits seed" "fits pk" using 1 assms(2) by (simp_all add: fits_def)
  with 1 assms(3) show ?thesis by (auto simp: stored_key_def public_blob_def)
next
  case (2 lib' a n e d iqmp p q)
  then have o: "obj = SRsa a" "m = RsaMaterial n e d iqmp p q" by simp_all
  have "fits (rsa_name a)" using o assms(1)
    by (auto simp: signature_registry_def rsa_sha2_256_def rsa_sha2_512_def ssh_rsa_def rsa_new_def fits_def)
  with assms(2,3) show ?thesis
    unfolding o key_blobs.simps
    by (intro conjI exI [of _ n] exI [of _ e] exI [of _ d] exI [of _ iqmp] exI [of _ p] exI [of _ q])
      (simp_all add: stored_key_def public_blob_def)
next
  case (3 lib' a type curve pk d)
  with assms(2,3) show ?thesis by (auto simp: stored_key_def public_blob_def fits_def)
qed (use assms(3) in simp_all)

lemma plain_event:
  assumes "parse_private_key_file lib contents passphrase = Ok k"
    and "public_key_event lib contents public_file passphrase = Ok (method, False, public, private)"
  shows "method = pk_type k \<and> public = pk_public k \<and> private = pk_private k"
proof (cases public_file)
  case None
  with assms show ?thesis by (simp add: public_key_event_def)
next
  case (Some f)
  with assms obtain p where "parse_public_key_file lib f = Ok p"
    by (auto simp: public_key_event_def res_bind_Ok_iff)
  with Some assms show ?thesis
    by (cases p) (auto simp: public_key_event_def Let_def split: if_splits)
qed

end
