(* ===== verification/Frontend.thy ===== *)
theory Frontend
  imports Sftp Keys Handshake
begin

text \<open>
  The application's side of a session: \<open>Session\<close> of \<open>src/session/mod.rs\<close>, whose methods put an event
  on the queue of the session task and wait for its answer, and the listeners and streams of
  \<open>src/session/forward.rs\<close>. The way there, \<open>Session::handshake\<close>, ends in the state the task starts
  with.
\<close>

section \<open>From the handshake to the session\<close>

text \<open>
  \<open>create\<close>: the state of the task. The session works on payloads; \<open>tr\<close> is what the encrypted
  stream lets it see of the traffic, and \<open>sgs\<close> are the signers of the configuration.
\<close>

definition create ::
    "(('e, 'd, 'c, 'z, 'm) cipher_stream \<Rightarrow> transport) \<Rightarrow> (bytes \<times> signer) list \<Rightarrow> bytes \<Rightarrow>
     ('e, 'd, 'c, 'z, 'm) cipher_stream \<Rightarrow> ('e, 'd, 'c, 'z, 'm) handshaker \<Rightarrow> session_inner" where
  "create tr sgs sid stream s =
     session_new sid (tr stream) (hs_notifier s) (compat_options.specify_server_sign_algorithm (hs_compat s))
       \<lparr>ext_enabled = advertise_ext (hs_conf s), disable_compat = compat_disabled (hs_conf s), signers = sgs\<rparr>"

definition session_handshake ::
    "(u32 \<Rightarrow> nat \<Rightarrow> u8) \<Rightarrow> (nat \<Rightarrow> u8) \<Rightarrow> (('e, 'd, 'c, 'z, 'm) cipher_stream \<Rightarrow> transport) \<Rightarrow>
     (bytes \<times> signer) list \<Rightarrow> (('e, 'd, 'c, 'z, 'm) handshaker, session_inner) sr" where
  "session_handshake rnd cookie tr sgs =
     sbind banner_version_exchange (\<lambda>_.
     sbind (negotiate_methods rnd cookie) (\<lambda>_.
     sbind (Handshake.key_exchange rnd) (\<lambda>_.
     sbind (sget (\<lambda>s. s)) (\<lambda>s.
     sbind (slift (unwrap (hs_session_id s))) (\<lambda>sid.
     sbind (slift (unwrap (hs_cipher s))) (\<lambda>stream.
     sbind (slift (unwrap (hs_server_version s))) (\<lambda>_.
     sreturn (create tr sgs sid stream s))))))))"

section \<open>The methods of a session\<close>

text \<open>The answers of the other types; see \<open>unit_reply\<close>.\<close>

fun auth_reply_of :: "reply \<Rightarrow> authenticate_result res" where
  "auth_reply_of (ReplyAuth r) = r"
| "auth_reply_of _ = Err shutdown"

fun channel_reply :: "reply \<Rightarrow> identity_pair res" where
  "channel_reply (ReplyChannel r) = r"
| "channel_reply _ = Err shutdown"

fun tcp_reply :: "reply \<Rightarrow> socket_addr res" where
  "tcp_reply (ReplyTcp r) = r"
| "tcp_reply _ = Err shutdown"

fun local_reply :: "reply \<Rightarrow> bytes res" where
  "local_reply (ReplyLocal r) = r"
| "local_reply _ = Err shutdown"

definition ask_for :: "(reply \<Rightarrow> 'a res) \<Rightarrow> event \<Rightarrow> (port, 'a) sr" where
  "ask_for f e = sbind (ask e) (\<lambda>r. slift (f r))"

definition session_disconnect :: "u32 \<Rightarrow> bytes \<Rightarrow> (port, unit) sr" where
  "session_disconnect reason description = ask_for unit_reply (DisconnectEvent reason description)"

definition session_send_ignore_message :: "bytes \<Rightarrow> (port, unit) sr" where
  "session_send_ignore_message data = ask_for unit_reply (SendIgnoreMessage data)"

definition session_send_debug_message :: "bool \<Rightarrow> bytes \<Rightarrow> (port, unit) sr" where
  "session_send_debug_message always_display text =
     ask_for unit_reply (SendDebugMessage always_display text)"

definition session_renegotiate :: "(port, unit) sr" where
  "session_renegotiate = ask_for unit_reply Renegotiate"

definition session_request_authentication :: "(port, unit) sr" where
  "session_request_authentication = ask_for unit_reply RequestAuthentication"

definition session_authenticate_none :: "bytes \<Rightarrow> (port, authenticate_result) sr" where
  "session_authenticate_none username = ask_for auth_reply_of (AuthenticateNone username)"

definition session_authenticate_password :: "bytes \<Rightarrow> bytes \<Rightarrow> (port, authenticate_result) sr" where
  "session_authenticate_password username password =
     ask_for auth_reply_of (AuthenticatePassword username password)"

definition session_authenticate_public_key ::
    "('x, 'h, 'g) key_library \<Rightarrow> bytes \<Rightarrow> bytes \<Rightarrow> bytes option \<Rightarrow> bytes option \<Rightarrow>
     (port, authenticate_result) sr" where
  "session_authenticate_public_key lib username private_key_file public_key_file passphrase =
     sbind (slift (public_key_event lib private_key_file public_key_file passphrase))
       (\<lambda>(type, is_certificate, public_blob, private_blob). ask_for auth_reply_of
         (AuthenticatePublicKey username type is_certificate public_blob private_blob))"

definition session_authenticate_keyboard_interactive ::
    "bytes \<Rightarrow> interactive list \<Rightarrow> interactive_method list \<Rightarrow> (port, authenticate_result) sr" where
  "session_authenticate_keyboard_interactive username interaction methods =
     ask_for auth_reply_of (AuthenticateKeyboardInteractive username interaction methods)"

definition session_channel_open :: "u32 \<Rightarrow> u32 \<Rightarrow> (port, identity_pair) sr" where
  "session_channel_open window packet = ask_for channel_reply (ChannelOpenSession window packet)"

definition channel_open_default :: "(port, identity_pair) sr" where
  "channel_open_default = session_channel_open DEFAULT_INITIAL_WINDOW_SIZE DEFAULT_MAXIMUM_PACKET_SIZE"

definition connect_to_server_local :: "bytes \<Rightarrow> u32 \<Rightarrow> u32 \<Rightarrow> (port, identity_pair) sr" where
  "connect_to_server_local path window packet =
     ask_for channel_reply (ChannelOpenDirectStreamLocal window packet path)"

definition connect_to_server :: "socket_addr \<Rightarrow> socket_addr \<Rightarrow> u32 \<Rightarrow> u32 \<Rightarrow> (port, identity_pair) sr" where
  "connect_to_server target source window packet =
     ask_for channel_reply (ChannelOpenDirectTcpIp target source window packet)"

text \<open>The new channel's inbox and its queue to the session are \<open>ms\<close> and \<open>q\<close>, as for \<open>channel_new\<close>.\<close>

definition sftp_open ::
    "u32 \<Rightarrow> u32 \<Rightarrow> channel_message option list \<Rightarrow> port \<Rightarrow> (port, sftp_handle) sr" where
  "sftp_open window packet ms q =
     sbind (ask_for channel_reply (ChannelOpenSFTP window packet)) (\<lambda>i.
     slift (fst (sftp_handshake (channel_new i ms q))))"

definition sftp_open_default :: "channel_message option list \<Rightarrow> port \<Rightarrow> (port, sftp_handle) sr" where
  "sftp_open_default = sftp_open DEFAULT_INITIAL_WINDOW_SIZE DEFAULT_MAXIMUM_PACKET_SIZE"

definition session_clean :: "bool \<Rightarrow> bool \<Rightarrow> bool \<Rightarrow> (port, unit) sr" where
  "session_clean channel forward_tcp forward_local =
     ask_for unit_reply (Clean channel forward_tcp forward_local)"

section \<open>Listeners\<close>

text \<open>
  The address tells which of the two kinds a listener is; dropping looks at it with \<open>downcast_ref\<close>.
  The inbox is read like that of a channel.
\<close>

datatype forward_addr = TcpAddr socket_addr | LocalAddr bytes

record 'b listener =
  li_addr :: forward_addr
  li_inbox :: "(identity_pair \<times> 'b) option list"
  li_port :: port
  li_cancelled :: bool

definition listener_make ::
    "(identity_pair \<times> 'b) option list \<Rightarrow> port \<Rightarrow> forward_addr \<Rightarrow> 'b listener" where
  "listener_make ms q a = \<lparr>li_addr = a, li_inbox = ms, li_port = q, li_cancelled = False\<rparr>"

abbreviation on_li_port :: "(port, 'a) sr \<Rightarrow> ('b listener, 'a) sr" where
  "on_li_port \<equiv> zoom li_port (\<lambda>p l. l\<lparr>li_port := p\<rparr>)"

text \<open>
  The task answers with a listener around the bound address; here it is made when the address
  arrives. \<open>ms\<close> are the connections the session will hand to it.
\<close>

definition listen_on_server_local ::
    "bytes \<Rightarrow> u32 \<Rightarrow> u32 \<Rightarrow> (identity_pair \<times> unit) option list \<Rightarrow> port \<Rightarrow> (port, unit listener) sr" where
  "listen_on_server_local path window packet ms q =
     sbind (ask_for local_reply (GlobalRequestStreamLocalForward path window packet)) (\<lambda>path.
     sreturn (listener_make ms q (LocalAddr path)))"

definition listen_on_server ::
    "socket_addr \<Rightarrow> u32 \<Rightarrow> u32 \<Rightarrow> (identity_pair \<times> socket_addr) option list \<Rightarrow> port \<Rightarrow>
     (port, socket_addr listener) sr" where
  "listen_on_server addr window packet ms q =
     sbind (ask_for tcp_reply (GlobalRequestTcpIPForward addr window packet)) (\<lambda>addr.
     sreturn (listener_make ms q (TcpAddr addr)))"

fun cancel_event :: "bool \<Rightarrow> forward_addr \<Rightarrow> event" where
  "cancel_event want_reply (TcpAddr addr) = GlobalRequestCancelTcpIpForward want_reply addr"
| "cancel_event want_reply (LocalAddr path) = GlobalRequestCancelStreamLocalForward want_reply path"

text \<open>Dropping: the request goes into the queue if there is room, and nobody waits for the answer.\<close>

definition listener_drop :: "('b listener, unit) sr" where
  "listener_drop = sbind (sget (\<lambda>l. l)) (\<lambda>l.
     if li_cancelled l then sreturn ()
     else sbind (on_li_port (try_put (cancel_event False (li_addr l)))) (\<lambda>_. sreturn ()))"

text \<open>\<open>cancel\<close> consumes the listener; it is dropped at the end, cancelled once the event was sent.\<close>

definition listener_cancel :: "bool \<Rightarrow> ('b listener, unit) sr" where
  "listener_cancel want_reply l =
     (case on_li_port (ask (cancel_event want_reply (li_addr l))) l of
        (Ok r, l') \<Rightarrow> (unit_reply r, l'\<lparr>li_cancelled := True\<rparr>)
      | (Err e, l') \<Rightarrow>
          (Err e, if length (asked (li_port l')) > length (asked (li_port l))
                  then l'\<lparr>li_cancelled := True\<rparr> else snd (listener_drop l'))
      | (Panic, l') \<Rightarrow> (Panic, l'))"

definition listener_accept :: "('b listener, identity_pair \<times> 'b) sr" where
  "listener_accept l =
     (case next_arrival (li_inbox l) of
        None \<Rightarrow> (Err (SessionError (UnexpectedBehaviour ''Maybe session is shutdown'')), l\<lparr>li_inbox := []\<rparr>)
      | Some (m, ms) \<Rightarrow> (Ok m, l\<lparr>li_inbox := ms\<rparr>))"

text \<open>A listener for a path has nothing to say about the other end.\<close>

definition listener_accept_local :: "(unit listener, identity_pair) sr" where
  "listener_accept_local = sbind listener_accept (\<lambda>(i, _). sreturn i)"

section \<open>Streams\<close>

text \<open>A stream is a channel with fewer messages.\<close>

datatype stream_message = StreamClose | StreamEof | StreamBytes bytes

fun stream_message_of :: "channel_message \<Rightarrow> stream_message option" where
  "stream_message_of Close = Some StreamClose"
| "stream_message_of Eof = Some StreamEof"
| "stream_message_of (Stdout data) = Some (StreamBytes data)"
| "stream_message_of _ = None"

primrec receive_loop :: "nat \<Rightarrow> (channel, stream_message) sr" where
  "receive_loop 0 = spanic"
| "receive_loop (Suc n) = sbind chan_receive (\<lambda>m.
     case stream_message_of m of Some r \<Rightarrow> sreturn r | None \<Rightarrow> receive_loop n)"

definition stream_receive :: "(channel, stream_message) sr" where
  "stream_receive c = receive_loop (Suc (length (inbox c))) c"

definition stream_send :: "bytes \<Rightarrow> (channel, nat) sr" where
  "stream_send data = chan_send data"

definition stream_eof :: "(channel, unit) sr" where
  "stream_eof = chan_eof"

definition stream_close :: "(channel, unit) sr" where
  "stream_close = chan_close"

section \<open>Addresses\<close>

definition ALL_INTERFACES :: bytes where "ALL_INTERFACES = []"
definition IPV4_ALL :: bytes where "IPV4_ALL = str ''0.0.0.0''"
definition IPV6_ALL :: bytes where "IPV6_ALL = str ''::''"
definition LOCALHOST :: bytes where "LOCALHOST = str ''localhost''"
definition IPV4_LOCALHOST :: bytes where "IPV4_LOCALHOST = str ''127.0.0.1''"
definition IPV6_LOCALHOST :: bytes where "IPV6_LOCALHOST = str ''::1''"

definition socket_addr_text :: "socket_addr \<Rightarrow> bytes" where
  "socket_addr_text a = host a @ 58 # decimal (unat (port a))"

end
