(* ===== verification/FrontendFacts.thy ===== *)
theory FrontendFacts
  imports Frontend RekeyFacts SessionProperties SftpFacts
begin

text \<open>
  What no turn of a session changes, the outcomes a session task gives to the events on its
  queue, what a call of the application puts on the wire, and what listeners and streams make of
  what arrives.
\<close>

section \<open>The identity of a session\<close>

text \<open>No packet, event or key re-exchange changes the session id or the configuration.\<close>

definition identity :: "session_inner \<Rightarrow> _" where
  "identity s = (session_id s, config s, session_inner.specify_server_sign_algorithm s)"

lemma identity_fixed: "keeps fixed_part m \<Longrightarrow> keeps identity m"
  by (simp add: keeps_def fixed_part_def identity_def)

lemmas identity_small [keeps_rules] =
  keeps_send_fields [THEN identity_fixed] keeps_update_channel [THEN identity_fixed]
  keeps_on_forward [THEN identity_fixed] keeps_ext_info [THEN identity_fixed]

lemma identity_other [simp]:
  "identity (s\<lparr>socket := t\<rparr>) = identity s" "identity (s\<lparr>channels := c\<rparr>) = identity s"
  "identity (s\<lparr>forward := f\<rparr>) = identity s" "identity (s\<lparr>frontend_alive := b\<rparr>) = identity s"
  "identity (s\<lparr>renegotiating := b\<rparr>) = identity s" "identity (s\<lparr>renegotiate_msg := m\<rparr>) = identity s"
  "identity (s\<lparr>notifier := n\<rparr>) = identity s" "identity (s\<lparr>queued_closes := q\<rparr>) = identity s"
  by (simp_all add: identity_def)

lemma identity_handle_msg [keeps_rules]:
  "(\<And>rk d. h = Some rk \<Longrightarrow> keeps identity (rk d)) \<Longrightarrow> keeps identity (handle_msg h m)"
  by (cases m) (auto simp: handler_defs Let_def intro!: keeps_rules split: option.split)

lemma identity_recv [keeps_rules]: "keeps identity recv_message"
  unfolding recv_message_def by (intro keeps_rules) simp

lemma identity_match_fuel:
  "(\<And>m. keeps identity (f m)) \<Longrightarrow> keeps identity (match_fuel n f)"
  by (induction n) (auto intro!: keeps_rules)

lemma identity_match_this [keeps_rules]:
  "(\<And>m. keeps identity (f m)) \<Longrightarrow> keeps identity (match_this_msg f)"
  using identity_match_fuel [of f] by (simp only: keeps_def match_this_msg_def) blast

lemma identity_match [keeps_rules]: "keeps identity (match_msg f)"
  unfolding match_msg_def by (intro keeps_rules)

lemma identity_replies [keeps_rules]:
  "keeps identity (request_reply g m)" "keeps identity (stream_local_reply a w q m)"
  "keeps identity (auth_reply m)" "keeps identity (password_reply m)" "keeps identity (probe_reply m)"
  by (cases m; auto simp: request_reply_def stream_local_reply_def auth_reply_def password_reply_def
      probe_reply_def set_authenticated_def intro!: keeps_rules)+

lemma identity_loops [keeps_rules]:
  "keeps identity (send_chunks n i sid data k)" "keeps identity (tcp_forward_fuel n a w q)"
  "keeps identity (interactive_fuel n sc)"
proof -
  show "keeps identity (send_chunks n i sid data k)"
    by (induction n arbitrary: k) (auto simp: Let_def intro!: keeps_rules)
  show "keeps identity (tcp_forward_fuel n a w q)"
    by (induction n) (auto intro!: keeps_rules simp: upgrade_frontend_def split: list.split)
  show "keeps identity (interactive_fuel n sc)"
    by (induction n arbitrary: sc) (auto intro!: keeps_rules simp del: handle_msg.simps split: message.split)
qed

lemma identity_error [keeps_rules]:
  "keeps f m \<Longrightarrow> keeps f c \<Longrightarrow> keeps f (on_error m c)" "keeps f m \<Longrightarrow> keeps f (answer w m)"
  by (auto simp: keeps_def on_error_def answer_def split: prod.split res.split) (metis snd_conv)+

lemma identity_push [keeps_rules]: "keeps identity (push_channel p a b c d)"
  unfolding push_channel_def by (intro keeps_rules) simp

lemma identity_drop_pair [keeps_rules]: "keeps identity (drop_pair p)"
  unfolding drop_pair_def by (intro keeps_rules) simp

lemma identity_renegotiate [keeps_rules]:
  "(\<And>d. keeps identity (rk d)) \<Longrightarrow> keeps identity (renegotiate_event rk)"
  unfolding keeps_def renegotiate_event_def
  by (auto split: prod.split) (metis identity_other(5) snd_conv)

lemma identity_handle_event [keeps_rules]:
  "(\<And>d. keeps identity (rk d)) \<Longrightarrow> keeps identity (handle_event rk ev)"
  by (cases ev) (auto simp: request_defs plain_handler_defs Let_def intro!: keeps_rules)

lemma identity_exec:
  assumes "\<And>d. keeps identity (rk d)"
  shows "keeps identity (exec rk ts)"
proof (induction ts)
  case (Cons t ts)
  have "keeps identity (take_renegotiation rk)"
    unfolding take_renegotiation_def using assms by (intro keeps_rules) simp_all
  then have "keeps identity (exec_turn rk t)"
    using assms by (cases t) (auto intro!: keeps_rules)
  with Cons show ?case by (auto intro!: keeps_rules)
qed (auto intro!: keeps_rules)

lemma identity_rekey: "keeps identity (renegotiate env d)"
proof -
  have "session_stable (\<lambda>s. identity s = c)" for c
    unfolding session_stable_def
    by (intro conjI allI keeps_preserves [where P = "\<lambda>x. x = c"] keeps_rules; simp)
  from rekey_preserves [OF this] show ?thesis unfolding keeps_def preserves_def by metis
qed

lemma identity_session: "keeps identity (session_exec env ts)"
  unfolding session_exec_def by (rule identity_exec [OF identity_rekey])

section \<open>The task's side of the queue\<close>

text \<open>
  The events a task takes from its queue while it runs through some turns, and what becomes of
  each: it is answered, or the task panics in its middle and the sender of the answer is dropped.
  After an error of a packet or of a re-exchange the loop has ended.
\<close>

fun serve :: "rekey \<Rightarrow> turn list \<Rightarrow> session_inner \<Rightarrow> (event \<times> outcome) list" where
  "serve rk [] s = []"
| "serve rk (TurnPacket # ts) s =
     (case exec_turn rk TurnPacket s of (Ok _, s') \<Rightarrow> serve rk ts s' | _ \<Rightarrow> [])"
| "serve rk (TurnEvent e # ts) s =
     (case handle_event rk e s of
        (Ok r, s') \<Rightarrow> (e, Answered r) #
          (case take_renegotiation rk s' of (Ok _, s'') \<Rightarrow> serve rk ts s'' | _ \<Rightarrow> [])
      | _ \<Rightarrow> [(e, Dropped)])"
| "serve rk (TurnClosed # ts) s = []"

lemma ask_answered:
  "script q = Answered r # outs \<Longrightarrow> ask e q = (Ok r, q\<lparr>script := outs, asked := asked q @ [(e, Answered r)]\<rparr>)"
  "script q = Dropped # outs \<Longrightarrow> ask e q = (Err shutdown, q\<lparr>script := outs, asked := asked q @ [(e, Dropped)]\<rparr>)"
  by (simp_all add: ask_def is_full_def)

section \<open>A call from one side to the other\<close>

text \<open>
  The event a method of the application puts on the queue, and the whole call: the task handles
  that event in state \<open>s\<close>, and the method goes on with the answer. Methods of a channel \<open>p\<close> use the
  same queue.
\<close>

definition event_of :: "(port, 'a) sr \<Rightarrow> event" where
  "event_of m = fst (last (asked (snd (m \<lparr>script = [Dropped], asked = []\<rparr>))))"

definition call :: "rekey \<Rightarrow> (port, 'a) sr \<Rightarrow> (session_inner, 'a) sr" where
  "call rk m s =
     (case handle_event rk (event_of m) s of (r, s') \<Rightarrow>
        (fst (m \<lparr>script = [case r of Ok x \<Rightarrow> Answered x | _ \<Rightarrow> Dropped], asked = []\<rparr>), s'))"

definition of_channel :: "identity_pair \<Rightarrow> (channel, 'a) sr \<Rightarrow> (port, 'a) sr" where
  "of_channel p m q = (case m (channel_new p [] q) of (r, c) \<Rightarrow> (r, chan_port c))"

text \<open>The call \<open>m\<close> sends the payload \<open>d\<close>, in one packet, and does nothing else.\<close>

definition sends :: "rekey \<Rightarrow> session_inner \<Rightarrow> (port, unit) sr \<Rightarrow> bytes \<Rightarrow> bool" where
  "sends rk s m d \<longleftrightarrow> call rk m s =
     (if length d \<le> 32768 then (Ok (), s\<lparr>socket := after_send d (socket s)\<rparr>)
      else (Err (TransportError (PayloadTooLong 32768 (length d))), s))"

text \<open>The call sends \<open>d\<close> and returns what the server says next about the channel: yes (99) or no (100).\<close>

definition answered :: "rekey \<Rightarrow> session_inner \<Rightarrow> (port, unit) sr \<Rightarrow> bytes \<Rightarrow> u32 \<Rightarrow> bool" where
  "answered rk s m d channel_number \<longleftrightarrow>
     (\<forall>p rest. length d \<le> 32768 \<and> rx (socket s) = Ok p # rest \<longrightarrow>
        (payload p = 99 # u32_to_be channel_number \<longrightarrow>
           call rk m s = (Ok (), s\<lparr>socket := after_recv p (after_send d (socket s))\<rparr>)) \<and>
        (payload p = 100 # u32_to_be channel_number \<longrightarrow>
           call rk m s = (Err (SessionError ChannelFailure), s\<lparr>socket := after_recv p (after_send d (socket s))\<rparr>)))"

text \<open>A channel request of RFC 4254 (section 5.4), without and with \<open>want_reply\<close>.\<close>

definition rfc_request :: "u32 \<Rightarrow> string \<Rightarrow> bool \<Rightarrow> bytes \<Rightarrow> bytes" where
  "rfc_request number type want args =
     98 # u32_to_be number @ one (str type) @ [if want then 1 else 0] @ args"

definition requests ::
    "rekey \<Rightarrow> session_inner \<Rightarrow> identity_pair \<Rightarrow> (bool \<Rightarrow> (channel, unit) sr) \<Rightarrow> string \<Rightarrow> bytes \<Rightarrow> bool" where
  "requests rk s p m type args \<longleftrightarrow>
     sends rk s (of_channel p (m False)) (rfc_request (pair_server p) type False args) \<and>
     answered rk s (of_channel p (m True)) (rfc_request (pair_server p) type True args) (pair_client p)"

lemma call_ask_unit:
  assumes "handle_event rk e s = answer ReplyUnit m s" "fst (m s) \<noteq> Panic"
  shows "call rk (ask_unit e) s = m s" "call rk (ask_for unit_reply e) s = m s"
    "call rk (of_channel p (request (\<lambda>_. e))) s = m s"
  using assms
  by (cases "m s"; cases "fst (m s)"; simp add: call_def event_of_def ask_unit_def ask_for_def ask_def is_full_def
      sbind_def slift_def answer_def of_channel_def request_def channel_new_def zoom_def sr_defs)+

lemma send_fields_bytes:
  fixes fs :: "field list" and c :: u8
  assumes "tx_faults (socket s) = []"
  defines "d \<equiv> c # concat (map field_bytes fs)"
  shows "send_fields (FU8 c # fs) s =
    (if length d \<le> 32768 then (Ok (), s\<lparr>socket := after_send d (socket s)\<rparr>)
     else (Err (TransportError (PayloadTooLong 32768 (length d))), s))"
  using assms by (simp add: send_fields_def make_buffer_without_header_eq zoom_def send_payload_def after_send_def
      bump_client_def strict_def)

lemma of_channel_request: "of_channel p (request e) = of_channel p (request (\<lambda>_. e p))"
  by (simp add: of_channel_def request_def fun_eq_iff sbind_def sget_def channel_new_def)

text \<open>A call whose handler only sends.\<close>

lemma sends_fields:
  assumes "tx_faults (socket s) = []" "handle_event rk e s = answer ReplyUnit (send_fields (FU8 c # fs)) s"
  shows "sends rk s (ask_for unit_reply e) (c # concat (map field_bytes fs))"
    "sends rk s (of_channel p (request (\<lambda>_. e))) (c # concat (map field_bytes fs))"
  using call_ask_unit(2,3) [OF assms(2)] send_fields_bytes [OF assms(1), of c fs] by (simp_all add: sends_def)

text \<open>A call whose handler sends a channel request.\<close>

lemma wait_response:
  assumes "rx (socket s) = Ok p # rest" "payload p = encode_message m" "wf_message m"
    and "channel_response i m = Some r"
  shows "match_msg (channel_response i) s = (r, s\<lparr>socket := after_recv p (socket s)\<rparr>)"
  using recv_message_encoded [OF assms(1-3)] assms(4) by (subst match_msg_unfold) (simp add: sbind_def slift_def)

lemma requests_fields:
  assumes "tx_faults (socket s) = []"
    and "\<And>want. handle_event rk (e want p) s = answer ReplyUnit (channel_request p (str type) want fs) s"
  shows "requests rk s p (\<lambda>want. request (e want)) type (concat (map field_bytes fs))"
proof -
  let ?d = "\<lambda>want. rfc_request (pair_server p) type want (concat (map field_bytes fs))"
  let ?fs = "\<lambda>want. FU32 (pair_server p) # FOne (str type) # FU8 (u8_of_bool want) # fs"
  have d: "?d want = 98 # concat (map field_bytes (?fs want))" for want
    by (simp add: rfc_request_def u8_of_bool_def)
  have q: "of_channel p (request (e want)) = of_channel p (request (\<lambda>_. e want p))" for want
    by (rule of_channel_request)
  note send = send_fields_bytes [OF assms(1), of 98 "?fs want" for want, folded d]
  have run: "channel_request p (str type) want fs s =
      (if length (?d want) \<le> 32768
       then wait_for_channel_response want p (s\<lparr>socket := after_send (?d want) (socket s)\<rparr>)
       else (Err (TransportError (PayloadTooLong 32768 (length (?d want)))), s))" for want
    using send [of want] by (simp add: channel_request_def sbind_def)
  have "sends rk s (of_channel p (request (e False))) (?d False)"
    using call_ask_unit(3) [OF assms(2)] run [of False]
    by (simp add: q sends_def wait_for_channel_response_def sreturn_def)
  moreover have "answered rk s (of_channel p (request (e True))) (?d True) (pair_client p)"
    unfolding answered_def
  proof (intro allI impI)
    fix pk rest
    assume a: "length (?d True) \<le> 32768 \<and> rx (socket s) = Ok pk # rest"
    let ?s = "s\<lparr>socket := after_send (?d True) (socket s)\<rparr>"
    have r: "channel_request p (str type) True fs s = match_msg (channel_response p) ?s"
      using run [of True] a by (simp add: wait_for_channel_response_def)
    have "rx (socket ?s) = Ok pk # rest" using a by simp
    note w = wait_response [OF this, where i = p]
    have "payload pk = 99 # u32_to_be (pair_client p) \<Longrightarrow>
        match_msg (channel_response p) ?s = (Ok (), ?s\<lparr>socket := after_recv pk (socket ?s)\<rparr>)"
      by (rule w [of "ChannelSuccess (pair_client p)"]) (simp_all add: channel_response_def)
    moreover have "payload pk = 100 # u32_to_be (pair_client p) \<Longrightarrow> match_msg (channel_response p) ?s =
        (Err (SessionError ChannelFailure), ?s\<lparr>socket := after_recv pk (socket ?s)\<rparr>)"
      by (rule w [of "ChannelFailureMsg (pair_client p)"]) (simp_all add: channel_response_def)
    ultimately show "(payload pk = 99 # u32_to_be (pair_client p) \<longrightarrow>
        call rk (of_channel p (request (e True))) s =
          (Ok (), s\<lparr>socket := after_recv pk (after_send (?d True) (socket s))\<rparr>)) \<and>
      (payload pk = 100 # u32_to_be (pair_client p) \<longrightarrow>
        call rk (of_channel p (request (e True))) s =
          (Err (SessionError ChannelFailure), s\<lparr>socket := after_recv pk (after_send (?d True) (socket s))\<rparr>))"
      using call_ask_unit(3) [OF assms(2) [of True]] by (simp add: q r)
  qed
  ultimately show ?thesis by (simp add: requests_def)
qed

lemma pty_modes:
  "fold (\<lambda>(opcode, val) b. put_u32 val (put_u8 (tty_code opcode) b)) modes b =
     b @ concat (map (\<lambda>(opcode, val). tty_code opcode # u32_to_be val) modes)"
  by (induction modes arbitrary: b) (auto simp: put_u32_def put_u8_def put_bytes_def)

section \<open>Logging in with key files\<close>

lemma public_key_event_private:
  assumes "public_key_event lib contents public_file passphrase = Ok (type, cert, public, private)"
  shows "\<exists>k. parse_private_key_file lib contents passphrase = Ok k \<and> private = pk_private k \<and>
    type = pk_type k \<and> (\<not> cert \<longrightarrow> public = pk_public k)"
proof -
  from assms obtain k where k: "parse_private_key_file lib contents passphrase = Ok k"
    by (auto simp: public_key_event_def res_bind_Ok_iff)
  show ?thesis
  proof (cases public_file)
    case None
    with assms k show ?thesis by (auto simp: public_key_event_def)
  next
    case (Some f)
    with assms k obtain p where "parse_public_key_file lib f = Ok p"
      by (auto simp: public_key_event_def res_bind_Ok_iff)
    with Some assms k show ?thesis
      by (cases p) (auto simp: public_key_event_def Let_def split: if_splits)
  qed
qed

lemma answer_Ok_iff:
  "answer w m s = (Ok x, s') \<longleftrightarrow> (\<exists>r. m s = (r, s') \<and> r \<noteq> Panic \<and> x = w r)"
  by (auto simp: answer_def split: prod.splits res.splits)

lemma answer_Err: "answer w m s \<noteq> (Err e, s')"
  by (auto simp: answer_def split: prod.splits res.splits)

lemma asked_login:
  assumes "ask_for auth_reply_of e q = (Ok r, q')" "script q = map snd (serve rk (TurnEvent e # ts) s)"
    and "handle_event rk e = answer ReplyAuth m"
  shows "fst (m s) = Ok r"
proof -
  obtain x s' where h: "handle_event rk e s = (x, s')" by (cases "handle_event rk e s")
  show ?thesis
  proof (cases x)
    case (Ok a)
    then obtain z where z: "m s = (z, s')" "a = ReplyAuth z" using h assms(3) by (auto simp: answer_Ok_iff)
    with assms(1,2) h Ok show ?thesis by (auto simp: ask_for_def ask_answered sbind_def slift_def)
  qed (use assms h in \<open>auto simp: ask_for_def ask_answered sbind_def slift_def\<close>)
qed

section \<open>Dropped listeners\<close>

lemma cancelled_forward:
  assumes "tx_faults (socket s) = []" "length (host addr) \<le> 1024"
  shows "\<exists>s1. global_request_cancel_tcp_ip_forward False addr s = (Ok (), s1) \<and> get_tcp addr (forward s1) = None"
proof -
  have "length SSH_GLOBAL_REQUEST_TYPE_CANCEL_TCP_IP_FORWARD \<le> 100"
    by (simp add: SSH_GLOBAL_REQUEST_TYPE_CANCEL_TCP_IP_FORWARD_def)
  with assms(2) send_fields_Ok [OF assms(1), of SSH_MSG_GLOBAL_REQUEST "[FOne
      SSH_GLOBAL_REQUEST_TYPE_CANCEL_TCP_IP_FORWARD, FU8 (u8_of_bool False), FOne (host addr), FU32 (ucast (port addr))]"]
  show ?thesis
    by (simp add: global_request_cancel_tcp_ip_forward_def sbind_def smodify_def tcp_table.get_remove)
qed

lemma port_roundtrip: "u16_of_u32 (ucast (p :: u16)) = Some p"
proof -
  have "unat p < 2 ^ 16" using unsigned_less [of p] by simp
  moreover from this have "unat (ucast p :: u32) = unat p"
    by (simp add: unsigned_ucast_eq take_bit_nat_eq_self)
  moreover have "ucast (ucast p :: u32) = p" by (rule bit_word_eqI) (auto simp: bit_simps dest: bit_imp_le_length)
  ultimately show ?thesis by (simp add: u16_of_u32_def)
qed

lemma no_forward_refused:
  assumes "get_tcp addr (forward s) = None"
  shows "\<exists>reason. handle_channel_open_forwarded_tcp_ip sender_channel window packet (host addr)
    (ucast (port addr)) originator originator_port s = refuse_open sender_channel SSH_OPEN_CONNECT_FAILED reason s"
proof -
  have "\<exists>e. verify_tcp (host addr) (ucast (port addr)) originator_port s = Inl e"
    using assms by (cases addr) (simp add: verify_tcp_def port_roundtrip Let_def split: option.split)
  then show ?thesis by (auto simp: handle_channel_open_forwarded_tcp_ip_def sbind_def sget_def)
qed

section \<open>Streams\<close>

text \<open>What a stream shows of the messages of its channel.\<close>

definition visible :: "channel_message option list \<Rightarrow> stream_message list" where
  "visible ms = List.map_filter (\<lambda>m. Option.bind m stream_message_of) ms"

lemma visible_simps [simp]:
  "visible [] = []" "visible (None # ms) = visible ms"
  "visible (Some m # ms) = (case stream_message_of m of None \<Rightarrow> visible ms | Some r \<Rightarrow> r # visible ms)"
  by (simp_all add: visible_def map_filter_simps split: option.split)

lemma visible_arrival:
  "next_arrival ms = None \<Longrightarrow> visible ms = []"
  "next_arrival ms = Some (m, rest) \<Longrightarrow> visible ms = visible (Some m # rest) \<and> length rest < length ms"
  by (induction ms rule: next_arrival.induct) (auto split: option.split)

lemma receive_loop_run:
  "length (inbox c) < n \<Longrightarrow> visible (inbox c) = [] \<Longrightarrow> receive_loop n c = (Err shutdown, c\<lparr>inbox := []\<rparr>)"
  "length (inbox c) < n \<Longrightarrow> visible (inbox c) = r # rs \<Longrightarrow>
   \<exists>ms. receive_loop n c = (Ok r, c\<lparr>inbox := ms\<rparr>) \<and> visible ms = rs"
proof (induction n arbitrary: c)
  case (Suc n)
  {
    case 1
    show ?case
    proof (cases "next_arrival (inbox c)")
      case None
      then show ?thesis by (simp add: chan_receive_def sbind_def)
    next
      case (Some p)
      then obtain m ms where p: "next_arrival (inbox c) = Some (m, ms)" by (cases p) auto
      from visible_arrival(2) [OF p] 1 have "stream_message_of m = None" "visible ms = []" "length ms < n"
        by (auto split: option.splits)
      with Suc.IH(1) [of "c\<lparr>inbox := ms\<rparr>"] p show ?thesis by (simp add: chan_receive_def sbind_def)
    qed
  next
    case 2
    show ?case
    proof (cases "next_arrival (inbox c)")
      case None
      with visible_arrival(1) [OF None] 2 show ?thesis by simp
    next
      case (Some p)
      then obtain m ms where p: "next_arrival (inbox c) = Some (m, ms)" by (cases p) auto
      from visible_arrival(2) [OF p] 2 have v: "visible (Some m # ms) = r # rs" "length ms < n" by auto
      show ?thesis
      proof (cases "stream_message_of m")
        case None
        with Suc.IH(2) [of "c\<lparr>inbox := ms\<rparr>"] v p show ?thesis by (auto simp: chan_receive_def sbind_def)
      next
        case (Some x)
        with v p show ?thesis by (auto simp: chan_receive_def sbind_def sreturn_def)
      qed
    qed
  }
qed simp_all

lemma stream_receive_run:
  "visible (inbox c) = [] \<Longrightarrow> fst (stream_receive c) = Err shutdown"
  "visible (inbox c) = r # rs \<Longrightarrow> \<exists>ms. stream_receive c = (Ok r, c\<lparr>inbox := ms\<rparr>) \<and> visible ms = rs"
  using receive_loop_run [of c "Suc (length (inbox c))"] by (auto simp: stream_receive_def)

lemma stream_receive_all:
  "n \<le> length (visible (inbox c)) \<Longrightarrow>
   \<exists>ms. times n stream_receive c = (Ok (take n (visible (inbox c))), c\<lparr>inbox := ms\<rparr>) \<and>
     visible ms = drop n (visible (inbox c))"
proof (induction n arbitrary: c)
  case 0
  show ?case by (rule exI [of _ "inbox c"]) (simp add: sreturn_def)
next
  case (Suc n)
  then obtain r rs where v: "visible (inbox c) = r # rs" by (cases "visible (inbox c)") auto
  then obtain ms where 1: "stream_receive c = (Ok r, c\<lparr>inbox := ms\<rparr>)" "visible ms = rs"
    using stream_receive_run(2) by blast
  with Suc.IH [of "c\<lparr>inbox := ms\<rparr>"] Suc.prems v show ?case by (auto simp: sbind_def sreturn_def)
qed

end
