(* ===== verification/FrontendProperties.thy ===== *)
theory FrontendProperties
  imports FrontendFacts RekeyProperties KeyProperties
begin

text \<open>
  Properties across the two sides of a session: what the application's calls put on the wire, which
  session a handshake hands over, what a login with a key file proves, and what becomes of a
  forward whose listener is dropped.
\<close>

section \<open>Calls\<close>

definition demo_port :: "outcome list \<Rightarrow> port" where
  "demo_port outs = \<lparr>script = outs, asked = []\<rparr>"

text \<open>The calls whose handler only sends, and the channel requests.\<close>

lemma plain_calls:
  assumes "tx_faults (socket s) = []"
  shows "sends rk s (session_disconnect reason text) (1 # u32_to_be reason @ one text @ one [])"
    "sends rk s (session_send_ignore_message data) (2 # one data)"
    "sends rk s (session_send_debug_message display text) (4 # [if display then 1 else 0] @ one text @ one [])"
    "sends rk s (of_channel p (request_window_change columns rows width height))
      (rfc_request (pair_server p) ''window-change'' False
        (u32_to_be columns @ u32_to_be rows @ u32_to_be width @ u32_to_be height))"
proof -
  note call = sends_fields [OF assms]
  have e: "handle_event rk (DisconnectEvent reason text) s = answer ReplyUnit (send_fields [FU8 1, FU32 reason, FOne text, FOne []]) s"
    "handle_event rk (SendIgnoreMessage data) s = answer ReplyUnit (send_fields [FU8 2, FOne data]) s"
    "handle_event rk (SendDebugMessage display text) s =
      answer ReplyUnit (send_fields [FU8 4, FU8 (if display then 1 else 0), FOne text, FOne []]) s"
    "handle_event rk (ChannelRequestWindowChange p columns rows width height) s = answer ReplyUnit
      (send_fields [FU8 98, FU32 (pair_server p), FOne (str ''window-change''), FU8 0, FU32 columns, FU32 rows,
         FU32 width, FU32 height]) s"
    by (simp_all add: disconnect_def send_ignore_message_def send_debug_message_def channel_request_window_change_def
        u8_of_bool_def)
  show "sends rk s (session_disconnect reason text) (1 # u32_to_be reason @ one text @ one [])"
    "sends rk s (session_send_ignore_message data) (2 # one data)"
    "sends rk s (session_send_debug_message display text) (4 # [if display then 1 else 0] @ one text @ one [])"
    using call(1) [OF e(1)] call(1) [OF e(2)] call(1) [OF e(3)]
    by (simp_all add: session_disconnect_def session_send_ignore_message_def session_send_debug_message_def)
  show "sends rk s (of_channel p (request_window_change columns rows width height))
      (rfc_request (pair_server p) ''window-change'' False
        (u32_to_be columns @ u32_to_be rows @ u32_to_be width @ u32_to_be height))"
    using call(2) [OF e(4), of p] by (simp add: of_channel_request [of p "\<lambda>i. ChannelRequestWindowChange i columns rows width height"]
        request_window_change_def rfc_request_def)
qed

lemma request_calls:
  assumes "tx_faults (socket s) = []"
  shows "requests rk s p request_shell ''shell'' []"
    "requests rk s p (\<lambda>want. request_exec want command) ''exec'' (one command)"
    "requests rk s p (\<lambda>want. request_env want name val) ''env'' (one name @ one val)"
    "requests rk s p (\<lambda>want. request_signal want sig) ''signal'' (one sig)"
    "requests rk s p (\<lambda>want. request_break want ms) ''break'' (u32_to_be ms)"
    "requests rk s p request_agent ''agent-req'' []"
    "requests rk s p (\<lambda>want. request_x11 want single protocol cookie screen) ''x11-req''
      ([if single then 1 else 0] @ one protocol @ one cookie @ u32_to_be screen)"
    "requests rk s p (\<lambda>want. request_pty terminal want columns rows width height modes) ''pty-req''
      (one terminal @ u32_to_be columns @ u32_to_be rows @ u32_to_be width @ u32_to_be height @
       concat (map (\<lambda>(opcode, val). tty_code opcode # u32_to_be val) modes) @ [0])"
proof -
  note r = requests_fields [OF assms, where p = p]
  show "requests rk s p request_shell ''shell'' []"
    using r [where e = "\<lambda>want i. ChannelRequestShell i want" and type = "''shell''"
        and fs = "[]" and rk = rk]
    by (simp add: channel_request_shell_def request_shell_def [abs_def])
  show "requests rk s p (\<lambda>want. request_exec want command) ''exec'' (one command)"
    using r [where e = "\<lambda>want i. ChannelRequestExec i want command" and type = "''exec''"
        and fs = "[FOne command]" and rk = rk]
    by (simp add: channel_request_exec_def request_exec_def)
  show "requests rk s p (\<lambda>want. request_env want name val) ''env'' (one name @ one val)"
    using r [where e = "\<lambda>want i. ChannelRequestEnv i want name val" and type = "''env''"
        and fs = "[FOne name, FOne val]" and rk = rk]
    by (simp add: channel_request_env_def request_env_def)
  show "requests rk s p (\<lambda>want. request_signal want sig) ''signal'' (one sig)"
    using r [where e = "\<lambda>want i. ChannelRequestSignal i want sig" and type = "''signal''"
        and fs = "[FOne sig]" and rk = rk]
    by (simp add: channel_request_signal_def request_signal_def)
  show "requests rk s p (\<lambda>want. request_break want ms) ''break'' (u32_to_be ms)"
    using r [where e = "\<lambda>want i. ChannelRequestBreak i want ms" and type = "''break''"
        and fs = "[FU32 ms]" and rk = rk]
    by (simp add: channel_request_break_def request_break_def)
  show "requests rk s p request_agent ''agent-req'' []"
    using r [where e = "\<lambda>want i. ChannelRequestAgent i want" and type = "''agent-req''"
        and fs = "[]" and rk = rk]
    by (simp add: channel_request_agent_def request_agent_def [abs_def])
  show "requests rk s p (\<lambda>want. request_x11 want single protocol cookie screen) ''x11-req''
      ([if single then 1 else 0] @ one protocol @ one cookie @ u32_to_be screen)"
    using r [where e = "\<lambda>want i. ChannelRequestX11 i want single protocol cookie screen" and type = "''x11-req''"
        and fs = "[FU8 (u8_of_bool single), FOne protocol, FOne cookie, FU32 screen]" and rk = rk]
    by (simp add: channel_request_x11_def request_x11_def u8_of_bool_def)
  have pty: "handle_event rk (ChannelRequestPty p terminal want columns rows width height modes) s =
      answer ReplyUnit (channel_request p (str ''pty-req'') want [FOne terminal, FU32 columns, FU32 rows, FU32 width,
        FU32 height, FBytes (concat (map (\<lambda>(opcode, val). tty_code opcode # u32_to_be val) modes) @ [0])]) s" for want
    by (simp add: channel_request_pty_def Let_def pty_modes) (simp add: put_u8_def put_bytes_def)
  show "requests rk s p (\<lambda>want. request_pty terminal want columns rows width height modes) ''pty-req''
      (one terminal @ u32_to_be columns @ u32_to_be rows @ u32_to_be width @ u32_to_be height @
       concat (map (\<lambda>(opcode, val). tty_code opcode # u32_to_be val) modes) @ [0])"
    using r [where e = "\<lambda>want i. ChannelRequestPty i terminal want columns rows width height modes" and rk = rk,
        OF pty] by (simp add: request_pty_def)
qed

text \<open>C14: What an application asks for is what the server is told: each of these calls, through the
  queue, the task's handler and back, puts one packet on the wire, byte for byte the message of
  RFC 4253 or the channel request of RFC 4254 with the call's arguments, changes nothing else, and
  returns success, or without sending anything the error of a payload that is too long. With
  \<open>want_reply\<close> a channel request returns what the server's reply says. (The modes of \<open>pty-req\<close> go
  out without the length in front that RFC 4254 asks for.)\<close>

theorem calls_on_the_wire:
  assumes "tx_faults (socket s) = []"
  shows "sends rk s (session_disconnect reason text) (1 # u32_to_be reason @ one text @ one []) \<and>
    sends rk s (session_send_ignore_message data) (2 # one data) \<and>
    sends rk s (session_send_debug_message display text) (4 # [if display then 1 else 0] @ one text @ one []) \<and>
    requests rk s p request_shell ''shell'' [] \<and>
    requests rk s p (\<lambda>want. request_exec want command) ''exec'' (one command) \<and>
    requests rk s p (\<lambda>want. request_env want name val) ''env'' (one name @ one val) \<and>
    requests rk s p (\<lambda>want. request_signal want sig) ''signal'' (one sig) \<and>
    requests rk s p (\<lambda>want. request_break want ms) ''break'' (u32_to_be ms) \<and>
    requests rk s p request_agent ''agent-req'' [] \<and>
    requests rk s p (\<lambda>want. request_x11 want single protocol cookie screen) ''x11-req''
      ([if single then 1 else 0] @ one protocol @ one cookie @ u32_to_be screen) \<and>
    requests rk s p (\<lambda>want. request_pty terminal want columns rows width height modes) ''pty-req''
      (one terminal @ u32_to_be columns @ u32_to_be rows @ u32_to_be width @ u32_to_be height @
       concat (map (\<lambda>(opcode, val). tty_code opcode # u32_to_be val) modes) @ [0]) \<and>
    sends rk s (of_channel p (request_window_change columns rows width height))
      (rfc_request (pair_server p) ''window-change'' False
        (u32_to_be columns @ u32_to_be rows @ u32_to_be width @ u32_to_be height))"
  by (intro conjI plain_calls request_calls assms)

text \<open>A command whose server answers yes.\<close>

definition told_session :: session_inner where
  "told_session = (demo_session [])\<lparr>socket := demo_transport [Ok \<lparr>payload = 99 # u32_to_be 3, padding = []\<rparr>]\<rparr>"

theorem calls_on_the_wire_witness:
  "\<exists>s'. call (renegotiate toy_env) (of_channel (IdentityPair 3 7) (request_exec True (str ''ls''))) told_session =
     (Ok (), s') \<and>
     tx (socket s') = [[98, 0, 0, 0, 7, 0, 0, 0, 4, 101, 120, 101, 99, 1, 0, 0, 0, 2, 108, 115]]"
proof -
  have t: "tx_faults (socket told_session) = []" "tx (socket told_session) = []"
    "rx (socket told_session) = [Ok \<lparr>payload = 99 # u32_to_be 3, padding = []\<rparr>]"
    by (simp_all add: told_session_def demo_transport_def)
  from calls_on_the_wire [OF t(1), where rk = "renegotiate toy_env" and p = "IdentityPair 3 7" and command = "str ''ls''"] t(2,3) show ?thesis
    by (simp add: requests_def answered_def rfc_request_def one_def u32_to_be_def as_u32_def)
qed

section \<open>From the connection to the session\<close>

lemma unwrap_Ok_iff: "unwrap x = Ok a \<longleftrightarrow> x = Some a"
  by (cases x) (simp_all add: unwrap_def)

text \<open>What negotiation has settled when it succeeds.\<close>

lemma negotiate_methods_Ok:
  assumes "negotiate_methods rnd cookie h0 = (Ok (), h1)"
  shows "\<exists>sk sm m. hs_server_kex h1 = Some sk \<and> methods_parse sk = Ok sm \<and> negotiate (hs_conf h0) sm = Ok m \<and>
    hs_matched h1 = Some m"
  using assms by (auto simp: negotiate_methods_def Let_def sbind_Ok_iff on_plain_Ok_iff slift_def sr_defs)

lemma banner_conf: "keeps hs_conf banner_version_exchange"
proof -
  have sock: "keeps hs_conf (on_hs_socket m)" for m :: "(buffer_stream, 'x) sr"
    by (auto simp: keeps_def on_hs_socket_def split: option.splits prod.splits)
  show ?thesis unfolding banner_version_exchange_def by (intro keeps_rules sock) simp_all
qed

text \<open>C5: A session exists only after the identification exchange, the negotiation of methods from the
  configured ones and the server's \<open>KEXINIT\<close>, and the key exchange have all succeeded; then the
  application was asked about the very host key whose signature over the hash of this connection
  was verified with the negotiated algorithm, and accepted it. The session starts without channels
  on the stream keyed from that exchange, and in everything it does afterwards, key re-exchanges
  included, its id stays that hash and its channel accounts stay in range.\<close>

theorem session_starts_authentic:
  assumes "session_handshake rnd cookie tr sgs h = (Ok s, h')"
  shows "\<exists>h0 h1 sk sm m host_key signature hash keys c. banner_version_exchange h = (Ok (), h0) \<and>
    negotiate_methods rnd cookie h0 = (Ok (), h1) \<and> hs_server_kex h1 = Some sk \<and> methods_parse sk = Ok sm \<and>
    negotiate (hs_conf h) sm = Ok m \<and> hs_matched h1 = Some m \<and>
    vouched rnd h1 host_key signature hash keys \<and>
    calls (hs_notifier h') = calls (hs_notifier h1) @ [VerifyServerHostKey (verifier_name (m_host_key m)) host_key] \<and>
    runs_with c m keys \<and> socket s = tr c \<and> channels s = [] \<and>
    (\<forall>env ts. session_id (snd (session_exec env ts s)) = hash \<and> windows_ok (snd (session_exec env ts s)))"
proof -
  from assms obtain h0 h1 sid stream where
    parts: "banner_version_exchange h = (Ok (), h0)" "negotiate_methods rnd cookie h0 = (Ok (), h1)"
      "Handshake.key_exchange rnd h1 = (Ok (), h')"
    and s: "hs_session_id h' = Some sid" "hs_cipher h' = Some stream" "s = create tr sgs sid stream h'"
    by (auto simp: session_handshake_def sbind_Ok_iff slift_def sget_def sreturn_def unwrap_Ok_iff)
  from key_exchange_Ok [OF parts(3)] obtain host_key signature hash keys m c where
    k: "vouched rnd h1 host_key signature hash keys" "hs_matched h1 = Some m"
      "calls (hs_notifier h') = calls (hs_notifier h1) @ [VerifyServerHostKey (verifier_name (m_host_key m)) host_key]"
      "runs_with c m keys"
    and e: "hs_session_id h' = Some hash" "hs_cipher h' = Some c" by blast
  obtain sk sm where n: "hs_server_kex h1 = Some sk" "methods_parse sk = Ok sm" "negotiate (hs_conf h) sm = Ok m"
    using negotiate_methods_Ok [OF parts(2)] k(2) keepsD [OF banner_conf parts(1)] by auto
  have start: "channels s = []" "session_id s = hash" "socket s = tr c"
    using s e by (auto simp: create_def session_new_def)
  have "session_id (snd (session_exec env ts s)) = hash" for env :: "('u, 'v, 'w, 'x, 'y) rekey_env" and ts
    using identity_session [of env ts] start(2) unfolding keeps_def identity_def by simp
  moreover have "windows_ok (snd (session_exec env ts s))" for env :: "('u, 'v, 'w, 'x, 'y) rekey_env" and ts
  proof -
    have "windows_ok s" using start(1) by (simp add: windows_ok_def)
    with windows_exec [of "renegotiate env" ts] windows_renegotiate_run show ?thesis
      by (auto simp: session_exec_def preserves_def)
  qed
  ultimately show ?thesis using parts(1,2) k n start by blast
qed

text \<open>
  A connection of its own: the server's identification, its \<open>KEXINIT\<close>, its reply and its
  \<open>SSH_MSG_NEWKEYS\<close> are waiting.
\<close>

definition toy_start :: "bytes \<Rightarrow> (u8, u8, unit, unit, bytes) handshaker" where
  "toy_start d = handshaker_new (str ''SSH-2.0-client'') (buffered d)
       \<lparr>calls = [], answers = [\<lparr>accept = True, answer_window = None, answer_packet = None, kept = True\<rparr>]\<rparr> toy_config"

abbreviation toy_line :: bytes where "toy_line \<equiv> str ''SSH-2.0-server''"

definition toy_lists :: bytes where "toy_lists = tl (methods_build (\<lambda>_. 0) (from_config toy_config))"

abbreviation toy_init :: bytes where "toy_init \<equiv> 20 # toy_lists"

definition toy_kexinit :: bytes where
  "toy_kexinit = [0, 0, 0, 148, 8] @ toy_init @ replicate 8 0"

definition toy_hello :: bytes where "toy_hello = toy_line @ BANNER_ENDING @ toy_kexinit @ toy_reply @ toy_newkeys"

lemma toy_banner:
  "r_buf s = toy_line @ BANNER_ENDING @ d \<Longrightarrow>
   read_banner 0 [] s = (Ok (toy_line, [], str ''server'', None), s\<lparr>r_buf := d\<rparr>)"
    by (simp add: read_banner.simps read_line_crlf_def read_crlf_loop.simps
        utf8_valid_ascii trim_end_matches.simps parse_identification_def is_digit_def
        graphic_def printable_def line_end_def Let_def)

lemma toy_init_simps:
  "methods_build c (from_config toy_config) \<noteq> []" "length (methods_build c (from_config toy_config)) = 139"
  "length toy_lists = 138"
  by (simp_all add: toy_lists_def methods_build_eq from_config_def toy_config_def advertised_kex_def
      KEX_STRICT_CLIENT_def comma_def u32_to_be_def)

lemma toy_init_read: "methods_parse toy_init = Ok (as_read (from_config toy_config))"
proof -
  have "toy_init = methods_build (\<lambda>_. 0) (from_config toy_config)"
    by (simp add: toy_lists_def methods_build_eq)
  with methods_parse_build [OF toy_wf, of "\<lambda>_. 0" "[]"] show ?thesis by simp
qed

lemma toy_not_strict: "\<not> methods_strict (as_read (from_config toy_config))"
  by (simp add: as_read_def toy_config_def from_config_def advertised_kex_def reread_def
      KEX_STRICT_CLIENT_def KEX_STRICT_SERVER_def)

lemma toy_kexinit_read:
  "r_buf (psock p) = toy_kexinit @ d \<Longrightarrow>
    plain_recv_packet p = (Ok \<lparr>payload = toy_init, padding = replicate 8 0\<rparr>,
      bump_server False (p\<lparr>psock := (psock p)\<lparr>r_buf := d\<rparr>\<rparr>))"
  by (simp add: plain_recv_packet_def toy_kexinit_def run_defs bump_server_def MAX_PACKET_LENGTH_def toy_init_simps)

lemma toy_code: "packet_code \<lparr>payload = toy_init, padding = x\<rparr> = Ok 20"
  by (simp add: packet_code_def run_defs)

lemma toy_session:
  "\<exists>s h. session_handshake (\<lambda>_ _. 0) (\<lambda>_. 0) tr sgs (toy_start toy_hello) = (Ok s, h)"
  apply (simp add: session_handshake_def banner_version_exchange_def toy_start_def handshaker_new_def
      buffered_def on_hs_socket_def sbind_def sr_defs bs_put_bytes_def flush.simps write_buf_def Let_def
      toy_banner unwrap_def compat_parse_def toy_hello_def plain_new_def)
  apply (simp add: negotiate_methods_def on_plain_def do_compat_def sbind_def sr_defs wait_packet_def
      unread_def toy_kexinit_read toy_code toy_init_simps toy_init_read toy_not_strict hs_send_def
      plain_send_payload_def bs_write_def write_buf_def bs_put_bytes_def frame_eq endpoint_default_def
      Let_def strict_def padding_for_def bump_client_def random_bytes_def zoom_def flush.simps)
  apply (simp add: methods_build_eq toy_negotiate)
  by (simp add: key_exchange_def group_exchange_def on_matched_def on_plain_def generate_key_def
    x25519_generate_key_def fresh_key_def kex_request_code_def kex_response_code_def
    handshaker_new_def toy_matched_def toy_kex_def kex_new_def plain_new_def buffered_def
    endpoint_default_def run_defs strict_def padding_for_def bump_client_def random_bytes_def
     as_u8_def put_one_def put_u8_def put_u32_def put_bytes_def u32_to_be_def as_u32_def
     wait_packet_def unread_def toy_reply_def toy_newkeys_def parse_reply_def accept_reply_def exchange_info_def
     unwrap_def compute_secret_key_def x25519_compute_secret_key_def agreed_def compute_hash_def ecdh_compute_hash_def
     toy_verifier_def ask_host_key_def initialize_def compute_communicate_key_def toy_cipher_def toy_mac_def
     information.make_def compute_keys_def expand_numeral install_keys_def bump_server_def into_integer_def)

theorem session_starts_authentic_witness:
  "\<exists>s h' h1 signature keys. session_handshake (\<lambda>_ _. 0) (\<lambda>_. 0) (\<lambda>_. demo_transport []) [] (toy_start toy_hello) = (Ok s, h') \<and>
     vouched (\<lambda>_ _. 0) (h1 :: (u8, u8, unit, unit, bytes) handshaker) [9] signature [1, 2, 3, 4] keys \<and>
     session_id (snd (session_exec toy_env [TurnEvent Renegotiate] s)) = [1, 2, 3, 4]"
proof -
  obtain s h' where s: "session_handshake (\<lambda>_ _. 0) (\<lambda>_. 0) (\<lambda>_. demo_transport []) [] (toy_start toy_hello) = (Ok s, h')"
    using toy_session by blast
  from session_starts_authentic [OF this] obtain h0 h1 sk sm m host_key signature hash keys where
    "methods_parse sk = Ok sm" "negotiate (hs_conf (toy_start toy_hello)) sm = Ok m" "hs_matched h1 = Some m"
    and v: "vouched (\<lambda>_ _. 0) h1 host_key signature hash keys"
    and e: "\<forall>ts. session_id (snd (session_exec toy_env ts s)) = hash" by blast
  from v \<open>hs_matched h1 = Some m\<close> have "verifier_verify (m_host_key m) host_key signature hash = Ok True"
    unfolding vouched_def signed_exchange_def by (auto simp: choices_def)
  moreover have "m_host_key m = toy_verifier"
    using \<open>negotiate (hs_conf (toy_start toy_hello)) sm = Ok m\<close>
    by (auto simp: negotiate_def toy_start_def handshaker_new_def toy_config_def res_bind_Ok_iff split: option.splits if_splits)
  ultimately have "host_key = [9]" "hash = [1, 2, 3, 4]" by (simp_all add: toy_verifier_def)
  with s v e show ?thesis by blast
qed

section \<open>Logging in with key files\<close>








section \<open>Dropped listeners\<close>

text \<open>C24: A listener that is dropped while the queue has room asks for its forward to be cancelled; once
  the session has served that request, no connection to the address is accepted any more, and
  each attempt is answered with a refusal.\<close>

theorem dropped_listener_refused:
  assumes "\<not> li_cancelled l" "li_addr l = TcpAddr addr" "script (li_port l) = out # outs" "out \<noteq> Full"
    and "tx_faults (socket s) = []" "length (host addr) \<le> 1024"
  shows "\<exists>l' s'. listener_drop l = (Ok (), l') \<and>
    asked (li_port l') = asked (li_port l) @ [(GlobalRequestCancelTcpIpForward False addr, out)] \<and>
    handle_event rk (GlobalRequestCancelTcpIpForward False addr) s = (Ok (ReplyUnit (Ok ())), s') \<and>
    (\<forall>h i w p a n. \<exists>reason. handle_msg h (ChannelOpenForwardedTcpIp i w p (host addr) (ucast (port addr)) a n) s' =
       refuse_open i SSH_OPEN_CONNECT_FAILED reason s')"
proof -
  obtain l' where l': "listener_drop l = (Ok (), l')"
    "asked (li_port l') = asked (li_port l) @ [(GlobalRequestCancelTcpIpForward False addr, out)]"
    using assms(1-4)
    by (cases out) (simp_all add: listener_drop_def try_put_def zoom_def sbind_def sr_defs)
  obtain s' where s': "global_request_cancel_tcp_ip_forward False addr s = (Ok (), s')" "get_tcp addr (forward s') = None"
    using cancelled_forward [OF assms(5,6)] by blast
  have "handle_event rk (GlobalRequestCancelTcpIpForward False addr) s = (Ok (ReplyUnit (Ok ())), s')"
    by (simp add: answer_def s'(1))
  moreover have "\<exists>reason. handle_msg h (ChannelOpenForwardedTcpIp i w p (host addr) (ucast (port addr)) a n) s' =
       refuse_open i SSH_OPEN_CONNECT_FAILED reason s'" for h i w p a n
    using no_forward_refused [OF s'(2)] by simp
  ultimately show ?thesis using l' by blast
qed

theorem dropped_listener_refused_witness:
  "\<exists>l' s'. listener_drop (listener_make [] (demo_port [Answered (ReplyUnit (Ok ()))]) (TcpAddr \<lparr>host = LOCALHOST, port = 80\<rparr>) ::
      socket_addr listener) = (Ok (), l') \<and>
    (\<exists>reason. handle_msg None (ChannelOpenForwardedTcpIp 9 100 100 LOCALHOST 80 [] 1) s' =
       refuse_open 9 SSH_OPEN_CONNECT_FAILED reason s')"
proof -
  let ?a = "\<lparr>host = LOCALHOST, port = 80\<rparr>"
  let ?l = "listener_make [] (demo_port [Answered (ReplyUnit (Ok ()))]) (TcpAddr ?a) :: socket_addr listener"
  have "script (li_port ?l) = [Answered (ReplyUnit (Ok ()))]" "\<not> li_cancelled ?l" "li_addr ?l = TcpAddr ?a"
    by (simp_all add: listener_make_def demo_port_def)
  from dropped_listener_refused [OF this(2,3,1) _ demo_parts(2), of "renegotiate toy_env" "[]"]
  show ?thesis by (fastforce simp: LOCALHOST_def)
qed

section \<open>Streams\<close>

text \<open>A stream hands over the bytes, the EOF and the close of its channel in the order in which they
  arrived, skips everything else, and reports the end of the session after the last of them.\<close>

theorem stream_reads_in_order:
  "\<exists>ms. times (length (visible (inbox c))) stream_receive c = (Ok (visible (inbox c)), c\<lparr>inbox := ms\<rparr>) \<and>
     fst (stream_receive (c\<lparr>inbox := ms\<rparr>)) = Err shutdown"
proof -
  obtain ms where "times (length (visible (inbox c))) stream_receive c = (Ok (visible (inbox c)), c\<lparr>inbox := ms\<rparr>)"
    "visible ms = []"
    using stream_receive_all [OF order_refl] by fastforce
  with stream_receive_run(1) [of "c\<lparr>inbox := ms\<rparr>"] show ?thesis by auto
qed

end
