(* ===== verification/Umac.thy ===== *)
theory Umac
  imports Suites
begin

text \<open>
  The UMACs of \<open>src/cipher/mac.rs\<close>, which the cargo feature \<open>umac\<close> adds in front of the HMACs, and
  when two ends of an encrypted stream with UMACs are linked. The algorithm is the crate \<open>umac\<close>.
\<close>

section \<open>The MAC object\<close>

text \<open>\<open>T::new\<close>, \<open>update\<close> and \<open>finalize\<close> of the crate, for one of its two algorithms.\<close>

record 'u umac_library =
  umac_make :: "bytes \<Rightarrow> 'u"
  umac_feed :: "bytes \<Rightarrow> 'u \<Rightarrow> 'u"
  umac_tag :: "bytes \<Rightarrow> 'u \<Rightarrow> bytes \<times> 'u"

record 'u umac =
  um_name :: bytes
  um_etm :: bool
  um_key_len :: nat
  um_tag_len :: nat
  um_algorithm :: "'u option"
  um_seq :: "u32 option"

definition umac_new :: "string \<Rightarrow> nat \<Rightarrow> nat \<Rightarrow> bool \<Rightarrow> 'u umac" where
  "umac_new name key tag etm =
     \<lparr>um_name = str name, um_etm = etm, um_key_len = key, um_tag_len = tag, um_algorithm = None,
      um_seq = None\<rparr>"

definition umac_registry :: "(bytes \<times> 'u umac) list" where
  "umac_registry = map (\<lambda>(name, key, tag, etm). (str name, umac_new name key tag etm))
     [(''umac-128-etm@openssh.com'', 16, 16, True),
      (''umac-128@openssh.com'', 16, 16, False),
      (''umac-64@openssh.com'', 16, 8, False),
      (''umac-64-etm@openssh.com'', 16, 8, True)]"

definition umac_initialize :: "'u umac_library \<Rightarrow> bytes \<Rightarrow> ('u umac, unit) sr" where
  "umac_initialize lib key = sbind (sget um_key_len) (\<lambda>n.
     if length key \<noteq> n then spanic
     else smodify (\<lambda>c. c\<lparr>um_algorithm := Some (umac_make lib key)\<rparr>))"

text \<open>The first four bytes of a packet's data are its sequence number; fewer are out of range.\<close>

definition umac_update :: "'u umac_library \<Rightarrow> bytes \<Rightarrow> ('u umac, unit) sr" where
  "umac_update lib data c =
     (case um_algorithm c of
        None \<Rightarrow> (Err (InvalidOperation ''Uninitialized''), c)
      | Some a \<Rightarrow>
          if um_seq c = None then
            if length data < 4 then (Panic, c)
            else (Ok (), c\<lparr>um_seq := Some (from_be (take 4 data)),
              um_algorithm := Some (if length data > 4 then umac_feed lib (drop 4 data) a else a)\<rparr>)
          else (Ok (), c\<lparr>um_algorithm := Some (umac_feed lib data a)\<rparr>))"

definition umac_finalize :: "'u umac_library \<Rightarrow> ('u umac, bytes) sr" where
  "umac_finalize lib c =
     (case (um_algorithm c, um_seq c) of
        (Some a, Some n) \<Rightarrow>
          (case umac_tag lib (replicate 4 0 @ u32_to_be n) a of
             (tag, a') \<Rightarrow> (Ok tag, c\<lparr>um_algorithm := Some a', um_seq := None\<rparr>))
      | _ \<Rightarrow> (Err (InvalidOperation ''Uninitialized''), c))"

section \<open>Linked ends\<close>

text \<open>
  What the crate documents: the state of the algorithm shows as the key and the message so far,
  the tag is a function of key, nonce and message, and taking it starts the next message.
\<close>

definition umac_laws ::
    "'u umac_library \<Rightarrow> ('u \<Rightarrow> bytes \<times> bytes) \<Rightarrow> (bytes \<Rightarrow> bytes \<Rightarrow> bytes \<Rightarrow> bytes) \<Rightarrow> bool" where
  "umac_laws lib view mac \<longleftrightarrow>
     (\<forall>key. view (umac_make lib key) = (key, [])) \<and>
     (\<forall>a d. view (umac_feed lib d a) = (fst (view a), snd (view a) @ d)) \<and>
     (\<forall>a nonce. fst (umac_tag lib nonce a) = mac (fst (view a)) nonce (snd (view a)) \<and>
        view (snd (umac_tag lib nonce a)) = (fst (view a), []))"

definition umac_ready :: "('u \<Rightarrow> bytes \<times> bytes) \<Rightarrow> bytes \<Rightarrow> 'u umac \<Rightarrow> bool" where
  "umac_ready view key c \<longleftrightarrow> um_seq c = None \<and> map_option view (um_algorithm c) = Some (key, [])"

lemma umac_initialized:
  assumes "umac_laws lib view mac" "(name, c) \<in> set umac_registry" "length key = 16"
  shows "\<exists>c'. umac_initialize lib key c = (Ok (), c') \<and> umac_ready view key c' \<and> um_etm c' = um_etm c \<and>
    um_tag_len c' = um_tag_len c"
  using assms
  by (auto simp: umac_registry_def umac_new_def umac_initialize_def umac_ready_def umac_laws_def sbind_def sr_defs)

lemma umac_parts_run:
  assumes "umac_laws lib view mac" "um_algorithm c = Some a" "um_seq c = Some n" "view a = (key, msg)"
  shows "\<exists>a'. for_each (umac_update lib) parts c = (Ok (), c\<lparr>um_algorithm := Some a'\<rparr>) \<and>
    view a' = (key, msg @ concat parts)"
  using assms(2-)
proof (induction parts arbitrary: c a msg)
  case (Cons d parts)
  let ?c = "c\<lparr>um_algorithm := Some (umac_feed lib d a)\<rparr>"
  have v: "view (umac_feed lib d a) = (key, msg @ d)" using assms(1) Cons.prems(3) by (simp add: umac_laws_def)
  have "umac_update lib d c = (Ok (), ?c)" using Cons.prems by (simp add: umac_update_def)
  with Cons.IH [of ?c, OF _ _ v] Cons.prems(2) show ?case by (simp add: sbind_def)
qed (auto simp: sr_defs intro!: exI)

text \<open>
  One packet: the tag is that of the packet's bytes under its sequence number as the nonce, however
  the bytes are cut into pieces, and the object is ready for the next packet.
\<close>

lemma umac_packet_run:
  assumes l: "umac_laws lib view mac" and c: "umac_ready view key c"
  shows "\<exists>c1 c2. for_each (umac_update lib) (u32_to_be seq # parts) c = (Ok (), c1) \<and>
    umac_finalize lib c1 = (Ok (mac key (replicate 4 0 @ u32_to_be seq) (concat parts)), c2) \<and>
    umac_ready view key c2 \<and> um_etm c2 = um_etm c \<and> um_tag_len c2 = um_tag_len c"
proof -
  from c obtain a where a: "um_algorithm c = Some a" "um_seq c = None" "view a = (key, [])"
    by (auto simp: umac_ready_def)
  let ?c = "c\<lparr>um_seq := Some seq\<rparr>"
  have u: "umac_update lib (u32_to_be seq) c = (Ok (), ?c)"
    using a by (simp add: umac_update_def)
  have "um_algorithm ?c = Some a" "um_seq ?c = Some seq" using a by simp_all
  from umac_parts_run [OF l this a(3)] obtain a1 where
    a1: "for_each (umac_update lib) parts ?c = (Ok (), ?c\<lparr>um_algorithm := Some a1\<rparr>)" "view a1 = (key, concat parts)"
    by auto
  obtain tag a2 where t: "umac_tag lib (replicate 4 0 @ u32_to_be seq) a1 = (tag, a2)"
    by (cases "umac_tag lib (replicate 4 0 @ u32_to_be seq) a1")
  with l a1(2) have "tag = mac key (replicate 4 0 @ u32_to_be seq) (concat parts)" "view a2 = (key, [])"
    unfolding umac_laws_def by (metis fst_conv snd_conv)+
  with u a1(1) t show ?thesis
    by (simp add: sbind_def umac_finalize_def umac_ready_def)
qed

definition umac_pair :: "('u \<Rightarrow> bytes \<times> bytes) \<Rightarrow> 'u umac \<Rightarrow> 'u umac \<Rightarrow> bool" where
  "umac_pair view a b \<longleftrightarrow> (\<exists>key. umac_ready view key a \<and> umac_ready view key b) \<and>
     um_etm a \<and> um_etm b \<and> um_tag_len a = um_tag_len b \<and> um_tag_len b \<le> 64"

text \<open>Any packet stream with a UMAC as its MAC is linked, whatever its ciphers are.\<close>

lemma umac_link:
  assumes l: "umac_laws lib view mac" and len: "\<And>key nonce m. length (mac key nonce m) = n"
    and k: "m_etm k = um_etm" "m_len k = um_tag_len" "m_update k = umac_update lib" "m_finalize k = umac_finalize lib"
  shows "mac_link k (\<lambda>a b. umac_pair view a b \<and> um_tag_len b = n)"
  unfolding mac_link_def k
proof (intro allI impI conjI)
  fix a b seq parts
  assume q: "umac_pair view a b \<and> um_tag_len b = n"
  then obtain key where r: "umac_ready view key a" "umac_ready view key b" by (auto simp: umac_pair_def)
  from umac_packet_run [OF l r(1), of seq parts] umac_packet_run [OF l r(2), of seq parts] q
  show "\<exists>m1 m2 v1 v2 tag. for_each (umac_update lib) (u32_to_be seq # parts) a = (Ok (), m1) \<and>
      umac_finalize lib m1 = (Ok tag, m2) \<and>
      for_each (umac_update lib) (u32_to_be seq # parts) b = (Ok (), v1) \<and>
      umac_finalize lib v1 = (Ok tag, v2) \<and> length tag = um_tag_len b \<and>
      umac_pair view m2 v2 \<and> um_tag_len v2 = n"
    unfolding umac_pair_def by (fastforce simp: len)
qed (simp_all add: umac_pair_def)

end
