(* ===== verification/Spec2Isabelle.thy ===== *)
theory Spec2Isabelle
  imports TransportProperties RekeyProperties ClientProperties SuiteProperties SignatureProperties
    KeyProperties FrontendProperties Umac
begin

text \<open>
  A model of \<^bold>\<open>flatline\<close>, an SSH client library in Rust, and the properties that make it
  correct. File names are relative to \<open>src/\<close> of the crate.

  \<^bold>\<open>The program.\<close> The client connects a byte stream to a server. \<open>stream.rs\<close> buffers the socket;
  \<open>ssh/stream.rs\<close> frames packets on it, plainly first and encrypted after the handshake;
  \<open>ssh/buffer.rs\<close> and \<open>ssh/msg.rs\<close> write and parse the messages. \<open>session/handshake.rs\<close> exchanges
  identifications, negotiates algorithms, runs the key exchange of \<open>cipher/kex.rs\<close> and switches the
  stream to the new keys. \<open>session/backend.rs\<close> then runs the session: one task reads packets and
  the application's events in turn, and keeps the tables of channels and listeners, the windows,
  and the authentication state.

  \<^bold>\<open>How it is modelled.\<close> Prelude has results (a value, an error of the program's own error type, or
  a panic) and the monad of operations that take a state and return a result with the state
  after it; an error keeps the changes made before it, as in the program. Integers have
  their machine width, lengths are naturals. The code of other crates is a parameter:
  ciphers, MACs, compressors, the arithmetic of key exchange and the signature verifiers are
  records of functions, and a property states what it needs of them as a hypothesis. The socket
  is a script of chunks to read and of the sizes that writes accept, the application's answers are
  a script, and packets and events come in a list of turns, so every interleaving is some list.
\<close>

text \<open>
  \<^bold>\<open>Theories and code.\<close>
  \<^item> Prelude: \<open>error.rs\<close>, results and the state monad, big-endian bytes.
  \<^item> Buffer: \<open>ssh/buffer.rs\<close>, the mpint encoding of \<open>ssh/mod.rs\<close>; its locales \<open>codec\<close> and
    \<open>exact_codec\<close> are the contract between the writer and the reader of a field. Text: the string functions of the
    standard library that the code calls. Protocol: the constants of \<open>ssh/protocol.rs\<close>.
  \<^item> Messages: \<open>ssh/msg.rs\<close>, with a reference encoder. Streams: \<open>stream.rs\<close> and the plain packet
    stream. CipherStreams: the encrypted stream, its three framings and its resumable reader.
  \<^item> TtyModes: the terminal modes of \<open>session/channel.rs\<close>.
  \<^item> KeyExchange: \<open>cipher/kex.rs\<close>. Negotiation: \<open>CompatOptions\<close>, \<open>Config\<close>, \<open>Methods\<close> and
    \<open>MatchedMethods\<close> of \<open>session/handshake.rs\<close>. Handshake: its \<open>Handshaker\<close>. Rekey: its
    \<open>RekeyExchange\<close>. HandshakeFacts and RekeyFacts: their lemmas. Authenticity: a reference for the
    exchange hash and the agreed secret, and what a signed reply is; the properties of the first
    exchange (\<open>vouched\<close>) and of later ones (\<open>renewed\<close>) are stated with it, and nothing in them is left
    open: the run up to the reply fixes the host key, the signature, the hash and the keys.
  \<^item> SessionState: the records of \<open>session/backend.rs\<close>. Handlers: the handlers of server
    messages. Requests: \<open>handle_msg\<close>, the waiting for replies, channel and global requests.
    Authentication: the four methods. SessionLoop: \<open>handle_event\<close> and \<open>exec\<close>. SessionFacts and
    SessionBehaviour: their invariants and lemmas.
  \<^item> Channels: \<open>Channel\<close> and \<open>BufferChannel\<close> of \<open>session/channel.rs\<close>, the application's side of a
    channel. ChannelFacts: its operations over the streams of bytes that went out and came in.
  \<^item> SftpTypes: \<open>session/sftp/types.rs\<close>. Sftp: the client of \<open>session/sftp/mod.rs\<close>. SftpFacts:
    round trips of its data and what a call does. Scp: \<open>session/scp.rs\<close>.
  \<^item> Ciphers: the wrappers of \<open>cipher/crypt.rs\<close>. Suites: the trait objects and registries of
    ciphers, of \<open>cipher/mac.rs\<close> and of \<open>cipher/compress.rs\<close>, put together as the operations of the
    packet stream. AeadStreams, CipherFacts, SuiteFacts: when two ends with these ciphers are
    linked, and what a packet looks like on the wire. Umac: the UMACs of an optional feature, and
    that streams with them are linked.
  \<^item> Signatures: \<open>cipher/signature.rs\<close>. SignatureFacts: which blobs hold a pair of keys, the contract
    of a signature scheme, and what an accepted signature says.
  \<^item> Keys: \<open>key.rs\<close>, and the checks \<open>session/mod.rs\<close> makes on the key files of a login. KeyFacts: the
    fields of an accepted key, and that no file makes the parsers panic. KeyFiles: a reference
    writer of key files and what the parser makes of its files.
  \<^item> Frontend: \<open>Session\<close> of \<open>session/mod.rs\<close> and the listeners and streams of \<open>session/forward.rs\<close>.
    FrontendFacts: what no turn of a session changes, and what a call of the application, through
    the queue, the handler and back, puts on the wire.
  \<^item> TransportProperties, HandshakeProperties, SessionProperties, RekeyProperties, ClientProperties,
    SuiteProperties, SignatureProperties, KeyProperties, FrontendProperties: the properties, each with
    a run in which its hypotheses hold.
\<close>

text \<open>
  \<^bold>\<open>Loops and fuel.\<close> The waiting loops (\<open>wait_packet\<close>, \<open>match_msg\<close>, \<open>await_packet\<close>, the keyboard
  interactive dialogue) each take one packet off a finite script per round, so a round more than
  there are packets is enough; \<open>wait_packet_recursion\<close> and \<open>match_msg_unfold\<close> are the loop equations
  without fuel, and \<open>wait_ends\<close> states that a wait of the session returns. \<open>tcp_forward\<close> is the same. The loops of a buffered channel take a message or an
  answer per round and have a round more than the inbox and the script of the session are long;
  SFTP lists take bytes in every round and have a round more than there are bytes; reading from a
  stream takes a message of the inbox per round. \<open>flush\<close> and
  \<open>fill\<close> recurse over the script of the socket. \<open>send_chunks\<close> may not end (\<open>zero_packet_size_traps\<close>), so it has fuel, and
  \<open>channel_send_chunks\<close> states when one round per byte suffices. The loops over zlib end only if zlib
  makes progress (\<open>zlib_end_hangs\<close>); they are partial functions whose value \<open>None\<close> is not returning.
\<close>

text \<open>
  \<^bold>\<open>Not modelled.\<close> The \<open>Debug\<close> and \<open>Display\<close> texts except those that reach the peer or a caller;
  log lines; the values of foreign errors (of the operating system, OpenSSL, zlib); asynchronous scheduling below the turns of the session
  task (a cancelled future is modelled only for the resumable packet reader); memory use. The code
  of other crates is a parameter. \<open>lib.rs\<close> is documentation and re-exports, \<open>session/agent.rs\<close> is
  empty.
\<close>

end
